(* ===== verification/Prelude.thy ===== *)
theory Prelude
  imports Complex_Main "HOL-Library.Word"
begin

text \<open>
  Shared vocabulary of the development: the lemma collections the component
  theories add to, Go's result convention \<open>(value, error)\<close> as a sum with the error
  on the left, Go's truncating integer division, and list facts used by more than
  one component.
\<close>

named_theorems f64_eval \<open>evaluation of float64 operations on concrete operands\<close>
named_theorems wf_intro \<open>well-formedness of values the operations build\<close>

type_synonym byte = "8 word"

subsection \<open>Fallible computations\<close>

text \<open>A Go function that returns \<open>(T, error)\<close> returns \<open>Inr\<close> a value or \<open>Inl\<close> the
  error; \<open>res_bind\<close> is the early return on \<open>err != nil\<close>.\<close>

definition res_bind :: "'e + 'a \<Rightarrow> ('a \<Rightarrow> 'e + 'b) \<Rightarrow> 'e + 'b" where
  "res_bind r f = (case r of Inl e \<Rightarrow> Inl e | Inr x \<Rightarrow> f x)"

lemma res_bind_simps [simp]:
  "res_bind (Inl e) f = Inl e"
  "res_bind (Inr x) f = f x"
  by (simp_all add: res_bind_def)

lemma res_bind_Inr_iff:
  "res_bind r f = Inr y \<longleftrightarrow> (\<exists>x. r = Inr x \<and> f x = Inr y)"
  by (cases r) auto

subsection \<open>Integers\<close>

text \<open>Go's \<open>/\<close> and \<open>%\<close> truncate towards zero.\<close>

definition go_div :: "int \<Rightarrow> int \<Rightarrow> int" where
  "go_div a b = sgn a * sgn b * (\<bar>a\<bar> div \<bar>b\<bar>)"

definition go_mod :: "int \<Rightarrow> int \<Rightarrow> int" where
  "go_mod a b = a - b * go_div a b"

subsection \<open>Lists\<close>

text \<open>Reading a slice at an index that may be out of range.\<close>

definition slice_at :: "'a list \<Rightarrow> int \<Rightarrow> 'a option" where
  "slice_at xs i = (if 0 \<le> i \<and> i < int (length xs) then Some (xs ! nat i) else None)"

lemma slice_at_Some_iff:
  "slice_at xs i = Some x \<longleftrightarrow> 0 \<le> i \<and> i < int (length xs) \<and> x = xs ! nat i"
  by (auto simp: slice_at_def)

lemma slice_at_None_iff:
  "slice_at xs i = None \<longleftrightarrow> i < 0 \<or> int (length xs) \<le> i"
  by (auto simp: slice_at_def)

lemma nth_map_upt_Suc [simp]:
  "i < n \<Longrightarrow> map f [0..<n] ! i = f i"
  by simp

lemma find_upto_Some_iff:
  "List.find P [lo..hi] = Some e \<longleftrightarrow>
     lo \<le> e \<and> e \<le> hi \<and> P e \<and> (\<forall>k. lo \<le> k \<longrightarrow> k < e \<longrightarrow> \<not> P k)"
proof
  assume "List.find P [lo..hi] = Some e"
  then obtain i where i: "i < length [lo..hi]" and p: "P ([lo..hi] ! i)"
    and e: "e = [lo..hi] ! i" and least: "\<forall>j < i. \<not> P ([lo..hi] ! j)"
    unfolding find_Some_iff by blast
  have nth: "[lo..hi] ! j = lo + int j" if "j \<le> i" for j
    using that i by (simp add: nth_upto)
  have "\<not> P k" if "lo \<le> k" "k < e" for k
  proof -
    from that nth [of i] e have "nat (k - lo) < i" by simp
    moreover have "[lo..hi] ! nat (k - lo) = k"
      using nth [of "nat (k - lo)"] calculation that by simp
    ultimately show ?thesis using least by metis
  qed
  with i p e nth [of i] show "lo \<le> e \<and> e \<le> hi \<and> P e \<and> (\<forall>k. lo \<le> k \<longrightarrow> k < e \<longrightarrow> \<not> P k)"
    by auto
next
  assume r: "lo \<le> e \<and> e \<le> hi \<and> P e \<and> (\<forall>k. lo \<le> k \<longrightarrow> k < e \<longrightarrow> \<not> P k)"
  show "List.find P [lo..hi] = Some e"
    unfolding find_Some_iff
  proof (intro exI conjI allI impI)
    show "nat (e - lo) < length [lo..hi]" using r by simp
    then show "P ([lo..hi] ! nat (e - lo))" "e = [lo..hi] ! nat (e - lo)"
      using r by (simp_all add: nth_upto)
    fix j assume "j < nat (e - lo)"
    then have "lo + int j < e" by simp
    moreover from this have "[lo..hi] ! j = lo + int j" using r by (simp add: nth_upto)
    ultimately show "\<not> P ([lo..hi] ! j)" using r by simp
  qed
qed

lemma find_upto_None_iff:
  "List.find P [lo..hi] = None \<longleftrightarrow> (\<forall>k. lo \<le> k \<longrightarrow> k \<le> hi \<longrightarrow> \<not> P k)"
  by (auto simp: find_None_iff)

lemma count_list_update:
  "i < length xs \<Longrightarrow> xs ! i = a \<Longrightarrow> b \<noteq> a \<Longrightarrow> Suc (count_list (xs[i := b]) a) = count_list xs a"
  by (induction xs arbitrary: i) (auto split: nat.splits)

lemma set_concat_map_iff:
  "x \<in> set (concat (map f xs)) \<longleftrightarrow> (\<exists>y \<in> set xs. x \<in> set (f y))"
  by simp

lemma sum_list_ge_member:
  fixes f :: "'a \<Rightarrow> int"
  assumes "x \<in> set xs" and "\<And>y. y \<in> set xs \<Longrightarrow> 0 \<le> f y"
  shows "f x \<le> sum_list (map f xs)"
  using assms
proof (induction xs)
  case Nil
  then show ?case by simp
next
  case (Cons a xs)
  have nonneg: "0 \<le> sum_list (map f xs)"
    using Cons.prems by (intro sum_list_nonneg) auto
  show ?case
  proof (cases "x = a")
    case True
    with nonneg show ?thesis by simp
  next
    case False
    with Cons have "f x \<le> sum_list (map f xs)" by simp
    moreover have "0 \<le> f a" using Cons.prems by simp
    ultimately show ?thesis by simp
  qed
qed

end
