(* ===== verification/Float64.thy ===== *)
theory Float64
  imports Prelude
begin

text \<open>
  Go's \<open>float64\<close>: IEEE 754 binary64 with round-to-nearest-even. A value is NaN (the
  payload is not kept), an infinity or a zero with its sign, or a finite non-zero
  number held as the real it denotes. Every arithmetic operation computes the exact
  real result and rounds it with \<open>round64\<close>, so overflow, underflow and rounding are
  those of the hardware. \<open>f64_ok\<close> says that a finite value is one the format has.

  Functions of Go's package math whose results are not fixed bit for bit by IEEE 754
  (logarithm, cosine, power) are arguments of the definitions that call them.
\<close>

datatype f64 = NaN | Inf bool | Zero bool | Num real

subsection \<open>Rounding\<close>

text \<open>The exponent of the unit in the last place: the least \<open>e \<ge> -1074\<close> for which
  53 significant bits reach \<open>x\<close>; none when \<open>x\<close> is beyond the largest binade.\<close>

definition quantum :: "real \<Rightarrow> int option" where
  "quantum x = List.find (\<lambda>e. \<bar>x\<bar> < 2 powi (e + 53)) [-1074..971]"

text \<open>Round a real to the nearest integer, ties to even.\<close>

definition rne :: "real \<Rightarrow> int" where
  "rne y = (let f = \<lfloor>y\<rfloor>; d = y - of_int f in
     if d < 1 / 2 then f else if 1 / 2 < d then f + 1 else if even f then f else f + 1)"

definition round64 :: "real \<Rightarrow> f64" where
  "round64 x = (case quantum x of
     None \<Rightarrow> Inf (x < 0)
   | Some e \<Rightarrow>
       (let m = rne (x / 2 powi e); v = of_int m * 2 powi e in
        if m = 0 then Zero (x < 0)
        else if 2 powi 1024 \<le> \<bar>v\<bar> then Inf (x < 0)
        else Num v))"

definition representable :: "real \<Rightarrow> bool" where
  "representable x \<longleftrightarrow>
     (\<exists>m e. x = of_int m * 2 powi e \<and> \<bar>m\<bar> < 2 ^ 53 \<and> -1074 \<le> e \<and> e \<le> 971)"

fun f64_ok :: "f64 \<Rightarrow> bool" where
  "f64_ok (Num x) \<longleftrightarrow> x \<noteq> 0 \<and> representable x"
| "f64_ok _ \<longleftrightarrow> True"

subsection \<open>Classification and comparison\<close>

text \<open>The float of a representable real.\<close>

definition fof :: "real \<Rightarrow> f64" where
  "fof x = (if x = 0 then Zero False else Num x)"

fun fval :: "f64 \<Rightarrow> real" where
  "fval (Num x) = x"
| "fval _ = 0"

fun fneg_bit :: "f64 \<Rightarrow> bool" where
  "fneg_bit NaN = False"
| "fneg_bit (Inf s) = s"
| "fneg_bit (Zero s) = s"
| "fneg_bit (Num x) = (x < 0)"

fun is_nan :: "f64 \<Rightarrow> bool" where
  "is_nan NaN = True"
| "is_nan _ = False"

fun is_inf :: "f64 \<Rightarrow> bool" where
  "is_inf (Inf _) = True"
| "is_inf _ = False"

fun is_fzero :: "f64 \<Rightarrow> bool" where
  "is_fzero (Zero _) = True"
| "is_fzero _ = False"

definition is_finite :: "f64 \<Rightarrow> bool" where
  "is_finite x \<longleftrightarrow> \<not> is_nan x \<and> \<not> is_inf x"

text \<open>A value's place in the extended order: below, among or above the finite ones.\<close>

fun ford :: "f64 \<Rightarrow> int" where
  "ford (Inf s) = (if s then -1 else 1)"
| "ford _ = 0"

text \<open>Go's \<open><\<close>, \<open><=\<close> and \<open>==\<close>: false on NaN, zeros of either sign are equal.\<close>

definition flt :: "f64 \<Rightarrow> f64 \<Rightarrow> bool" where
  "flt a b \<longleftrightarrow> \<not> is_nan a \<and> \<not> is_nan b \<and>
     (ford a < ford b \<or> ford a = ford b \<and> fval a < fval b)"

definition fle :: "f64 \<Rightarrow> f64 \<Rightarrow> bool" where
  "fle a b \<longleftrightarrow> \<not> is_nan a \<and> \<not> is_nan b \<and>
     (ford a < ford b \<or> ford a = ford b \<and> fval a \<le> fval b)"

definition feq :: "f64 \<Rightarrow> f64 \<Rightarrow> bool" where
  "feq a b \<longleftrightarrow> \<not> is_nan a \<and> \<not> is_nan b \<and> ford a = ford b \<and> fval a = fval b"

subsection \<open>Arithmetic\<close>

fun fneg :: "f64 \<Rightarrow> f64" where
  "fneg NaN = NaN"
| "fneg (Inf s) = Inf (\<not> s)"
| "fneg (Zero s) = Zero (\<not> s)"
| "fneg (Num x) = Num (- x)"

fun fabs :: "f64 \<Rightarrow> f64" where
  "fabs NaN = NaN"
| "fabs (Inf s) = Inf False"
| "fabs (Zero s) = Zero False"
| "fabs (Num x) = Num \<bar>x\<bar>"

definition fadd :: "f64 \<Rightarrow> f64 \<Rightarrow> f64" where
  "fadd a b =
     (if is_nan a \<or> is_nan b then NaN
      else if is_inf a then (if is_inf b \<and> fneg_bit a \<noteq> fneg_bit b then NaN else a)
      else if is_inf b then b
      else if fval a + fval b = 0
        then Zero (is_fzero a \<and> is_fzero b \<and> fneg_bit a \<and> fneg_bit b)
      else round64 (fval a + fval b))"

definition fsub :: "f64 \<Rightarrow> f64 \<Rightarrow> f64" where
  "fsub a b = fadd a (fneg b)"

definition fmul :: "f64 \<Rightarrow> f64 \<Rightarrow> f64" where
  "fmul a b =
     (if is_nan a \<or> is_nan b then NaN
      else if is_inf a \<and> is_fzero b \<or> is_fzero a \<and> is_inf b then NaN
      else if is_inf a \<or> is_inf b then Inf (fneg_bit a \<noteq> fneg_bit b)
      else if is_fzero a \<or> is_fzero b then Zero (fneg_bit a \<noteq> fneg_bit b)
      else round64 (fval a * fval b))"

definition fdiv :: "f64 \<Rightarrow> f64 \<Rightarrow> f64" where
  "fdiv a b =
     (if is_nan a \<or> is_nan b then NaN
      else if is_inf a \<and> is_inf b \<or> is_fzero a \<and> is_fzero b then NaN
      else if is_inf a \<or> is_fzero b then Inf (fneg_bit a \<noteq> fneg_bit b)
      else if is_inf b \<or> is_fzero a then Zero (fneg_bit a \<noteq> fneg_bit b)
      else round64 (fval a / fval b))"

fun fsqrt :: "f64 \<Rightarrow> f64" where
  "fsqrt NaN = NaN"
| "fsqrt (Inf s) = (if s then NaN else Inf False)"
| "fsqrt (Zero s) = Zero s"
| "fsqrt (Num x) = (if x < 0 then NaN else round64 (sqrt x))"

text \<open>\<open>math.Max\<close> and \<open>math.Min\<close>, with their special cases.\<close>

definition fmax :: "f64 \<Rightarrow> f64 \<Rightarrow> f64" where
  "fmax a b =
     (if a = Inf False \<or> b = Inf False then Inf False
      else if is_nan a \<or> is_nan b then NaN
      else if is_fzero a \<and> is_fzero b then (if fneg_bit a then b else a)
      else if flt b a then a else b)"

definition fmin :: "f64 \<Rightarrow> f64 \<Rightarrow> f64" where
  "fmin a b =
     (if a = Inf True \<or> b = Inf True then Inf True
      else if is_nan a \<or> is_nan b then NaN
      else if is_fzero a \<and> is_fzero b then (if fneg_bit a then a else b)
      else if flt a b then a else b)"

text \<open>\<open>float64(n)\<close> for an integer.\<close>

definition f64_of_int :: "int \<Rightarrow> f64" where
  "f64_of_int n = round64 (of_int n)"

subsection \<open>Bit patterns\<close>

text \<open>\<open>math.Float64bits\<close>. With \<open>m\<close> units of \<open>2\<^sup>e\<close> the exponent and fraction fields
  together are \<open>(e + 1074) \<cdot> 2\<^sup>5\<^sup>2 + m\<close>, for normal and subnormal numbers alike. The
  NaN of the model has the pattern \<open>math.NaN()\<close> returns.\<close>

definition magnitude_bits :: "real \<Rightarrow> int" where
  "magnitude_bits x = (case quantum x of
     None \<Rightarrow> 2047 * 2 ^ 52
   | Some e \<Rightarrow> (e + 1074) * 2 ^ 52 + \<lfloor>\<bar>x\<bar> / 2 powi e\<rfloor>)"

definition sign_field :: "bool \<Rightarrow> int" where
  "sign_field s = (if s then 2 ^ 63 else 0)"

fun f64_bits :: "f64 \<Rightarrow> 64 word" where
  "f64_bits NaN = word_of_int 0x7FF8000000000001"
| "f64_bits (Inf s) = word_of_int (sign_field s + 2047 * 2 ^ 52)"
| "f64_bits (Zero s) = word_of_int (sign_field s)"
| "f64_bits (Num x) = word_of_int (sign_field (x < 0) + magnitude_bits x)"

subsection \<open>The quantum of a real\<close>

lemma pow2_gt0 [simp]: "(0::real) < 2 powi e"
  by simp

lemma pow2_mono: "a \<le> b \<Longrightarrow> (2::real) powi a \<le> 2 powi b"
  by (rule power_int_increasing) simp_all

lemma pow2_add: "(2::real) powi (a + b) = 2 powi a * 2 powi b"
  by (simp add: power_int_add)

lemma pow2_Suc_le: "a < b \<Longrightarrow> 2 * (2::real) powi a \<le> 2 powi b"
  using pow2_mono [of "a + 1" b] by (simp add: power_int_add)

lemma quantum_Some_iff:
  "quantum x = Some e \<longleftrightarrow> -1074 \<le> e \<and> e \<le> 971 \<and> \<bar>x\<bar> < 2 powi (e + 53) \<and>
     (e = -1074 \<or> 2 powi (e + 52) \<le> \<bar>x\<bar>)"
  (is "_ \<longleftrightarrow> ?r")
proof
  assume "quantum x = Some e"
  then have r: "-1074 \<le> e" "e \<le> 971" "\<bar>x\<bar> < 2 powi (e + 53)"
    and least: "\<And>k. -1074 \<le> k \<Longrightarrow> k < e \<Longrightarrow> \<not> \<bar>x\<bar> < 2 powi (k + 53)"
    unfolding quantum_def find_upto_Some_iff by auto
  have "e = -1074 \<or> 2 powi (e + 52) \<le> \<bar>x\<bar>"
    using least [of "e - 1"] r(1) by (cases "e = -1074") (auto simp: algebra_simps)
  with r show ?r by simp
next
  assume r: ?r
  have "\<not> \<bar>x\<bar> < 2 powi (k + 53)" if "-1074 \<le> k" "k < e" for k
    using r that pow2_mono [of "k + 53" "e + 52"] by auto
  with r show "quantum x = Some e"
    unfolding quantum_def find_upto_Some_iff by blast
qed

lemma quantum_None_iff: "quantum x = None \<longleftrightarrow> 2 powi 1024 \<le> \<bar>x\<bar>"
proof
  assume "quantum x = None"
  then have "\<not> \<bar>x\<bar> < 2 powi (971 + 53)"
    unfolding quantum_def find_upto_None_iff by (auto dest: spec [of _ 971])
  then show "2 powi 1024 \<le> \<bar>x\<bar>" by simp
next
  assume big: "2 powi 1024 \<le> \<bar>x\<bar>"
  have "\<not> \<bar>x\<bar> < 2 powi (e + 53)" if "e \<le> 971" for e
    using order_trans [OF pow2_mono [of "e + 53" 1024] big] that by linarith
  then show "quantum x = None"
    unfolding quantum_def find_upto_None_iff by blast
qed

lemma quantum_mono:
  assumes "\<bar>x\<bar> \<le> \<bar>y\<bar>" "quantum x = Some a" "quantum y = Some b"
  shows "a \<le> b"
proof (rule ccontr)
  assume "\<not> a \<le> b"
  then have "b < a" by simp
  with assms(2,3) have "2 powi (a + 52) \<le> \<bar>x\<bar>" "\<bar>y\<bar> < 2 powi (b + 53)"
    by (auto simp: quantum_Some_iff)
  with assms(1) \<open>b < a\<close> pow2_mono [of "b + 53" "a + 52"] show False by simp
qed

lemma quantum_minus [simp]: "quantum (- x) = quantum x"
  by (simp add: quantum_def)

subsection \<open>Rounding to integers\<close>

lemma rne_of_int [simp]: "rne (of_int n) = n"
  by (simp add: rne_def)

lemma rne_mono:
  assumes "x \<le> y"
  shows "rne x \<le> rne y"
proof (cases "\<lfloor>x\<rfloor> = \<lfloor>y\<rfloor>")
  case True
  with assms show ?thesis by (auto simp: rne_def Let_def)
next
  case False
  with floor_mono [OF assms] have "\<lfloor>x\<rfloor> + 1 \<le> \<lfloor>y\<rfloor>" by simp
  moreover have "rne x \<le> \<lfloor>x\<rfloor> + 1" "\<lfloor>y\<rfloor> \<le> rne y" by (auto simp: rne_def Let_def)
  ultimately show ?thesis by linarith
qed

lemma rne_le_of_int: "x \<le> of_int n \<Longrightarrow> rne x \<le> n"
  using rne_mono [of x "of_int n"] by simp

lemma rne_ge_of_int: "of_int n \<le> x \<Longrightarrow> n \<le> rne x"
  using rne_mono [of "of_int n" x] by simp

lemma rne_minus: "rne (- y) = - rne y"
proof (cases "y = of_int \<lfloor>y\<rfloor>")
  case True
  then show ?thesis using rne_of_int [of "- \<lfloor>y\<rfloor>"] rne_of_int [of "\<lfloor>y\<rfloor>"] by simp
next
  case False
  then have f: "\<lfloor>- y\<rfloor> = - \<lfloor>y\<rfloor> - 1" by linarith
  show ?thesis unfolding rne_def Let_def f by auto
qed

lemma rne_error: "\<bar>of_int (rne y) - y\<bar> \<le> 1 / 2"
  unfolding rne_def Let_def by (auto split: if_splits)

subsection \<open>Rounding to float64\<close>

definition rounded :: "real \<Rightarrow> int \<Rightarrow> real" where
  "rounded x e = of_int (rne (x / 2 powi e)) * 2 powi e"

lemma round64_Some:
  assumes "quantum x = Some e"
  shows "round64 x =
    (if rounded x e = 0 then Zero (x < 0)
     else if 2 powi 1024 \<le> \<bar>rounded x e\<bar> then Inf (x < 0) else Num (rounded x e))"
  using assms by (simp add: round64_def rounded_def Let_def)

lemma round64_None: "quantum x = None \<Longrightarrow> round64 x = Inf (x < 0)"
  by (simp add: round64_def)

lemma round64_not_nan [simp]: "\<not> is_nan (round64 x)" "round64 x \<noteq> NaN"
  by (cases "quantum x"; simp add: round64_None round64_Some)+

lemma rounded_mono_same: "x \<le> y \<Longrightarrow> rounded x e \<le> rounded y e"
  unfolding rounded_def by (intro mult_right_mono) (simp_all add: rne_mono divide_right_mono)

lemma rounded_nonneg: "0 \<le> x \<Longrightarrow> 0 \<le> rounded x e"
  using rounded_mono_same [of 0 x e] by (simp add: rounded_def rne_def)

lemma rounded_upper:
  assumes "x \<le> 2 powi (e + 53)"
  shows "rounded x e \<le> 2 powi (e + 53)"
proof -
  have "x / 2 powi e \<le> of_int (2 ^ 53)"
    using assms by (simp add: pow2_add divide_le_eq mult.commute)
  then have "rne (x / 2 powi e) \<le> 2 ^ 53" by (rule rne_le_of_int)
  then have "of_int (rne (x / 2 powi e)) \<le> (2 ^ 53 :: real)"
    by (metis of_int_le_iff of_int_numeral of_int_power)
  then show ?thesis
    unfolding rounded_def pow2_add by (simp add: mult.commute)
qed

lemma rounded_lower:
  assumes "2 powi (e + 52) \<le> x"
  shows "2 powi (e + 52) \<le> rounded x e"
proof -
  have "of_int (2 ^ 52) \<le> x / 2 powi e"
    using assms by (simp add: pow2_add le_divide_eq mult.commute)
  then have "2 ^ 52 \<le> rne (x / 2 powi e)" by (rule rne_ge_of_int)
  then have "(2 ^ 52 :: real) \<le> of_int (rne (x / 2 powi e))"
    by (metis of_int_le_iff of_int_numeral of_int_power)
  then show ?thesis
    unfolding rounded_def pow2_add by (simp add: mult.commute)
qed

lemma rounded_mono:
  assumes "0 \<le> x" "x \<le> y" "quantum x = Some a" "quantum y = Some b"
  shows "rounded x a \<le> rounded y b"
proof (cases "a = b")
  case True
  with assms show ?thesis by (simp add: rounded_mono_same)
next
  case False
  have "a \<le> b" using quantum_mono [OF _ assms(3,4)] assms(1,2) by simp
  with False have "a < b" by simp
  have "rounded x a \<le> 2 powi (a + 53)"
    using assms by (intro rounded_upper) (simp add: quantum_Some_iff)
  also have "\<dots> \<le> 2 powi (b + 52)" using \<open>a < b\<close> by (intro pow2_mono) simp
  also have "\<dots> \<le> rounded y b"
    using assms \<open>a < b\<close> by (intro rounded_lower) (auto simp: quantum_Some_iff)
  finally show ?thesis .
qed

lemma fle_Inf_top [simp]: "fle a (Inf False) \<longleftrightarrow> \<not> is_nan a"
  by (cases a) (auto simp: fle_def)

lemma fle_refl [simp]: "fle a a \<longleftrightarrow> \<not> is_nan a"
  by (auto simp: fle_def)

lemma fle_trans: "fle a b \<Longrightarrow> fle b c \<Longrightarrow> fle a c"
  by (auto simp: fle_def)

lemma flt_fle_trans: "flt a b \<Longrightarrow> fle b c \<Longrightarrow> flt a c"
  by (auto simp: fle_def flt_def)

lemma fle_flt_trans: "fle a b \<Longrightarrow> flt b c \<Longrightarrow> flt a c"
  by (auto simp: fle_def flt_def)

lemma flt_trans: "flt a b \<Longrightarrow> flt b c \<Longrightarrow> flt a c"
  by (auto simp: flt_def)

lemma flt_imp_fle: "flt a b \<Longrightarrow> fle a b"
  by (auto simp: fle_def flt_def)

lemma flt_irrefl [simp]: "\<not> flt a a"
  by (auto simp: flt_def)

lemma not_flt_iff: "\<not> is_nan a \<Longrightarrow> \<not> is_nan b \<Longrightarrow> \<not> flt a b \<longleftrightarrow> fle b a"
  by (auto simp: fle_def flt_def)

lemma fle_not_nan: "fle a b \<Longrightarrow> \<not> is_nan a \<and> \<not> is_nan b"
  by (simp add: fle_def)

lemma round64_mono_nonneg:
  assumes "0 \<le> x" "x \<le> y"
  shows "fle (round64 x) (round64 y)"
proof (cases "quantum y")
  case None
  with assms show ?thesis by (simp add: round64_None)
next
  case (Some b)
  have "quantum x \<noteq> None"
    using Some assms quantum_None_iff [of x] quantum_None_iff [of y] by auto
  then obtain a where a: "quantum x = Some a" by auto
  have "rounded x a \<le> rounded y b" "0 \<le> rounded x a"
    using rounded_mono [OF assms a Some] rounded_nonneg [OF assms(1)] by auto
  then show ?thesis
    using assms by (auto simp: round64_Some [OF a] round64_Some [OF Some] fle_def)
qed

lemma round64_minus:
  assumes "x \<noteq> 0"
  shows "round64 (- x) = fneg (round64 x)"
proof (cases "quantum x")
  case None
  with assms show ?thesis by (auto simp: round64_None)
next
  case (Some e)
  have "rounded (- x) e = - rounded x e" by (simp add: rounded_def rne_minus)
  with Some assms show ?thesis by (auto simp: round64_Some)
qed

lemma fle_fneg [simp]: "fle (fneg a) (fneg b) \<longleftrightarrow> fle b a"
  by (cases a; cases b) (auto simp: fle_def)

lemma round64_zero [simp]: "round64 0 = Zero False"
proof -
  have "quantum 0 = Some (-1074)" by (simp add: quantum_Some_iff)
  then show ?thesis by (simp add: round64_Some rounded_def rne_def)
qed

lemma fle_Zero_round64 [simp]: "0 \<le> x \<Longrightarrow> fle (Zero s) (round64 x)"
  using round64_mono_nonneg [of 0 x] by (simp add: fle_def)

theorem round64_mono:
  assumes "x \<le> y"
  shows "fle (round64 x) (round64 y)"
proof -
  consider "0 \<le> x" | "x < 0" "0 \<le> y" | "y < 0" by linarith
  then show ?thesis
  proof cases
    case 1
    then show ?thesis using assms by (rule round64_mono_nonneg)
  next
    case 2
    have "fle (Zero True) (round64 (- x))" using 2 by simp
    then have "fle (round64 x) (Zero False)"
      using round64_minus [of x] 2 fle_fneg [of "Zero False" "round64 x"] by simp
    with 2 show ?thesis by (meson fle_trans fle_Zero_round64)
  next
    case 3
    with assms have "fle (round64 (- y)) (round64 (- x))"
      by (intro round64_mono_nonneg) simp_all
    with 3 assms show ?thesis by (simp add: round64_minus)
  qed
qed

subsection \<open>Representable values are fixed points\<close>

lemma representableI:
  assumes "x = of_int m * 2 powi e" "\<bar>m\<bar> < 2 ^ 53" "-1074 \<le> e" "e \<le> 971"
  shows "representable x"
  using assms unfolding representable_def by blast

lemma representable_of_int: "\<bar>n\<bar> < 2 ^ 53 \<Longrightarrow> representable (of_int n)"
  by (rule representableI [of _ n 0]) simp_all

lemma representable_quantum:
  assumes "representable x"
  obtains q k where "quantum x = Some q" "x = of_int k * 2 powi q" "\<bar>x\<bar> < 2 powi 1024"
proof -
  from assms obtain m e where x: "x = of_int m * 2 powi e"
    and m: "\<bar>m\<bar> < 2 ^ 53" and e: "-1074 \<le> e" "e \<le> 971"
    unfolding representable_def by blast
  have "of_int \<bar>m\<bar> < (2 ^ 53 :: real)"
    using m by (metis of_int_less_iff of_int_numeral of_int_power)
  then have "\<bar>x\<bar> < 2 ^ 53 * 2 powi e" by (simp add: x abs_mult)
  also have "\<dots> = 2 powi (e + 53)" by (simp add: pow2_add)
  finally have lt: "\<bar>x\<bar> < 2 powi (e + 53)" .
  also have "\<dots> \<le> 2 powi 1024" using e by (intro pow2_mono) simp
  finally have small: "\<bar>x\<bar> < 2 powi 1024" .
  then obtain q where q: "quantum x = Some q"
    using quantum_None_iff [of x] by (cases "quantum x") auto
  have "q \<le> e"
  proof (rule ccontr)
    assume "\<not> q \<le> e"
    with q e have "2 powi (q + 52) \<le> \<bar>x\<bar>" by (auto simp: quantum_Some_iff)
    moreover have "(2::real) powi (e + 53) \<le> 2 powi (q + 52)"
      using \<open>\<not> q \<le> e\<close> by (intro pow2_mono) simp
    ultimately show False using lt by simp
  qed
  then have "(2::real) powi e = 2 ^ nat (e - q) * 2 powi q"
    using pow2_add [of "e - q" q] by (simp add: power_int_def)
  then have "x = of_int (m * 2 ^ nat (e - q)) * 2 powi q" by (simp add: x)
  with q small that show thesis by blast
qed

theorem round64_exact:
  assumes "representable x"
  shows "round64 x = fof x"
proof -
  from assms obtain q k where q: "quantum x = Some q"
    and k: "x = of_int k * 2 powi q" and small: "\<bar>x\<bar> < 2 powi 1024"
    by (rule representable_quantum)
  from k have "x / 2 powi q = of_int k" by simp
  then have "rounded x q = x" unfolding rounded_def by (simp only: rne_of_int flip: k)
  with q small show ?thesis by (simp add: round64_Some fof_def)
qed

lemma round64_of_int: "\<bar>n\<bar> < 2 ^ 53 \<Longrightarrow> round64 (of_int n) = fof (of_int n)"
  by (intro round64_exact representable_of_int)

lemma f64_of_int_exact: "\<bar>n\<bar> < 2 ^ 53 \<Longrightarrow> f64_of_int n = fof (of_int n)"
  by (simp add: f64_of_int_def round64_of_int)

lemma fof_simps [simp]:
  "fof 0 = Zero False" "x \<noteq> 0 \<Longrightarrow> fof x = Num x"
  "fval (fof x) = x" "ford (fof x) = 0" "\<not> is_nan (fof x)" "\<not> is_inf (fof x)"
  by (auto simp: fof_def)

lemma round64_numeral [f64_eval]:
  "numeral w < (2 ^ 53 :: int) \<Longrightarrow> round64 (numeral w) = Num (numeral w)"
  "numeral w < (2 ^ 53 :: int) \<Longrightarrow> round64 (- numeral w) = Num (- numeral w)"
  using round64_of_int [of "numeral w"] round64_of_int [of "- numeral w"] by simp_all

lemma round64_one [simp, f64_eval]: "round64 1 = Num 1" "round64 (- 1) = Num (- 1)"
  using round64_of_int [of 1] round64_of_int [of "- 1"] by simp_all

lemma round64_le_representable: "representable a \<Longrightarrow> x \<le> a \<Longrightarrow> fle (round64 x) (fof a)"
  using round64_mono [of x a] by (simp add: round64_exact)

lemma round64_ge_representable: "representable a \<Longrightarrow> a \<le> x \<Longrightarrow> fle (fof a) (round64 x)"
  using round64_mono [of a x] by (simp add: round64_exact)

text \<open>What rounding returns is a float64.\<close>

lemma round64_ok [wf_intro, simp]: "f64_ok (round64 x)"
proof (cases "quantum x")
  case None
  then show ?thesis by (simp add: round64_None)
next
  case (Some e)
  let ?m = "rne (x / 2 powi e)"
  show ?thesis
  proof (cases "rounded x e = 0 \<or> 2 powi 1024 \<le> \<bar>rounded x e\<bar>")
    case True
    with Some show ?thesis by (auto simp: round64_Some)
  next
    case False
    have b: "-1074 \<le> e" "e \<le> 971" "\<bar>x\<bar> < 2 powi (e + 53)"
      using Some by (simp_all add: quantum_Some_iff)
    have r: "\<bar>x / 2 powi e\<bar> \<le> of_int (2 ^ 53)"
      using b(3) by (simp add: pow2_add divide_le_eq mult.commute abs_divide)
    have r2: "x / 2 powi e \<le> of_int (2 ^ 53)" "of_int (- (2 ^ 53)) \<le> x / 2 powi e"
      using r by linarith+
    have "?m \<le> 2 ^ 53" using r2(1) by (rule rne_le_of_int)
    moreover have "- (2 ^ 53) \<le> ?m" using r2(2) by (rule rne_ge_of_int)
    ultimately consider "\<bar>?m\<bar> < 2 ^ 53" | "?m = 2 ^ 53" | "?m = - (2 ^ 53)" by linarith
    then have "representable (rounded x e)"
    proof cases
      case 1
      with b show ?thesis unfolding rounded_def by (intro representableI) auto
    next
      case 2
      then have v: "rounded x e = 2 powi (e + 53)" by (simp add: rounded_def pow2_add)
      with False have "e \<noteq> 971" by auto
      with b v show ?thesis
        by (intro representableI [of _ "2 ^ 52" "e + 1"]) (simp_all add: pow2_add)
    next
      case 3
      then have v: "rounded x e = - (2 powi (e + 53))" by (simp add: rounded_def pow2_add)
      with False have "e \<noteq> 971" by auto
      with b v show ?thesis
        by (intro representableI [of _ "- (2 ^ 52)" "e + 1"]) (simp_all add: pow2_add)
    qed
    with False Some show ?thesis by (simp add: round64_Some)
  qed
qed

lemma arith_ok [wf_intro]:
  "f64_ok a \<Longrightarrow> f64_ok b \<Longrightarrow> f64_ok (fadd a b)"
  "f64_ok (fmul a b)" "f64_ok (fdiv a b)" "f64_ok (fsqrt a)"
  by (auto simp: fadd_def fmul_def fdiv_def) (cases a; simp)

lemma fneg_ok [wf_intro, simp]: "f64_ok (fneg a) \<longleftrightarrow> f64_ok a"
proof (cases a)
  case (Num x)
  have "representable (- y)" if "representable y" for y
  proof -
    from that obtain m e where "y = of_int m * 2 powi e" "\<bar>m\<bar> < 2 ^ 53" "-1074 \<le> e" "e \<le> 971"
      unfolding representable_def by blast
    then show ?thesis by (intro representableI [of _ "- m" e]) simp_all
  qed
  from this [of x] this [of "- x"] Num show ?thesis by auto
qed simp_all

subsection \<open>Arithmetic on non-negative values\<close>

text \<open>Coefficients, weights and energies are non-negative; these are the bounds their
  products, sums and quotients keep in spite of rounding.\<close>

abbreviation fnonneg :: "f64 \<Rightarrow> bool" where
  "fnonneg a \<equiv> fle (Zero False) a"

abbreviation funit :: "f64 \<Rightarrow> bool" where
  "funit a \<equiv> fle (Zero False) a \<and> fle a (Num 1)"

lemma fnonneg_cases:
  assumes "fnonneg a"
  obtains "a = Inf False" | s where "a = Zero s" | x where "a = Num x" "0 \<le> x"
  using assms by (cases a) (auto simp: fle_def split: if_splits)

lemma funit_cases:
  assumes "funit a"
  obtains s where "a = Zero s" | x where "a = Num x" "0 \<le> x" "x \<le> 1"
  using assms by (cases a) (auto simp: fle_def split: if_splits)

lemma funit_finite: "funit a \<Longrightarrow> is_finite a"
  by (cases a) (auto simp: fle_def is_finite_def split: if_splits)

lemma fnonneg_fmul:
  assumes "fnonneg a" "fnonneg b" "is_finite a" "is_finite b"
  shows "fnonneg (fmul a b)"
  using assms(1)
proof (cases rule: fnonneg_cases)
  case a: (3 x)
  from assms(2) show ?thesis
    by (cases rule: fnonneg_cases) (use a assms(4) in \<open>auto simp: fmul_def is_finite_def fle_def [of _ "Zero _"]\<close>)
qed (use assms in \<open>auto simp: fmul_def is_finite_def fle_def [of _ "Zero _"]\<close>)

lemma fmul_unit_le:
  assumes "fnonneg a" "funit b" "is_finite a" "f64_ok a"
  shows "fle (fmul a b) a"
  using assms(1)
proof (cases rule: fnonneg_cases)
  case 1
  with assms(3) show ?thesis by (simp add: is_finite_def)
next
  case (2 s)
  from assms(2) show ?thesis by (cases rule: funit_cases) (simp_all add: 2 fmul_def fle_def)
next
  case (3 x)
  with assms(4) have rep: "representable x" "x \<noteq> 0" by simp_all
  from assms(2) show ?thesis
  proof (cases rule: funit_cases)
    case (1 s)
    with 3 show ?thesis by (simp add: fmul_def fle_def)
  next
    case (2 y)
    have "x * y \<le> x" using 2 3 by (simp add: mult_left_le)
    then have "fle (round64 (x * y)) (fof x)" using rep(1) by (intro round64_le_representable)
    with 2 3 rep show ?thesis by (simp add: fmul_def)
  qed
qed

lemma funit_fmul:
  assumes "funit a" "funit b" "f64_ok a"
  shows "funit (fmul a b)"
proof -
  have fin: "is_finite a" "is_finite b"
    using assms(1,2) by (simp_all add: funit_finite)
  have "fnonneg (fmul a b)" using assms fin by (intro fnonneg_fmul) auto
  moreover have "fle (fmul a b) a" using assms fin by (intro fmul_unit_le) auto
  ultimately show ?thesis using assms(1) fle_trans by blast
qed

lemma fnonneg_fadd:
  assumes "fnonneg a" "fnonneg b"
  shows "fnonneg (fadd a b)"
proof (cases a; cases b)
  fix x y assume "a = Num x" "b = Num y"
  moreover from this assms have "0 \<le> x" "0 \<le> y" by (simp_all add: fle_def)
  ultimately show ?thesis by (simp add: fadd_def fle_def [of _ "Zero _"])
next
  fix x s assume "a = Num x" "b = Zero s"
  moreover from this assms have "0 \<le> x" by (simp add: fle_def)
  ultimately show ?thesis by (simp add: fadd_def fle_def [of _ "Zero _"])
next
  fix x s assume "a = Zero s" "b = Num x"
  moreover from this assms have "0 \<le> x" by (simp add: fle_def)
  ultimately show ?thesis by (simp add: fadd_def fle_def [of _ "Zero _"])
qed (use assms in \<open>auto simp: fadd_def fle_def split: if_splits\<close>)

lemma fadd_ge_left:
  assumes "fnonneg a" "fnonneg b" "f64_ok a"
  shows "fle a (fadd a b)"
  using assms(1)
proof (cases rule: fnonneg_cases)
  case 1
  from assms(2) show ?thesis by (cases rule: fnonneg_cases) (simp_all add: 1 fadd_def)
next
  case (2 s)
  from fnonneg_fadd [OF assms(1,2)] show ?thesis by (simp add: 2 fle_def)
next
  case (3 x)
  with assms(3) have rep: "representable x" "x \<noteq> 0" by simp_all
  from assms(2) show ?thesis
  proof (cases rule: fnonneg_cases)
    case 1
    with 3 show ?thesis by (simp add: fadd_def)
  next
    case (2 s)
    with 3 rep show ?thesis using round64_exact [of x] by (simp add: fadd_def)
  next
    case y: (3 y)
    have "fle (fof x) (round64 (x + y))" using rep y by (intro round64_ge_representable) simp_all
    moreover have "x + y \<noteq> 0" using 3 rep y by simp
    ultimately show ?thesis using 3 y rep by (simp add: fadd_def)
  qed
qed

lemma funit_fdiv:
  assumes "fnonneg a" "fle a b" "is_finite b" "flt (Zero False) b"
  shows "funit (fdiv a b)"
proof -
  obtain y where b: "b = Num y" "0 < y"
    using assms(3,4) by (cases b) (auto simp: flt_def is_finite_def)
  from assms(1) show ?thesis
  proof (cases rule: fnonneg_cases)
    case 1
    with assms(2) b show ?thesis by (simp add: fle_def)
  next
    case (2 s)
    with b show ?thesis by (simp add: fdiv_def fle_def)
  next
    case (3 x)
    with assms(2) b have "0 \<le> x / y" "x / y \<le> 1" by (simp_all add: fle_def)
    moreover from this(2) have "fle (round64 (x / y)) (fof 1)"
      by (intro round64_le_representable representable_of_int [of 1, simplified])
    ultimately show ?thesis using 3 b by (simp add: fdiv_def)
  qed
qed

subsection \<open>Evaluation\<close>

lemma round64_half [f64_eval]: "round64 (1 / 2) = Num (1 / 2)"
  using round64_exact [OF representableI [of "1 / 2" 1 "-1"]] by (simp add: power_int_minus)

lemmas float_eval = f64_eval fadd_def fsub_def fmul_def fdiv_def flt_def fle_def feq_def is_finite_def

lemma fneg_simps [simp]:
  "is_nan (fneg a) = is_nan a" "is_inf (fneg a) = is_inf a" "fval (fneg a) = - fval a"
  "is_finite (fneg a) = is_finite a" "is_fzero (fneg a) = is_fzero a"
  "ford (fneg a) = - ford a"
  by (cases a; simp add: is_finite_def)+

lemma fle_fadd:
  assumes "is_finite a" "is_finite b"
  shows "fle (fadd a b) x \<longleftrightarrow> fle (round64 (fval a + fval b)) x"
    "fle x (fadd a b) \<longleftrightarrow> fle x (round64 (fval a + fval b))"
  using assms by (auto simp: fadd_def is_finite_def fle_def)

lemma fle_finite: "is_finite a \<Longrightarrow> is_finite b \<Longrightarrow> fle a b \<longleftrightarrow> fval a \<le> fval b"
  by (cases a; cases b; simp add: fle_def is_finite_def)

lemma fle_finite_fof: "is_finite v \<Longrightarrow> fle a (fof (fval v)) \<longleftrightarrow> fle a v"
  "is_finite v \<Longrightarrow> fle (fof (fval v)) a \<longleftrightarrow> fle v a"
  by (cases v; simp add: fle_def is_finite_def fof_def)+

lemma representable_small: "representable 0" "representable 1" "representable (numeral w)" if "(numeral w::int) < 2 ^ 53"
  using representable_of_int [of 0] representable_of_int [of 1] representable_of_int [of "numeral w"] that by simp_all

end
