(* ===== verification/Geometry.thy ===== *)
theory Geometry
  imports Float64 "HOL-Library.Multiset"
begin

text \<open>
  The parts of package geometry the scene layer rests on: vectors (vec3.go), boxes
  (box.go), planes (plane.go), triangles (triangle.go) and triangle meshes with their
  validation, edge table and enclosed volume (mesh.go). Coordinates are float64 values;
  every product and sum is rounded where the Go expression rounds it.
\<close>

subsection \<open>Vectors (vec3.go)\<close>

record vec3 =
  vX :: f64
  vY :: f64
  vZ :: f64

abbreviation mk_vec3 :: "f64 \<Rightarrow> f64 \<Rightarrow> f64 \<Rightarrow> vec3" where
  "mk_vec3 x y z \<equiv> \<lparr>vX = x, vY = y, vZ = z\<rparr>"

definition Vec3Zero :: vec3 where
  "Vec3Zero = mk_vec3 (Zero False) (Zero False) (Zero False)"

definition vec3_Add :: "vec3 \<Rightarrow> vec3 \<Rightarrow> vec3" where
  "vec3_Add v w = mk_vec3 (fadd (vX v) (vX w)) (fadd (vY v) (vY w)) (fadd (vZ v) (vZ w))"

definition vec3_Sub :: "vec3 \<Rightarrow> vec3 \<Rightarrow> vec3" where
  "vec3_Sub v w = mk_vec3 (fsub (vX v) (vX w)) (fsub (vY v) (vY w)) (fsub (vZ v) (vZ w))"

definition vec3_Scale :: "vec3 \<Rightarrow> f64 \<Rightarrow> vec3" where
  "vec3_Scale v s = mk_vec3 (fmul (vX v) s) (fmul (vY v) s) (fmul (vZ v) s)"

definition vec3_Dot :: "vec3 \<Rightarrow> vec3 \<Rightarrow> f64" where
  "vec3_Dot v w =
     fadd (fadd (fmul (vX v) (vX w)) (fmul (vY v) (vY w))) (fmul (vZ v) (vZ w))"

definition vec3_Cross :: "vec3 \<Rightarrow> vec3 \<Rightarrow> vec3" where
  "vec3_Cross v w = mk_vec3
     (fsub (fmul (vY v) (vZ w)) (fmul (vZ v) (vY w)))
     (fsub (fmul (vZ v) (vX w)) (fmul (vX v) (vZ w)))
     (fsub (fmul (vX v) (vY w)) (fmul (vY v) (vX w)))"

definition vec3_Norm :: "vec3 \<Rightarrow> f64" where
  "vec3_Norm v = fsqrt (vec3_Dot v v)"

definition vec3_Normalize :: "vec3 \<Rightarrow> vec3" where
  "vec3_Normalize v =
     (let n = vec3_Norm v in
      if feq n (Zero False) then Vec3Zero else vec3_Scale v (fdiv (round64 1) n))"

definition vec3_Distance :: "vec3 \<Rightarrow> vec3 \<Rightarrow> f64" where
  "vec3_Distance v w = vec3_Norm (vec3_Sub v w)"

definition vec3_Neg :: "vec3 \<Rightarrow> vec3" where
  "vec3_Neg v = mk_vec3 (fneg (vX v)) (fneg (vY v)) (fneg (vZ v))"

text \<open>Go's \<open>==\<close> on \<open>Vec3\<close> values compares the fields.\<close>

definition vec3_eq :: "vec3 \<Rightarrow> vec3 \<Rightarrow> bool" where
  "vec3_eq v w \<longleftrightarrow> feq (vX v) (vX w) \<and> feq (vY v) (vY w) \<and> feq (vZ v) (vZ w)"

definition isFiniteVec3 :: "vec3 \<Rightarrow> bool" where
  "isFiniteVec3 v \<longleftrightarrow> is_finite (vX v) \<and> is_finite (vY v) \<and> is_finite (vZ v)"

subsection \<open>Boxes (box.go)\<close>

definition min64 :: "f64 \<Rightarrow> f64 \<Rightarrow> f64" where
  "min64 a b = (if flt a b then a else b)"

definition max64 :: "f64 \<Rightarrow> f64 \<Rightarrow> f64" where
  "max64 a b = (if flt b a then a else b)"

record box =
  Min :: vec3
  Max :: vec3

abbreviation mk_box :: "vec3 \<Rightarrow> vec3 \<Rightarrow> box" where
  "mk_box lo hi \<equiv> \<lparr>Min = lo, Max = hi\<rparr>"

definition NewBox :: "vec3 \<Rightarrow> vec3 \<Rightarrow> box" where
  "NewBox a b = mk_box
     (mk_vec3 (min64 (vX a) (vX b)) (min64 (vY a) (vY b)) (min64 (vZ a) (vZ b)))
     (mk_vec3 (max64 (vX a) (vX b)) (max64 (vY a) (vY b)) (max64 (vZ a) (vZ b)))"

definition box_Contains :: "box \<Rightarrow> vec3 \<Rightarrow> bool" where
  "box_Contains b p \<longleftrightarrow>
     fle (vX (Min b)) (vX p) \<and> fle (vX p) (vX (Max b)) \<and>
     fle (vY (Min b)) (vY p) \<and> fle (vY p) (vY (Max b)) \<and>
     fle (vZ (Min b)) (vZ p) \<and> fle (vZ p) (vZ (Max b))"

definition box_Center :: "box \<Rightarrow> vec3" where
  "box_Center b = vec3_Scale (vec3_Add (Min b) (Max b)) (round64 (1 / 2))"

definition box_Dimensions :: "box \<Rightarrow> vec3" where
  "box_Dimensions b = vec3_Sub (Max b) (Min b)"

definition box_Volume :: "box \<Rightarrow> f64" where
  "box_Volume b = (let d = box_Dimensions b in fmul (fmul (vX d) (vY d)) (vZ d))"

subsection \<open>Planes (plane.go)\<close>

record plane =
  pNormal :: vec3
  pDistance :: f64

definition NewPlaneFromPointNormal :: "vec3 \<Rightarrow> vec3 \<Rightarrow> plane" where
  "NewPlaneFromPointNormal point normal =
     (let n = vec3_Normalize normal in \<lparr>pNormal = n, pDistance = vec3_Dot n point\<rparr>)"

definition plane_SideOf :: "plane \<Rightarrow> vec3 \<Rightarrow> f64" where
  "plane_SideOf p point = fsub (vec3_Dot (pNormal p) point) (pDistance p)"

definition plane_Reflect :: "plane \<Rightarrow> vec3 \<Rightarrow> vec3" where
  "plane_Reflect p v =
     vec3_Sub v (vec3_Scale (pNormal p) (fmul (round64 2) (vec3_Dot v (pNormal p))))"

definition plane_ReflectPoint :: "plane \<Rightarrow> vec3 \<Rightarrow> vec3" where
  "plane_ReflectPoint p point =
     vec3_Sub point (vec3_Scale (pNormal p) (fmul (round64 2) (plane_SideOf p point)))"

subsection \<open>Triangles (triangle.go)\<close>

record triangle =
  V0 :: vec3
  V1 :: vec3
  V2 :: vec3

definition triangle_Normal :: "triangle \<Rightarrow> vec3" where
  "triangle_Normal t =
     vec3_Normalize (vec3_Cross (vec3_Sub (V1 t) (V0 t)) (vec3_Sub (V2 t) (V0 t)))"

definition triangle_Centroid :: "triangle \<Rightarrow> vec3" where
  "triangle_Centroid t =
     vec3_Scale (vec3_Add (vec3_Add (V0 t) (V1 t)) (V2 t)) (round64 (1 / 3))"

definition triangle_Area :: "triangle \<Rightarrow> f64" where
  "triangle_Area t =
     fmul (vec3_Norm (vec3_Cross (vec3_Sub (V1 t) (V0 t)) (vec3_Sub (V2 t) (V0 t))))
       (round64 (1 / 2))"

subsection \<open>Meshes (mesh.go)\<close>

text \<open>A mesh is its triangle slice; a nil mesh pointer is \<open>None\<close> in the scene layer.\<close>

record mesh =
  Triangles :: "triangle list"

definition meshDegenerateAreaEpsilon :: f64 where
  "meshDegenerateAreaEpsilon = round64 (1 / 10 ^ 12)"

definition MeshFromBox :: "vec3 \<Rightarrow> vec3 \<Rightarrow> mesh" where
  "MeshFromBox bmin bmax =
     (let v0 = mk_vec3 (vX bmin) (vY bmin) (vZ bmin);
          v1 = mk_vec3 (vX bmax) (vY bmin) (vZ bmin);
          v2 = mk_vec3 (vX bmax) (vY bmax) (vZ bmin);
          v3 = mk_vec3 (vX bmin) (vY bmax) (vZ bmin);
          v4 = mk_vec3 (vX bmin) (vY bmin) (vZ bmax);
          v5 = mk_vec3 (vX bmax) (vY bmin) (vZ bmax);
          v6 = mk_vec3 (vX bmax) (vY bmax) (vZ bmax);
          v7 = mk_vec3 (vX bmin) (vY bmax) (vZ bmax);
          tri = (\<lambda>a b c. \<lparr>V0 = a, V1 = b, V2 = c\<rparr>) in
      \<lparr>Triangles =
        [tri v0 v3 v4, tri v3 v7 v4,
         tri v1 v5 v2, tri v2 v5 v6,
         tri v0 v4 v1, tri v1 v4 v5,
         tri v3 v2 v7, tri v2 v6 v7,
         tri v0 v1 v3, tri v1 v2 v3,
         tri v4 v7 v5, tri v5 v7 v6]\<rparr>)"

definition box_include :: "box \<Rightarrow> vec3 \<Rightarrow> box" where
  "box_include b v = mk_box
     (mk_vec3 (min64 (vX (Min b)) (vX v)) (min64 (vY (Min b)) (vY v)) (min64 (vZ (Min b)) (vZ v)))
     (mk_vec3 (max64 (vX (Max b)) (vX v)) (max64 (vY (Max b)) (vY v)) (max64 (vZ (Max b)) (vZ v)))"

definition mesh_vertices :: "mesh \<Rightarrow> vec3 list" where
  "mesh_vertices m = concat (map (\<lambda>t. [V0 t, V1 t, V2 t]) (Triangles m))"

definition mesh_BoundingBox :: "mesh \<Rightarrow> box" where
  "mesh_BoundingBox m = (case Triangles m of
     [] \<Rightarrow> mk_box Vec3Zero Vec3Zero
   | t # _ \<Rightarrow> foldl box_include (mk_box (V0 t) (V0 t)) (mesh_vertices m))"

text \<open>Edge keys: vertices are compared by the bit patterns of their coordinates.\<close>

type_synonym meshVertexKey = "64 word \<times> 64 word \<times> 64 word"
type_synonym meshEdgeKey = "meshVertexKey \<times> meshVertexKey"

definition newMeshVertexKey :: "vec3 \<Rightarrow> meshVertexKey" where
  "newMeshVertexKey v = (f64_bits (vX v), f64_bits (vY v), f64_bits (vZ v))"

fun compareMeshVertexKey :: "meshVertexKey \<Rightarrow> meshVertexKey \<Rightarrow> int" where
  "compareMeshVertexKey (ax, ay, az) (bx, by', bz) =
     (if ax < bx then -1 else if bx < ax then 1
      else if ay < by' then -1 else if by' < ay then 1
      else if az < bz then -1 else if bz < az then 1
      else 0)"

definition newMeshEdgeKey :: "vec3 \<Rightarrow> vec3 \<Rightarrow> meshEdgeKey" where
  "newMeshEdgeKey a b =
     (let keyA = newMeshVertexKey a; keyB = newMeshVertexKey b in
      if compareMeshVertexKey keyA keyB \<le> 0 then (keyA, keyB) else (keyB, keyA))"

text \<open>Go maps as association lists in order of first insertion; the iteration order
  that \<open>range\<close> picks is an argument where the code ranges over a map.\<close>

fun alist_get :: "('k \<times> 'v) list \<Rightarrow> 'k \<Rightarrow> 'v option" where
  "alist_get [] k = None"
| "alist_get ((k', v) # m) k = (if k' = k then Some v else alist_get m k)"

fun alist_put :: "('k \<times> 'v) list \<Rightarrow> 'k \<Rightarrow> 'v \<Rightarrow> ('k \<times> 'v) list" where
  "alist_put [] k v = [(k, v)]"
| "alist_put ((k', v') # m) k v =
     (if k' = k then (k', v) # m else (k', v') # alist_put m k v)"

definition bump_edge :: "meshEdgeKey \<Rightarrow> (meshEdgeKey \<times> nat) list \<Rightarrow> (meshEdgeKey \<times> nat) list" where
  "bump_edge k m = alist_put m k (case alist_get m k of None \<Rightarrow> 1 | Some n \<Rightarrow> Suc n)"

datatype mesh_problem =
    MeshIsNil
  | MeshHasNoTriangles
  | TriangleNonFinite nat
  | TriangleDegenerate nat

datatype mesh_warning = NotWatertight nat

record MeshValidationIssues =
  Problems :: "mesh_problem list"
  Warnings :: "mesh_warning list"

definition HasProblems :: "MeshValidationIssues \<Rightarrow> bool" where
  "HasProblems issues \<longleftrightarrow> Problems issues \<noteq> []"

definition triangle_finite :: "triangle \<Rightarrow> bool" where
  "triangle_finite t \<longleftrightarrow> isFiniteVec3 (V0 t) \<and> isFiniteVec3 (V1 t) \<and> isFiniteVec3 (V2 t)"

definition triangle_degenerate :: "triangle \<Rightarrow> bool" where
  "triangle_degenerate t \<longleftrightarrow> fle (triangle_Area t) meshDegenerateAreaEpsilon"

text \<open>The loop of \<open>Mesh.Validate\<close>: the index, the problems so far, the edge counts.\<close>

fun validate_triangles ::
  "nat \<Rightarrow> triangle list \<Rightarrow> mesh_problem list \<Rightarrow> (meshEdgeKey \<times> nat) list
   \<Rightarrow> mesh_problem list \<times> (meshEdgeKey \<times> nat) list" where
  "validate_triangles i [] ps es = (ps, es)"
| "validate_triangles i (t # ts) ps es =
     (if \<not> triangle_finite t
        then validate_triangles (Suc i) ts (ps @ [TriangleNonFinite i]) es
      else if triangle_degenerate t
        then validate_triangles (Suc i) ts (ps @ [TriangleDegenerate i]) es
      else validate_triangles (Suc i) ts ps
        (bump_edge (newMeshEdgeKey (V2 t) (V0 t))
          (bump_edge (newMeshEdgeKey (V1 t) (V2 t))
            (bump_edge (newMeshEdgeKey (V0 t) (V1 t)) es))))"

definition mesh_Validate :: "mesh option \<Rightarrow> MeshValidationIssues option" where
  "mesh_Validate mo = (case mo of
     None \<Rightarrow> Some \<lparr>Problems = [MeshIsNil], Warnings = []\<rparr>
   | Some m \<Rightarrow>
       if Triangles m = [] then Some \<lparr>Problems = [MeshHasNoTriangles], Warnings = []\<rparr>
       else
         (let (ps, es) = validate_triangles 0 (Triangles m) [] [];
              openEdges = length (filter (\<lambda>(k, n). n \<noteq> 2) es);
              ws = (if 0 < openEdges then [NotWatertight openEdges] else []) in
          if ps = [] \<and> ws = [] then None
          else Some \<lparr>Problems = ps, Warnings = ws\<rparr>))"

text \<open>\<open>EnclosedVolume\<close>: the edge table with orientations, the adjacency lists built in
  the order \<open>iter\<close> that \<open>range\<close> visits the table, and the depth-first connectivity
  check.\<close>

record meshEdgeUse =
  count :: nat
  orientation :: int
  first :: nat
  second :: nat

definition zero_edge_use :: meshEdgeUse where
  "zero_edge_use = \<lparr>count = 0, orientation = 0, first = 0, second = 0\<rparr>"

definition addMeshEdgeUse ::
  "(meshEdgeKey \<times> meshEdgeUse) list \<Rightarrow> vec3 \<Rightarrow> vec3 \<Rightarrow> nat \<Rightarrow> (meshEdgeKey \<times> meshEdgeUse) list" where
  "addMeshEdgeUse edges a b triangleIndex =
     (let key = newMeshEdgeKey a b;
          use0 = (case alist_get edges key of None \<Rightarrow> zero_edge_use | Some u \<Rightarrow> u);
          use1 = (if count use0 = 0 then use0\<lparr>first := triangleIndex\<rparr>
                  else if count use0 = 1 then use0\<lparr>second := triangleIndex\<rparr> else use0);
          use2 = use1\<lparr>count := Suc (count use1)\<rparr>;
          use3 = (if newMeshVertexKey a = fst key
                  then use2\<lparr>orientation := orientation use2 + 1\<rparr>
                  else use2\<lparr>orientation := orientation use2 - 1\<rparr>) in
      alist_put edges key use3)"

text \<open>The first loop: \<open>None\<close> is the early \<open>return 0, false\<close>.\<close>

fun collect_edges ::
  "vec3 \<Rightarrow> nat \<Rightarrow> triangle list \<Rightarrow> f64 \<Rightarrow> (meshEdgeKey \<times> meshEdgeUse) list
   \<Rightarrow> (f64 \<times> (meshEdgeKey \<times> meshEdgeUse) list) option" where
  "collect_edges origin i [] vol edges = Some (vol, edges)"
| "collect_edges origin i (t # ts) vol edges =
     (if \<not> triangle_finite t \<or> triangle_degenerate t then None
      else collect_edges origin (Suc i) ts
        (fadd vol (vec3_Dot (vec3_Sub (V0 t) origin)
           (vec3_Cross (vec3_Sub (V1 t) origin) (vec3_Sub (V2 t) origin))))
        (addMeshEdgeUse
          (addMeshEdgeUse
            (addMeshEdgeUse edges (V0 t) (V1 t) i)
            (V1 t) (V2 t) i)
          (V2 t) (V0 t) i))"

fun build_adjacency :: "meshEdgeUse list \<Rightarrow> nat list list \<Rightarrow> nat list list option" where
  "build_adjacency [] adj = Some adj"
| "build_adjacency (e # es) adj =
     (if count e \<noteq> 2 \<or> orientation e \<noteq> 0 then None
      else
        (let adj1 = adj[first e := adj ! first e @ [second e]];
             adj2 = adj1[second e := adj1 ! second e @ [first e]] in
         build_adjacency es adj2))"

text \<open>\<open>meshTrianglesConnected\<close>: an explicit stack whose top is the list's head; a
  neighbour is marked when it is pushed.\<close>

fun push_neighbors :: "nat list \<Rightarrow> bool list \<Rightarrow> nat list \<Rightarrow> nat \<Rightarrow> bool list \<times> nat list \<times> nat" where
  "push_neighbors [] visited stack cnt = (visited, stack, cnt)"
| "push_neighbors (n # ns) visited stack cnt =
     (if n < length visited \<and> \<not> visited ! n
      then push_neighbors ns (visited[n := True]) (n # stack) (Suc cnt)
      else push_neighbors ns visited stack cnt)"

lemma push_neighbors_measure:
  "push_neighbors ns visited stack cnt = (visited', stack', cnt') \<Longrightarrow>
     count_list visited' False + length stack' = count_list visited False + length stack"
proof (induction ns visited stack cnt rule: push_neighbors.induct)
  case (2 n ns visited stack cnt)
  show ?case
  proof (cases "n < length visited \<and> \<not> visited ! n")
    case True
    with 2 have "count_list visited' False + length stack'
      = count_list (visited[n := True]) False + length (n # stack)" by simp
    with True count_list_update [of n visited False True] show ?thesis by simp
  next
    case False
    with 2 show ?thesis by auto
  qed
qed simp

function connect_loop :: "nat list list \<Rightarrow> bool list \<Rightarrow> nat list \<Rightarrow> nat \<Rightarrow> bool list \<times> nat" where
  "connect_loop adj visited [] cnt = (visited, cnt)"
| "connect_loop adj visited (t # stack) cnt =
     (let r = push_neighbors (adj ! t) visited stack cnt in
      connect_loop adj (fst r) (fst (snd r)) (snd (snd r)))"
  by pat_completeness auto
termination
proof (relation "measure (\<lambda>(adj, visited, stack, cnt). count_list visited False + length stack)",
    goal_cases)
  case (2 adj visited t stack cnt r)
  from 2 show ?case
    using push_neighbors_measure [of "adj ! t" visited stack cnt "fst r" "fst (snd r)" "snd (snd r)"]
    by (simp add: case_prod_beta)
qed simp

definition meshTrianglesConnected :: "nat list list \<Rightarrow> bool" where
  "meshTrianglesConnected adj =
     (snd (connect_loop adj ((replicate (length adj) False)[0 := True]) [0] 1) = length adj)"

definition EnclosedVolume ::
  "(meshEdgeUse list \<Rightarrow> meshEdgeUse list) \<Rightarrow> mesh option \<Rightarrow> f64 option" where
  "EnclosedVolume iter mo = (case mo of
     None \<Rightarrow> None
   | Some m \<Rightarrow>
     (case Triangles m of
        [] \<Rightarrow> None
      | t # _ \<Rightarrow>
        (case collect_edges (V0 t) 0 (Triangles m) (Zero False) [] of
           None \<Rightarrow> None
         | Some (signedSixVolume, edges) \<Rightarrow>
           (case build_adjacency (iter (map snd edges)) (replicate (length (Triangles m)) []) of
              None \<Rightarrow> None
            | Some adj \<Rightarrow>
                if \<not> meshTrianglesConnected adj then None
                else
                  (let volume = fdiv (fabs signedSixVolume) (round64 6) in
                   if is_nan volume \<or> is_inf volume \<or> fle volume (Zero False)
                   then None else Some volume)))))"

end
