(* ===== verification/Scene_Model.thy ===== *)
theory Scene_Model
  imports Geometry
begin

text \<open>
  The scene data of package scene (scene.go, room.go, material.go, portal.go, source.go,
  receiver.go) and acoustics.BandSpec, with the accessors the later stages call. A Go
  pointer or interface field is an \<open>option\<close>; a slice whose nil-ness the code tests is an
  \<open>option\<close> of a list; string-typed enumerations stay strings, because the code compares
  them as strings and accepts unknown ones until validation.

  \<open>math.Pow\<close> is the argument \<open>pow\<close> of the definitions that convert a sound reduction
  index to a transmission coefficient: its last bits are not fixed by Go.
\<close>

subsection \<open>Data\<close>

record band_spec =
  CenterFreqs :: "f64 list"
  LowerEdges :: "f64 list"
  UpperEdges :: "f64 list"

record material =
  Name :: string
  AbsorptionByBand :: "f64 list"
  Scattering :: "f64 list"
  ScatteringByBand :: "f64 list"
  TransmissionByBand :: "f64 list"
  SoundReductionIndex :: "f64 list"

record shoebox =
  Width :: f64
  Depth :: f64
  Height :: f64
  WallMaterials :: "string list"
  Origin :: vec3

record room =
  Kind :: string
  Shoebox :: "shoebox option"
  MeshPath :: string
  Mesh :: "mesh option"
  MeshMaterial :: string
  TriangleMaterials :: "string list option"

record portal =
  RoomIndices :: "int \<times> int"
  Polygon :: "vec3 list"
  Material :: string
  State :: string

record quaternion =
  qW :: f64
  qX :: f64
  qY :: f64
  qZ :: f64

text \<open>Directivity models and HRTF datasets are interface values; the scene layer only
  stores them and asks a dataset for its sample rate. The type parameters stand for the
  dynamic values.\<close>

record 'dir source =
  sPosition :: vec3
  sOrientation :: quaternion
  GainDB :: f64
  Directivity :: "'dir option"

record 'h receiver =
  rPosition :: vec3
  rOrientation :: quaternion
  rType :: string
  HRTF :: "'h option"

record ('dir, 'h) scene =
  Room :: room
  Rooms :: "room list"
  Portals :: "portal list"
  Materials :: "string \<rightharpoonup> material"
  Sources :: "'dir source list"
  Receivers :: "'h receiver list"
  BandSpec :: band_spec
  SampleRate :: int

definition PortalOpen :: string where "PortalOpen = ''open''"
definition PortalClosed :: string where "PortalClosed = ''closed''"
definition RoomKindShoebox :: string where "RoomKindShoebox = ''shoebox''"
definition RoomKindMesh :: string where "RoomKindMesh = ''mesh''"

definition BandCount :: "band_spec \<Rightarrow> int" where
  "BandCount b = int (length (CenterFreqs b))"

subsection \<open>Rooms of a scene (scene.go)\<close>

definition roomIsSet :: "room \<Rightarrow> bool" where
  "roomIsSet r \<longleftrightarrow> Kind r \<noteq> '''' \<or> Shoebox r \<noteq> None \<or> Mesh r \<noteq> None \<or>
     MeshPath r \<noteq> '''' \<or> MeshMaterial r \<noteq> ''''"

definition RoomCount :: "('dir, 'h) scene \<Rightarrow> int" where
  "RoomCount s =
     (if Rooms s \<noteq> [] then int (length (Rooms s))
      else if roomIsSet (Room s) then 1 else 0)"

definition RoomAt :: "('dir, 'h) scene \<Rightarrow> int \<Rightarrow> room option" where
  "RoomAt s index =
     (if index < 0 then None
      else if Rooms s \<noteq> [] then slice_at (Rooms s) index
      else if index = 0 \<and> roomIsSet (Room s) then Some (Room s) else None)"

subsection \<open>Rooms (room.go)\<close>

definition shoebox_Bounds :: "shoebox \<Rightarrow> box" where
  "shoebox_Bounds s =
     NewBox (Origin s) (vec3_Add (Origin s) (mk_vec3 (Width s) (Depth s) (Height s)))"

definition TriangleMaterialName :: "room \<Rightarrow> int \<Rightarrow> string" where
  "TriangleMaterialName r index =
     (let names = (case TriangleMaterials r of None \<Rightarrow> [] | Some ns \<Rightarrow> ns) in
      if index < 0 \<or> int (length names) \<le> index then MeshMaterial r
      else if names ! nat index \<noteq> '''' then names ! nat index
      else MeshMaterial r)"

definition MaterialFullyReflective :: material where
  "MaterialFullyReflective = \<lparr>Name = ''fully_reflective'',
     AbsorptionByBand = [Zero False], Scattering = replicate 6 (Zero False),
     ScatteringByBand = [Zero False], TransmissionByBand = [], SoundReductionIndex = []\<rparr>"

definition MaterialFullyAbsorptive :: material where
  "MaterialFullyAbsorptive = \<lparr>Name = ''fully_absorptive'',
     AbsorptionByBand = [round64 1], Scattering = replicate 6 (Zero False),
     ScatteringByBand = [Zero False], TransmissionByBand = [], SoundReductionIndex = []\<rparr>"

definition MaterialForTriangle :: "room \<Rightarrow> int \<Rightarrow> (string \<rightharpoonup> material) \<Rightarrow> material" where
  "MaterialForTriangle r index materials =
     (let name = TriangleMaterialName r index in
      if name = '''' then MaterialFullyReflective
      else case materials name of None \<Rightarrow> MaterialFullyReflective | Some m \<Rightarrow> m)"

definition IsMesh :: "room \<Rightarrow> bool" where
  "IsMesh r \<longleftrightarrow> Kind r = RoomKindMesh"

definition IsValid :: "room \<Rightarrow> bool" where
  "IsValid r =
     (if Kind r = RoomKindShoebox then Shoebox r \<noteq> None
      else if Kind r = RoomKindMesh then Mesh r \<noteq> None else False)"

definition room_Bounds :: "room \<Rightarrow> box option" where
  "room_Bounds r =
     (if Kind r = RoomKindShoebox then map_option shoebox_Bounds (Shoebox r)
      else if Kind r = RoomKindMesh then
        (case Mesh r of None \<Rightarrow> None
         | Some m \<Rightarrow>
             if Triangles m = [] then None
             else (let bounds = mesh_BoundingBox m in
                   if fle (box_Volume bounds) (Zero False) then None else Some bounds))
      else None)"

definition positiveFiniteDimension :: "f64 \<Rightarrow> bool" where
  "positiveFiniteDimension v \<longleftrightarrow> flt (Zero False) v \<and> \<not> is_nan v \<and> \<not> is_inf v"

definition room_Volume :: "(meshEdgeUse list \<Rightarrow> meshEdgeUse list) \<Rightarrow> room \<Rightarrow> f64 option" where
  "room_Volume iter r =
     (if Kind r = RoomKindShoebox then
        (case Shoebox r of None \<Rightarrow> None
         | Some sb \<Rightarrow>
             if \<not> positiveFiniteDimension (Width sb) \<or> \<not> positiveFiniteDimension (Depth sb) \<or>
                \<not> positiveFiniteDimension (Height sb) then None
             else (let volume = fmul (fmul (Width sb) (Depth sb)) (Height sb) in
                   if positiveFiniteDimension volume then Some volume else None))
      else if Kind r = RoomKindMesh then
        (case Mesh r of None \<Rightarrow> None | Some m \<Rightarrow> EnclosedVolume iter (Some m))
      else None)"

text \<open>\<open>RoomIndexAt\<close> and \<open>GroupOfPosition\<close> scan the rooms in order; \<open>RoomIndexAt\<close> gives up
  at the second match.\<close>

definition room_contains :: "('dir, 'h) scene \<Rightarrow> vec3 \<Rightarrow> int \<Rightarrow> bool" where
  "room_contains s p index = (case RoomAt s index of
     None \<Rightarrow> False
   | Some r \<Rightarrow> (case room_Bounds r of None \<Rightarrow> False | Some b \<Rightarrow> box_Contains b p))"

fun RoomIndexAt_scan :: "('dir, 'h) scene \<Rightarrow> vec3 \<Rightarrow> int list \<Rightarrow> int \<Rightarrow> int option" where
  "RoomIndexAt_scan s p [] match = (if 0 \<le> match then Some match else None)"
| "RoomIndexAt_scan s p (index # rest) match =
     (if \<not> room_contains s p index then RoomIndexAt_scan s p rest match
      else if 0 \<le> match then None
      else RoomIndexAt_scan s p rest index)"

definition RoomIndexAt :: "('dir, 'h) scene \<Rightarrow> vec3 \<Rightarrow> int option" where
  "RoomIndexAt s p = RoomIndexAt_scan s p [0..RoomCount s - 1] (-1)"

subsection \<open>Materials (material.go)\<close>

definition TransmissionFromSoundReductionIndex :: "(f64 \<Rightarrow> f64 \<Rightarrow> f64) \<Rightarrow> f64 \<Rightarrow> f64" where
  "TransmissionFromSoundReductionIndex pow reductionDB =
     pow (round64 10) (fdiv (fneg reductionDB) (round64 10))"

definition coefficientAt :: "f64 list \<Rightarrow> int \<Rightarrow> f64 option" where
  "coefficientAt values bandIndex =
     (if values = [] then None
      else if length values = 1 then Some (values ! 0)
      else if int (length values) \<le> bandIndex then None
      else Some (values ! nat bandIndex))"

definition material_TransmissionAt :: "(f64 \<Rightarrow> f64 \<Rightarrow> f64) \<Rightarrow> material \<Rightarrow> int \<Rightarrow> f64" where
  "material_TransmissionAt pow m bandIndex =
     (if bandIndex < 0 then Zero False
      else case coefficientAt (TransmissionByBand m) bandIndex of
        Some v \<Rightarrow> v
      | None \<Rightarrow>
          (case coefficientAt (SoundReductionIndex m) bandIndex of
             Some reduction \<Rightarrow> TransmissionFromSoundReductionIndex pow reduction
           | None \<Rightarrow> Zero False))"

definition AbsorptionAt :: "material \<Rightarrow> int \<Rightarrow> f64" where
  "AbsorptionAt m bandIndex =
     (if bandIndex < 0 \<or> AbsorptionByBand m = [] then Zero False
      else if length (AbsorptionByBand m) = 1 then AbsorptionByBand m ! 0
      else if int (length (AbsorptionByBand m)) \<le> bandIndex then Zero False
      else AbsorptionByBand m ! nat bandIndex)"

text \<open>\<open>copy\<close> into a fresh slice of \<open>bandCount\<close> zeros, then repeat the last copied value.\<close>

definition copy_and_fill :: "f64 list \<Rightarrow> nat \<Rightarrow> f64 list" where
  "copy_and_fill src n =
     (let copied = min n (length src);
          out = take copied src @ replicate (n - copied) (Zero False) in
      if 0 < copied then take copied out @ replicate (n - copied) (out ! (copied - 1))
      else out)"

definition ScatteringCoefficients :: "material \<Rightarrow> int \<Rightarrow> f64 list" where
  "ScatteringCoefficients m bandCount =
     (if bandCount \<le> 0 then []
      else if int (length (ScatteringByBand m)) = bandCount then ScatteringByBand m
      else if ScatteringByBand m \<noteq> [] then copy_and_fill (ScatteringByBand m) (nat bandCount)
      else copy_and_fill (Scattering m) (nat bandCount))"

subsection \<open>Portals (portal.go)\<close>

definition portalGeometryTolerance :: f64 where
  "portalGeometryTolerance = round64 (1 / 10 ^ 7)"

fun portal_normal_scan :: "vec3 \<Rightarrow> vec3 list \<Rightarrow> vec3" where
  "portal_normal_scan origin (a # b # rest) =
     (let normal = vec3_Cross (vec3_Sub a origin) (vec3_Sub b origin) in
      if flt portalGeometryTolerance (vec3_Norm normal) then vec3_Normalize normal
      else portal_normal_scan origin (b # rest))"
| "portal_normal_scan origin _ = Vec3Zero"

definition portal_Normal :: "portal \<Rightarrow> vec3" where
  "portal_Normal p =
     (if length (Polygon p) < 3 then Vec3Zero
      else portal_normal_scan (Polygon p ! 0) (tl (Polygon p)))"

definition portal_Area :: "portal \<Rightarrow> f64" where
  "portal_Area p =
     (let normal = portal_Normal p; poly = Polygon p; n = length poly in
      if vec3_eq normal Vec3Zero then Zero False
      else fmul (fabs (foldl (\<lambda>acc i.
             fadd acc (vec3_Dot (vec3_Cross (poly ! i) (poly ! ((i + 1) mod n))) normal))
             (Zero False) [0..<n])) (round64 (1 / 2)))"

definition portal_TransmissionAt ::
  "(f64 \<Rightarrow> f64 \<Rightarrow> f64) \<Rightarrow> portal \<Rightarrow> (string \<rightharpoonup> material) \<Rightarrow> int \<Rightarrow> f64" where
  "portal_TransmissionAt pow p materials bandIndex =
     (if State p = PortalOpen then round64 1
      else case materials (Material p) of
        None \<Rightarrow> Zero False
      | Some m \<Rightarrow> material_TransmissionAt pow m bandIndex)"

subsection \<open>Facts about rooms and coefficients\<close>

lemma RoomAt_Some_iff_index:
  "RoomAt s index \<noteq> None \<longleftrightarrow> 0 \<le> index \<and> index < RoomCount s"
  by (auto simp: RoomAt_def RoomCount_def slice_at_def)

lemma RoomCount_nonneg [simp]: "0 \<le> RoomCount s"
  by (simp add: RoomCount_def)

lemma RoomIndexAt_scan_Some_iff:
  assumes "distinct is" "\<forall>i \<in> set is. 0 \<le> i" "0 \<le> match \<longrightarrow> match \<notin> set is"
  shows "RoomIndexAt_scan s p is match = Some r \<longleftrightarrow>
    (if 0 \<le> match then r = match \<and> (\<forall>i \<in> set is. \<not> room_contains s p i)
     else r \<in> set is \<and> room_contains s p r \<and>
       (\<forall>i \<in> set is. room_contains s p i \<longrightarrow> i = r))"
  using assms
proof (induction "is" arbitrary: match)
  case Nil
  then show ?case by auto
next
  case (Cons a as)
  show ?case
  proof (cases "room_contains s p a")
    case False
    with Cons show ?thesis by auto
  next
    case True
    show ?thesis
    proof (cases "0 \<le> match")
      case True
      with \<open>room_contains s p a\<close> show ?thesis by auto
    next
      case False
      have "RoomIndexAt_scan s p as a = Some r \<longleftrightarrow>
        r = a \<and> (\<forall>i \<in> set as. \<not> room_contains s p i)"
        using Cons by simp
      with True False Cons.prems show ?thesis by auto
    qed
  qed
qed

lemma RoomIndexAt_Some_iff:
  "RoomIndexAt s p = Some r \<longleftrightarrow>
     0 \<le> r \<and> r < RoomCount s \<and> room_contains s p r \<and>
     (\<forall>i. 0 \<le> i \<longrightarrow> i < RoomCount s \<longrightarrow> room_contains s p i \<longrightarrow> i = r)"
proof -
  have "RoomIndexAt s p = Some r \<longleftrightarrow>
    r \<in> set [0..RoomCount s - 1] \<and> room_contains s p r \<and>
    (\<forall>i \<in> set [0..RoomCount s - 1]. room_contains s p i \<longrightarrow> i = r)"
  proof -
    have d: "distinct [0..RoomCount s - 1]" by (rule distinct_upto)
    have n: "\<forall>i \<in> set [0..RoomCount s - 1]. 0 \<le> i" by (auto simp only: set_upto atLeastAtMost_iff)
    show ?thesis
      using RoomIndexAt_scan_Some_iff [OF d n, of "-1" s p r] unfolding RoomIndexAt_def by simp
  qed
  moreover have "i \<in> set [0..RoomCount s - 1] \<longleftrightarrow> 0 \<le> i \<and> i < RoomCount s" for i
    unfolding set_upto atLeastAtMost_iff by linarith
  ultimately show ?thesis by blast
qed

subsection \<open>The geometric tolerance\<close>

lemma portalGeometryTolerance_bounds:
  "\<exists>t. portalGeometryTolerance = Num t \<and> 0 < t \<and> t < 1 / 1000000"
proof -
  have r: "representable (2 powi (-24))" "representable (2 powi (-23))"
    by (rule representableI [of _ 1 "-24"], simp_all, rule representableI [of _ 1 "-23"], simp_all)
  have "fle (fof (2 powi (-24))) portalGeometryTolerance"
    unfolding portalGeometryTolerance_def
    by (rule round64_ge_representable [OF r(1)]) (simp add: power_int_minus)
  moreover have "fle portalGeometryTolerance (fof (2 powi (-23)))"
    unfolding portalGeometryTolerance_def
    by (rule round64_le_representable [OF r(2)]) (simp add: power_int_minus)
  ultimately have "\<exists>t. round64 (1 / 10 ^ 7) = Num t \<and> 0 < t \<and> t < 1 / 1000000"
    unfolding portalGeometryTolerance_def
    by (cases "round64 (1 / 10 ^ 7)") (auto simp: fle_def power_int_minus split: if_splits)
  then show ?thesis by (simp add: portalGeometryTolerance_def)
qed

lemma tolerance_facts [simp]:
  "\<not> is_nan portalGeometryTolerance" "\<not> is_inf portalGeometryTolerance"
  "\<not> is_fzero portalGeometryTolerance" "\<not> fneg_bit portalGeometryTolerance"
  "ford portalGeometryTolerance = 0" "0 < fval portalGeometryTolerance" "0 \<le> fval portalGeometryTolerance"
  "fval portalGeometryTolerance < 1"
proof -
  obtain t where t: "portalGeometryTolerance = Num t" "0 < t" "t < 1 / 1000000"
    using portalGeometryTolerance_bounds by blast
  show "\<not> is_nan portalGeometryTolerance" "\<not> is_inf portalGeometryTolerance"
    "\<not> is_fzero portalGeometryTolerance" "\<not> fneg_bit portalGeometryTolerance"
    "ford portalGeometryTolerance = 0" "0 < fval portalGeometryTolerance" "0 \<le> fval portalGeometryTolerance"
    "fval portalGeometryTolerance < 1"
    unfolding t(1) using t(2,3) by simp_all
qed

end
