(* ===== verification/Scene_Hash.thy ===== *)
theory Scene_Hash
  imports Scene_Model
begin

text \<open>
  Content hashes of a scene (hash.go): FNV-1a over 64 bits, fed by the writer methods of
  \<open>sceneHashWriter\<close>. The writer is the running hash value; the lemmas show that each
  writer method appends a byte string, so facts about hashes are facts about the bytes
  written. The group hash decides when derived geometry stays cached.
\<close>

unbundle bit_operations_syntax

subsection \<open>FNV-1a (hash/fnv) and little-endian words (encoding/binary)\<close>

type_synonym hashw = "64 word"

definition fnv_offset64 :: hashw where
  "fnv_offset64 = 14695981039346656037"

definition fnv_prime64 :: hashw where
  "fnv_prime64 = 1099511628211"

definition fnv_byte :: "hashw \<Rightarrow> byte \<Rightarrow> hashw" where
  "fnv_byte h b = (h XOR ucast b) * fnv_prime64"

definition hash_Write :: "byte list \<Rightarrow> hashw \<Rightarrow> hashw" where
  "hash_Write bs h = foldl fnv_byte h bs"

definition newSceneHashWriter :: hashw where
  "newSceneHashWriter = fnv_offset64"

definition le64 :: "64 word \<Rightarrow> byte list" where
  "le64 w = map (\<lambda>i. ucast (drop_bit (8 * i) w)) [0..<8]"

definition string_bytes :: "string \<Rightarrow> byte list" where
  "string_bytes s = map of_char s"

subsection \<open>The writer methods (hash.go)\<close>

definition writeFloat :: "f64 \<Rightarrow> hashw \<Rightarrow> hashw" where
  "writeFloat v = hash_Write (le64 (f64_bits v))"

definition writeVec3 :: "vec3 \<Rightarrow> hashw \<Rightarrow> hashw" where
  "writeVec3 v h = writeFloat (vZ v) (writeFloat (vY v) (writeFloat (vX v) h))"

definition writeString :: "string \<Rightarrow> hashw \<Rightarrow> hashw" where
  "writeString value h =
     hash_Write (string_bytes value) (writeFloat (f64_of_int (int (length value))) h)"

definition writeTriangle :: "triangle \<Rightarrow> hashw \<Rightarrow> hashw" where
  "writeTriangle t h = writeVec3 (V2 t) (writeVec3 (V1 t) (writeVec3 (V0 t) h))"

definition writeRoom :: "('dir, 'h) scene \<Rightarrow> int \<Rightarrow> hashw \<Rightarrow> hashw" where
  "writeRoom s roomIndex h = (case RoomAt s roomIndex of
     None \<Rightarrow> h
   | Some room \<Rightarrow>
       (let h1 = hash_Write (string_bytes (Kind room)) (writeFloat (f64_of_int roomIndex) h);
            h2 = (case Shoebox room of None \<Rightarrow> h1
                  | Some sb \<Rightarrow>
                      writeVec3 (mk_vec3 (Width sb) (Depth sb) (Height sb))
                        (writeVec3 (Origin sb) h1)) in
        case Mesh room of None \<Rightarrow> h2
        | Some m \<Rightarrow> fold writeTriangle (Triangles m) h2))"

definition triangle_materials :: "room \<Rightarrow> string list" where
  "triangle_materials r = (case TriangleMaterials r of None \<Rightarrow> [] | Some ns \<Rightarrow> ns)"

definition writeRoomMaterials :: "('dir, 'h) scene \<Rightarrow> int \<Rightarrow> hashw \<Rightarrow> hashw" where
  "writeRoomMaterials s roomIndex h = (case RoomAt s roomIndex of
     None \<Rightarrow> h
   | Some room \<Rightarrow>
       (let h1 = (case Shoebox room of None \<Rightarrow> h
                  | Some sb \<Rightarrow> fold writeString (WallMaterials sb) h);
            h2 = writeString (MeshMaterial room) h1 in
        fold writeString (triangle_materials room) h2))"

definition writePortal :: "int \<Rightarrow> portal \<Rightarrow> hashw \<Rightarrow> hashw" where
  "writePortal portalIndex p h =
     fold writeVec3 (Polygon p)
       (hash_Write (string_bytes (State p))
         (writeFloat (f64_of_int (snd (RoomIndices p)))
           (writeFloat (f64_of_int (fst (RoomIndices p)))
             (writeFloat (f64_of_int portalIndex) h))))"

definition indexed :: "'a list \<Rightarrow> (int \<times> 'a) list" where
  "indexed xs = zip (map int [0..<length xs]) xs"

definition writeRoomsAndPortals :: "('dir, 'h) scene \<Rightarrow> hashw \<Rightarrow> hashw" where
  "writeRoomsAndPortals s h =
     fold (\<lambda>(i, p). writePortal i p) (indexed (Portals s))
       (fold (writeRoom s) [0..RoomCount s - 1] h)"

definition GeometryHash :: "('dir, 'h) scene \<Rightarrow> hashw" where
  "GeometryHash s =
     fold (\<lambda>r. writeVec3 (rPosition r)) (Receivers s)
       (fold (\<lambda>src. writeVec3 (sPosition src)) (Sources s)
         (writeRoomsAndPortals s newSceneHashWriter))"

definition RoomHash :: "('dir, 'h) scene \<Rightarrow> hashw" where
  "RoomHash s = writeRoomsAndPortals s newSceneHashWriter"

text \<open>The portals a group hash covers: those with at least one end among the rooms.\<close>

definition incident_portals :: "('dir, 'h) scene \<Rightarrow> int list \<Rightarrow> (int \<times> portal) list" where
  "incident_portals s rooms =
     filter (\<lambda>(i, p). fst (RoomIndices p) \<in> set rooms \<or> snd (RoomIndices p) \<in> set rooms)
       (indexed (Portals s))"

definition RoomGroupHash :: "('dir, 'h) scene \<Rightarrow> int list \<Rightarrow> hashw" where
  "RoomGroupHash s roomIndices =
     fold (\<lambda>(i, p). writePortal i p) (incident_portals s roomIndices)
       (fold (\<lambda>r h. writeRoomMaterials s r (writeRoom s r h)) roomIndices newSceneHashWriter)"

subsection \<open>The group signature (group_signature.go)\<close>

definition writeMaterial :: "('dir, 'h) scene \<Rightarrow> string \<Rightarrow> hashw \<Rightarrow> hashw" where
  "writeMaterial s name h =
     (let h1 = hash_Write (string_bytes name) h in
      case Materials s name of None \<Rightarrow> h1
      | Some m \<Rightarrow>
          fold writeFloat (Scattering m)
            (fold (\<lambda>values. fold writeFloat values)
              [AbsorptionByBand m, ScatteringByBand m, TransmissionByBand m,
               SoundReductionIndex m] h1))"

definition writeShoeboxMaterials :: "('dir, 'h) scene \<Rightarrow> int \<Rightarrow> hashw \<Rightarrow> hashw" where
  "writeShoeboxMaterials s roomIndex h = (case RoomAt s roomIndex of
     None \<Rightarrow> h
   | Some room \<Rightarrow>
       (let h1 = (case Shoebox room of None \<Rightarrow> h
                  | Some sb \<Rightarrow> fold (writeMaterial s) (WallMaterials sb) h);
            h2 = writeMaterial s (MeshMaterial room) h1 in
        fold (writeMaterial s) (triangle_materials room) h2))"

definition writePortalMaterial :: "('dir, 'h) scene \<Rightarrow> portal \<Rightarrow> hashw \<Rightarrow> hashw" where
  "writePortalMaterial s p = writeMaterial s (Material p)"

text \<open>The signature of a group, given the group's rooms.\<close>

definition RoomsSignature :: "('dir, 'h) scene \<Rightarrow> int list \<Rightarrow> hashw" where
  "RoomsSignature s rooms =
     fold (\<lambda>(i, p) h. writePortalMaterial s p (writePortal i p h)) (incident_portals s rooms)
       (fold (\<lambda>r h. writeShoeboxMaterials s r (writeRoom s r h)) rooms newSceneHashWriter)"

subsection \<open>Writers append bytes\<close>

lemma hash_Write_Nil [simp]: "hash_Write [] h = h"
  by (simp add: hash_Write_def)

lemma hash_Write_append: "hash_Write (xs @ ys) h = hash_Write ys (hash_Write xs h)"
  by (simp add: hash_Write_def)

lemma fold_hash_Write:
  assumes "\<And>x h. x \<in> set xs \<Longrightarrow> f x h = hash_Write (b x) h"
  shows "fold f xs h = hash_Write (concat (map b xs)) h"
  using assms by (induction xs arbitrary: h) (simp_all add: hash_Write_append)

definition float_bytes :: "f64 \<Rightarrow> byte list" where
  "float_bytes v = le64 (f64_bits v)"

definition vec3_bytes :: "vec3 \<Rightarrow> byte list" where
  "vec3_bytes v = float_bytes (vX v) @ float_bytes (vY v) @ float_bytes (vZ v)"

definition portal_bytes :: "int \<Rightarrow> portal \<Rightarrow> byte list" where
  "portal_bytes i p =
     float_bytes (f64_of_int i) @ float_bytes (f64_of_int (fst (RoomIndices p))) @
     float_bytes (f64_of_int (snd (RoomIndices p))) @ string_bytes (State p) @
     concat (map vec3_bytes (Polygon p))"

definition material_bytes :: "('dir, 'h) scene \<Rightarrow> string \<Rightarrow> byte list" where
  "material_bytes s name = string_bytes name @
     (case Materials s name of None \<Rightarrow> []
      | Some m \<Rightarrow> concat (map float_bytes
          (AbsorptionByBand m @ ScatteringByBand m @ TransmissionByBand m @
           SoundReductionIndex m @ Scattering m)))"

lemma writeFloat_bytes: "writeFloat v h = hash_Write (float_bytes v) h"
  by (simp add: writeFloat_def float_bytes_def)

lemma writeVec3_bytes: "writeVec3 v h = hash_Write (vec3_bytes v) h"
  by (simp add: writeVec3_def vec3_bytes_def writeFloat_bytes hash_Write_append)

lemma writePortal_bytes: "writePortal i p h = hash_Write (portal_bytes i p) h"
  unfolding writePortal_def portal_bytes_def
  by (subst fold_hash_Write [of _ _ vec3_bytes])
    (simp_all add: writeVec3_bytes writeFloat_bytes hash_Write_append)

lemma writeMaterial_bytes: "writeMaterial s name h = hash_Write (material_bytes s name) h"
proof (cases "Materials s name")
  case None
  then show ?thesis by (simp add: writeMaterial_def material_bytes_def)
next
  case (Some m)
  have f: "fold writeFloat vs h = hash_Write (concat (map float_bytes vs)) h" for vs h
    by (rule fold_hash_Write) (simp add: writeFloat_bytes)
  from Some show ?thesis
    by (simp add: writeMaterial_def material_bytes_def Let_def f hash_Write_append)
qed

subsection \<open>What the hashes depend on\<close>

lemma RoomCount_cong:
  "Room s' = Room s \<Longrightarrow> Rooms s' = Rooms s \<Longrightarrow> RoomCount s' = RoomCount s"
  by (simp add: RoomCount_def)

lemma RoomAt_cong:
  "Room s' = Room s \<Longrightarrow> Rooms s' = Rooms s \<Longrightarrow> RoomAt s' = RoomAt s"
  by (rule ext) (simp add: RoomAt_def)

lemma writers_cong:
  assumes "Room s' = Room s" "Rooms s' = Rooms s"
  shows "writeRoom s' = writeRoom s" "writeRoomMaterials s' = writeRoomMaterials s"
  using RoomAt_cong [OF assms]
  by (intro ext; simp add: writeRoom_def writeRoomMaterials_def)+

text \<open>A change of the portal at one index that keeps the others and touches no portal of
  the group leaves what a group hash covers unchanged.\<close>

lemma indexed_nth: "i < length xs \<Longrightarrow> indexed xs ! i = (int i, xs ! i)"
  by (simp add: indexed_def)

lemma length_indexed [simp]: "length (indexed xs) = length xs"
  by (simp add: indexed_def)

lemma indexed_update:
  "indexed (xs[k := y]) = (indexed xs)[k := (int k, y)]"
proof (rule nth_equalityI)
  fix i assume "i < length (indexed (xs[k := y]))"
  then show "indexed (xs[k := y]) ! i = (indexed xs)[k := (int k, y)] ! i"
    by (cases "i = k") (simp_all add: indexed_nth)
qed simp

lemma filter_update_skip:
  assumes "k < length xs" "\<not> P (xs ! k)" "\<not> P y"
  shows "filter P (xs[k := y]) = filter P xs"
proof -
  have "xs[k := y] = take k xs @ y # drop (Suc k) xs"
    using assms(1) by (rule upd_conv_take_nth_drop)
  moreover have "xs = take k xs @ xs ! k # drop (Suc k) xs"
    using assms(1) by (rule id_take_nth_drop)
  ultimately show ?thesis using assms(2,3) by (metis filter.simps(2) filter_append)
qed

lemma incident_portals_skip:
  assumes "k < length (Portals s)"
    and "fst (RoomIndices (Portals s ! k)) \<notin> set rooms"
    and "snd (RoomIndices (Portals s ! k)) \<notin> set rooms"
    and "RoomIndices p = RoomIndices (Portals s ! k)"
  shows "incident_portals (s\<lparr>Portals := (Portals s)[k := p]\<rparr>) rooms = incident_portals s rooms"
  unfolding incident_portals_def
  using assms by (simp add: indexed_update) (rule filter_update_skip, simp_all add: indexed_nth)

lemma RoomGroupHash_other_portal:
  assumes "k < length (Portals s)"
    and "fst (RoomIndices (Portals s ! k)) \<notin> set rooms"
    and "snd (RoomIndices (Portals s ! k)) \<notin> set rooms"
    and "RoomIndices p = RoomIndices (Portals s ! k)"
  shows "RoomGroupHash (s\<lparr>Portals := (Portals s)[k := p]\<rparr>) rooms = RoomGroupHash s rooms"
  using incident_portals_skip [OF assms]
    writers_cong [of "s\<lparr>Portals := (Portals s)[k := p]\<rparr>" s]
  by (simp add: RoomGroupHash_def)

lemma RoomsSignature_other_portal:
  assumes "k < length (Portals s)"
    and "fst (RoomIndices (Portals s ! k)) \<notin> set rooms"
    and "snd (RoomIndices (Portals s ! k)) \<notin> set rooms"
    and "RoomIndices p = RoomIndices (Portals s ! k)"
  shows "RoomsSignature (s\<lparr>Portals := (Portals s)[k := p]\<rparr>) rooms = RoomsSignature s rooms"
proof -
  let ?s' = "s\<lparr>Portals := (Portals s)[k := p]\<rparr>"
  have w: "writeMaterial ?s' = writeMaterial s" by (intro ext) (simp add: writeMaterial_def)
  have "writeShoeboxMaterials ?s' = writeShoeboxMaterials s"
    unfolding writeShoeboxMaterials_def fun_eq_iff w by (simp add: RoomAt_cong [of ?s' s])
  moreover have "writePortalMaterial ?s' = writePortalMaterial s"
    unfolding writePortalMaterial_def fun_eq_iff w by simp
  ultimately show ?thesis
    using incident_portals_skip [OF assms] writers_cong [of ?s' s]
    by (simp add: RoomsSignature_def)
qed

subsection \<open>Material independence\<close>

definition same_room_geometry :: "room \<Rightarrow> room \<Rightarrow> bool" where
  "same_room_geometry r r' \<longleftrightarrow> Kind r = Kind r' \<and> Mesh r = Mesh r' \<and>
     map_option (\<lambda>sb. (Origin sb, Width sb, Depth sb, Height sb)) (Shoebox r) =
     map_option (\<lambda>sb. (Origin sb, Width sb, Depth sb, Height sb)) (Shoebox r')"

definition portal_key :: "portal \<Rightarrow> (int \<times> int) \<times> string \<times> vec3 list" where
  "portal_key p = (RoomIndices p, State p, Polygon p)"

lemma writeRoom_same_geometry:
  assumes "rel_option same_room_geometry (RoomAt s i) (RoomAt s' i)"
  shows "writeRoom s i h = writeRoom s' i h"
  using assms
  by (cases "RoomAt s i"; cases "RoomAt s' i")
    (auto simp: writeRoom_def same_room_geometry_def Let_def split: option.splits)

lemma fold_writePortal_key:
  assumes "map portal_key ps = map portal_key ps'"
  shows "fold (\<lambda>(i, p). writePortal i p) (indexed ps) h =
    fold (\<lambda>(i, p). writePortal i p) (indexed ps') h"
proof -
  define wr where "wr = (\<lambda>(i, (ri, st, poly)) h.
    writePortal i \<lparr>RoomIndices = ri, Polygon = poly, Material = '''', State = st\<rparr> h)"
  have p: "writePortal i p h = wr (i, portal_key p) h" for i p h
    by (simp add: wr_def portal_key_def writePortal_def)
  have f: "fold (\<lambda>(i, p). writePortal i p) (indexed ps) h = fold wr (indexed (map portal_key ps)) h"
    for ps h
  proof -
    have "indexed (map portal_key ps) = map (\<lambda>(i, p). (i, portal_key p)) (indexed ps)"
      by (simp add: indexed_def zip_map2 map_prod_def)
    moreover have "(\<lambda>(i, p). writePortal i p) = (\<lambda>(i, p). wr (i, portal_key p))"
      by (auto simp: fun_eq_iff p)
    ultimately show ?thesis by (simp add: fold_map comp_def split_def)
  qed
  show ?thesis unfolding f assms ..
qed

lemma writeRoomsAndPortals_same_geometry:
  assumes "RoomCount s = RoomCount s'" "\<And>i. rel_option same_room_geometry (RoomAt s i) (RoomAt s' i)"
    "map portal_key (Portals s) = map portal_key (Portals s')"
  shows "writeRoomsAndPortals s h = writeRoomsAndPortals s' h"
proof -
  have "writeRoom s = writeRoom s'" by (intro ext writeRoom_same_geometry assms(2))
  with assms(1) fold_writePortal_key [OF assms(3)] show ?thesis
    by (simp add: writeRoomsAndPortals_def)
qed

lemma RoomsSignature_cong:
  assumes "Room s' = Room s" "Rooms s' = Rooms s" "Portals s' = Portals s"
    "\<And>name. material_bytes s' name = material_bytes s name"
  shows "RoomsSignature s' = RoomsSignature s"
proof -
  have w: "writeMaterial s' = writeMaterial s"
    by (intro ext) (simp add: writeMaterial_bytes assms(4))
  have "writeShoeboxMaterials s' = writeShoeboxMaterials s"
    unfolding writeShoeboxMaterials_def fun_eq_iff w by (simp add: RoomAt_cong [OF assms(1,2)])
  moreover have "writePortalMaterial s' = writePortalMaterial s"
    unfolding writePortalMaterial_def fun_eq_iff w by simp
  ultimately show ?thesis
    using writers_cong [OF assms(1,2)] assms(3)
    by (simp add: RoomsSignature_def fun_eq_iff incident_portals_def)
qed

end
