(* ===== verification/Validation.thy ===== *)
theory Validation
  imports Scene_Model Scene_Hash
begin

text \<open>
  Scene validation (validate.go). Every check is a definition that returns the list of
  errors it appends, in the order the code appends them; a \<open>fmt.Errorf\<close> message is a
  constructor with the values it prints, and the \<open>room[i]:\<close> prefix of a wrapped error is
  \<open>InRoom\<close>. The loop over the material map takes the order \<open>names\<close> in which Go ranges over
  it. \<open>rate\<close> is the \<open>SampleRate\<close> method of the HRTF interface. The log line about
  non-monotonic scattering is \<open>scatteringWarning\<close>.
\<close>

subsection \<open>Errors\<close>

datatype (plugins only: code) room_error =
    RoomKindUnset
  | ShoeboxMissing
  | ShoeboxSetsTriangleMaterials
  | ShoeboxOriginNotFinite
  | ShoeboxWidthInvalid
  | ShoeboxDepthInvalid
  | ShoeboxHeightInvalid
  | WallMaterialEmpty nat
  | MeshMissing
  | TriangleMaterialCount nat nat
  | MeshInvalid MeshValidationIssues
  | MeshBoundsVolume

datatype (plugins only: code) portal_error =
    PortalRoomOutOfRange int
  | PortalSameRoom
  | PortalUnsupportedState string
  | PortalUndefinedMaterial string
  | PolygonTooSmall
  | PolygonVertexNotFinite nat
  | PolygonZeroArea
  | PolygonNotCoplanar
  | PolygonNotOnBoundary int
  | PolygonWinding int int

datatype (plugins only: code) scene_error =
    SceneIsNil
  | SampleRateNotPositive
  | BandSpecEmpty
  | BandSpecLengths nat nat nat
  | BandNotPositive nat
  | BandEdgesOrder nat
  | BandNotIncreasing nat
  | BandAboveNyquist nat
  | RoomAndRooms
  | SingleRooms
  | PortalsNeedRooms
  | NoRooms
  | RoomError room_error
  | InRoom int room_error
  | WallMaterialUndefined int nat string
  | MeshMaterialUndefined int string
  | TriangleMaterialUndefined int nat string
  | AbsorptionBandCount string nat
  | CoefficientRange string string nat
  | MaterialBandCount string string nat
  | ReductionRange string nat
  | TransmissionDisagrees string int
  | EnergyExceeded string int
  | PortalError int portal_error
  | SourceNotFinite nat
  | SourceOutside nat
  | SourceNotInOneRoom nat
  | ReceiverNotFinite nat
  | ReceiverOutside nat
  | ReceiverNotInOneRoom nat
  | BinauralWithoutHRTF nat
  | HRTFRateMismatch nat int
  | ReceiverTypeUnsupported nat string

abbreviation err_if :: "bool \<Rightarrow> 'e \<Rightarrow> 'e list" where
  "err_if c e \<equiv> (if c then [e] else [])"

subsection \<open>Rooms\<close>

definition validateShoeboxRoom :: "room \<Rightarrow> room_error list" where
  "validateShoeboxRoom r = (case Shoebox r of
     None \<Rightarrow> [ShoeboxMissing]
   | Some sb \<Rightarrow>
       err_if (triangle_materials r \<noteq> []) ShoeboxSetsTriangleMaterials @
       err_if (\<not> isFiniteVec3 (Origin sb)) ShoeboxOriginNotFinite @
       err_if (\<not> is_finite (Width sb) \<or> fle (Width sb) (Zero False)) ShoeboxWidthInvalid @
       err_if (\<not> is_finite (Depth sb) \<or> fle (Depth sb) (Zero False)) ShoeboxDepthInvalid @
       err_if (\<not> is_finite (Height sb) \<or> fle (Height sb) (Zero False)) ShoeboxHeightInvalid @
       concat (map (\<lambda>i. err_if (WallMaterials sb ! i = '''') (WallMaterialEmpty i))
         [0..<length (WallMaterials sb)]))"

definition validateMeshRoom :: "room \<Rightarrow> room_error list" where
  "validateMeshRoom r = (case Mesh r of
     None \<Rightarrow> [MeshMissing]
   | Some m \<Rightarrow>
       if TriangleMaterials r \<noteq> None \<and>
          length (triangle_materials r) \<noteq> length (Triangles m)
       then [TriangleMaterialCount (length (triangle_materials r)) (length (Triangles m))]
       else case mesh_Validate (Some m) of
         Some issues \<Rightarrow>
           if HasProblems issues then [MeshInvalid issues]
           else err_if (fle (box_Volume (mesh_BoundingBox m)) (Zero False)) MeshBoundsVolume
       | None \<Rightarrow>
           err_if (fle (box_Volume (mesh_BoundingBox m)) (Zero False)) MeshBoundsVolume)"

definition validateRoom :: "room \<Rightarrow> room_error list" where
  "validateRoom r =
     (if Kind r = RoomKindShoebox then validateShoeboxRoom r
      else if Kind r = RoomKindMesh then validateMeshRoom r
      else [RoomKindUnset])"

definition validateSceneRooms :: "('dir, 'h) scene \<Rightarrow> scene_error list" where
  "validateSceneRooms s =
     (let errs = err_if (roomIsSet (Room s) \<and> Rooms s \<noteq> []) RoomAndRooms @
                 err_if (length (Rooms s) = 1) SingleRooms @
                 err_if (Portals s \<noteq> [] \<and> Rooms s = []) PortalsNeedRooms in
      if RoomCount s = 0 then errs @ [NoRooms]
      else errs @ concat (map (\<lambda>index. case RoomAt s index of
             None \<Rightarrow> []
           | Some r \<Rightarrow>
               map (if Rooms s = [] then RoomError else InRoom index) (validateRoom r))
           [0..RoomCount s - 1]))"

subsection \<open>Material references\<close>

definition undefined_names ::
  "(string \<rightharpoonup> material) \<Rightarrow> (nat \<Rightarrow> string \<Rightarrow> scene_error) \<Rightarrow> string list \<Rightarrow> scene_error list" where
  "undefined_names mats mk names =
     concat (map (\<lambda>i. err_if (names ! i \<noteq> '''' \<and> mats (names ! i) = None) (mk i (names ! i)))
       [0..<length names])"

definition validateMaterialReferences :: "('dir, 'h) scene \<Rightarrow> scene_error list" where
  "validateMaterialReferences s =
     concat (map (\<lambda>index. case RoomAt s index of
       None \<Rightarrow> []
     | Some r \<Rightarrow>
         (if Kind r = RoomKindShoebox
          then case Shoebox r of None \<Rightarrow> []
               | Some sb \<Rightarrow> undefined_names (Materials s) (WallMaterialUndefined index) (WallMaterials sb)
          else []) @
         (if Kind r \<noteq> RoomKindMesh then []
          else err_if (MeshMaterial r \<noteq> '''' \<and> Materials s (MeshMaterial r) = None)
                 (MeshMaterialUndefined index (MeshMaterial r)) @
               undefined_names (Materials s) (TriangleMaterialUndefined index)
                 (triangle_materials r)))
       [0..RoomCount s - 1])"

subsection \<open>Materials\<close>

definition materialConservationTolerance :: real where
  "materialConservationTolerance = 1 / 10 ^ 12"

definition validateUnitCoefficients :: "string \<Rightarrow> string \<Rightarrow> f64 list \<Rightarrow> scene_error list" where
  "validateUnitCoefficients name property values =
     concat (map (\<lambda>i. let c = values ! i in
       err_if (\<not> is_finite c \<or> flt c (Zero False) \<or> flt (round64 1) c)
         (CoefficientRange name property i)) [0..<length values])"

definition validateMaterialBandCount ::
  "string \<Rightarrow> string \<Rightarrow> f64 list \<Rightarrow> int \<Rightarrow> scene_error list" where
  "validateMaterialBandCount name property values bandCount =
     (if length values = 0 \<or> length values = 1 \<or> int (length values) = bandCount then []
      else [MaterialBandCount name property (length values)])"

definition effective_scattering :: "material \<Rightarrow> f64 list" where
  "effective_scattering m = (if ScatteringByBand m = [] then Scattering m else ScatteringByBand m)"

definition validateMaterialScattering :: "string \<Rightarrow> material \<Rightarrow> scene_error list" where
  "validateMaterialScattering name m =
     validateUnitCoefficients name ''scattering'' (effective_scattering m)"

definition scatteringWarning :: "material \<Rightarrow> nat option" where
  "scatteringWarning m =
     (let s = effective_scattering m in
      List.find (\<lambda>i. flt (s ! i) (s ! (i - 1))) [1..<length s])"

definition validateMaterialTransmission ::
  "(f64 \<Rightarrow> f64 \<Rightarrow> f64) \<Rightarrow> string \<Rightarrow> material \<Rightarrow> int \<Rightarrow> scene_error list" where
  "validateMaterialTransmission pow name m bandCount =
     validateMaterialBandCount name ''transmission'' (TransmissionByBand m) bandCount @
     validateUnitCoefficients name ''transmission'' (TransmissionByBand m) @
     validateMaterialBandCount name ''sound reduction index'' (SoundReductionIndex m) bandCount @
     concat (map (\<lambda>i. let r = SoundReductionIndex m ! i in
       err_if (\<not> is_finite r \<or> flt r (Zero False)) (ReductionRange name i))
       [0..<length (SoundReductionIndex m)]) @
     (if TransmissionByBand m = [] \<or> SoundReductionIndex m = [] then []
      else concat (map (\<lambda>i.
        case coefficientAt (TransmissionByBand m) i of
          None \<Rightarrow> []
        | Some tau \<Rightarrow>
            (case coefficientAt (SoundReductionIndex m) i of
               None \<Rightarrow> []
             | Some r \<Rightarrow>
                 err_if (flt (round64 materialConservationTolerance)
                     (fabs (fsub tau (TransmissionFromSoundReductionIndex pow r))))
                   (TransmissionDisagrees name i)))
        [0..bandCount - 1]))"

definition validateMaterialEnergy ::
  "(f64 \<Rightarrow> f64 \<Rightarrow> f64) \<Rightarrow> string \<Rightarrow> material \<Rightarrow> int \<Rightarrow> scene_error list" where
  "validateMaterialEnergy pow name m bandCount =
     concat (map (\<lambda>i.
       let alpha = AbsorptionAt m i; tau = material_TransmissionAt pow m i in
       err_if (is_finite alpha \<and> is_finite tau \<and>
           flt (round64 (1 + materialConservationTolerance)) (fadd alpha tau))
         (EnergyExceeded name i)) [0..bandCount - 1])"

definition validateMaterial ::
  "(f64 \<Rightarrow> f64 \<Rightarrow> f64) \<Rightarrow> string \<Rightarrow> material \<Rightarrow> int \<Rightarrow> scene_error list" where
  "validateMaterial pow name m bandCount =
     err_if (length (AbsorptionByBand m) \<noteq> 1 \<and> int (length (AbsorptionByBand m)) \<noteq> bandCount)
       (AbsorptionBandCount name (length (AbsorptionByBand m))) @
     validateUnitCoefficients name ''absorption'' (AbsorptionByBand m) @
     validateMaterialScattering name m @
     validateMaterialTransmission pow name m bandCount @
     validateMaterialEnergy pow name m bandCount"

definition validateMaterials ::
  "(f64 \<Rightarrow> f64 \<Rightarrow> f64) \<Rightarrow> string list \<Rightarrow> (string \<rightharpoonup> material) \<Rightarrow> int \<Rightarrow> scene_error list" where
  "validateMaterials pow names mats bandCount =
     concat (map (\<lambda>name. case mats name of None \<Rightarrow> []
       | Some m \<Rightarrow> validateMaterial pow name m bandCount) names)"

subsection \<open>Portals\<close>

definition validatePortalReferences :: "('dir, 'h) scene \<Rightarrow> portal \<Rightarrow> portal_error list" where
  "validatePortalReferences s p =
     err_if (RoomAt s (fst (RoomIndices p)) = None) (PortalRoomOutOfRange (fst (RoomIndices p))) @
     err_if (RoomAt s (snd (RoomIndices p)) = None) (PortalRoomOutOfRange (snd (RoomIndices p))) @
     err_if (fst (RoomIndices p) = snd (RoomIndices p)) PortalSameRoom @
     err_if (State p \<noteq> PortalOpen \<and> State p \<noteq> PortalClosed) (PortalUnsupportedState (State p)) @
     err_if (Materials s (Material p) = None) (PortalUndefinedMaterial (Material p))"

definition portalPolygonIsPlanar :: "vec3 list \<Rightarrow> plane \<Rightarrow> bool" where
  "portalPolygonIsPlanar vertices pl \<longleftrightarrow>
     (\<forall>v \<in> set (tl vertices). \<not> flt portalGeometryTolerance (fabs (plane_SideOf pl v)))"

definition validatePortalPolygon :: "portal \<Rightarrow> portal_error list + plane" where
  "validatePortalPolygon p =
     (if length (Polygon p) < 3 then Inl [PolygonTooSmall]
      else
        (let errs = concat (map (\<lambda>i.
               err_if (\<not> isFiniteVec3 (Polygon p ! i)) (PolygonVertexNotFinite i))
               [0..<length (Polygon p)]) in
         if errs \<noteq> [] then Inl errs
         else
           (let normal = portal_Normal p in
            if vec3_eq normal Vec3Zero \<or> fle (portal_Area p) portalGeometryTolerance
            then Inl [PolygonZeroArea]
            else
              (let pl = NewPlaneFromPointNormal (Polygon p ! 0) normal in
               if portalPolygonIsPlanar (Polygon p) pl then Inr pl
               else Inl [PolygonNotCoplanar]))))"

definition withinPortalBounds :: "f64 \<Rightarrow> f64 \<Rightarrow> f64 \<Rightarrow> bool" where
  "withinPortalBounds v lower upper \<longleftrightarrow>
     fle (fsub lower portalGeometryTolerance) v \<and> fle v (fadd upper portalGeometryTolerance)"

definition portalWithinYZ :: "vec3 \<Rightarrow> box \<Rightarrow> bool" where
  "portalWithinYZ v b \<longleftrightarrow>
     withinPortalBounds (vY v) (vY (Min b)) (vY (Max b)) \<and>
     withinPortalBounds (vZ v) (vZ (Min b)) (vZ (Max b))"

definition portalWithinXZ :: "vec3 \<Rightarrow> box \<Rightarrow> bool" where
  "portalWithinXZ v b \<longleftrightarrow>
     withinPortalBounds (vX v) (vX (Min b)) (vX (Max b)) \<and>
     withinPortalBounds (vZ v) (vZ (Min b)) (vZ (Max b))"

definition portalWithinXY :: "vec3 \<Rightarrow> box \<Rightarrow> bool" where
  "portalWithinXY v b \<longleftrightarrow>
     withinPortalBounds (vX v) (vX (Min b)) (vX (Max b)) \<and>
     withinPortalBounds (vY v) (vY (Min b)) (vY (Max b))"

definition on_face :: "f64 \<Rightarrow> f64 \<Rightarrow> bool" where
  "on_face c edge \<longleftrightarrow> fle (fabs (fsub c edge)) portalGeometryTolerance"

definition portalVertexOnShoeboxFace :: "vec3 \<Rightarrow> box \<Rightarrow> nat \<Rightarrow> bool" where
  "portalVertexOnShoeboxFace v b face =
     (if face = 0 then on_face (vX v) (vX (Min b)) \<and> portalWithinYZ v b
      else if face = 1 then on_face (vX v) (vX (Max b)) \<and> portalWithinYZ v b
      else if face = 2 then on_face (vY v) (vY (Min b)) \<and> portalWithinXZ v b
      else if face = 3 then on_face (vY v) (vY (Max b)) \<and> portalWithinXZ v b
      else if face = 4 then on_face (vZ v) (vZ (Min b)) \<and> portalWithinXY v b
      else if face = 5 then on_face (vZ v) (vZ (Max b)) \<and> portalWithinXY v b
      else False)"

definition portalOnShoeboxBoundary :: "vec3 list \<Rightarrow> box \<Rightarrow> bool" where
  "portalOnShoeboxBoundary vertices b \<longleftrightarrow>
     (\<exists>face \<in> set [0..<6]. \<forall>v \<in> set vertices. portalVertexOnShoeboxFace v b face)"

definition portalOnRoomBoundary :: "portal \<Rightarrow> room \<Rightarrow> bool" where
  "portalOnRoomBoundary p r =
     (if Kind r = RoomKindShoebox then
        (case Shoebox r of None \<Rightarrow> False
         | Some sb \<Rightarrow> portalOnShoeboxBoundary (Polygon p) (shoebox_Bounds sb))
      else if Kind r = RoomKindMesh then
        (case Mesh r of None \<Rightarrow> False
         | Some m \<Rightarrow>
             (let normal = portal_Normal p;
                  pl = NewPlaneFromPointNormal (Polygon p ! 0) normal in
              \<exists>t \<in> set (Triangles m).
                \<not> flt portalGeometryTolerance
                    (fabs (fsub (fabs (vec3_Dot (triangle_Normal t) normal)) (round64 1))) \<and>
                fle (fabs (plane_SideOf pl (V0 t))) portalGeometryTolerance \<and>
                fle (fabs (plane_SideOf pl (V1 t))) portalGeometryTolerance \<and>
                fle (fabs (plane_SideOf pl (V2 t))) portalGeometryTolerance))
      else False)"

definition validatePortalBoundary :: "portal \<Rightarrow> room \<Rightarrow> int \<Rightarrow> portal_error list" where
  "validatePortalBoundary p r roomIndex =
     (if portalOnRoomBoundary p r then [] else [PolygonNotOnBoundary roomIndex])"

definition validatePortalWinding :: "plane \<Rightarrow> room \<Rightarrow> room \<Rightarrow> int \<times> int \<Rightarrow> portal_error list" where
  "validatePortalWinding pl roomA roomB ixs =
     (case room_Bounds roomA of None \<Rightarrow> []
      | Some ba \<Rightarrow>
        (case room_Bounds roomB of None \<Rightarrow> []
         | Some bb \<Rightarrow>
             (let sideA = plane_SideOf pl (box_Center ba);
                  sideB = plane_SideOf pl (box_Center bb) in
              if flt sideA (fneg portalGeometryTolerance) \<and> flt portalGeometryTolerance sideB
              then [] else [PolygonWinding (fst ixs) (snd ixs)])))"

definition validatePortal :: "('dir, 'h) scene \<Rightarrow> portal \<Rightarrow> portal_error list" where
  "validatePortal s p =
     (let a = fst (RoomIndices p); b = snd (RoomIndices p);
          errs = validatePortalReferences s p in
      case validatePortalPolygon p of
        Inl polygonErrs \<Rightarrow> errs @ polygonErrs
      | Inr pl \<Rightarrow>
          errs @
          (case RoomAt s a of None \<Rightarrow> [] | Some ra \<Rightarrow> validatePortalBoundary p ra a) @
          (case RoomAt s b of None \<Rightarrow> [] | Some rb \<Rightarrow> validatePortalBoundary p rb b) @
          (case RoomAt s a of None \<Rightarrow> []
           | Some ra \<Rightarrow>
               (case RoomAt s b of None \<Rightarrow> []
                | Some rb \<Rightarrow> validatePortalWinding pl ra rb (RoomIndices p))))"

definition validatePortals :: "('dir, 'h) scene \<Rightarrow> scene_error list" where
  "validatePortals s =
     concat (map (\<lambda>(i, p). map (PortalError i) (validatePortal s p)) (indexed (Portals s)))"

subsection \<open>Positions, receivers, bands\<close>

definition validatePositions :: "('dir, 'h) scene \<Rightarrow> scene_error list" where
  "validatePositions s =
     concat (map (\<lambda>i. let pos = sPosition (Sources s ! i) in
       if \<not> isFiniteVec3 pos then [SourceNotFinite i]
       else if RoomIndexAt s pos = None
         then (if RoomCount s = 1 then [SourceOutside i] else [SourceNotInOneRoom i])
       else []) [0..<length (Sources s)]) @
     concat (map (\<lambda>i. let pos = rPosition (Receivers s ! i) in
       if \<not> isFiniteVec3 pos then [ReceiverNotFinite i]
       else if RoomIndexAt s pos = None
         then (if RoomCount s = 1 then [ReceiverOutside i] else [ReceiverNotInOneRoom i])
       else []) [0..<length (Receivers s)])"

definition validateReceivers :: "('h \<Rightarrow> int) \<Rightarrow> ('dir, 'h) scene \<Rightarrow> scene_error list" where
  "validateReceivers rate s =
     concat (map (\<lambda>i. let r = Receivers s ! i in
       if rType r = '''' \<or> rType r = ''omni'' then []
       else if rType r = ''binaural'' then
         (case HRTF r of
            None \<Rightarrow> [BinauralWithoutHRTF i]
          | Some h \<Rightarrow> err_if (rate h \<noteq> SampleRate s) (HRTFRateMismatch i (rate h)))
       else [ReceiverTypeUnsupported i (rType r)]) [0..<length (Receivers s)])"

definition validateBand ::
  "nat \<Rightarrow> f64 list \<Rightarrow> f64 list \<Rightarrow> f64 list \<Rightarrow> int \<Rightarrow> scene_error list" where
  "validateBand i centers lowers uppers sampleRate =
     (let center = centers ! i; lower = lowers ! i; upper = uppers ! i in
      if \<not> is_finite center \<or> \<not> is_finite lower \<or> \<not> is_finite upper \<or>
         fle lower (Zero False) \<or> fle center (Zero False) \<or> fle upper (Zero False)
      then [BandNotPositive i]
      else
        err_if (fle center lower \<or> fle upper center) (BandEdgesOrder i) @
        err_if (0 < i \<and> (fle center (centers ! (i - 1)) \<or> fle lower (lowers ! (i - 1)) \<or>
          fle upper (uppers ! (i - 1)))) (BandNotIncreasing i) @
        err_if (0 < sampleRate \<and> flt (fdiv (f64_of_int sampleRate) (round64 2)) upper)
          (BandAboveNyquist i))"

definition validateBandSpec :: "('dir, 'h) scene \<Rightarrow> scene_error list" where
  "validateBandSpec s =
     (let centers = CenterFreqs (BandSpec s); lowers = LowerEdges (BandSpec s);
          uppers = UpperEdges (BandSpec s);
          errs = err_if (centers = []) BandSpecEmpty in
      if length lowers \<noteq> length centers \<or> length uppers \<noteq> length centers
      then errs @ [BandSpecLengths (length centers) (length lowers) (length uppers)]
      else errs @ concat (map (\<lambda>i. validateBand i centers lowers uppers (SampleRate s))
             [0..<length centers]))"

subsection \<open>The whole scene\<close>

definition Validate ::
  "(f64 \<Rightarrow> f64 \<Rightarrow> f64) \<Rightarrow> ('h \<Rightarrow> int) \<Rightarrow> string list \<Rightarrow> ('dir, 'h) scene option \<Rightarrow> scene_error list" where
  "Validate pow rate names so = (case so of
     None \<Rightarrow> [SceneIsNil]
   | Some s \<Rightarrow>
       err_if (SampleRate s \<le> 0) SampleRateNotPositive @
       validateBandSpec s @
       validateSceneRooms s @
       validateMaterialReferences s @
       validateMaterials pow names (Materials s) (BandCount (BandSpec s)) @
       validatePortals s @
       validatePositions s @
       validateReceivers rate s)"

subsection \<open>Tolerances only widen\<close>

lemma within_bounds:
  assumes "fle l v" "fle v u" "is_finite l" "is_finite v" "is_finite u" "representable (fval v)"
  shows "withinPortalBounds v l u"
proof -
  let ?t = "fval portalGeometryTolerance"
  have v: "round64 (fval v) = fof (fval v)" by (rule round64_exact [OF assms(6)])
  have o: "fval l \<le> fval v" "fval v \<le> fval u" using assms(1-5) by (simp_all add: fle_finite)
  have "fle (round64 (fval l - ?t)) v"
    using round64_mono [of "fval l - ?t" "fval v"] v o assms(4) tolerance_facts(7)
    by (simp add: fle_finite_fof)
  moreover have "fle v (round64 (fval u + ?t))"
    using round64_mono [of "fval v" "fval u + ?t"] v o assms(4) tolerance_facts(7)
    by (simp add: fle_finite_fof)
  moreover have "is_finite portalGeometryTolerance" by (simp add: is_finite_def)
  ultimately show ?thesis
    using assms(3,5) by (simp add: withinPortalBounds_def fsub_def fle_fadd)
qed


end
