(* ===== verification/Marking_Search.thy ===== *)
theory Marking_Search
  imports Prelude
begin

text \<open>
  The contract of the program's worklist searches: the breadth-first grouping of rooms
  (graph.go) and the depth-first connectivity check of meshes (mesh.go) both mark a node
  when they push it and stop when the worklist is empty. The locale states what one round
  of such a loop promises, whatever the discipline of the worklist, and derives what the
  loop has marked when it stops: exactly the nodes reachable from the start, beside the
  nodes that were marked before and that cannot be left.
\<close>

definition arcs :: "('a \<Rightarrow> 'a list) \<Rightarrow> ('a \<times> 'a) set" where
  "arcs succ = {(u, v). v \<in> set (succ u)}"

definition reach :: "('a \<Rightarrow> 'a list) \<Rightarrow> 'a \<Rightarrow> 'a set" where
  "reach succ x = {y. (x, y) \<in> (arcs succ)\<^sup>*}"

lemma reach_refl [simp]: "x \<in> reach succ x"
  by (simp add: reach_def)

lemma reach_step: "y \<in> reach succ x \<Longrightarrow> z \<in> set (succ y) \<Longrightarrow> z \<in> reach succ x"
  by (auto simp: reach_def arcs_def intro: rtrancl_into_rtrancl)

lemma reach_closed_subset:
  assumes "x \<in> A" and "\<And>u v. u \<in> A \<Longrightarrow> v \<in> set (succ u) \<Longrightarrow> v \<in> A"
  shows "reach succ x \<subseteq> A"
proof
  fix y assume "y \<in> reach succ x"
  then have "(x, y) \<in> (arcs succ)\<^sup>*" by (simp add: reach_def)
  then show "y \<in> A"
    by (induction rule: rtrancl_induct) (use assms in \<open>auto simp: arcs_def\<close>)
qed

lemma reach_sym:
  assumes "\<And>u v. v \<in> set (succ u) \<Longrightarrow> u \<in> set (succ v)"
  shows "y \<in> reach succ x \<longleftrightarrow> x \<in> reach succ y"
proof -
  have "sym (arcs succ)" using assms by (auto simp: sym_def arcs_def)
  then have "sym ((arcs succ)\<^sup>*)" by (rule sym_rtrancl)
  then show ?thesis unfolding reach_def by (auto dest: symD)
qed

lemma reach_trans: "y \<in> reach succ x \<Longrightarrow> z \<in> reach succ y \<Longrightarrow> z \<in> reach succ x"
  by (auto simp: reach_def)

locale marking_search =
  fixes succ :: "'a \<Rightarrow> 'a list"
    and pop :: "'s \<Rightarrow> ('a \<times> 's) option"
    and visit :: "'a \<Rightarrow> 's \<Rightarrow> 's"
    and loop :: "'s \<Rightarrow> 's"
    and marked :: "'s \<Rightarrow> 'a set"
    and work :: "'s \<Rightarrow> 'a set"
    and ok :: "'s \<Rightarrow> bool"
    and msr :: "'s \<Rightarrow> nat"
  assumes pop_None: "ok s \<Longrightarrow> pop s = None \<Longrightarrow> work s = {} \<and> loop s = s"
    and pop_Some: "ok s \<Longrightarrow> pop s = Some (x, s') \<Longrightarrow>
      work s = insert x (work s') \<and> marked s' = marked s \<and> loop s = loop (visit x s')"
    and visit_ok: "ok s \<Longrightarrow> pop s = Some (x, s') \<Longrightarrow> ok (visit x s') \<and> msr (visit x s') < msr s"
    and visit_marks: "ok s \<Longrightarrow> pop s = Some (x, s') \<Longrightarrow>
      marked (visit x s') = marked s \<union> set (succ x) \<and>
      work (visit x s') = work s' \<union> (set (succ x) - marked s)"
begin

text \<open>The loop invariant: \<open>B\<close> are the nodes marked before the search from \<open>x0\<close>.\<close>

definition search_inv :: "'a set \<Rightarrow> 'a \<Rightarrow> 's \<Rightarrow> bool" where
  "search_inv B x0 s \<longleftrightarrow> ok s \<and> B \<subseteq> marked s \<and> x0 \<in> marked s \<and> work s \<subseteq> marked s - B \<and>
     marked s \<subseteq> B \<union> reach succ x0 \<and>
     (\<forall>u \<in> marked s - B - work s. set (succ u) \<subseteq> marked s)"

lemma search_inv_round:
  assumes inv: "search_inv B x0 s" and p: "pop s = Some (x, s')"
  shows "search_inv B x0 (visit x s')"
proof -
  have ok: "ok s" using inv by (simp add: search_inv_def)
  have m: "marked (visit x s') = marked s \<union> set (succ x)"
    and w: "work (visit x s') = work s' \<union> (set (succ x) - marked s)"
    and ws: "work s = insert x (work s')"
    using visit_marks [OF ok p] pop_Some [OF ok p] by simp_all
  have x: "x \<in> marked s" "x \<notin> B" "x \<in> reach succ x0"
    using inv ws unfolding search_inv_def by auto
  have sub: "set (succ x) \<subseteq> reach succ x0" using x(3) by (auto intro: reach_step)
  have closed: "set (succ u) \<subseteq> marked (visit x s')"
    if "u \<in> marked (visit x s') - B - work (visit x s')" for u
  proof (cases "u = x")
    case True
    with m show ?thesis by simp
  next
    case False
    with that m w ws have "u \<in> marked s - B - work s" by auto
    with inv m show ?thesis unfolding search_inv_def by blast
  qed
  show ?thesis
    using inv visit_ok [OF ok p] m w ws sub closed unfolding search_inv_def by auto
qed

lemma search_inv_loop:
  assumes "search_inv B x0 s"
  shows "search_inv B x0 (loop s) \<and> work (loop s) = {}"
  using assms
proof (induction "msr s" arbitrary: s rule: less_induct)
  case less
  have ok: "ok s" using less.prems by (simp add: search_inv_def)
  show ?case
  proof (cases "pop s")
    case None
    with pop_None [OF ok] less.prems show ?thesis by simp
  next
    case (Some p)
    obtain x s' where p: "pop s = Some (x, s')" using Some by (cases p) simp
    from less.hyps [OF _ search_inv_round [OF less.prems p]] visit_ok [OF ok p]
      pop_Some [OF ok p]
    show ?thesis by simp
  qed
qed

text \<open>What the search has marked when it stops.\<close>

lemma loop_marks_reachable:
  assumes inv: "search_inv B x0 s"
    and stuck: "\<And>u v. v \<in> set (succ u) \<Longrightarrow> v \<in> B \<Longrightarrow> u \<in> B"
    and out: "x0 \<notin> B"
  shows "marked (loop s) = B \<union> reach succ x0" "reach succ x0 \<inter> B = {}" "ok (loop s)"
proof -
  have fin: "search_inv B x0 (loop s)" "work (loop s) = {}"
    using search_inv_loop [OF inv] by simp_all
  have "reach succ x0 \<subseteq> - B"
    by (rule reach_closed_subset) (use out stuck in auto)
  then show disj: "reach succ x0 \<inter> B = {}" by blast
  have "reach succ x0 \<subseteq> marked (loop s) - B"
  proof (rule reach_closed_subset)
    show "x0 \<in> marked (loop s) - B" using fin out unfolding search_inv_def by simp
    fix u v assume "u \<in> marked (loop s) - B" "v \<in> set (succ u)"
    with fin stuck show "v \<in> marked (loop s) - B" unfolding search_inv_def by blast
  qed
  then show "marked (loop s) = B \<union> reach succ x0"
    using fin(1) unfolding search_inv_def by blast
  show "ok (loop s)" using fin(1) unfolding search_inv_def by simp
qed

end

end
