(* ===== verification/Room_Groups.thy ===== *)
theory Room_Groups
  imports Room_Graph
begin

text \<open>
  The room graph is correct: every graph built by \<open>NewAcousticSceneGraph\<close> and changed by
  \<open>SetPortalState\<close> has, as its groups, the connected components of the open portals,
  numbered by their lowest room, with sorted members, and no operation on it panics. The
  breadth-first search of \<open>UpdateRoomGroups\<close> is an interpretation of the marking search.
\<close>

subsection \<open>Sorting group members\<close>

lemma sift_left_swap:
  "sift_left (ps @ y # x # rest) (Suc (length ps)) =
     (if x < y then sift_left (ps @ x # y # rest) (length ps) else ps @ y # x # rest)"
  by (simp add: nth_append list_update_append)

lemma sift_left_props:
  assumes "sorted ps"
  shows "\<exists>qs. sift_left (ps @ x # rest) (length ps) = qs @ rest \<and>
    sorted qs \<and> mset qs = mset (ps @ [x])"
  using assms
proof (induction ps arbitrary: rest rule: rev_induct)
  case Nil
  then show ?case by (intro exI [of _ "[x]"]) simp
next
  case (snoc y ps)
  show ?case
  proof (cases "x < y")
    case True
    from snoc obtain qs where q: "sift_left (ps @ x # (y # rest)) (length ps) = qs @ y # rest"
      "sorted qs" "mset qs = mset (ps @ [x])"
      by (auto simp: sorted_append)
    have "\<forall>z \<in> set qs. z \<le> y"
      using q(3) snoc.prems True mset_eq_setD [OF q(3)] by (auto simp: sorted_append)
    with q True show ?thesis
      using sift_left_swap [of ps y x rest]
      by (intro exI [of _ "qs @ [y]"]) (auto simp: sorted_append)
  next
    case False
    with snoc.prems show ?thesis
      using sift_left_swap [of ps y x rest]
      by (intro exI [of _ "ps @ [y, x]"]) (force simp: sorted_append)
  qed
qed

lemma slicesSortInts_prefix:
  assumes "1 \<le> k" "k \<le> length xs"
  shows "\<exists>qs. foldl sift_left xs [1..<k] = qs @ drop k xs \<and> sorted qs \<and> mset qs = mset (take k xs)"
  using assms
proof (induction k rule: dec_induct)
  case base
  then show ?case by (intro exI [of _ "take 1 xs"]) (cases xs, auto)
next
  case (step k)
  then obtain qs where q: "foldl sift_left xs [1..<k] = qs @ drop k xs" "sorted qs"
    "mset qs = mset (take k xs)" by auto
  have len: "length qs = k" using q(3) step.prems by (metis length_take min_absorb2 size_mset Suc_leD)
  have d: "drop k xs = xs ! k # drop (Suc k) xs" using step.prems by (simp add: Cons_nth_drop_Suc)
  from sift_left_props [OF q(2), of "xs ! k" "drop (Suc k) xs"] obtain rs where
    r: "sift_left (qs @ drop k xs) k = rs @ drop (Suc k) xs" "sorted rs"
      "mset rs = mset (qs @ [xs ! k])" unfolding len d by auto
  have "[1..<Suc k] = [1..<k] @ [k]" using step.hyps by simp
  moreover have "mset (take (Suc k) xs) = mset (qs @ [xs ! k])"
    using q(3) step.prems by (simp add: take_Suc_conv_app_nth)
  ultimately show ?case using q(1) r by (intro exI [of _ rs]) simp
qed

lemma slicesSortInts_sorts:
  "sorted (slicesSortInts xs)" "mset (slicesSortInts xs) = mset xs"
proof -
  have "sorted (slicesSortInts xs) \<and> mset (slicesSortInts xs) = mset xs"
  proof (cases "xs = []")
    case False
    then have "1 \<le> length xs" by (cases xs) auto
    from slicesSortInts_prefix [OF this order_refl] show ?thesis by (auto simp: slicesSortInts_def)
  qed (simp add: slicesSortInts_def)
  then show "sorted (slicesSortInts xs)" "mset (slicesSortInts xs) = mset xs" by auto
qed

lemma set_slicesSortInts [simp]: "set (slicesSortInts xs) = set xs"
  by (metis slicesSortInts_sorts(2) mset_eq_setD)

lemma distinct_slicesSortInts [simp]: "distinct (slicesSortInts xs) = distinct xs"
  by (metis slicesSortInts_sorts(2) mset_eq_imp_distinct_iff)


subsection \<open>The incidence lists\<close>

text \<open>A view matches the portal it names, seen from its first or its second room.\<close>

definition view_matches :: "portal list \<Rightarrow> portalView \<Rightarrow> bool" where
  "view_matches ps v \<longleftrightarrow> 0 \<le> PortalIndex v \<and> PortalIndex v < int (length ps) \<and>
     RoomIndices (ps ! nat (PortalIndex v)) =
       (if Reversed v then (ToRoom v, FromRoom v) else (FromRoom v, ToRoom v))"

definition rooms_in_range :: "nat \<Rightarrow> portal list \<Rightarrow> bool" where
  "rooms_in_range n ps \<longleftrightarrow> (\<forall>p \<in> set ps.
     0 \<le> fst (RoomIndices p) \<and> fst (RoomIndices p) < int n \<and>
     0 \<le> snd (RoomIndices p) \<and> snd (RoomIndices p) < int n)"

definition incident_ok :: "portal list \<Rightarrow> portalView list list \<Rightarrow> bool" where
  "incident_ok ps inc \<longleftrightarrow> rooms_in_range (length inc) ps \<and>
     (\<forall>r < length inc. set (inc ! r) = {v. view_matches ps v \<and> FromRoom v = int r})"

definition views_of_pair :: "int \<times> portal \<Rightarrow> portalView set" where
  "views_of_pair ip = {v. PortalIndex v = fst ip \<and> RoomIndices (snd ip) =
     (if Reversed v then (ToRoom v, FromRoom v) else (FromRoom v, ToRoom v))}"

lemma views_of_pair_eq:
  "RoomIndices p = (a, b) \<Longrightarrow> views_of_pair (i, p) =
     {\<lparr>PortalIndex = i, FromRoom = a, ToRoom = b, Reversed = False\<rparr>,
      \<lparr>PortalIndex = i, FromRoom = b, ToRoom = a, Reversed = True\<rparr>}"
proof (rule set_eqI)
  fix v :: portalView
  assume ab: "RoomIndices p = (a, b)"
  obtain k f t r where v: "v = \<lparr>PortalIndex = k, FromRoom = f, ToRoom = t, Reversed = r\<rparr>"
    by (cases v)
  show "v \<in> views_of_pair (i, p) \<longleftrightarrow> v \<in>
     {\<lparr>PortalIndex = i, FromRoom = a, ToRoom = b, Reversed = False\<rparr>,
      \<lparr>PortalIndex = i, FromRoom = b, ToRoom = a, Reversed = True\<rparr>}"
    by (cases r) (auto simp: v views_of_pair_def ab)
qed

lemma append_view_in_range:
  assumes "0 \<le> i" "i < int (length inc)"
  shows "append_view inc i v = Some (inc[nat i := inc ! nat i @ [v]])"
  using assms by (simp add: append_view_def slice_at_def)

lemma build_incident_sets:
  assumes "rooms_in_range (length inc) (map snd ips)"
  shows "\<exists>inc'. build_incident ips inc = Some inc' \<and> length inc' = length inc \<and>
    (\<forall>r < length inc. set (inc' ! r) =
       set (inc ! r) \<union> {v. FromRoom v = int r \<and> (\<exists>ip \<in> set ips. v \<in> views_of_pair ip)})"
  using assms
proof (induction ips arbitrary: inc)
  case Nil
  then show ?case by simp
next
  case (Cons ip rest)
  obtain i p a b where ip: "ip = (i, p)" and ab: "RoomIndices p = (a, b)"
    by (metis prod.exhaust_sel)
  have range: "0 \<le> a" "a < int (length inc)" "0 \<le> b" "b < int (length inc)"
    using Cons.prems by (auto simp: rooms_in_range_def ip ab)
  let ?v = "\<lparr>PortalIndex = i, FromRoom = a, ToRoom = b, Reversed = False\<rparr>"
  let ?w = "\<lparr>PortalIndex = i, FromRoom = b, ToRoom = a, Reversed = True\<rparr>"
  define inc1 where "inc1 = inc[nat a := inc ! nat a @ [?v]]"
  define inc2 where "inc2 = inc1[nat b := inc1 ! nat b @ [?w]]"
  have step: "build_incident (ip # rest) inc = build_incident rest inc2"
    using range by (simp add: ip ab append_view_in_range inc1_def inc2_def)
  have len: "length inc2 = length inc" by (simp add: inc1_def inc2_def)
  have sets: "set (inc2 ! r) =
      set (inc ! r) \<union> {v. FromRoom v = int r \<and> v \<in> views_of_pair ip}" if "r < length inc" for r
    using that range
    by (auto simp: inc2_def inc1_def nth_list_update ip views_of_pair_eq [OF ab] split: if_splits)
  from Cons.IH [of inc2] Cons.prems obtain inc' where
    "build_incident rest inc2 = Some inc'" "length inc' = length inc2"
    "\<forall>r < length inc2. set (inc' ! r) =
       set (inc2 ! r) \<union> {v. FromRoom v = int r \<and> (\<exists>ip \<in> set rest. v \<in> views_of_pair ip)}"
    by (auto simp: len rooms_in_range_def)
  then show ?case using sets by (intro exI [of _ inc']) (auto simp: step len)
qed

lemma set_indexed: "(i, p) \<in> set (indexed ps) \<longleftrightarrow>
  0 \<le> i \<and> i < int (length ps) \<and> p = ps ! nat i"
proof
  assume "(i, p) \<in> set (indexed ps)"
  then obtain k where "k < length ps" "indexed ps ! k = (i, p)"
    by (auto simp: in_set_conv_nth)
  then show "0 \<le> i \<and> i < int (length ps) \<and> p = ps ! nat i" by (auto simp: indexed_nth)
next
  assume "0 \<le> i \<and> i < int (length ps) \<and> p = ps ! nat i"
  then show "(i, p) \<in> set (indexed ps)"
    using indexed_nth [of "nat i" ps] nth_mem [of "nat i" "indexed ps"] by auto
qed

lemma map_snd_indexed [simp]: "map snd (indexed ps) = ps"
  by (simp add: indexed_def)

lemma build_incident_ok:
  assumes "rooms_in_range n ps"
  shows "\<exists>inc. build_incident (indexed ps) (replicate n []) = Some inc \<and>
    length inc = n \<and> incident_ok ps inc"
proof -
  from build_incident_sets [of "replicate n []" "indexed ps"] assms obtain inc where
    inc: "build_incident (indexed ps) (replicate n []) = Some inc" "length inc = n"
    "\<forall>r < n. set (inc ! r) =
       {v. FromRoom v = int r \<and> (\<exists>ip \<in> set (indexed ps). v \<in> views_of_pair ip)}"
    by auto
  have "(\<exists>ip \<in> set (indexed ps). v \<in> views_of_pair ip) \<longleftrightarrow> view_matches ps v" for v
    by (auto simp: views_of_pair_def view_matches_def set_indexed Bex_def)
  then have "incident_ok ps inc"
    using inc assms by (auto simp: incident_ok_def)
  with inc show ?thesis by blast
qed


subsection \<open>Adjacency by open portals\<close>

text \<open>The rooms an open portal leads to from a room: the relation whose components the
  groups are meant to be.\<close>

definition open_succ :: "portal list \<Rightarrow> portalView list list \<Rightarrow> int \<Rightarrow> int list" where
  "open_succ ps inc r =
     (if 0 \<le> r \<and> r < int (length inc)
      then map ToRoom (filter (\<lambda>v. State (ps ! nat (PortalIndex v)) = PortalOpen) (inc ! nat r))
      else [])"

definition open_joins :: "portal list \<Rightarrow> int \<Rightarrow> int \<Rightarrow> bool" where
  "open_joins ps a b \<longleftrightarrow>
     (\<exists>p \<in> set ps. State p = PortalOpen \<and> (RoomIndices p = (a, b) \<or> RoomIndices p = (b, a)))"

lemma view_matches_range:
  assumes "rooms_in_range n ps" "view_matches ps v"
  shows "0 \<le> FromRoom v" "FromRoom v < int n" "0 \<le> ToRoom v" "ToRoom v < int n"
proof -
  have "ps ! nat (PortalIndex v) \<in> set ps" using assms(2) by (auto simp: view_matches_def intro!: nth_mem)
  with assms show "0 \<le> FromRoom v" "FromRoom v < int n" "0 \<le> ToRoom v" "ToRoom v < int n"
    by (auto simp: rooms_in_range_def view_matches_def split: if_splits)
qed

lemma open_succ_iff:
  assumes "incident_ok ps inc"
  shows "b \<in> set (open_succ ps inc a) \<longleftrightarrow> open_joins ps a b"
proof
  assume "b \<in> set (open_succ ps inc a)"
  then obtain v where v: "0 \<le> a" "a < int (length inc)" "v \<in> set (inc ! nat a)" "ToRoom v = b"
    "State (ps ! nat (PortalIndex v)) = PortalOpen"
    by (auto simp: open_succ_def split: if_splits)
  then have m: "view_matches ps v" "FromRoom v = a" using assms by (auto simp: incident_ok_def)
  then have "ps ! nat (PortalIndex v) \<in> set ps" by (auto simp: view_matches_def intro!: nth_mem)
  with m v show "open_joins ps a b"
    unfolding open_joins_def view_matches_def by (metis (full_types))
next
  assume "open_joins ps a b"
  then obtain k where k: "k < length ps" "State (ps ! k) = PortalOpen"
    "RoomIndices (ps ! k) = (a, b) \<or> RoomIndices (ps ! k) = (b, a)"
    unfolding open_joins_def by (metis in_set_conv_nth)
  define v where "v = \<lparr>PortalIndex = int k, FromRoom = a, ToRoom = b,
    Reversed = (RoomIndices (ps ! k) \<noteq> (a, b))\<rparr>"
  have m: "view_matches ps v" using k by (auto simp: v_def view_matches_def)
  have "rooms_in_range (length inc) ps" using assms by (simp add: incident_ok_def)
  from view_matches_range [OF this m] have r: "0 \<le> a" "a < int (length inc)"
    by (simp_all add: v_def)
  then have "v \<in> set (inc ! nat a)" using assms m by (auto simp: incident_ok_def v_def)
  with r k(2) show "b \<in> set (open_succ ps inc a)"
    by (force simp: open_succ_def v_def)
qed

lemma open_joins_sym: "open_joins ps a b \<longleftrightarrow> open_joins ps b a"
  by (auto simp: open_joins_def)

lemma open_succ_sym:
  "incident_ok ps inc \<Longrightarrow> b \<in> set (open_succ ps inc a) \<Longrightarrow> a \<in> set (open_succ ps inc b)"
  using open_succ_iff open_joins_sym by blast

lemma open_succ_range:
  assumes "incident_ok ps inc" "b \<in> set (open_succ ps inc a)"
  shows "0 \<le> b" "b < int (length inc)"
  using open_succ_sym [OF assms] by (auto simp: open_succ_def split: if_splits)

subsection \<open>The breadth-first search as a marking search\<close>

definition labelled :: "int list \<Rightarrow> int set" where
  "labelled labels = {r. 0 \<le> r \<and> r < int (length labels) \<and> labels ! nat r \<noteq> NoGroup}"

definition with_label :: "int list \<Rightarrow> nat \<Rightarrow> int set" where
  "with_label labels gid = {r. 0 \<le> r \<and> r < int (length labels) \<and> labels ! nat r = int gid}"

lemma labels_update:
  assumes "0 \<le> r" "r < int (length labels)"
  shows "labelled (labels[nat r := int gid]) = insert r (labelled labels)"
    "with_label (labels[nat r := int gid]) gid = insert r (with_label labels gid)"
  using assms by (auto simp: labelled_def with_label_def nth_list_update NoGroup_def split: if_splits)

lemma with_label_update_other:
  assumes "0 \<le> r" "r < int (length labels)" "labels ! nat r = NoGroup" "gid' \<noteq> gid"
  shows "with_label (labels[nat r := int gid]) gid' = with_label labels gid'"
  using assms by (auto simp: with_label_def nth_list_update NoGroup_def split: if_splits)

fun targets :: "portal list \<Rightarrow> portalView list \<Rightarrow> int list" where
  "targets ps vs = map ToRoom (filter (\<lambda>v. State (ps ! nat (PortalIndex v)) = PortalOpen) vs)"

lemma visit_views_effect:
  assumes "\<forall>v \<in> set vs. 0 \<le> PortalIndex v \<and> PortalIndex v < int (length ps) \<and>
      0 \<le> ToRoom v \<and> ToRoom v < int (length labels)"
  shows "\<exists>labels' new. visit_views ps gid vs (labels, members, queue) =
      Some (labels', members @ new, queue @ new) \<and>
    length labels' = length labels \<and> distinct new \<and>
    set new = set (targets ps vs) - labelled labels \<and>
    labelled labels' = labelled labels \<union> set (targets ps vs) \<and>
    with_label labels' gid = with_label labels gid \<union> set new \<and>
    (\<forall>k. k \<noteq> gid \<longrightarrow> with_label labels' k = with_label labels k)"
  using assms
proof (induction vs arbitrary: labels members queue)
  case Nil
  then show ?case by simp
next
  case (Cons v vs)
  let ?t = "ToRoom v"
  have r: "0 \<le> PortalIndex v" "PortalIndex v < int (length ps)" "0 \<le> ?t" "?t < int (length labels)"
    using Cons.prems by simp_all
  then have p: "slice_at ps (PortalIndex v) = Some (ps ! nat (PortalIndex v))"
    "slice_at labels ?t = Some (labels ! nat ?t)" by (simp_all add: slice_at_def)
  consider (closed) "State (ps ! nat (PortalIndex v)) \<noteq> PortalOpen"
    | (seen) "State (ps ! nat (PortalIndex v)) = PortalOpen" "labels ! nat ?t \<noteq> NoGroup"
    | (fresh) "State (ps ! nat (PortalIndex v)) = PortalOpen" "labels ! nat ?t = NoGroup"
    by blast
  then show ?case
  proof cases
    case closed
    with Cons p show ?thesis by simp
  next
    case seen
    then have "?t \<in> labelled labels" using r by (simp add: labelled_def)
    moreover from Cons.IH [of labels members queue] Cons.prems obtain labels' new where
      "visit_views ps gid vs (labels, members, queue) = Some (labels', members @ new, queue @ new)"
      "length labels' = length labels" "distinct new"
      "set new = set (targets ps vs) - labelled labels"
      "labelled labels' = labelled labels \<union> set (targets ps vs)"
      "with_label labels' gid = with_label labels gid \<union> set new"
      "\<forall>k. k \<noteq> gid \<longrightarrow> with_label labels' k = with_label labels k" by auto
    ultimately show ?thesis using seen p by (intro exI [of _ labels'] exI [of _ new]) auto
  next
    case fresh
    let ?l = "labels[nat ?t := int gid]"
    note up = labels_update [OF r(3,4), of gid]
    have notin: "?t \<notin> labelled labels" using fresh by (simp add: labelled_def)
    from Cons.IH [of ?l "members @ [?t]" "queue @ [?t]"] Cons.prems obtain labels' new where
      "visit_views ps gid vs (?l, members @ [?t], queue @ [?t]) =
         Some (labels', (members @ [?t]) @ new, (queue @ [?t]) @ new)"
      "length labels' = length ?l" "distinct new"
      "set new = set (targets ps vs) - labelled ?l"
      "labelled labels' = labelled ?l \<union> set (targets ps vs)"
      "with_label labels' gid = with_label ?l gid \<union> set new"
      "\<forall>k. k \<noteq> gid \<longrightarrow> with_label labels' k = with_label ?l k" by auto
    with fresh p notin up with_label_update_other [OF r(3,4) fresh(2)] show ?thesis
      by (intro exI [of _ labels'] exI [of _ "?t # new"]) auto
  qed
qed


fun bfs_pop :: "group_state \<Rightarrow> (int \<times> group_state) option" where
  "bfs_pop (labels, members, []) = None"
| "bfs_pop (labels, members, room # queue) = Some (room, labels, members, queue)"

fun bfs_visit ::
  "portalView list list \<Rightarrow> portal list \<Rightarrow> nat \<Rightarrow> int \<Rightarrow> group_state \<Rightarrow> group_state" where
  "bfs_visit inc ps gid x st = (case slice_at inc x of None \<Rightarrow> st
     | Some vs \<Rightarrow> (case visit_views ps gid vs st of None \<Rightarrow> st | Some st' \<Rightarrow> st'))"

fun bfs_run ::
  "portalView list list \<Rightarrow> portal list \<Rightarrow> nat \<Rightarrow> group_state \<Rightarrow> group_state" where
  "bfs_run inc ps gid st = (case group_bfs inc ps gid st of
     None \<Rightarrow> ([], [], []) | Some (labels, members) \<Rightarrow> (labels, members, []))"

fun bfs_marked :: "group_state \<Rightarrow> int set" where
  "bfs_marked (labels, members, queue) = labelled labels"

fun bfs_work :: "group_state \<Rightarrow> int set" where
  "bfs_work (labels, members, queue) = set queue"

text \<open>\<open>B\<close> holds the rooms labelled before, \<open>W\<close> those of each other group: a search
  leaves both alone.\<close>

fun bfs_ok ::
  "portalView list list \<Rightarrow> portal list \<Rightarrow> nat \<Rightarrow> int set \<Rightarrow> (nat \<Rightarrow> int set)
   \<Rightarrow> group_state \<Rightarrow> bool" where
  "bfs_ok inc ps gid B W (labels, members, queue) \<longleftrightarrow>
     incident_ok ps inc \<and> length labels = length inc \<and> distinct members \<and>
     set members = with_label labels gid \<and> labelled labels = B \<union> with_label labels gid \<and>
     (\<forall>r \<in> set queue. 0 \<le> r \<and> r < int (length inc)) \<and>
     (\<forall>k. k \<noteq> gid \<longrightarrow> with_label labels k = W k)"

lemma bfs_visit_effect:
  assumes "bfs_ok inc ps gid B W (labels, members, room # queue)"
  obtains views labels' new where "slice_at inc room = Some views"
    "visit_views ps gid views (labels, members, queue) = Some (labels', members @ new, queue @ new)"
    "labelled labels' = labelled labels \<union> set (open_succ ps inc room)"
    "set new = set (open_succ ps inc room) - labelled labels"
    "bfs_ok inc ps gid B W (labels', members @ new, queue @ new)"
proof -
  have ok: "incident_ok ps inc" "length labels = length inc" "0 \<le> room" "room < int (length inc)"
    "distinct members" "set members = with_label labels gid"
    using assms by simp_all
  let ?vs = "inc ! nat room"
  have "\<forall>v \<in> set ?vs. view_matches ps v" using ok by (simp add: incident_ok_def)
  moreover have "rooms_in_range (length labels) ps" using ok by (simp add: incident_ok_def)
  ultimately have "\<forall>v \<in> set ?vs. 0 \<le> PortalIndex v \<and> PortalIndex v < int (length ps) \<and>
      0 \<le> ToRoom v \<and> ToRoom v < int (length labels)"
    using view_matches_range by (auto simp: view_matches_def)
  from visit_views_effect [OF this, of gid members queue] obtain labels' new where
    e: "visit_views ps gid ?vs (labels, members, queue) = Some (labels', members @ new, queue @ new)"
    "length labels' = length labels" "distinct new"
    "set new = set (targets ps ?vs) - labelled labels"
    "labelled labels' = labelled labels \<union> set (targets ps ?vs)"
    "with_label labels' gid = with_label labels gid \<union> set new"
    "\<forall>k. k \<noteq> gid \<longrightarrow> with_label labels' k = with_label labels k" by blast
  have t: "targets ps ?vs = open_succ ps inc room" using ok by (simp add: open_succ_def)
  have "with_label labels gid \<subseteq> labelled labels"
    by (auto simp: with_label_def labelled_def NoGroup_def)
  then have "set members \<inter> set new = {}" using ok e(4) by auto
  moreover have "\<forall>r \<in> set new. 0 \<le> r \<and> r < int (length inc)"
    using e(4) open_succ_range [OF ok(1)] unfolding t by auto
  ultimately have okn: "bfs_ok inc ps gid B W (labels', members @ new, queue @ new)"
    using assms e by auto
  have "slice_at inc room = Some ?vs" using ok by (simp add: slice_at_def)
  from that [OF this e(1) e(5) [unfolded t] e(4) [unfolded t] okn] show thesis .
qed

interpretation room_search: marking_search "open_succ ps inc" bfs_pop "bfs_visit inc ps gid"
  "bfs_run inc ps gid" bfs_marked bfs_work "bfs_ok inc ps gid B W" group_msr
proof (unfold_locales, goal_cases)
  case (1 s)
  then show ?case by (cases s rule: bfs_pop.cases) simp_all
next
  case (2 s x s')
  then obtain labels members queue where s: "s = (labels, members, x # queue)"
    "s' = (labels, members, queue)" by (cases s rule: bfs_pop.cases) auto
  obtain views labels' new where
    e: "slice_at inc x = Some views"
    "visit_views ps gid views (labels, members, queue) = Some (labels', members @ new, queue @ new)"
    "labelled labels' = labelled labels \<union> set (open_succ ps inc x)"
    "set new = set (open_succ ps inc x) - labelled labels"
    "bfs_ok inc ps gid B W (labels', members @ new, queue @ new)"
    by (rule bfs_visit_effect [OF 2(1) [unfolded s(1)]])
  show ?case
    unfolding s bfs_work.simps bfs_marked.simps bfs_run.simps bfs_visit.simps group_bfs.simps
    by (simp add: e(1,2))
next
  case (3 s x s')
  then obtain labels members queue where s: "s = (labels, members, x # queue)"
    "s' = (labels, members, queue)" by (cases s rule: bfs_pop.cases) auto
  obtain views labels' new where
    e: "slice_at inc x = Some views"
    "visit_views ps gid views (labels, members, queue) = Some (labels', members @ new, queue @ new)"
    "labelled labels' = labelled labels \<union> set (open_succ ps inc x)"
    "set new = set (open_succ ps inc x) - labelled labels"
    "bfs_ok inc ps gid B W (labels', members @ new, queue @ new)"
    by (rule bfs_visit_effect [OF 3(1) [unfolded s(1)]])
  have "bfs_visit inc ps gid x s' = (labels', members @ new, queue @ new)"
    unfolding s bfs_visit.simps by (simp add: e(1,2))
  with e(5) visit_views_measure [OF e(2)] show ?case by (simp add: s(1) del: bfs_ok.simps)
next
  case (4 s x s')
  then obtain labels members queue where s: "s = (labels, members, x # queue)"
    "s' = (labels, members, queue)" by (cases s rule: bfs_pop.cases) auto
  obtain views labels' new where
    e: "slice_at inc x = Some views"
    "visit_views ps gid views (labels, members, queue) = Some (labels', members @ new, queue @ new)"
    "labelled labels' = labelled labels \<union> set (open_succ ps inc x)"
    "set new = set (open_succ ps inc x) - labelled labels"
    "bfs_ok inc ps gid B W (labels', members @ new, queue @ new)"
    by (rule bfs_visit_effect [OF 4(1) [unfolded s(1)]])
  have "bfs_visit inc ps gid x s' = (labels', members @ new, queue @ new)"
    unfolding s bfs_visit.simps by (simp add: e(1,2))
  with e(3,4) show ?case by (simp add: s)
qed

lemma group_bfs_no_panic:
  "bfs_ok inc ps gid B W st \<Longrightarrow> \<exists>labels members. group_bfs inc ps gid st = Some (labels, members)"
proof (induction inc ps gid st rule: group_bfs.induct)
  case (2 inc ps gid labels members room queue)
  obtain views labels' new where
    e: "slice_at inc room = Some views"
    "visit_views ps gid views (labels, members, queue) = Some (labels', members @ new, queue @ new)"
    "labelled labels' = labelled labels \<union> set (open_succ ps inc room)"
    "set new = set (open_succ ps inc room) - labelled labels"
    "bfs_ok inc ps gid B W (labels', members @ new, queue @ new)"
    by (rule bfs_visit_effect [OF 2(2)])
  have "group_bfs inc ps gid (labels, members, room # queue) =
    group_bfs inc ps gid (labels', members @ new, queue @ new)"
    unfolding group_bfs.simps by (simp add: e(1,2))
  with "2.IH" [OF e(1,2,5)] show ?case by simp
qed simp


subsection \<open>All groups\<close>

definition group_ok ::
  "portalView list list \<Rightarrow> portal list \<Rightarrow> int list \<Rightarrow> nat \<Rightarrow> int list \<Rightarrow> bool" where
  "group_ok inc ps labels k rs \<longleftrightarrow> sorted rs \<and> distinct rs \<and> rs \<noteq> [] \<and>
     set rs = with_label labels k \<and> (\<forall>r \<in> set rs. set rs = reach (open_succ ps inc) r)"

definition groups_inv ::
  "portalView list list \<Rightarrow> portal list \<Rightarrow> int \<Rightarrow> int list \<Rightarrow> int list list \<Rightarrow> bool" where
  "groups_inv inc ps start labels groups \<longleftrightarrow>
     incident_ok ps inc \<and> length labels = length inc \<and>
     (\<forall>r. 0 \<le> r \<longrightarrow> r < start \<longrightarrow> r \<in> labelled labels) \<and>
     labelled labels = (\<Union>k < length groups. with_label labels k) \<and>
     (\<forall>k < length groups. group_ok inc ps labels k (groups ! k) \<and> hd (groups ! k) < start) \<and>
     (\<forall>i j. i < j \<longrightarrow> j < length groups \<longrightarrow> hd (groups ! i) < hd (groups ! j))"

lemma groups_invI:
  assumes "incident_ok ps inc" "length labels = length inc"
    "\<And>r. 0 \<le> r \<Longrightarrow> r < start \<Longrightarrow> r \<in> labelled labels"
    "labelled labels = (\<Union>k < length groups. with_label labels k)"
    "\<And>k. k < length groups \<Longrightarrow> group_ok inc ps labels k (groups ! k)"
    "\<And>k. k < length groups \<Longrightarrow> hd (groups ! k) < start"
    "\<And>i j. i < j \<Longrightarrow> j < length groups \<Longrightarrow> hd (groups ! i) < hd (groups ! j)"
  shows "groups_inv inc ps start labels groups"
  unfolding groups_inv_def by (intro conjI allI impI) (rule assms; assumption)+

lemma groups_invD:
  assumes "groups_inv inc ps start labels groups"
  shows "incident_ok ps inc" "length labels = length inc"
    "\<And>r. 0 \<le> r \<Longrightarrow> r < start \<Longrightarrow> r \<in> labelled labels"
    "labelled labels = (\<Union>k < length groups. with_label labels k)"
    "\<And>k. k < length groups \<Longrightarrow> group_ok inc ps labels k (groups ! k)"
    "\<And>k. k < length groups \<Longrightarrow> hd (groups ! k) < start"
    "\<And>i j. i < j \<Longrightarrow> j < length groups \<Longrightarrow> hd (groups ! i) < hd (groups ! j)"
  using assms unfolding groups_inv_def by blast+

lemma reach_same_component:
  assumes "incident_ok ps inc" "r \<in> reach (open_succ ps inc) x"
  shows "reach (open_succ ps inc) r = reach (open_succ ps inc) x"
proof -
  have "x \<in> reach (open_succ ps inc) r"
    using reach_sym [of "open_succ ps inc" r x] open_succ_sym [OF assms(1)] assms(2) by blast
  with assms(2) show ?thesis by (auto intro: reach_trans)
qed

lemma with_label_disjoint: "j \<noteq> k \<Longrightarrow> with_label labels j \<inter> with_label labels k = {}"
  by (auto simp: with_label_def)

text \<open>One search from an unlabelled room finds its component.\<close>

lemma group_bfs_component:
  assumes inv: "groups_inv inc ps start labels groups"
    and start: "0 \<le> start" "start < int (length inc)" "labels ! nat start = NoGroup"
  obtains labels' members where
    "group_bfs inc ps (length groups)
       (labels[nat start := int (length groups)], [start], [start]) = Some (labels', members)"
    "length labels' = length inc" "distinct members"
    "set members = with_label labels' (length groups)"
    "with_label labels' (length groups) = reach (open_succ ps inc) start"
    "\<And>k. k \<noteq> length groups \<Longrightarrow> with_label labels' k = with_label labels k"
    "labelled labels' = labelled labels \<union> with_label labels' (length groups)"
proof -
  let ?g = "length groups" let ?B = "labelled labels"
  let ?l = "labels[nat start := int ?g]" let ?W = "with_label labels"
  have i: "incident_ok ps inc" "length labels = length inc" and B: "?B = (\<Union>k < ?g. ?W k)"
    using groups_invD [OF inv] by simp_all
  have comp: "?W k = reach (open_succ ps inc) r" if "k < ?g" "r \<in> ?W k" for k r
    using groups_invD(5) [OF inv that(1)] that(2) by (simp add: group_ok_def)
  have r: "0 \<le> start" "start < int (length labels)" using start i by simp_all
  have "?W ?g \<subseteq> ?B" by (auto simp: with_label_def labelled_def NoGroup_def)
  moreover have "?W k \<inter> ?W ?g = {}" if "k < ?g" for k using that by (simp add: with_label_disjoint)
  ultimately have empty: "?W ?g = {}" unfolding B by blast
  have notB: "start \<notin> ?B" using start(3) by (simp add: labelled_def)
  have ok: "bfs_ok inc ps ?g ?B ?W (?l, [start], [start])"
    using i start labels_update [OF r, of ?g] empty with_label_update_other [OF r start(3)]
    by auto
  have stuck: "u \<in> ?B" if "v \<in> set (open_succ ps inc u)" "v \<in> ?B" for u v
  proof -
    from that(2) B obtain k where k: "k < ?g" "v \<in> ?W k" by auto
    have "u \<in> reach (open_succ ps inc) v"
      by (rule reach_step [OF reach_refl]) (rule open_succ_sym [OF i(1) that(1)])
    with comp [OF k] k(1) B show ?thesis by auto
  qed
  have sinv: "room_search.search_inv ps inc ?g ?B ?W ?B start (?l, [start], [start])"
    using ok notB labels_update [OF r, of ?g]
    unfolding room_search.search_inv_def by (auto simp del: bfs_ok.simps)
  obtain labels' members where res: "group_bfs inc ps ?g (?l, [start], [start]) = Some (labels', members)"
    using group_bfs_no_panic [OF ok] by blast
  have run: "bfs_run inc ps ?g (?l, [start], [start]) = (labels', members, [])"
    unfolding bfs_run.simps res by simp
  have m: "labelled labels' = ?B \<union> reach (open_succ ps inc) start"
    and d: "reach (open_succ ps inc) start \<inter> ?B = {}"
    and ok': "bfs_ok inc ps ?g ?B ?W (labels', members, [])"
    using room_search.loop_marks_reachable [OF sinv] stuck notB
    unfolding run bfs_marked.simps by blast+
  have W: "\<And>k. k \<noteq> ?g \<Longrightarrow> with_label labels' k = ?W k" using ok' by simp
  have "?W k \<inter> with_label labels' ?g = {}" if "k < ?g" for k
    using that W [of k] with_label_disjoint [of k ?g labels'] by simp
  then have "?B \<inter> with_label labels' ?g = {}" unfolding B by blast
  moreover have l: "labelled labels' = ?B \<union> with_label labels' ?g" using ok' by simp
  ultimately have eq: "with_label labels' ?g = reach (open_succ ps inc) start"
    using m d by blast
  show thesis by (rule that [OF res _ _ _ eq W l]) (use ok' in auto)
qed


lemma groups_inv_skip:
  assumes inv: "groups_inv inc ps start labels groups"
    and "0 \<le> start" "start < int (length inc)" "labels ! nat start \<noteq> NoGroup"
  shows "groups_inv inc ps (start + 1) labels groups"
proof (rule groups_invI)
  note d = groups_invD [OF inv]
  have "start \<in> labelled labels" using assms d(2) by (simp add: labelled_def)
  then show "r \<in> labelled labels" if "0 \<le> r" "r < start + 1" for r
    using d(3) that by (cases "r = start") simp_all
  show "hd (groups ! k) < start + 1" if "k < length groups" for k
    using d(6) [OF that] by simp
qed (use groups_invD [OF inv] in simp_all)

lemma groups_inv_new:
  assumes inv: "groups_inv inc ps start labels groups"
    and start: "0 \<le> start" "start < int (length inc)" "labels ! nat start = NoGroup"
    and labels': "length labels' = length inc" "distinct members"
      "set members = with_label labels' (length groups)"
      "with_label labels' (length groups) = reach (open_succ ps inc) start"
      "\<And>k. k \<noteq> length groups \<Longrightarrow> with_label labels' k = with_label labels k"
      "labelled labels' = labelled labels \<union> with_label labels' (length groups)"
  shows "groups_inv inc ps (start + 1) labels' (groups @ [slicesSortInts members])"
proof (rule groups_invI)
  let ?g = "length groups" let ?m = "slicesSortInts members"
  note d = groups_invD [OF inv]
  have setm: "set ?m = reach (open_succ ps inc) start" using labels'(3,4) by simp
  then have mem: "start \<in> set ?m" by simp
  then have ne: "?m \<noteq> []" by (metis empty_iff list.set(1))
  have le: "hd ?m \<le> start"
    using slicesSortInts_sorts(1) [of members] mem by (cases ?m) auto
  have "\<not> hd ?m < start"
  proof
    assume lt: "hd ?m < start"
    have hm: "hd ?m \<in> with_label labels' ?g"
      using hd_in_set [OF ne] labels'(3) by simp
    then have "0 \<le> hd ?m" by (simp add: with_label_def)
    from d(3) [OF this lt] d(4) obtain k where "k < ?g" "hd ?m \<in> with_label labels k" by auto
    with labels'(5) [of k] hm with_label_disjoint [of k ?g labels'] show False by auto
  qed
  with le have hd: "hd ?m = start" by simp
  show "incident_ok ps inc" "length labels' = length inc" by (fact d(1), fact labels'(1))
  show "r \<in> labelled labels'" if "0 \<le> r" "r < start + 1" for r
    using that d(3) [of r] mem labels'(3,6) by (cases "r = start") auto
  show "labelled labels' = (\<Union>k < length (groups @ [?m]). with_label labels' k)"
    using d(4) labels'(5,6) by (auto simp: lessThan_Suc)
  have new: "group_ok inc ps labels' ?g ?m"
    unfolding group_ok_def using ne labels'(2,3) slicesSortInts_sorts(1) setm
      reach_same_component [OF d(1)] by auto
  have old: "group_ok inc ps labels' k (groups ! k)" if "k < ?g" for k
    using d(5) [OF that] labels'(5) [of k] that by (simp add: group_ok_def)
  show "group_ok inc ps labels' k ((groups @ [?m]) ! k)" if "k < length (groups @ [?m])" for k
    using that old new by (cases "k = ?g") (simp_all add: nth_append)
  show "hd ((groups @ [?m]) ! k) < start + 1" if "k < length (groups @ [?m])" for k
    using that d(6) [of k] hd by (cases "k = ?g") (simp_all add: nth_append)
  show "hd ((groups @ [?m]) ! i) < hd ((groups @ [?m]) ! j)"
    if "i < j" "j < length (groups @ [?m])" for i j
    using that d(6) [of i] d(7) [of i j] hd by (cases "j = ?g") (simp_all add: nth_append)
qed

lemma group_rooms_inv:
  assumes "groups_inv inc ps (int a) labels groups" "a \<le> length inc"
  shows "\<exists>labels' groups'. group_rooms inc ps (map int [a..<length inc]) labels groups
      = Some (labels', groups') \<and> groups_inv inc ps (int (length inc)) labels' groups'"
  using assms
proof (induction "length inc - a" arbitrary: a labels groups)
  case 0
  then show ?case by simp
next
  case (Suc d)
  then have lt: "a < length inc" and up: "map int [a..<length inc] = int a # map int [Suc a..<length inc]"
    by (simp_all add: upt_conv_Cons)
  have d: "d = length inc - Suc a" using Suc.hyps(2) by simp
  have len: "length labels = length inc" using groups_invD(2) [OF Suc.prems(1)] .
  have s: "slice_at labels (int a) = Some (labels ! a)" using lt len by (simp add: slice_at_def)
  show ?case
  proof (cases "labels ! a = NoGroup")
    case False
    with groups_inv_skip [OF Suc.prems(1)] lt have "groups_inv inc ps (int (Suc a)) labels groups"
      by (simp add: add.commute)
    from Suc.hyps(1) [OF d this] lt False show ?thesis unfolding up by (simp add: s)
  next
    case True
    obtain labels' members where b:
      "group_bfs inc ps (length groups)
         (labels[nat (int a) := int (length groups)], [int a], [int a]) = Some (labels', members)"
      "length labels' = length inc" "distinct members"
      "set members = with_label labels' (length groups)"
      "with_label labels' (length groups) = reach (open_succ ps inc) (int a)"
      "\<And>k. k \<noteq> length groups \<Longrightarrow> with_label labels' k = with_label labels k"
      "labelled labels' = labelled labels \<union> with_label labels' (length groups)"
      using group_bfs_component [OF Suc.prems(1), of thesis] lt True by simp
    have "groups_inv inc ps (int a + 1) labels' (groups @ [slicesSortInts members])"
      by (rule groups_inv_new [OF Suc.prems(1) _ _ _ b(2-)]) (use lt True in simp_all)
    then have "groups_inv inc ps (int (Suc a)) labels' (groups @ [slicesSortInts members])"
      by (simp add: add.commute)
    from Suc.hyps(1) [OF d this] lt True b(1) show ?thesis unfolding up by (simp add: s)
  qed
qed

lemma groups_inv_start:
  "incident_ok ps inc \<Longrightarrow> groups_inv inc ps 0 (replicate (length inc) NoGroup) []"
  by (rule groups_invI) (auto simp: labelled_def)


subsection \<open>The graph invariant\<close>

definition open_connected :: "portal list \<Rightarrow> int \<Rightarrow> int \<Rightarrow> bool" where
  "open_connected ps a b \<longleftrightarrow> (a, b) \<in> {(x, y). open_joins ps x y}\<^sup>*"

lemma reach_open_connected:
  "incident_ok ps inc \<Longrightarrow> b \<in> reach (open_succ ps inc) a \<longleftrightarrow> open_connected ps a b"
  by (simp add: reach_def open_connected_def arcs_def open_succ_iff)

definition live_keys :: "('dir, 'h, 'g, 'b) graph \<Rightarrow> hashw set" where
  "live_keys g = set (map (RoomGroupHash (gScene g)) (roomsOfGroup g))"

definition graph_ok :: "('dir, 'h, 'g, 'b) graph \<Rightarrow> bool" where
  "graph_ok g \<longleftrightarrow>
     int (length (incident g)) = RoomCount (gScene g) \<and>
     groups_inv (incident g) (Portals (gScene g)) (RoomCount (gScene g))
       (groupOfRoom g) (roomsOfGroup g) \<and>
     dom (geomCache g) \<subseteq> live_keys g \<and> dom (bvhCache g) \<subseteq> live_keys g"

lemma UpdateRoomGroups_ok:
  assumes "incident_ok (Portals (gScene g)) (incident g)"
    and "int (length (incident g)) = RoomCount (gScene g)"
  shows "\<exists>g'. UpdateRoomGroups g = Some g' \<and> graph_ok g' \<and>
    gScene g' = gScene g \<and> incident g' = incident g \<and>
    geomCache g' = geomCache g |` live_keys g' \<and> bvhCache g' = bvhCache g |` live_keys g'"
proof -
  have "groups_inv (incident g) (Portals (gScene g)) (int 0)
      (replicate (length (incident g)) NoGroup) []" using groups_inv_start [OF assms(1)] by simp
  from group_rooms_inv [OF this] obtain labels groups where r: "group_rooms (incident g) (Portals (gScene g))
      (map int [0..<length (incident g)]) (replicate (length (incident g)) NoGroup) [] =
      Some (labels, groups)"
    and inv: "groups_inv (incident g) (Portals (gScene g)) (int (length (incident g))) labels groups"
    by blast
  let ?g' = "evictUnreachableGeometry (g\<lparr>groupOfRoom := labels, roomsOfGroup := groups\<rparr>)"
  have e: "gScene ?g' = gScene g" "incident ?g' = incident g" "groupOfRoom ?g' = labels"
    "roomsOfGroup ?g' = groups" "geomCache ?g' = geomCache g |` live_keys ?g'"
    "bvhCache ?g' = bvhCache g |` live_keys ?g'"
    by (simp_all add: evictUnreachableGeometry_def Let_def live_keys_def)
  have "UpdateRoomGroups g = Some ?g'" by (simp add: UpdateRoomGroups_def r)
  moreover have "graph_ok ?g'"
    using inv assms(2) unfolding graph_ok_def e(1-4) by (subst e(5), subst e(6)) auto
  ultimately show ?thesis using e by blast
qed

lemma concat_map_Nil: "concat (map f xs) = [] \<longleftrightarrow> (\<forall>x \<in> set xs. f x = [])"
  by auto

lemma validatePortals_references:
  assumes "validatePortals s = []" "p \<in> set (Portals s)"
  shows "validatePortalReferences s p = []"
proof -
  from assms(2) obtain k where k: "k < length (Portals s)" "p = Portals s ! k"
    by (auto simp: in_set_conv_nth)
  then have "(int k, p) \<in> set (indexed (Portals s))" by (simp add: set_indexed)
  with assms(1) have "validatePortal s p = []"
    unfolding validatePortals_def concat_map_Nil by fastforce
  then show ?thesis by (auto simp: validatePortal_def Let_def split: sum.splits)
qed

lemma validatePortals_rooms_in_range:
  assumes "validatePortals s = []"
  shows "rooms_in_range (nat (RoomCount s)) (Portals s)"
  unfolding rooms_in_range_def
proof
  fix p assume "p \<in> set (Portals s)"
  from validatePortals_references [OF assms this]
  have "RoomAt s (fst (RoomIndices p)) \<noteq> None" "RoomAt s (snd (RoomIndices p)) \<noteq> None"
    by (auto simp: validatePortalReferences_def split: if_splits)
  then show "0 \<le> fst (RoomIndices p) \<and> fst (RoomIndices p) < int (nat (RoomCount s)) \<and>
      0 \<le> snd (RoomIndices p) \<and> snd (RoomIndices p) < int (nat (RoomCount s))"
    unfolding RoomAt_Some_iff_index by simp
qed

lemma validatePortals_states:
  assumes "validatePortals s = []" "p \<in> set (Portals s)"
  shows "State p = PortalOpen \<or> State p = PortalClosed"
  using validatePortals_references [OF assms]
  by (auto simp: validatePortalReferences_def split: if_splits)

lemma Validate_portals: "Validate pow rate names (Some s) = [] \<Longrightarrow> validatePortals s = []"
  by (simp add: Validate_def)

lemma NewAcousticSceneGraph_ok:
  "\<exists>r :: graph_error + ('dir, 'h, 'g, 'b) graph.
     NewAcousticSceneGraph pow rate names so = Some r \<and> (\<forall>g. r = Inr g \<longrightarrow>
     graph_ok g \<and> so = Some (gScene g) \<and> Validate pow rate names (Some (gScene g)) = [])"
proof (cases so)
  case None
  then show ?thesis by (simp add: NewAcousticSceneGraph_def)
next
  case (Some s)
  show ?thesis
  proof (cases "Validate pow rate names (Some s) = [] \<and> RoomCount s \<noteq> 0")
    case False
    with Some show ?thesis by (auto simp: NewAcousticSceneGraph_def)
  next
    case True
    from build_incident_ok [OF validatePortals_rooms_in_range [OF Validate_portals]] True
    obtain inc where inc: "build_incident (indexed (Portals s)) (replicate (nat (RoomCount s)) []) = Some inc"
      "length inc = nat (RoomCount s)" "incident_ok (Portals s) inc" by blast
    let ?g = "\<lparr>gScene = s, incident = inc, groupOfRoom = [], roomsOfGroup = [],
                 geomCache = Map.empty, bvhCache = Map.empty\<rparr> :: ('dir, 'h, 'g, 'b) graph"
    from UpdateRoomGroups_ok [of ?g] inc obtain g' where
      g': "UpdateRoomGroups ?g = Some g'" "graph_ok g'" "gScene g' = s" by auto
    have "NewAcousticSceneGraph pow rate names so = Some (Inr g')"
      unfolding NewAcousticSceneGraph_def using True Some inc(1) g'(1) by simp
    with True Some g' show ?thesis by blast
  qed
qed


definition set_state :: "('dir, 'h) scene \<Rightarrow> nat \<Rightarrow> string \<Rightarrow> ('dir, 'h) scene" where
  "set_state s k st = s\<lparr>Portals := (Portals s)[k := (Portals s ! k)\<lparr>State := st\<rparr>]\<rparr>"

lemma set_state_simps [simp]:
  "RoomCount (set_state s k st) = RoomCount s" "RoomAt (set_state s k st) = RoomAt s"
  "length (Portals (set_state s k st)) = length (Portals s)"
  "Receivers (set_state s k st) = Receivers s" "Materials (set_state s k st) = Materials s"
  "BandSpec (set_state s k st) = BandSpec s"
  by (simp_all add: set_state_def RoomCount_def RoomAt_def fun_eq_iff)

lemma set_state_nth:
  "i < length (Portals s) \<Longrightarrow> Portals (set_state s k st) ! i =
     (if i = k then (Portals s ! k)\<lparr>State := st\<rparr> else Portals s ! i)"
  by (simp add: set_state_def nth_list_update)

lemma incident_ok_set_state:
  assumes "incident_ok (Portals s) inc" "k < length (Portals s)"
  shows "incident_ok (Portals (set_state s k st)) inc"
proof -
  have nth: "RoomIndices (Portals (set_state s k st) ! i) = RoomIndices (Portals s ! i)"
    if "i < length (Portals s)" for i
    using that by (simp add: set_state_nth)
  have "view_matches (Portals (set_state s k st)) v = view_matches (Portals s) v" for v
    using nth [of "nat (PortalIndex v)"] by (auto simp: view_matches_def)
  moreover have "rooms_in_range n (Portals (set_state s k st)) = rooms_in_range n (Portals s)" for n
    unfolding rooms_in_range_def all_set_conv_all_nth by (simp add: nth)
  ultimately show ?thesis using assms(1) by (simp add: incident_ok_def)
qed

lemma restrict_map_id: "dom m \<subseteq> A \<Longrightarrow> m |` A = m"
  by (rule ext) (metis restrict_map_def subsetD domIff)

text \<open>\<open>SetPortalState\<close> either reports an error and leaves the graph alone, or returns a
  graph of the scene with the portal's state changed.\<close>

lemma SetPortalState_ok:
  assumes "graph_ok g"
  shows "\<exists>r. SetPortalState g i st = Some r \<and> (\<forall>g'. r = Inr g' \<longrightarrow>
    graph_ok g' \<and> 0 \<le> i \<and> i < int (length (Portals (gScene g))) \<and>
    gScene g' = set_state (gScene g) (nat i) st \<and> incident g' = incident g \<and>
    geomCache g' = geomCache g |` live_keys g' \<and> bvhCache g' = bvhCache g |` live_keys g')"
proof (cases "0 \<le> i \<and> i < int (length (Portals (gScene g))) \<and> (st = PortalOpen \<or> st = PortalClosed)")
  case False
  then show ?thesis by (auto simp: SetPortalState_def Let_def)
next
  case True
  let ?k = "nat i" let ?s = "gScene g"
  have k: "?k < length (Portals ?s)" using True by auto
  show ?thesis
  proof (cases "State (Portals ?s ! ?k) = st")
    case same: True
    then have "(Portals ?s)[?k := (Portals ?s ! ?k)\<lparr>State := st\<rparr>] = Portals ?s"
      using k by (intro nth_equalityI) (auto simp: nth_list_update)
    then have "set_state ?s ?k st = ?s" by (simp add: set_state_def)
    moreover have "geomCache g |` live_keys g = geomCache g" "bvhCache g |` live_keys g = bvhCache g"
      using assms by (simp_all add: graph_ok_def restrict_map_id)
    ultimately show ?thesis
      using True same assms by (auto simp: SetPortalState_def Let_def)
  next
    case False
    let ?g = "g\<lparr>gScene := set_state ?s ?k st\<rparr>"
    have "incident_ok (Portals ?s) (incident g)"
      using assms groups_invD(1) by (auto simp: graph_ok_def)
    from incident_ok_set_state [OF this k]
    have "incident_ok (Portals (gScene ?g)) (incident ?g)" by simp
    moreover have "int (length (incident ?g)) = RoomCount (gScene ?g)"
      using assms by (simp add: graph_ok_def)
    ultimately obtain g' where g': "UpdateRoomGroups ?g = Some g'" "graph_ok g'"
      "gScene g' = set_state ?s ?k st" "incident g' = incident g"
      "geomCache g' = geomCache g |` live_keys g'" "bvhCache g' = bvhCache g |` live_keys g'"
      using UpdateRoomGroups_ok [of ?g] by auto
    have "SetPortalState g i st = Some (Inr g')"
      using True False g'(1) by (auto simp: SetPortalState_def Let_def set_state_def)
    with g' True show ?thesis by auto
  qed
qed

text \<open>Every graph the program can hold: built by the constructor, then changed by portal
  toggles; cached geometry may be filled in at live keys between toggles.\<close>

inductive graph_reachable ::
  "(f64 \<Rightarrow> f64 \<Rightarrow> f64) \<Rightarrow> ('h \<Rightarrow> int) \<Rightarrow> string list \<Rightarrow> ('dir, 'h, 'g, 'b) graph \<Rightarrow> bool"
  for pow rate names where
  new: "NewAcousticSceneGraph pow rate names so = Some (Inr g) \<Longrightarrow>
    graph_reachable pow rate names g"
| toggle: "graph_reachable pow rate names g \<Longrightarrow> SetPortalState g i st = Some (Inr g') \<Longrightarrow>
    graph_reachable pow rate names g'"
| fill_geom: "graph_reachable pow rate names g \<Longrightarrow> GroupRooms g gid = Some rooms \<Longrightarrow>
    graph_reachable pow rate names
      (g\<lparr>geomCache := (geomCache g)(RoomGroupHash (gScene g) rooms \<mapsto> geom)\<rparr>)"
| fill_bvh: "graph_reachable pow rate names g \<Longrightarrow> GroupRooms g gid = Some rooms \<Longrightarrow>
    graph_reachable pow rate names
      (g\<lparr>bvhCache := (bvhCache g)(RoomGroupHash (gScene g) rooms \<mapsto> bvh)\<rparr>)"

lemma GroupRooms_live:
  "GroupRooms g gid = Some rooms \<Longrightarrow> RoomGroupHash (gScene g) rooms \<in> live_keys g"
  by (auto simp: GroupRooms_def slice_at_Some_iff live_keys_def)

lemma graph_reachable_ok:
  fixes g :: "('dir, 'h, 'g, 'b) graph"
  shows "graph_reachable pow rate names g \<Longrightarrow> graph_ok g"
proof (induction rule: graph_reachable.induct)
  case (new so g)
  from NewAcousticSceneGraph_ok [of pow rate names so, where ?'g = 'g and ?'b = 'b] new
  show ?case by auto
next
  case (toggle g i st g')
  then show ?case using SetPortalState_ok [of g i st] by auto
next
  case (fill_geom g gid rooms geom)
  from GroupRooms_live [OF this(2)] this(3) show ?case
    by (auto simp: graph_ok_def live_keys_def)
next
  case (fill_bvh g gid rooms bvh)
  from GroupRooms_live [OF this(2)] this(3) show ?case
    by (auto simp: graph_ok_def live_keys_def)
qed

lemma graph_okD:
  assumes "graph_ok g"
  shows "int (length (incident g)) = RoomCount (gScene g)"
    "groups_inv (incident g) (Portals (gScene g)) (RoomCount (gScene g)) (groupOfRoom g) (roomsOfGroup g)"
    "dom (geomCache g) \<subseteq> live_keys g" "dom (bvhCache g) \<subseteq> live_keys g"
    "incident_ok (Portals (gScene g)) (incident g)"
    "int (length (groupOfRoom g)) = RoomCount (gScene g)"
  using assms groups_invD(1,2) unfolding graph_ok_def by (blast, blast, blast, blast, blast, fastforce)

lemma member_iff_GroupOf:
  assumes "graph_ok g" "k < length (roomsOfGroup g)"
  shows "a \<in> set (roomsOfGroup g ! k) \<longleftrightarrow> GroupOf g a = Some (int k)"
proof -
  have "set (roomsOfGroup g ! k) = with_label (groupOfRoom g) k"
    using groups_invD(5) [OF graph_okD(2) [OF assms(1)] assms(2)] by (simp add: group_ok_def)
  then show ?thesis by (auto simp: with_label_def GroupOf_def slice_at_def)
qed

lemma GroupOf_total:
  assumes "graph_ok g" "0 \<le> a" "a < RoomCount (gScene g)"
  shows "\<exists>k < length (roomsOfGroup g). GroupOf g a = Some (int k)"
proof -
  note inv = graph_okD(2) [OF assms(1)]
  from groups_invD(3) [OF inv assms(2,3)] have "a \<in> labelled (groupOfRoom g)" .
  with groups_invD(4) [OF inv] obtain k where "k < length (roomsOfGroup g)"
    "a \<in> with_label (groupOfRoom g) k" by blast
  then show ?thesis by (auto simp: with_label_def GroupOf_def slice_at_def)
qed

lemma GroupOf_Some_range:
  assumes "graph_ok g" "GroupOf g a = Some m"
  shows "0 \<le> a \<and> a < RoomCount (gScene g) \<and> 0 \<le> m \<and> m < GroupCount g"
proof -
  have r: "0 \<le> a \<and> a < RoomCount (gScene g)"
    using assms(2) graph_okD(6) [OF assms(1)] by (simp add: GroupOf_def slice_at_def split: if_splits)
  with GroupOf_total [OF assms(1), of a] assms(2) show ?thesis by (auto simp: GroupCount_def)
qed

lemma GroupOf_connected:
  assumes g: "graph_ok g" and a: "GroupOf g a = Some k"
  shows "GroupOf g b = Some k \<longleftrightarrow> open_connected (Portals (gScene g)) a b"
proof -
  from GroupOf_Some_range [OF g a] have k: "nat k < length (roomsOfGroup g)" "int (nat k) = k"
    by (auto simp: GroupCount_def)
  have "group_ok (incident g) (Portals (gScene g)) (groupOfRoom g) (nat k) (roomsOfGroup g ! nat k)"
    using groups_invD(5) [OF graph_okD(2) [OF g] k(1)] .
  moreover have "a \<in> set (roomsOfGroup g ! nat k)" using member_iff_GroupOf [OF g k(1)] a k(2) by simp
  ultimately have "set (roomsOfGroup g ! nat k) = reach (open_succ (Portals (gScene g)) (incident g)) a"
    by (simp add: group_ok_def)
  with member_iff_GroupOf [OF g k(1), of b] k(2) reach_open_connected [OF graph_okD(5) [OF g]]
  show ?thesis by auto
qed

lemma GroupRooms_cases:
  assumes g: "graph_ok g"
  shows "GroupRooms g k = Some rs \<longleftrightarrow> 0 \<le> k \<and> k < GroupCount g \<and> rs = roomsOfGroup g ! nat k"
  by (simp add: GroupRooms_def slice_at_Some_iff GroupCount_def)

lemma GroupRooms_members:
  assumes g: "graph_ok g" and rs: "GroupRooms g k = Some rs"
  shows "sorted rs" "distinct rs" "rs \<noteq> []" "set rs = {r. GroupOf g r = Some k}"
proof -
  from rs have k: "nat k < length (roomsOfGroup g)" "int (nat k) = k" "rs = roomsOfGroup g ! nat k"
    by (auto simp: GroupRooms_cases [OF g] GroupCount_def)
  from groups_invD(5) [OF graph_okD(2) [OF g] k(1)]
  show "sorted rs" "distinct rs" "rs \<noteq> []" unfolding group_ok_def k(3) by blast+
  show "set rs = {r. GroupOf g r = Some k}"
    using member_iff_GroupOf [OF g k(1)] k(2,3) by auto
qed

subsection \<open>Positions\<close>

lemma group_scan_spec:
  assumes "\<forall>r \<in> set is. room_contains (gScene g) p r \<longrightarrow> (\<exists>k \<ge> 0. GroupOf g r = Some k)"
    "match = NoGroup \<or> 0 \<le> match"
  shows "group_scan g p is match = Some k \<longleftrightarrow>
    (\<forall>r \<in> set is. room_contains (gScene g) p r \<longrightarrow> GroupOf g r = Some k) \<and>
    (if match = NoGroup then \<exists>r \<in> set is. room_contains (gScene g) p r else k = match)"
  using assms
proof (induction "is" arbitrary: match)
  case Nil
  then show ?case by auto
next
  case (Cons r rs)
  show ?case
  proof (cases "room_contains (gScene g) p r")
    case False
    with Cons show ?thesis by auto
  next
    case True
    with Cons.prems obtain m where m: "GroupOf g r = Some m" "0 \<le> m" by auto
    then have "m \<noteq> NoGroup" by (simp add: NoGroup_def)
    have ih: "group_scan g p rs m = Some k \<longleftrightarrow>
      (\<forall>r \<in> set rs. room_contains (gScene g) p r \<longrightarrow> GroupOf g r = Some k) \<and> k = m"
      using Cons.IH [of m] Cons.prems(1) m(2) \<open>m \<noteq> NoGroup\<close> by simp
    show ?thesis using True m ih by auto
  qed
qed

lemma GroupOfPosition_iff:
  assumes g: "graph_ok g"
  shows "GroupOfPosition g p = Some k \<longleftrightarrow>
    (\<exists>r. room_contains (gScene g) p r) \<and>
    (\<forall>r. room_contains (gScene g) p r \<longrightarrow> GroupOf g r = Some k)"
proof -
  have range: "room_contains (gScene g) p r \<Longrightarrow> 0 \<le> r \<and> r < RoomCount (gScene g)" for r
    using RoomAt_Some_iff_index [of "gScene g" r] by (auto simp: room_contains_def split: option.splits)
  have set: "r \<in> set [0..RoomCount (gScene g) - 1] \<longleftrightarrow> 0 \<le> r \<and> r < RoomCount (gScene g)" for r
    unfolding set_upto atLeastAtMost_iff by linarith
  have "\<forall>r \<in> set [0..RoomCount (gScene g) - 1]. room_contains (gScene g) p r \<longrightarrow>
    (\<exists>k \<ge> 0. GroupOf g r = Some k)"
  proof (intro ballI impI)
    fix r assume "room_contains (gScene g) p r"
    from GroupOf_total [OF g] range [OF this] obtain k where "GroupOf g r = Some (int k)" by blast
    then show "\<exists>k \<ge> 0. GroupOf g r = Some k" by (intro exI [of _ "int k"]) simp
  qed
  from group_scan_spec [OF this, of NoGroup k]
  have "GroupOfPosition g p = Some k \<longleftrightarrow>
    (\<forall>r. 0 \<le> r \<and> r < RoomCount (gScene g) \<longrightarrow> room_contains (gScene g) p r \<longrightarrow> GroupOf g r = Some k) \<and>
    (\<exists>r. (0 \<le> r \<and> r < RoomCount (gScene g)) \<and> room_contains (gScene g) p r)"
    unfolding GroupOfPosition_def Ball_def Bex_def set by simp
  with range show ?thesis by blast
qed

subsection \<open>Edges of the group graph\<close>

definition group_edges :: "('dir, 'h, 'g, 'b) graph \<Rightarrow> int \<Rightarrow> portalView list" where
  "group_edges g r = filter (\<lambda>v. State (Portals (gScene g) ! nat (PortalIndex v)) \<noteq> PortalOpen \<and>
     GroupOf g (ToRoom v) \<noteq> GroupOf g r) (PortalViews g r)"

lemma closed_views_spec:
  assumes g: "graph_ok g" and v: "\<forall>v \<in> set vs. view_matches (Portals (gScene g)) v"
  shows "closed_views g from vs = Some (map (\<lambda>v. \<lparr>View = v, FromGroup = from, ToGroup = the (GroupOf g (ToRoom v))\<rparr>)
    (filter (\<lambda>v. State (Portals (gScene g) ! nat (PortalIndex v)) \<noteq> PortalOpen \<and>
       GroupOf g (ToRoom v) \<noteq> Some from) vs))"
  using v
proof (induction vs)
  case (Cons v vs)
  then have m: "view_matches (Portals (gScene g)) v" by simp
  then have p: "slice_at (Portals (gScene g)) (PortalIndex v) = Some (Portals (gScene g) ! nat (PortalIndex v))"
    by (simp add: view_matches_def slice_at_def)
  from graph_okD(1,5) [OF g] have "rooms_in_range (length (incident g)) (Portals (gScene g))"
    by (simp add: incident_ok_def)
  from view_matches_range(3,4) [OF this m] graph_okD(1) [OF g]
  obtain k where "GroupOf g (ToRoom v) = Some k" using GroupOf_total [OF g, of "ToRoom v"] by auto
  with Cons p show ?case by auto
qed simp

lemma views_of_rooms_spec:
  assumes g: "graph_ok g" and rs: "\<forall>r \<in> set rs. GroupOf g r = Some from"
  shows "views_of_rooms g from rs = Some (concat (map (\<lambda>r.
     map (\<lambda>v. \<lparr>View = v, FromGroup = from, ToGroup = the (GroupOf g (ToRoom v))\<rparr>) (group_edges g r)) rs))"
  using rs
proof (induction rs)
  case (Cons r rs)
  then have r: "0 \<le> r" "r < int (length (incident g))"
    using GroupOf_Some_range [OF g] graph_okD(1) [OF g] by force+
  then have s: "slice_at (incident g) r = Some (incident g ! nat r)" by (simp add: slice_at_def)
  have "\<forall>v \<in> set (incident g ! nat r). view_matches (Portals (gScene g)) v"
    using graph_okD(5) [OF g] r by (auto simp: incident_ok_def)
  from closed_views_spec [OF g this] Cons s show ?case
    by (simp add: group_edges_def PortalViews_def)
qed simp

lemma GroupPortalViews_spec:
  assumes g: "graph_ok g"
  shows "GroupPortalViews g from = Some (case GroupRooms g from of None \<Rightarrow> []
    | Some rs \<Rightarrow> concat (map (\<lambda>r.
       map (\<lambda>v. \<lparr>View = v, FromGroup = from, ToGroup = the (GroupOf g (ToRoom v))\<rparr>) (group_edges g r)) rs))"
proof (cases "GroupRooms g from")
  case (Some rs)
  have "\<forall>r \<in> set rs. GroupOf g r = Some from" using GroupRooms_members(4) [OF g Some] by auto
  from views_of_rooms_spec [OF g this] Some show ?thesis by (simp add: GroupPortalViews_def)
qed (simp add: GroupPortalViews_def)

lemma PortalViews_iff:
  assumes g: "graph_ok g"
  shows "v \<in> set (PortalViews g r) \<longleftrightarrow> view_matches (Portals (gScene g)) v \<and> FromRoom v = r"
proof (cases "0 \<le> r \<and> r < int (length (incident g))")
  case True
  with graph_okD(5) [OF g] show ?thesis by (auto simp: PortalViews_def slice_at_def incident_ok_def)
next
  case False
  have "rooms_in_range (length (incident g)) (Portals (gScene g))"
    using graph_okD(5) [OF g] by (simp add: incident_ok_def)
  from view_matches_range [OF this, of v] False show ?thesis
    by (auto simp: PortalViews_def slice_at_def)
qed

subsection \<open>Toggles elsewhere\<close>

text \<open>A portal toggle changes nothing for the rooms of a group that the portal does not touch.\<close>

lemma open_connected_subset:
  assumes "\<And>x y. x \<in> C \<Longrightarrow> open_joins ps x y \<longleftrightarrow> open_joins ps' x y"
    and closed: "\<And>x y. x \<in> C \<Longrightarrow> open_joins ps x y \<Longrightarrow> y \<in> C" and "a \<in> C"
  shows "open_connected ps a b \<longleftrightarrow> open_connected ps' a b"
proof
  show "open_connected ps' a b" if "open_connected ps a b"
  proof -
    have "(a, b) \<in> {(x, y). open_joins ps' x y}\<^sup>* \<and> b \<in> C"
      using that unfolding open_connected_def
      by (induction rule: rtrancl_induct)
        (use assms in \<open>auto intro: rtrancl_into_rtrancl\<close>)
    then show ?thesis by (simp add: open_connected_def)
  qed
  show "open_connected ps a b" if "open_connected ps' a b"
  proof -
    have "(a, b) \<in> {(x, y). open_joins ps x y}\<^sup>* \<and> b \<in> C"
      using that unfolding open_connected_def
      by (induction rule: rtrancl_induct)
        (use assms in \<open>auto intro: rtrancl_into_rtrancl\<close>)
    then show ?thesis by (simp add: open_connected_def)
  qed
qed

lemma open_joins_set_state:
  assumes "k < length (Portals s)" "x \<noteq> fst (RoomIndices (Portals s ! k))"
    "x \<noteq> snd (RoomIndices (Portals s ! k))"
  shows "open_joins (Portals (set_state s k st)) x y \<longleftrightarrow> open_joins (Portals s) x y"
proof -
  have *: "RoomIndices (Portals (set_state s k st) ! i) = (x, y) \<or>
    RoomIndices (Portals (set_state s k st) ! i) = (y, x) \<longleftrightarrow>
    RoomIndices (Portals s ! i) = (x, y) \<or> RoomIndices (Portals s ! i) = (y, x)"
    "RoomIndices (Portals s ! i) = (x, y) \<or> RoomIndices (Portals s ! i) = (y, x) \<Longrightarrow>
     State (Portals (set_state s k st) ! i) = State (Portals s ! i)"
    if "i < length (Portals s)" for i
    using that assms by (auto simp: set_state_nth)
  show ?thesis unfolding open_joins_def Bex_def in_set_conv_nth set_state_simps(3)
    using * by metis
qed

lemma same_group_after_toggle:
  assumes g: "graph_ok g" and g': "graph_ok g'"
    and sc: "gScene g' = set_state (gScene g) k st" and k: "k < length (Portals (gScene g))"
    and rs: "GroupRooms g gid = Some rs"
    and no: "fst (RoomIndices (Portals (gScene g) ! k)) \<notin> set rs"
      "snd (RoomIndices (Portals (gScene g) ! k)) \<notin> set rs"
  shows "\<exists>gid'. GroupRooms g' gid' = Some rs"
proof -
  let ?ps = "Portals (gScene g)" let ?ps' = "Portals (gScene g')"
  note mem = GroupRooms_members [OF g rs]
  from mem(3) obtain a where a: "a \<in> set rs" by (cases rs) auto
  then have ga: "GroupOf g a = Some gid" using mem(4) by simp
  have con: "b \<in> set rs \<longleftrightarrow> open_connected ?ps a b" for b
    using GroupOf_connected [OF g ga] mem(4) by simp
  have "open_connected ?ps a b \<longleftrightarrow> open_connected ?ps' a b" for b
  proof (rule open_connected_subset [of "set rs"])
    show "open_joins ?ps x y \<longleftrightarrow> open_joins ?ps' x y" if "x \<in> set rs" for x y
    proof -
      have "x \<noteq> fst (RoomIndices (?ps ! k))" "x \<noteq> snd (RoomIndices (?ps ! k))" using that no by auto
      from open_joins_set_state [OF k this] show ?thesis unfolding sc by simp
    qed
    show "y \<in> set rs" if "x \<in> set rs" "open_joins ?ps x y" for x y
      using that unfolding con open_connected_def by (auto intro: rtrancl_into_rtrancl)
  qed (rule a)
  moreover have "0 \<le> a" "a < RoomCount (gScene g')"
    using GroupOf_Some_range [OF g ga] unfolding sc set_state_simps by auto
  then obtain m where m: "m < length (roomsOfGroup g')" "GroupOf g' a = Some (int m)"
    using GroupOf_total [OF g'] by blast
  ultimately have same: "GroupOf g' b = Some (int m) \<longleftrightarrow> b \<in> set rs" for b
    using GroupOf_connected [OF g' m(2)] con by simp
  have rm: "GroupRooms g' (int m) = Some (roomsOfGroup g' ! m)"
    using m(1) by (simp add: GroupRooms_def slice_at_def)
  have "set (roomsOfGroup g' ! m) = set rs"
    using GroupRooms_members(4) [OF g' rm] same by blast
  then have "roomsOfGroup g' ! m = rs"
    using GroupRooms_members(1,2) [OF g' rm] mem(1,2) sorted_distinct_set_unique by blast
  with rm show ?thesis by auto
qed

subsection \<open>Portal toggles\<close>

lemma SetPortalState_error_iff:
  "SetPortalState g i st = Some (Inl e) \<longleftrightarrow>
    (if i < 0 \<or> int (length (Portals (gScene g))) \<le> i then e = PortalIndexOutOfRange i
     else st \<noteq> PortalOpen \<and> st \<noteq> PortalClosed \<and> e = UnsupportedPortalState st)"
proof -
  have "SetPortalState g i st \<noteq> Some (Inl e)" if "0 \<le> i" "i < int (length (Portals (gScene g)))"
    "st = PortalOpen \<or> st = PortalClosed"
    using that by (auto simp: SetPortalState_def Let_def)
  then show ?thesis by (auto simp: SetPortalState_def Let_def)
qed

lemma SetPortalState_success:
  assumes "graph_ok g" "0 \<le> i" "i < int (length (Portals (gScene g)))"
    "st = PortalOpen \<or> st = PortalClosed"
  shows "\<exists>g'. SetPortalState g i st = Some (Inr g')"
proof -
  obtain r where r: "SetPortalState g i st = Some r" using SetPortalState_ok [OF assms(1)] by blast
  then show ?thesis
  proof (cases r)
    case (Inl e)
    with r SetPortalState_error_iff [of g i st e] assms(2-4) show ?thesis by auto
  qed auto
qed

lemma SetPortalState_Inr:
  assumes "graph_ok g" "SetPortalState g i st = Some (Inr g')"
  shows "graph_ok g'" "0 \<le> i" "i < int (length (Portals (gScene g)))"
    "gScene g' = set_state (gScene g) (nat i) st" "incident g' = incident g"
    "geomCache g' = geomCache g |` live_keys g'" "bvhCache g' = bvhCache g |` live_keys g'"
  using SetPortalState_ok [OF assms(1), of i st] assms(2) by auto

lemma toggle_keeps_group:
  assumes "graph_ok g" "SetPortalState g i st = Some (Inr g')" "GroupRooms g k = Some rs"
    "fst (RoomIndices (Portals (gScene g) ! nat i)) \<notin> set rs"
    "snd (RoomIndices (Portals (gScene g) ! nat i)) \<notin> set rs"
  shows "\<exists>k'. GroupRooms g' k' = Some rs \<and> GroupSignature g' k' = GroupSignature g k \<and>
    geomCache g' (RoomGroupHash (gScene g') rs) = geomCache g (RoomGroupHash (gScene g) rs) \<and>
    bvhCache g' (RoomGroupHash (gScene g') rs) = bvhCache g (RoomGroupHash (gScene g) rs)"
proof -
  note t = SetPortalState_Inr [OF assms(1,2)]
  have i: "nat i < length (Portals (gScene g))" using t(2,3) by linarith
  from same_group_after_toggle [OF assms(1) t(1,4) i assms(3-5)]
  obtain k' where k': "GroupRooms g' k' = Some rs" by blast
  have h: "RoomGroupHash (gScene g') rs = RoomGroupHash (gScene g) rs"
    "RoomsSignature (gScene g') rs = RoomsSignature (gScene g) rs"
    unfolding t(4) set_state_def
    by (rule RoomGroupHash_other_portal RoomsSignature_other_portal; use i assms(4,5) in simp)+
  have "RoomGroupHash (gScene g') rs \<in> live_keys g'" by (rule GroupRooms_live [OF k'])
  with k' h assms(3) show ?thesis
    by (intro exI [of _ k']) (simp add: GroupSignature_def t(6,7) restrict_map_def)
qed

lemma reachable_portal_states:
  fixes g :: "('dir, 'h, 'g, 'b) graph"
  assumes "graph_reachable pow rate names g"
  shows "\<forall>p \<in> set (Portals (gScene g)). State p = PortalOpen \<or> State p = PortalClosed"
  using assms
proof (induction rule: graph_reachable.induct)
  case (new so g)
  with NewAcousticSceneGraph_ok [of pow rate names so, where ?'g = 'g and ?'b = 'b]
  have "Validate pow rate names (Some (gScene g)) = []" by auto
  from validatePortals_states [OF Validate_portals [OF this]] show ?case by blast
next
  case (toggle g i st g')
  note g = graph_reachable_ok [OF toggle(1)]
  from SetPortalState_error_iff [of g i st] toggle(2)
  have "st = PortalOpen \<or> st = PortalClosed"
    by (auto simp: SetPortalState_def Let_def split: if_splits)
  then show ?case using toggle.IH unfolding SetPortalState_Inr(4) [OF g toggle(2)] set_state_def
    by (auto dest!: set_update_subset_insert [THEN subsetD]
      simp: in_set_conv_nth [of _ "Portals (gScene g)"])
qed simp_all

lemma GroupPortalViews_iff:
  assumes "graph_reachable pow rate names g" "GroupPortalViews g a = Some views"
  shows "x \<in> set views \<longleftrightarrow>
    view_matches (Portals (gScene g)) (View x) \<and>
    State (Portals (gScene g) ! nat (PortalIndex (View x))) = PortalClosed \<and>
    FromGroup x = a \<and> GroupOf g (FromRoom (View x)) = Some a \<and>
    GroupOf g (ToRoom (View x)) = Some (ToGroup x) \<and> ToGroup x \<noteq> a"
proof -
  note g = graph_reachable_ok [OF assms(1)]
  have st: "State (Portals (gScene g) ! nat (PortalIndex v)) \<noteq> PortalOpen \<longleftrightarrow>
    State (Portals (gScene g) ! nat (PortalIndex v)) = PortalClosed"
    if "view_matches (Portals (gScene g)) v" for v
  proof -
    have "Portals (gScene g) ! nat (PortalIndex v) \<in> set (Portals (gScene g))"
      using that by (auto simp: view_matches_def intro!: nth_mem)
    with reachable_portal_states [OF assms(1)] show ?thesis
      by (auto simp: PortalOpen_def PortalClosed_def)
  qed
  have to: "\<exists>k. GroupOf g (ToRoom v) = Some k" if "view_matches (Portals (gScene g)) v" for v
  proof -
    have "rooms_in_range (length (incident g)) (Portals (gScene g))"
      using graph_okD(5) [OF g] by (simp add: incident_ok_def)
    from view_matches_range(3,4) [OF this that] graph_okD(1) [OF g] show ?thesis
      using GroupOf_total [OF g, of "ToRoom v"] by auto
  qed
  show ?thesis
  proof (cases "GroupRooms g a")
    case None
    then have "GroupOf g r \<noteq> Some a" for r
      using GroupOf_Some_range [OF g, of r a] by (auto simp: GroupRooms_def slice_at_None_iff GroupCount_def)
    with None GroupPortalViews_spec [OF g, of a] assms(2) show ?thesis by simp
  next
    case (Some rs)
    have rs: "r \<in> set rs \<longleftrightarrow> GroupOf g r = Some a" for r
      using GroupRooms_members(4) [OF g Some] by auto
    have "x \<in> set views \<longleftrightarrow> (\<exists>r \<in> set rs. \<exists>v \<in> set (group_edges g r).
      x = \<lparr>View = v, FromGroup = a, ToGroup = the (GroupOf g (ToRoom v))\<rparr>)"
      using GroupPortalViews_spec [OF g, of a] assms(2) Some by auto
    moreover have "v \<in> set (group_edges g r) \<longleftrightarrow> view_matches (Portals (gScene g)) v \<and> FromRoom v = r \<and>
      State (Portals (gScene g) ! nat (PortalIndex v)) = PortalClosed \<and> GroupOf g (ToRoom v) \<noteq> GroupOf g r" for v r
      using PortalViews_iff [OF g, of v r] st [of v] by (auto simp: group_edges_def)
    ultimately show ?thesis
      by (cases x) (auto simp: rs dest: to)
  qed
qed

end
