(* ===== verification/Path_Search.thy ===== *)
theory Path_Search
  imports Room_Groups "HOL-Library.Product_Lexorder"
begin

text \<open>
  The propagation path search (path_search.go): an explicit-stack depth-first search over
  the group graph that builds a tree of simple paths, with limits on depth and size and a
  transmission floor. \<open>math.Log10\<close>, \<open>math.Cos\<close> and \<open>math.Pow\<close> are the arguments \<open>log10\<close>,
  \<open>cosine\<close> and \<open>pow\<close>. The outer \<open>None\<close> of an operation is a run-time panic.
\<close>

subsection \<open>Configuration and tree\<close>

definition DefaultPathPruneFloorDB :: f64 where "DefaultPathPruneFloorDB = round64 (- 60)"
definition DefaultMaxPathDepth :: int where "DefaultMaxPathDepth = 6"
definition DefaultMaxPathNodes :: int where "DefaultMaxPathNodes = 100000"

record PathSearchConfig =
  MaxDepth :: int
  MaxNodes :: int
  PruneFloorDB :: f64
  cBandCount :: int
  ReductionWeights :: "f64 list"

record PathStep =
  stepPortal :: groupPortalView
  stepTransmission :: "f64 list"

record PathNode =
  nGroup :: int
  nDepth :: int
  nParent :: int
  nChildren :: "int list"
  nStep :: "PathStep option"
  nTransmission :: "f64 list"
  nActiveBands :: "bool list"
  nReductionDB :: f64
  nIsLeaf :: bool

record PathSearchTree =
  Nodes :: "PathNode list"
  Root :: int
  Leaves :: "int list"
  Truncated :: bool

datatype path_error =
    SourceGroupMissing int
  | WeightsLength int int
  | WeightsUnusable
  | NoBandCount

subsection \<open>Paths in a tree\<close>

text \<open>\<open>PathTo\<close> follows the parent links up; on a tree with a parent cycle it does not return,
  and on a parent out of range it panics: both are \<open>None\<close>.\<close>

partial_function (option) path_up :: "PathNode list \<Rightarrow> int \<Rightarrow> int list \<Rightarrow> int list option" where
  "path_up ns current acc =
     (if current < 0 then Some acc
      else case slice_at ns current of
        None \<Rightarrow> None
      | Some n \<Rightarrow> path_up ns (nParent n) (current # acc))"

definition PathTo :: "PathSearchTree \<Rightarrow> int \<Rightarrow> int list option" where
  "PathTo t node =
     (if node < 0 \<or> int (length (Nodes t)) \<le> node then Some []
      else path_up (Nodes t) node [])"

definition PortalSequence :: "PathSearchTree \<Rightarrow> int \<Rightarrow> int list option" where
  "PortalSequence t node =
     map_option (\<lambda>nodes. List.map_filter (\<lambda>i.
         map_option (\<lambda>st. PortalIndex (View (stepPortal st))) (nStep (Nodes t ! nat i))) nodes)
       (PathTo t node)"

subsection \<open>Bands and weights\<close>

definition activeBands :: "(f64 \<Rightarrow> f64) \<Rightarrow> f64 list \<Rightarrow> f64 \<Rightarrow> bool list" where
  "activeBands log10 transmission floorDB =
     map (\<lambda>v. flt (Zero False) v \<and> flt floorDB (fmul (round64 10) (log10 v))) transmission"

fun anyActive :: "bool list \<Rightarrow> bool" where
  "anyActive [] = False"
| "anyActive (a # rest) = (if a then True else anyActive rest)"

definition weight_unusable :: "f64 \<Rightarrow> bool" where
  "weight_unusable w \<longleftrightarrow> is_nan w \<or> is_inf w \<or> flt w (Zero False)"

definition float_sum :: "f64 list \<Rightarrow> f64" where
  "float_sum ws = foldl fadd (Zero False) ws"

definition normalizeReductionWeights :: "f64 list \<Rightarrow> f64 list option" where
  "normalizeReductionWeights weights =
     (if \<exists>w \<in> set weights. weight_unusable w then None
      else
        (let total = float_sum weights in
         if fle total (Zero False) \<or> is_inf total then None
         else Some (map (\<lambda>w. fdiv w total) weights)))"

text \<open>The constant \<open>2*math.Pi\<close> of the source is a decimal literal that rounds as \<open>2\<pi>\<close> does.\<close>

definition raised_cosine :: "(f64 \<Rightarrow> f64) \<Rightarrow> int \<Rightarrow> int \<Rightarrow> f64" where
  "raised_cosine cosine bandCount index =
     (let position = fdiv (fadd (f64_of_int index) (round64 (1 / 2))) (f64_of_int bandCount);
          w = fsub (round64 (1 / 2))
                (fmul (round64 (1 / 2)) (cosine (fmul (round64 (2 * pi)) position))) in
      if flt w (round64 (1 / 1000)) then round64 (1 / 1000) else w)"

definition DefaultReductionWeights :: "(f64 \<Rightarrow> f64) \<Rightarrow> int \<Rightarrow> f64 list" where
  "DefaultReductionWeights cosine bandCount =
     (if bandCount \<le> 0 then []
      else
        (let weights = map (raised_cosine cosine bandCount) [0..bandCount - 1];
             total = float_sum weights in
         map (\<lambda>w. fdiv w total) weights))"

definition WeightedReductionIndexDB ::
  "(f64 \<Rightarrow> f64) \<Rightarrow> (f64 \<Rightarrow> f64) \<Rightarrow> f64 list \<Rightarrow> f64 list \<Rightarrow> f64" where
  "WeightedReductionIndexDB log10 cosine transmission weights =
     (if transmission = [] then Inf False
      else
        (let default = DefaultReductionWeights cosine (int (length transmission));
             ws = (if length weights \<noteq> length transmission then default
                   else case normalizeReductionWeights weights of
                     Some normalised \<Rightarrow> normalised | None \<Rightarrow> default);
             sum = float_sum (map2 (\<lambda>w v. fmul w (fmax v (Zero False))) ws transmission) in
         if fle sum (Zero False) then Inf False
         else fmul (round64 (- 10)) (log10 sum)))"

definition withDefaults ::
  "(f64 \<Rightarrow> f64) \<Rightarrow> PathSearchConfig \<Rightarrow> int \<Rightarrow> path_error + PathSearchConfig" where
  "withDefaults cosine c sceneBandCount =
     (let c1 = (if MaxDepth c \<le> 0 then c\<lparr>MaxDepth := DefaultMaxPathDepth\<rparr> else c);
          c2 = (if MaxNodes c1 \<le> 0 then c1\<lparr>MaxNodes := DefaultMaxPathNodes\<rparr> else c1);
          c3 = (if feq (PruneFloorDB c2) (Zero False)
                then c2\<lparr>PruneFloorDB := DefaultPathPruneFloorDB\<rparr> else c2);
          c4 = (if cBandCount c3 \<le> 0 then c3\<lparr>cBandCount := sceneBandCount\<rparr> else c3) in
      if cBandCount c4 \<le> 0 then Inr c4
      else if ReductionWeights c4 = []
        then Inr (c4\<lparr>ReductionWeights := DefaultReductionWeights cosine (cBandCount c4)\<rparr>)
      else if int (length (ReductionWeights c4)) \<noteq> cBandCount c4
        then Inl (WeightsLength (int (length (ReductionWeights c4))) (cBandCount c4))
      else case normalizeReductionWeights (ReductionWeights c4) of
        None \<Rightarrow> Inl WeightsUnusable
      | Some normalised \<Rightarrow> Inr (c4\<lparr>ReductionWeights := normalised\<rparr>))"

subsection \<open>The search\<close>

text \<open>Edges of one group have different pairs of portal index and room, so every sorting
  algorithm returns the same list; \<open>sort_key\<close> is one.\<close>

definition edge_key :: "groupPortalView \<Rightarrow> int \<times> int" where
  "edge_key e = (PortalIndex (View e), FromRoom (View e))"

definition sortedGroupEdges :: "('dir, 'h, 'g, 'b) graph \<Rightarrow> int \<Rightarrow> groupPortalView list option" where
  "sortedGroupEdges g from = map_option (sort_key edge_key) (GroupPortalViews g from)"

definition groupsHoldingReceivers :: "('dir, 'h, 'g, 'b) graph \<Rightarrow> int list" where
  "groupsHoldingReceivers g =
     List.map_filter (\<lambda>r. GroupOfPosition g (rPosition r)) (Receivers (gScene g))"

text \<open>The per-band loop of \<open>growPath\<close>: the portal's coefficients and the running products.\<close>

definition accumulate ::
  "(f64 \<Rightarrow> f64 \<Rightarrow> f64) \<Rightarrow> ('dir, 'h) scene \<Rightarrow> portal \<Rightarrow> f64 list \<Rightarrow> int \<Rightarrow> (f64 list \<times> f64 list) option" where
  "accumulate pow s p parentTransmission bandCount =
     (let bands = [0..bandCount - 1];
          transmission = map (portal_TransmissionAt pow p (Materials s)) bands in
      map_option (\<lambda>acc. (transmission, acc))
        (those (map (\<lambda>band. map_option (\<lambda>t. fmul t (portal_TransmissionAt pow p (Materials s) band))
           (slice_at parentTransmission band)) bands)))"

definition growPath ::
  "(f64 \<Rightarrow> f64) \<Rightarrow> (f64 \<Rightarrow> f64) \<Rightarrow> (f64 \<Rightarrow> f64 \<Rightarrow> f64) \<Rightarrow> ('dir, 'h, 'g, 'b) graph \<Rightarrow>
   PathSearchTree \<Rightarrow> PathSearchConfig \<Rightarrow> int \<Rightarrow> groupPortalView \<Rightarrow> bool list \<Rightarrow> int list \<Rightarrow>
   (PathSearchTree \<times> int option) option" where
  "growPath log10 cosine pow g tree cfg parent edge onPath receiverGroups =
     (case slice_at onPath (ToGroup edge) of
        None \<Rightarrow> None
      | Some True \<Rightarrow> Some (tree, None)
      | Some False \<Rightarrow>
        (case slice_at (Nodes tree) parent of
           None \<Rightarrow> None
         | Some pnode \<Rightarrow>
             if MaxDepth cfg < nDepth pnode + 1 \<or> MaxNodes cfg \<le> int (length (Nodes tree))
             then Some (tree\<lparr>Truncated := True\<rparr>, None)
             else
               (case slice_at (Portals (gScene g)) (PortalIndex (View edge)) of
                  None \<Rightarrow> None
                | Some p \<Rightarrow>
                    (case accumulate pow (gScene g) p (nTransmission pnode) (cBandCount cfg) of
                       None \<Rightarrow> None
                     | Some (transmission, accumulated) \<Rightarrow>
                         (let active = activeBands log10 accumulated (PruneFloorDB cfg) in
                          if \<not> anyActive active then Some (tree\<lparr>Truncated := True\<rparr>, None)
                          else
                            (let child = int (length (Nodes tree));
                                 node = \<lparr>nGroup = ToGroup edge, nDepth = nDepth pnode + 1,
                                   nParent = parent, nChildren = [],
                                   nStep = Some \<lparr>stepPortal = edge, stepTransmission = transmission\<rparr>,
                                   nTransmission = accumulated, nActiveBands = active,
                                   nReductionDB = WeightedReductionIndexDB log10 cosine accumulated
                                     (ReductionWeights cfg),
                                   nIsLeaf = (ToGroup edge \<in> set receiverGroups)\<rparr>;
                                 nodes = (Nodes tree)[nat parent :=
                                   pnode\<lparr>nChildren := nChildren pnode @ [child]\<rparr>] @ [node];
                                 leaves = Leaves tree @ (if nIsLeaf node then [child] else []) in
                             Some (tree\<lparr>Nodes := nodes, Leaves := leaves\<rparr>, Some child)))))))"

record pathFrame =
  fNode :: int
  fEdges :: "groupPortalView list"
  childCursor :: nat

definition frame_msr :: "pathFrame \<Rightarrow> nat" where
  "frame_msr f = Suc (length (fEdges f) - childCursor f)"

lemma growPath_Some_None:
  "growPath log10 cosine pow g tree cfg parent edge onPath rg = Some (tree', None) \<Longrightarrow>
    Nodes tree' = Nodes tree"
  by (auto simp: growPath_def Let_def split: option.splits bool.splits if_splits)

lemma growPath_Some_Some:
  "growPath log10 cosine pow g tree cfg parent edge onPath rg = Some (tree', Some child) \<Longrightarrow>
    length (Nodes tree') = Suc (length (Nodes tree)) \<and>
    int (length (Nodes tree)) < MaxNodes cfg \<and> child = int (length (Nodes tree))"
  by (auto simp: growPath_def Let_def split: option.splits bool.splits if_splits)

text \<open>The loop of \<open>expandPaths\<close>; the head of the list is the top of the stack. Each round
  closes the top frame, moves its cursor on, or adds a node, of which there are at most
  \<open>MaxNodes\<close>.\<close>

function expand_loop ::
  "(f64 \<Rightarrow> f64) \<Rightarrow> (f64 \<Rightarrow> f64) \<Rightarrow> (f64 \<Rightarrow> f64 \<Rightarrow> f64) \<Rightarrow> ('dir, 'h, 'g, 'b) graph \<Rightarrow>
   PathSearchConfig \<Rightarrow> int list \<Rightarrow> PathSearchTree \<Rightarrow> bool list \<Rightarrow> pathFrame list \<Rightarrow>
   PathSearchTree option" where
  "expand_loop log10 cosine pow g cfg rg tree onPath [] = Some tree"
| "expand_loop log10 cosine pow g cfg rg tree onPath (frame # stack) =
     (if length (fEdges frame) \<le> childCursor frame then
        (case slice_at (Nodes tree) (fNode frame) of
           None \<Rightarrow> None
         | Some n \<Rightarrow>
             (case slice_at onPath (nGroup n) of
                None \<Rightarrow> None
              | Some _ \<Rightarrow> expand_loop log10 cosine pow g cfg rg tree (onPath[nat (nGroup n) := False]) stack))
      else
        (let edge = fEdges frame ! childCursor frame;
             frame' = frame\<lparr>childCursor := Suc (childCursor frame)\<rparr> in
         case growPath log10 cosine pow g tree cfg (fNode frame) edge onPath rg of
           None \<Rightarrow> None
         | Some (tree', None) \<Rightarrow> expand_loop log10 cosine pow g cfg rg tree' onPath (frame' # stack)
         | Some (tree', Some child) \<Rightarrow>
             (case slice_at (Nodes tree') child of
                None \<Rightarrow> None
              | Some n \<Rightarrow>
                  (case (slice_at onPath (nGroup n), sortedGroupEdges g (nGroup n)) of
                     (Some _, Some edges) \<Rightarrow>
                       expand_loop log10 cosine pow g cfg rg tree' (onPath[nat (nGroup n) := True])
                         (\<lparr>fNode = child, fEdges = edges, childCursor = 0\<rparr> # frame' # stack)
                   | _ \<Rightarrow> None))))"
  by pat_completeness auto
termination
proof (relation "measures [\<lambda>(log10, cosine, pow, g, cfg, rg, tree, onPath, stack).
      nat (MaxNodes cfg - int (length (Nodes tree))),
    \<lambda>(log10, cosine, pow, g, cfg, rg, tree, onPath, stack). sum_list (map frame_msr stack)]", goal_cases)
  case 1
  show ?case by simp
next
  case 2
  then show ?case by (simp add: frame_msr_def)
next
  case 3
  then show ?case by (auto simp: frame_msr_def dest!: growPath_Some_None)
next
  case 4
  then show ?case by (auto dest!: growPath_Some_Some)
qed

definition expandPaths ::
  "(f64 \<Rightarrow> f64) \<Rightarrow> (f64 \<Rightarrow> f64) \<Rightarrow> (f64 \<Rightarrow> f64 \<Rightarrow> f64) \<Rightarrow> ('dir, 'h, 'g, 'b) graph \<Rightarrow>
   PathSearchTree \<Rightarrow> PathSearchConfig \<Rightarrow> int list \<Rightarrow> PathSearchTree option" where
  "expandPaths log10 cosine pow g tree cfg rg =
     (case slice_at (Nodes tree) 0 of
        None \<Rightarrow> None
      | Some rootNode \<Rightarrow>
          (let onPath = replicate (nat (GroupCount g)) False in
           case (slice_at onPath (nGroup rootNode), sortedGroupEdges g (nGroup rootNode)) of
             (Some _, Some edges) \<Rightarrow>
               expand_loop log10 cosine pow g cfg rg tree (onPath[nat (nGroup rootNode) := True])
                 [\<lparr>fNode = 0, fEdges = edges, childCursor = 0\<rparr>]
           | _ \<Rightarrow> None))"

definition SearchPaths ::
  "(f64 \<Rightarrow> f64) \<Rightarrow> (f64 \<Rightarrow> f64) \<Rightarrow> (f64 \<Rightarrow> f64 \<Rightarrow> f64) \<Rightarrow> ('dir, 'h, 'g, 'b) graph \<Rightarrow>
   int \<Rightarrow> PathSearchConfig \<Rightarrow> (path_error + PathSearchTree) option" where
  "SearchPaths log10 cosine pow g sourceGroup cfg0 =
     (if GroupRooms g sourceGroup = None then Some (Inl (SourceGroupMissing sourceGroup))
      else case withDefaults cosine cfg0 (BandCount (BandSpec (gScene g))) of
        Inl e \<Rightarrow> Some (Inl e)
      | Inr cfg \<Rightarrow>
          if cBandCount cfg \<le> 0 then Some (Inl NoBandCount)
          else
            (let receiverGroups = groupsHoldingReceivers g;
                 unity = replicate (nat (cBandCount cfg)) (round64 1);
                 rootNode = \<lparr>nGroup = sourceGroup, nDepth = 0, nParent = -1, nChildren = [],
                   nStep = None, nTransmission = unity,
                   nActiveBands = activeBands log10 unity (PruneFloorDB cfg),
                   nReductionDB = Zero False,
                   nIsLeaf = (sourceGroup \<in> set receiverGroups)\<rparr> in
             map_option Inr (expandPaths log10 cosine pow g
               \<lparr>Nodes = [rootNode], Root = 0,
                Leaves = (if nIsLeaf rootNode then [0] else []), Truncated = False\<rparr>
               cfg receiverGroups)))"

end
