(* ===== verification/Go_Values.thy ===== *)
theory Go_Values
  imports Float64
begin

text \<open>
  Go's slices and conversions as the numeric packages use them: \<open>make\<close>, indexed reads and
  updates with a panic out of range (\<open>None\<close>), loops that may panic, \<open>math.Ceil\<close>,
  \<open>math.Floor\<close>, \<open>math.Round\<close> and the conversion \<open>int(x)\<close> of a float64, whose result on
  values that no int64 has is the one amd64 gives.
\<close>

subsection \<open>Conversions\<close>

definition fcompose :: "(real \<Rightarrow> int) \<Rightarrow> f64 \<Rightarrow> f64" where
  "fcompose r a = (case a of Num x \<Rightarrow> (if r x = 0 then Zero (x < 0) else Num (of_int (r x))) | _ \<Rightarrow> a)"

definition fceil :: "f64 \<Rightarrow> f64" where
  "fceil = fcompose ceiling"

definition ffloor :: "f64 \<Rightarrow> f64" where
  "ffloor = fcompose floor"

text \<open>\<open>math.Round\<close> rounds half away from zero.\<close>

definition round_away :: "real \<Rightarrow> int" where
  "round_away x = (if x < 0 then - \<lfloor>- x + 1 / 2\<rfloor> else \<lfloor>x + 1 / 2\<rfloor>)"

definition fround :: "f64 \<Rightarrow> f64" where
  "fround = fcompose round_away"

definition truncate_real :: "real \<Rightarrow> int" where
  "truncate_real x = (if x < 0 then \<lceil>x\<rceil> else \<lfloor>x\<rfloor>)"

definition f64_to_int :: "f64 \<Rightarrow> int" where
  "f64_to_int a =
     (if is_nan a \<or> is_inf a then - (2 ^ 63)
      else
        (let n = truncate_real (fval a) in
         if - (2 ^ 63) \<le> n \<and> n < 2 ^ 63 then n else - (2 ^ 63)))"

subsection \<open>Slices\<close>

text \<open>\<open>make([]T, n)\<close> panics on a negative length and on more than \<open>2\<^sup>4\<^sup>8\<close> bytes.\<close>

definition make_slice :: "int \<Rightarrow> 'a \<Rightarrow> int \<Rightarrow> 'a list option" where
  "make_slice elem_size z n =
     (if n < 0 \<or> 2 ^ 48 < elem_size * n then None else Some (replicate (nat n) z))"

definition make_floats :: "int \<Rightarrow> f64 list option" where
  "make_floats n = make_slice 8 (Zero False) n"

text \<open>\<open>xs[i] += v\<close> on a slice and on a slice of slices.\<close>

definition add_at :: "f64 list \<Rightarrow> int \<Rightarrow> f64 \<Rightarrow> f64 list option" where
  "add_at xs i v = map_option (\<lambda>x. xs[nat i := fadd x v]) (slice_at xs i)"

text \<open>A loop over the indices \<open>0..<n\<close> that fills the slots of a slice, each on its own.\<close>

definition fill :: "nat \<Rightarrow> (nat \<Rightarrow> 'a option) \<Rightarrow> 'a list option" where
  "fill n f = those (map f [0..<n])"

text \<open>A loop that carries a state and may panic.\<close>

fun opt_foldl :: "('s \<Rightarrow> 'a \<Rightarrow> 's option) \<Rightarrow> 's \<Rightarrow> 'a list \<Rightarrow> 's option" where
  "opt_foldl f s [] = Some s"
| "opt_foldl f s (x # xs) = (case f s x of None \<Rightarrow> None | Some s' \<Rightarrow> opt_foldl f s' xs)"

subsection \<open>Laws\<close>

lemma those_Some_iff: "those xs = Some ys \<longleftrightarrow> xs = map Some ys"
proof (induction xs arbitrary: ys)
  case Nil
  then show ?case by auto
next
  case (Cons x xs)
  then show ?case by (cases ys) (auto split: option.splits)
qed

lemma fill_Some_iff: "fill n f = Some ys \<longleftrightarrow> length ys = n \<and> (\<forall>i < n. f i = Some (ys ! i))"
proof
  assume "fill n f = Some ys"
  then have m: "map f [0..<n] = map Some ys" by (simp add: fill_def those_Some_iff)
  then have l: "length ys = n" by (metis length_map length_upt diff_zero)
  have "f i = Some (ys ! i)" if "i < n" for i
    using arg_cong [OF m, of "\<lambda>l. l ! i"] that l by simp
  with l show "length ys = n \<and> (\<forall>i < n. f i = Some (ys ! i))" by blast
next
  assume "length ys = n \<and> (\<forall>i < n. f i = Some (ys ! i))"
  then show "fill n f = Some ys" by (auto simp: fill_def those_Some_iff intro: nth_equalityI)
qed

lemma fill_SomeI: "(\<And>i. i < n \<Longrightarrow> f i = Some (g i)) \<Longrightarrow> fill n f = Some (map g [0..<n])"
  by (simp add: fill_Some_iff)

lemma fill_total: "(\<And>i. i < n \<Longrightarrow> f i \<noteq> None) \<Longrightarrow> \<exists>ys. fill n f = Some ys"
proof -
  assume "\<And>i. i < n \<Longrightarrow> f i \<noteq> None"
  then have "fill n f = Some (map (\<lambda>i. the (f i)) [0..<n])" by (intro fill_SomeI) force
  then show ?thesis by blast
qed

lemma fill_None_iff: "fill n f = None \<longleftrightarrow> (\<exists>i < n. f i = None)"
proof
  assume "fill n f = None"
  then show "\<exists>i < n. f i = None" using fill_total [of n f] by force
next
  assume "\<exists>i < n. f i = None"
  then show "fill n f = None" by (cases "fill n f") (auto simp: fill_Some_iff)
qed

lemma opt_foldl_pure:
  assumes step: "\<And>s x. x \<in> set xs \<Longrightarrow> J s \<Longrightarrow> f s x = Some (g s x) \<and> J (g s x)"
    and "J s"
  shows "opt_foldl f s xs = Some (foldl g s xs) \<and> J (foldl g s xs)"
  using assms by (induction xs arbitrary: s) simp_all

lemma opt_foldl_inv:
  assumes "opt_foldl f s xs = Some s'" "J s"
    and "\<And>s x s'. x \<in> set xs \<Longrightarrow> J s \<Longrightarrow> f s x = Some s' \<Longrightarrow> J s'"
  shows "J s'"
  using assms
proof (induction xs arbitrary: s)
  case (Cons a xs)
  then obtain s1 where s1: "f s a = Some s1" "opt_foldl f s1 xs = Some s'" by (auto split: option.splits)
  moreover have "J s1" using Cons.prems(3) [of a s s1] Cons.prems(2) s1(1) by simp
  ultimately show ?case using Cons.IH [of s1] Cons.prems(3) by (meson list.set_intros(2))
qed simp

lemma slice_at_nat [simp]: "i < length xs \<Longrightarrow> slice_at xs (int i) = Some (xs ! i)"
  by (simp add: slice_at_def)

lemma add_at_nat: "i < length xs \<Longrightarrow> add_at xs (int i) v = Some (xs[i := fadd (xs ! i) v])"
  by (simp add: add_at_def)

lemma add_at_Some_iff:
  "add_at xs i v = Some ys \<longleftrightarrow>
     0 \<le> i \<and> i < int (length xs) \<and> ys = xs[nat i := fadd (xs ! nat i) v]"
  by (auto simp: add_at_def slice_at_def)

lemma make_slice_Some_iff:
  "make_slice sz z n = Some xs \<longleftrightarrow> 0 \<le> n \<and> sz * n \<le> 2 ^ 48 \<and> xs = replicate (nat n) z"
  by (auto simp: make_slice_def)

lemma make_floats_Some_iff:
  "make_floats n = Some xs \<longleftrightarrow> 0 \<le> n \<and> n \<le> 2 ^ 45 \<and> xs = replicate (nat n) (Zero False)"
  by (auto simp: make_floats_def make_slice_Some_iff)

lemma f64_to_int_of_int: "- (2 ^ 63) \<le> n \<Longrightarrow> n < 2 ^ 63 \<Longrightarrow> f64_to_int (fof (of_int n)) = n"
  by (simp add: f64_to_int_def truncate_real_def Let_def)

lemma fceil_of_real:
  "fceil (Num x) = (if \<lceil>x\<rceil> = 0 then Zero (x < 0) else Num (of_int \<lceil>x\<rceil>))"
  by (simp add: fceil_def fcompose_def)

lemma fcompose_finite [simp]: "is_finite (fcompose r a) = is_finite a"
  by (cases a) (auto simp: fcompose_def is_finite_def)

lemma f64_to_int_fceil: "is_finite a \<Longrightarrow> - (2 ^ 63) \<le> \<lceil>fval a\<rceil> \<Longrightarrow> \<lceil>fval a\<rceil> < 2 ^ 63 \<Longrightarrow> f64_to_int (fceil a) = \<lceil>fval a\<rceil>"
  by (cases a) (auto simp: f64_to_int_def fceil_def fcompose_def truncate_real_def Let_def is_finite_def)

lemma f64_to_int_ffloor: "is_finite a \<Longrightarrow> - (2 ^ 63) \<le> \<lfloor>fval a\<rfloor> \<Longrightarrow> \<lfloor>fval a\<rfloor> < 2 ^ 63 \<Longrightarrow> f64_to_int (ffloor a) = \<lfloor>fval a\<rfloor>"
  by (cases a) (auto simp: f64_to_int_def ffloor_def fcompose_def truncate_real_def Let_def is_finite_def)

end
