(* ===== verification/Responses.thy ===== *)
theory Responses
  imports Go_Values Scene_Model
begin

text \<open>
  Package ir: sparse events (event.go), sample buffers (buffer.go), the per-band renderers
  (bandrender.go, the scalar half of render.go, the checks of render_banded.go) and banded
  responses (banded_response.go). \<open>math.Cos\<close>, \<open>math.Sin\<close>, \<open>math.Hypot\<close> and \<open>math.Pow\<close> are
  arguments. \<open>None\<close> is a run-time panic; \<open>Inl\<close> is a returned error.
\<close>

subsection \<open>Events\<close>

datatype EventKind =
  EventDirect | EventSpecular | EventDiffuse | EventDiffraction | EventPDE | EventTransmission

record Event =
  TimeSeconds :: f64
  Amplitude :: f64
  evDirection :: vec3
  DistanceMeters :: f64
  BandGain :: "f64 list"
  PhaseRadians :: f64
  evKind :: EventKind

record EnergyEmission =
  eePosition :: vec3
  eeTimeSeconds :: f64
  BandEnergyOf :: "f64 list"

record PressureEmission =
  pePosition :: vec3
  peTimeSeconds :: f64
  BandPressure :: "f64 list"
  pePhaseRadians :: f64

definition ToPressure :: "EnergyEmission \<Rightarrow> PressureEmission" where
  "ToPressure e = \<lparr>pePosition = eePosition e, peTimeSeconds = eeTimeSeconds e,
     BandPressure = map fsqrt (BandEnergyOf e), pePhaseRadians = Zero False\<rparr>"

subsection \<open>Buffers\<close>

record Buffer =
  bufSampleRate :: int
  Samples :: "f64 list"

definition buffer_length :: "int \<Rightarrow> f64 \<Rightarrow> int" where
  "buffer_length sampleRate durationSeconds =
     (if 0 < sampleRate \<and> flt (Zero False) durationSeconds
      then f64_to_int (fceil (fmul durationSeconds (f64_of_int sampleRate))) else 0)"

definition NewBuffer :: "int \<Rightarrow> f64 \<Rightarrow> Buffer option" where
  "NewBuffer sampleRate durationSeconds =
     map_option (\<lambda>s. \<lparr>bufSampleRate = sampleRate, Samples = s\<rparr>)
       (make_floats (buffer_length sampleRate durationSeconds))"

definition buf_Len :: "Buffer option \<Rightarrow> int" where
  "buf_Len b = (case b of None \<Rightarrow> 0 | Some b \<Rightarrow> int (length (Samples b)))"

definition buf_Duration :: "Buffer option \<Rightarrow> f64" where
  "buf_Duration b = (case b of None \<Rightarrow> Zero False
   | Some b \<Rightarrow> if bufSampleRate b \<le> 0 then Zero False
       else fdiv (f64_of_int (int (length (Samples b)))) (f64_of_int (bufSampleRate b)))"

subsection \<open>Render configuration and event checks\<close>

record RenderConfig =
  rcSampleRate :: int
  DurationSeconds :: f64
  rcBandSpec :: band_spec

datatype ir_error =
    SampleRateNotPositive | DurationNotPositive | BandSpecLengths | BandSpecMissing
  | BandIndexRange int int | NegativeTime nat | BandGainLength nat int int
  | ResponseNil | GainCount int int

definition validateRenderConfig :: "RenderConfig \<Rightarrow> ir_error option" where
  "validateRenderConfig cfg =
     (if rcSampleRate cfg \<le> 0 then Some SampleRateNotPositive
      else if fle (DurationSeconds cfg) (Zero False) then Some DurationNotPositive
      else if int (length (LowerEdges (rcBandSpec cfg))) \<noteq> BandCount (rcBandSpec cfg)
        \<or> int (length (UpperEdges (rcBandSpec cfg))) \<noteq> BandCount (rcBandSpec cfg)
        then Some BandSpecLengths
      else None)"

fun validateBandedEvents :: "Event list \<Rightarrow> int \<Rightarrow> nat \<Rightarrow> ir_error option" where
  "validateBandedEvents [] bandCount index = None"
| "validateBandedEvents (e # events) bandCount index =
     (if flt (TimeSeconds e) (Zero False) then Some (NegativeTime index)
      else if BandGain e \<noteq> [] \<and> int (length (BandGain e)) \<noteq> bandCount
        then Some (BandGainLength index (int (length (BandGain e))) bandCount)
      else validateBandedEvents events bandCount (Suc index))"

definition sample_index :: "Event \<Rightarrow> int \<Rightarrow> int" where
  "sample_index e sampleRate = f64_to_int (fround (fmul (TimeSeconds e) (f64_of_int sampleRate)))"

subsection \<open>Rendering one band (bandrender.go)\<close>

text \<open>Errors of the gain functions carry no event index; the caller adds it.\<close>

definition bandGainAt :: "f64 list \<Rightarrow> int \<Rightarrow> int \<Rightarrow> (nat \<Rightarrow> ir_error) + f64" where
  "bandGainAt bandGain bandIndex bandCount =
     (if bandIndex < 0 \<or> bandCount \<le> bandIndex then Inl (\<lambda>_. BandIndexRange bandIndex bandCount)
      else if bandGain = [] then Inr (round64 1)
      else if int (length bandGain) \<noteq> bandCount
        then Inl (\<lambda>i. BandGainLength i (int (length bandGain)) bandCount)
      else Inr (bandGain ! nat bandIndex))"

definition bandEventGain :: "(f64 \<Rightarrow> f64) \<Rightarrow> Event \<Rightarrow> int \<Rightarrow> int \<Rightarrow> (nat \<Rightarrow> ir_error) + f64" where
  "bandEventGain cosine e bandIndex bandCount =
     res_bind (bandGainAt (BandGain e) bandIndex bandCount)
       (\<lambda>g. Inr (fmul (fmul (Amplitude e) g) (cosine (PhaseRadians e))))"

definition aggregateBandGain :: "f64 list \<Rightarrow> int \<Rightarrow> (nat \<Rightarrow> ir_error) + f64" where
  "aggregateBandGain bandGain bandCount =
     (if bandGain = [] then Inr (round64 1)
      else if 0 < bandCount \<and> int (length bandGain) \<noteq> bandCount
        then Inl (\<lambda>i. BandGainLength i (int (length bandGain)) bandCount)
      else
        (let sum = foldl fadd (Zero False) bandGain in
         if feq sum (Zero False) then Inr (Zero False)
         else Inr (fdiv sum (f64_of_int (int (length bandGain))))))"

definition monoEventGain :: "(f64 \<Rightarrow> f64) \<Rightarrow> Event \<Rightarrow> int \<Rightarrow> (nat \<Rightarrow> ir_error) + f64" where
  "monoEventGain cosine e bandCount =
     res_bind (aggregateBandGain (BandGain e) bandCount)
       (\<lambda>g. Inr (fmul (fmul (Amplitude e) g) (cosine (PhaseRadians e))))"

text \<open>The event loop that \<open>RenderBand\<close> and \<open>renderMonoScalar\<close> share, with the gain function
  of each.\<close>

fun place_events ::
  "(Event \<Rightarrow> (nat \<Rightarrow> ir_error) + f64) \<Rightarrow> int \<Rightarrow> Event list \<Rightarrow> nat \<Rightarrow> Buffer \<Rightarrow> ir_error + Buffer" where
  "place_events gain sampleRate [] index buf = Inr buf"
| "place_events gain sampleRate (e # events) index buf =
     (if flt (TimeSeconds e) (Zero False) then Inl (NegativeTime index)
      else
        (let i = sample_index e sampleRate in
         if i < 0 \<or> buf_Len (Some buf) \<le> i then place_events gain sampleRate events (Suc index) buf
         else (case gain e of
             Inl err \<Rightarrow> Inl (err index)
           | Inr g \<Rightarrow> place_events gain sampleRate events (Suc index)
               (buf\<lparr>Samples := (Samples buf)[nat i := fadd (Samples buf ! nat i) g]\<rparr>))))"

definition RenderBand ::
  "(f64 \<Rightarrow> f64) \<Rightarrow> Event list \<Rightarrow> int \<Rightarrow> RenderConfig \<Rightarrow> (ir_error + Buffer) option" where
  "RenderBand cosine events bandIndex cfg =
     (case validateRenderConfig cfg of
        Some err \<Rightarrow> Some (Inl err)
      | None \<Rightarrow>
          (let bandCount = BandCount (rcBandSpec cfg) in
           if bandCount \<le> 0 then Some (Inl BandSpecMissing)
           else if bandIndex < 0 \<or> bandCount \<le> bandIndex
             then Some (Inl (BandIndexRange bandIndex bandCount))
           else map_option
             (place_events (\<lambda>e. bandEventGain cosine e bandIndex bandCount) (rcSampleRate cfg) events 0)
             (NewBuffer (rcSampleRate cfg) (DurationSeconds cfg))))"

definition renderMonoScalar ::
  "(f64 \<Rightarrow> f64) \<Rightarrow> Event list \<Rightarrow> RenderConfig \<Rightarrow> (ir_error + Buffer) option" where
  "renderMonoScalar cosine events cfg =
     map_option
       (place_events (\<lambda>e. monoEventGain cosine e (BandCount (rcBandSpec cfg))) (rcSampleRate cfg) events 0)
       (NewBuffer (rcSampleRate cfg) (DurationSeconds cfg))"

text \<open>\<open>SumBands\<close> and \<open>SumBandsWeighted\<close> return nil (here \<open>None\<close>, not a panic) when no buffer is
  present or two buffers do not align. The accumulator of the first is the buffer seen first.\<close>

fun sum_bands_loop :: "Buffer option list \<Rightarrow> Buffer option \<Rightarrow> Buffer option" where
  "sum_bands_loop [] out = out"
| "sum_bands_loop (None # bands) out = sum_bands_loop bands out"
| "sum_bands_loop (Some band # bands) None = sum_bands_loop bands (Some band)"
| "sum_bands_loop (Some band # bands) (Some out) =
     (if bufSampleRate band \<noteq> bufSampleRate out \<or> length (Samples band) \<noteq> length (Samples out) then None
      else sum_bands_loop bands (Some (out\<lparr>Samples := map2 fadd (Samples out) (Samples band)\<rparr>)))"

definition SumBands :: "Buffer option list \<Rightarrow> Buffer option" where
  "SumBands bands = sum_bands_loop bands None"

fun sum_weighted_loop :: "f64 list \<Rightarrow> nat \<Rightarrow> Buffer option list \<Rightarrow> Buffer option \<Rightarrow> Buffer option" where
  "sum_weighted_loop weights index [] out = out"
| "sum_weighted_loop weights index (None # bands) out = sum_weighted_loop weights (Suc index) bands out"
| "sum_weighted_loop weights index (Some band # bands) out =
     (let weight = (if index < length weights then weights ! index else round64 1);
          o' = (case out of
            None \<Rightarrow> \<lparr>bufSampleRate = bufSampleRate band, Samples = replicate (length (Samples band)) (Zero False)\<rparr>
          | Some b \<Rightarrow> b) in
      if bufSampleRate band \<noteq> bufSampleRate o' \<or> length (Samples band) \<noteq> length (Samples o') then None
      else sum_weighted_loop weights (Suc index) bands
        (Some (o'\<lparr>Samples := map2 (\<lambda>a s. fadd a (fmul s weight)) (Samples o') (Samples band)\<rparr>)))"

definition SumBandsWeighted :: "Buffer option list \<Rightarrow> f64 list \<Rightarrow> Buffer option" where
  "SumBandsWeighted bands weights = sum_weighted_loop weights 0 bands None"

text \<open>The outer \<open>None\<close> is a panic, the inner one a nil buffer.\<close>

definition RenderHybridBand ::
  "(f64 \<Rightarrow> f64) \<Rightarrow> Event list \<Rightarrow> Event list \<Rightarrow> int \<Rightarrow> RenderConfig \<Rightarrow> (ir_error + Buffer option) option" where
  "RenderHybridBand cosine earlyEvents lateEvents bandIndex cfg =
     (case RenderBand cosine earlyEvents bandIndex cfg of
        None \<Rightarrow> None
      | Some (Inl err) \<Rightarrow> Some (Inl err)
      | Some (Inr early) \<Rightarrow>
          (case RenderBand cosine lateEvents bandIndex cfg of
             None \<Rightarrow> None
           | Some (Inl err) \<Rightarrow> Some (Inl err)
           | Some (Inr late) \<Rightarrow> Some (Inr (SumBands [Some early, Some late]))))"

subsection \<open>Banded responses (banded_response.go)\<close>

record BandedResponse =
  brSampleRate :: int
  Bands :: "f64 list list"
  Quadrature :: "f64 list list"

definition allocBands :: "int \<Rightarrow> int \<Rightarrow> f64 list list option" where
  "allocBands bandCount len =
     (case make_slice 24 ([] :: f64 list) bandCount of
        None \<Rightarrow> None
      | Some bands \<Rightarrow> fill (length bands) (\<lambda>_. make_floats len))"

definition NewBandedResponse :: "int \<Rightarrow> int \<Rightarrow> int \<Rightarrow> BandedResponse option" where
  "NewBandedResponse sampleRate bandCount len =
     map_option (\<lambda>bs. \<lparr>brSampleRate = sampleRate, Bands = bs, Quadrature = []\<rparr>) (allocBands bandCount len)"

definition NewComplexBandedResponse :: "int \<Rightarrow> int \<Rightarrow> int \<Rightarrow> BandedResponse option" where
  "NewComplexBandedResponse sampleRate bandCount len =
     map_option (\<lambda>bs. \<lparr>brSampleRate = sampleRate, Bands = bs, Quadrature = bs\<rparr>) (allocBands bandCount len)"

definition HasQuadrature :: "BandedResponse option \<Rightarrow> bool" where
  "HasQuadrature r = (case r of None \<Rightarrow> False | Some r \<Rightarrow> Quadrature r \<noteq> [])"

definition br_BandCount :: "BandedResponse option \<Rightarrow> int" where
  "br_BandCount r = (case r of None \<Rightarrow> 0 | Some r \<Rightarrow> int (length (Bands r)))"

definition br_Len :: "BandedResponse option \<Rightarrow> int" where
  "br_Len r = (case r of None \<Rightarrow> 0 | Some r \<Rightarrow> if Bands r = [] then 0 else int (length (hd (Bands r))))"

definition Clone :: "BandedResponse option \<Rightarrow> BandedResponse option" where
  "Clone r = (case r of None \<Rightarrow> None
   | Some r \<Rightarrow> Some \<lparr>brSampleRate = brSampleRate r, Bands = Bands r,
       Quadrature = (if HasQuadrature (Some r) then Quadrature r else [])\<rparr>)"

definition quadratureEpsilon :: f64 where
  "quadratureEpsilon = round64 (1 / 10 ^ 12)"

fun eventsCarryPhase :: "(f64 \<Rightarrow> f64) \<Rightarrow> Event list \<Rightarrow> bool" where
  "eventsCarryPhase sine [] = False"
| "eventsCarryPhase sine (e # events) =
     (if flt quadratureEpsilon (fmul (fabs (sine (PhaseRadians e))) (fabs (Amplitude e))) then True
      else eventsCarryPhase sine events)"

text \<open>Adding one event: each band is touched once, at the event's sample.\<close>

definition event_weight :: "Event \<Rightarrow> int \<Rightarrow> f64 option" where
  "event_weight e band = (if BandGain e \<noteq> [] then slice_at (BandGain e) band else Some (round64 1))"

definition add_to_bands :: "f64 list list \<Rightarrow> nat \<Rightarrow> int \<Rightarrow> f64 \<Rightarrow> Event \<Rightarrow> f64 list list option" where
  "add_to_bands bands bandCount i v e =
     fill bandCount (\<lambda>band. case (slice_at bands (int band), event_weight e (int band)) of
       (Some row, Some weight) \<Rightarrow> add_at row i (fmul v weight)
     | _ \<Rightarrow> None)"

definition add_event ::
  "(f64 \<Rightarrow> f64) \<Rightarrow> (f64 \<Rightarrow> f64) \<Rightarrow> RenderConfig \<Rightarrow> int \<Rightarrow> BandedResponse \<Rightarrow> Event \<Rightarrow> BandedResponse option" where
  "add_event cosine sine cfg len out e =
     (let i = sample_index e (rcSampleRate cfg);
          bandCount = nat (BandCount (rcBandSpec cfg)) in
      if i < 0 \<or> len \<le> i then Some out
      else
        (let inPhase = fmul (Amplitude e) (cosine (PhaseRadians e));
             quadrature = fmul (Amplitude e) (sine (PhaseRadians e)) in
         case add_to_bands (Bands out) bandCount i inPhase e of
           None \<Rightarrow> None
         | Some bands \<Rightarrow>
             if HasQuadrature (Some out)
             then map_option (\<lambda>q. out\<lparr>Bands := bands, Quadrature := q\<rparr>)
                    (add_to_bands (Quadrature out) bandCount i quadrature e)
             else Some (out\<lparr>Bands := bands\<rparr>)))"

definition BandedFromEvents ::
  "(f64 \<Rightarrow> f64) \<Rightarrow> (f64 \<Rightarrow> f64) \<Rightarrow> Event list \<Rightarrow> RenderConfig \<Rightarrow> (ir_error + BandedResponse) option" where
  "BandedFromEvents cosine sine events cfg =
     (let bandCount = BandCount (rcBandSpec cfg) in
      if bandCount = 0 then Some (Inl BandSpecMissing)
      else if rcSampleRate cfg \<le> 0 then Some (Inl SampleRateNotPositive)
      else case validateBandedEvents events bandCount 0 of
        Some err \<Rightarrow> Some (Inl err)
      | None \<Rightarrow>
          (case NewBuffer (rcSampleRate cfg) (DurationSeconds cfg) of
             None \<Rightarrow> None
           | Some buf \<Rightarrow>
               (let len = buf_Len (Some buf) in
                case (if eventsCarryPhase sine events
                      then NewComplexBandedResponse (rcSampleRate cfg) bandCount len
                      else NewBandedResponse (rcSampleRate cfg) bandCount len) of
                  None \<Rightarrow> None
                | Some out \<Rightarrow> map_option Inr (opt_foldl (add_event cosine sine cfg len) out events))))"

definition ApplyBandGains :: "BandedResponse option \<Rightarrow> f64 list \<Rightarrow> (ir_error + BandedResponse) option" where
  "ApplyBandGains ro gains = (case ro of
     None \<Rightarrow> Some (Inl ResponseNil)
   | Some r \<Rightarrow>
       if length gains \<noteq> length (Bands r)
       then Some (Inl (GainCount (int (length gains)) (int (length (Bands r)))))
       else
         (let scale = (\<lambda>rows. fill (length gains) (\<lambda>band. map_option (map (\<lambda>x. fmul x (gains ! band))) (slice_at rows (int band)))) in
          case scale (Bands r) of
            None \<Rightarrow> None
          | Some bands \<Rightarrow>
              if HasQuadrature (Some r)
              then map_option (\<lambda>q. Inr (r\<lparr>Bands := bands, Quadrature := q @ drop (length gains) (Quadrature r)\<rparr>)) (scale (Quadrature r))
              else Some (Inr (r\<lparr>Bands := bands\<rparr>))))"

text \<open>The peak of one band: the largest sample magnitude, with quadrature where there is one.\<close>

definition band_peak :: "(f64 \<Rightarrow> f64 \<Rightarrow> f64) \<Rightarrow> BandedResponse \<Rightarrow> nat \<Rightarrow> f64 option" where
  "band_peak hypot r band =
     opt_foldl (\<lambda>peak index.
         map_option (fmax peak)
           (if HasQuadrature (Some r)
            then (case slice_at (Quadrature r) (int band) of
                None \<Rightarrow> None
              | Some q \<Rightarrow> map_option (hypot (Bands r ! band ! index)) (slice_at q (int index)))
            else Some (fabs (Bands r ! band ! index))))
       (Zero False) [0..<length (Bands r ! band)]"

definition ActiveBands :: "(f64 \<Rightarrow> f64 \<Rightarrow> f64) \<Rightarrow> (f64 \<Rightarrow> f64 \<Rightarrow> f64) \<Rightarrow> BandedResponse option \<Rightarrow> f64 \<Rightarrow> bool list option" where
  "ActiveBands hypot pow ro floorDB = (case ro of
     None \<Rightarrow> Some []
   | Some r \<Rightarrow>
       (case fill (length (Bands r)) (band_peak hypot r) of
          None \<Rightarrow> None
        | Some peaks \<Rightarrow>
            (let strongest = foldl fmax (Zero False) peaks in
             if fle strongest (Zero False) then Some (replicate (length (Bands r)) False)
             else
               (let threshold = fmul strongest (pow (round64 10) (fdiv floorDB (round64 20))) in
                Some (map (\<lambda>peak. flt threshold peak) peaks)))))"

end
