(* ===== verification/Histograms.thy ===== *)
theory Histograms
  imports Responses
begin

text \<open>
  Energy histograms of package raytrace: allocation, accumulation and the late-field buffer
  (accumulate.go), transmission filtering and emissions (transmission.go) and the hit
  probabilities of directivity groups (directivity_group.go). The random numbers of
  \<open>ToLateMono\<close> are the argument \<open>noise\<close>, the n-th value of the generator.
\<close>

subsection \<open>Data and allocation\<close>

record HistogramBin =
  binTime :: f64
  BandEnergy :: "f64 list"

record EnergyHistogram =
  Bins :: "HistogramBin list"
  hDuration :: f64
  BinDuration :: f64
  hBandCount :: int

definition NewEnergyHistogram :: "f64 \<Rightarrow> f64 \<Rightarrow> int \<Rightarrow> EnergyHistogram option" where
  "NewEnergyHistogram duration binDuration bandCount =
     (if fle duration (Zero False) \<or> fle binDuration (Zero False) \<or> bandCount \<le> 0
      then Some \<lparr>Bins = [], hDuration = duration, BinDuration = binDuration, hBandCount = bandCount\<rparr>
      else
        (case make_slice 32 () (f64_to_int (fceil (fdiv duration binDuration))) of
           None \<Rightarrow> None
         | Some slots \<Rightarrow>
             map_option (\<lambda>bins. \<lparr>Bins = bins, hDuration = duration, BinDuration = binDuration, hBandCount = bandCount\<rparr>)
               (fill (length slots) (\<lambda>i. map_option
                  (\<lambda>energy. \<lparr>binTime = fmul (f64_of_int (int i)) binDuration, BandEnergy = energy\<rparr>)
                  (make_floats bandCount)))))"

subsection \<open>Accumulation\<close>

text \<open>The first \<open>limit\<close> entries of a slice, each with the matching addend.\<close>

definition add_prefix :: "f64 list \<Rightarrow> f64 list \<Rightarrow> f64 list" where
  "add_prefix xs ys =
     map (\<lambda>i. if i < length ys then fadd (xs ! i) (ys ! i) else xs ! i) [0..<length xs]"

definition hist_Add :: "EnergyHistogram option \<Rightarrow> f64 \<Rightarrow> f64 list \<Rightarrow> EnergyHistogram option option" where
  "hist_Add ho timeSeconds bandEnergy = (case ho of
     None \<Rightarrow> Some None
   | Some h \<Rightarrow>
       if fle (BinDuration h) (Zero False) \<or> Bins h = [] \<or> flt timeSeconds (Zero False)
          \<or> fle (hDuration h) timeSeconds
       then Some (Some h)
       else
         (let index = f64_to_int (ffloor (fdiv timeSeconds (BinDuration h))) in
          if index < 0 \<or> int (length (Bins h)) \<le> index then Some (Some h)
          else
            (let bin = Bins h ! nat index in
             map_option (\<lambda>energy. Some (h\<lparr>Bins := (Bins h)[nat index := bin\<lparr>BandEnergy := add_prefix energy bandEnergy\<rparr>]\<rparr>))
               (if int (length (BandEnergy bin)) \<noteq> hBandCount h then make_floats (hBandCount h)
                else Some (BandEnergy bin)))))"

text \<open>The loop of \<open>ToLateMono\<close>: a bin with energy fills its samples with scaled noise. The
  counter is how many numbers the generator has given.\<close>

definition mark :: "int \<Rightarrow> f64 \<Rightarrow> int \<Rightarrow> int" where
  "mark k binDuration sampleRate =
     f64_to_int (fround (fmul (fmul (f64_of_int k) binDuration) (f64_of_int sampleRate)))"

definition noise_span :: "(nat \<Rightarrow> f64) \<Rightarrow> f64 \<Rightarrow> nat \<Rightarrow> nat \<Rightarrow> f64 list \<times> nat \<Rightarrow> f64 list \<times> nat" where
  "noise_span noise scale start n state =
     foldl (\<lambda>(samples, drawn) i.
       (samples[i := fadd (samples ! i) (fmul scale (fsub (fmul (round64 2) (noise drawn)) (round64 1)))], Suc drawn))
     state [start..<start + n]"

fun late_bins :: "(nat \<Rightarrow> f64) \<Rightarrow> f64 \<Rightarrow> int \<Rightarrow> HistogramBin list \<Rightarrow> int \<Rightarrow> f64 list \<times> nat \<Rightarrow> f64 list \<times> nat" where
  "late_bins noise binDuration sampleRate [] k state = state"
| "late_bins noise binDuration sampleRate (bin # bins) k state =
     (let start = max 0 (mark k binDuration sampleRate);
          stop = min (mark (k + 1) binDuration sampleRate) (int (length (fst state)));
          totalEnergy = foldl fadd (Zero False) (BandEnergy bin) in
      if stop \<le> start \<or> fle totalEnergy (Zero False)
      then late_bins noise binDuration sampleRate bins (k + 1) state
      else
        (let sampleCount = stop - start;
             scale = fsqrt (fdiv (fmul (round64 3) totalEnergy) (f64_of_int sampleCount)) in
         late_bins noise binDuration sampleRate bins (k + 1)
           (noise_span noise scale (nat start) (nat sampleCount) state)))"

definition ToLateMono :: "(nat \<Rightarrow> f64) \<Rightarrow> EnergyHistogram option \<Rightarrow> int \<Rightarrow> Buffer option" where
  "ToLateMono noise ho sampleRate = (case ho of
     None \<Rightarrow> NewBuffer sampleRate (Zero False)
   | Some h \<Rightarrow>
       if sampleRate \<le> 0 \<or> fle (BinDuration h) (Zero False) \<or> Bins h = [] then NewBuffer sampleRate (Zero False)
       else map_option (\<lambda>buf. buf\<lparr>Samples := fst (late_bins noise (BinDuration h) sampleRate (Bins h) 0 (Samples buf, 0))\<rparr>)
         (NewBuffer sampleRate (fmul (f64_of_int (int (length (Bins h)))) (BinDuration h))))"

subsection \<open>Transmission (transmission.go)\<close>

datatype hist_error =
    HistogramNil | HistogramNoBands | TransmissionBands int int | TransmissionRange nat f64
  | HistGainCount int int | HistBandCounts int int | HistBinDurations f64 f64

fun check_transmission :: "f64 list \<Rightarrow> nat \<Rightarrow> hist_error option" where
  "check_transmission [] k = None"
| "check_transmission (c # cs) k =
     (if is_nan c \<or> is_inf c \<or> flt c (Zero False) \<or> flt (round64 1) c then Some (TransmissionRange k c)
      else check_transmission cs (Suc k))"

definition filter_bin :: "int \<Rightarrow> f64 list \<Rightarrow> HistogramBin \<Rightarrow> f64 list option" where
  "filter_bin bandCount transmission bin =
     map_option (\<lambda>zeros. map (\<lambda>band.
        if band < length (BandEnergy bin)
        then fmul (BandEnergy bin ! band) (if 1 < length transmission then transmission ! band else hd transmission)
        else Zero False) [0..<length zeros]) (make_floats bandCount)"

definition FilterTransmission :: "EnergyHistogram option \<Rightarrow> f64 list \<Rightarrow> (hist_error + EnergyHistogram) option" where
  "FilterTransmission ho transmission = (case ho of
     None \<Rightarrow> Some (Inl HistogramNil)
   | Some h \<Rightarrow>
       if hBandCount h \<le> 0 then Some (Inl HistogramNoBands)
       else if length transmission \<noteq> 1 \<and> int (length transmission) \<noteq> hBandCount h
         then Some (Inl (TransmissionBands (int (length transmission)) (hBandCount h)))
       else case check_transmission transmission 0 of
         Some err \<Rightarrow> Some (Inl err)
       | None \<Rightarrow>
           (case NewEnergyHistogram (hDuration h) (BinDuration h) (hBandCount h) of
              None \<Rightarrow> None
            | Some filtered \<Rightarrow>
                map_option (\<lambda>energies. Inr (filtered\<lparr>Bins :=
                    map (\<lambda>i. if i < length energies
                             then \<lparr>binTime = binTime (Bins h ! i), BandEnergy = energies ! i\<rparr>
                             else Bins filtered ! i) [0..<length (Bins filtered)]\<rparr>))
                  (fill (length (Bins h)) (\<lambda>i. filter_bin (hBandCount h) transmission (Bins h ! i)))))"

definition maxEnergy :: "f64 list \<Rightarrow> f64" where
  "maxEnergy values = foldl (\<lambda>maximum value. if flt maximum value then value else maximum) (Zero False) values"

definition EnergyEmissions :: "EnergyHistogram option \<Rightarrow> vec3 \<Rightarrow> EnergyEmission list" where
  "EnergyEmissions ho position = (case ho of
     None \<Rightarrow> []
   | Some h \<Rightarrow>
       map (\<lambda>bin. \<lparr>eePosition = position, eeTimeSeconds = binTime bin, BandEnergyOf = BandEnergy bin\<rparr>)
         (filter (\<lambda>bin. \<not> fle (maxEnergy (BandEnergy bin)) (Zero False)) (Bins h)))"

subsection \<open>Directivity group probabilities (directivity_group.go)\<close>

definition slotEnergy :: "EnergyHistogram \<Rightarrow> nat \<Rightarrow> f64" where
  "slotEnergy h slot =
     (if length (Bins h) \<le> slot then Zero False else foldl fadd (Zero False) (BandEnergy (Bins h ! slot)))"

definition slot_probabilities :: "EnergyHistogram list \<Rightarrow> nat \<Rightarrow> f64 list" where
  "slot_probabilities hs k =
     (let totalEnergy = foldl fadd (Zero False) (map (\<lambda>h. slotEnergy h k) hs) in
      if fle totalEnergy (Zero False)
      then replicate (length hs) (fdiv (round64 1) (f64_of_int (int (length hs))))
      else map (\<lambda>h. fdiv (slotEnergy h k) totalEnergy) hs)"

text \<open>The result is nil (\<open>[]\<close>) when there is no histogram, one is nil or all are empty.\<close>

definition DGProbabilitiesFromHistograms :: "EnergyHistogram option list \<Rightarrow> f64 list list" where
  "DGProbabilitiesFromHistograms histograms =
     (case those histograms of
        None \<Rightarrow> []
      | Some hs \<Rightarrow>
          (let slotCount = fold (\<lambda>h n. max n (length (Bins h))) hs 0 in
           if hs = [] \<or> slotCount = 0 then []
           else map (\<lambda>d. map (\<lambda>k. slot_probabilities hs k ! d) [0..<slotCount]) [0..<length hs]))"

record DirectivityGroup =
  AzimuthCenter :: f64
  ElevationCenter :: f64
  AzimuthExtent :: f64
  ElevationExtent :: f64
  dgDirection :: vec3
  dgHistogram :: "EnergyHistogram option"

definition DGHitProbabilities :: "DirectivityGroup list \<Rightarrow> f64 list list" where
  "DGHitProbabilities dgs = DGProbabilitiesFromHistograms (map dgHistogram dgs)"

text \<open>The sectors: elevation-major, \<open>azSteps\<close> per elevation band.\<close>

definition sector :: "(f64 \<Rightarrow> f64) \<Rightarrow> (f64 \<Rightarrow> f64) \<Rightarrow> f64 \<Rightarrow> f64 \<Rightarrow> int \<Rightarrow> int \<Rightarrow> DirectivityGroup" where
  "sector cosine sine azExtent elExtent el az =
     (let elCenter = fadd (round64 (- pi / 2)) (fmul (fadd (f64_of_int el) (round64 (1 / 2))) elExtent);
          azCenter = fmul (fadd (f64_of_int az) (round64 (1 / 2))) azExtent in
      \<lparr>AzimuthCenter = azCenter, ElevationCenter = elCenter, AzimuthExtent = azExtent, ElevationExtent = elExtent,
       dgDirection = mk_vec3 (fmul (cosine elCenter) (cosine azCenter)) (fmul (cosine elCenter) (sine azCenter)) (sine elCenter),
       dgHistogram = None\<rparr>)"

definition NewDirectivityGroups :: "(f64 \<Rightarrow> f64) \<Rightarrow> (f64 \<Rightarrow> f64) \<Rightarrow> int \<Rightarrow> int \<Rightarrow> DirectivityGroup list" where
  "NewDirectivityGroups cosine sine azSteps elSteps =
     (if azSteps \<le> 0 \<or> elSteps \<le> 0 then []
      else
        (let azExtent = fdiv (round64 (2 * pi)) (f64_of_int azSteps);
             elExtent = fdiv (round64 pi) (f64_of_int elSteps) in
         concat (map (\<lambda>el. map (sector cosine sine azExtent elExtent el) [0..azSteps - 1]) [0..elSteps - 1])))"

text \<open>\<open>angleDiffWrapped\<close> subtracts or adds a full turn until the difference is within half a turn.
  On values so large that a turn is lost in rounding the loops do not end: \<open>None\<close>.\<close>

partial_function (option) wrap_down :: "f64 \<Rightarrow> f64 option" where
  "wrap_down d = (if flt (round64 pi) d then wrap_down (fsub d (round64 (2 * pi))) else Some d)"

partial_function (option) wrap_up :: "f64 \<Rightarrow> f64 option" where
  "wrap_up d = (if flt d (fneg (round64 pi)) then wrap_up (fadd d (round64 (2 * pi))) else Some d)"

definition angleDiffWrapped :: "f64 \<Rightarrow> f64 \<Rightarrow> f64 option" where
  "angleDiffWrapped a b = (case wrap_down (fsub a b) of None \<Rightarrow> None | Some d \<Rightarrow> wrap_up d)"

definition MaxFloat64 :: f64 where
  "MaxFloat64 = Num ((2 ^ 53 - 1) * 2 powi 971)"

text \<open>The scan of \<open>ClassifyDirection\<close>; \<open>math.Asin\<close> and \<open>math.Atan2\<close> are arguments.\<close>

fun nearest_group :: "f64 \<Rightarrow> f64 \<Rightarrow> DirectivityGroup list \<Rightarrow> nat \<Rightarrow> nat \<times> f64 \<Rightarrow> nat option" where
  "nearest_group az el [] i best = Some (fst best)"
| "nearest_group az el (dg # dgs) i best =
     (case angleDiffWrapped az (AzimuthCenter dg) of
        None \<Rightarrow> None
      | Some dAz \<Rightarrow>
          (let dEl = fsub el (ElevationCenter dg);
               dist = fadd (fmul dAz dAz) (fmul dEl dEl) in
           nearest_group az el dgs (Suc i) (if flt dist (snd best) then (i, dist) else best)))"

definition ClassifyDirection :: "(f64 \<Rightarrow> f64) \<Rightarrow> (f64 \<Rightarrow> f64 \<Rightarrow> f64) \<Rightarrow> DirectivityGroup list \<Rightarrow> vec3 \<Rightarrow> nat option" where
  "ClassifyDirection arcsine arctan2 dgs dir =
     (if dgs = [] then Some 0
      else if feq (vec3_Norm dir) (Zero False) then Some 0
      else
        (let el = arcsine (fdiv (vZ dir) (vec3_Norm dir));
             az = arctan2 (vY dir) (vX dir);
             az' = (if flt az (Zero False) then fadd az (round64 (2 * pi)) else az) in
         nearest_group az' el dgs 0 (0, MaxFloat64)))"

end
