(* ===== verification/Filter_Network.thy ===== *)
theory Filter_Network
  imports Histograms
begin

text \<open>
  The filter network (hybrid/network.go): a propagation path as a chain of banded responses with
  portal gains at the handoffs, the sum of paths, and the energy-domain counterparts on
  histograms. \<open>conv.Convolve\<close> of the package algo-dsp is the argument \<open>convolve\<close>; it returns an
  error or the product.
\<close>

type_synonym convolution = "f64 list \<Rightarrow> f64 list \<Rightarrow> unit + f64 list"

record PathChain =
  Factors :: "BandedResponse option list"
  PortalGains :: "f64 list list"
  chActiveBands :: "bool list"

datatype net_error =
    NoFactors | GainsForFactors int int | PortalGainBands nat int int | FactorBands int int
  | ConvolveFailed nat | NetResponseNil | NetBandCounts int int | NoResponses

definition DefaultBandFloorDB :: f64 where
  "DefaultBandFloorDB = round64 (- 60)"

subsection \<open>One band\<close>

definition bandActive :: "PathChain \<Rightarrow> nat \<Rightarrow> bool" where
  "bandActive c band = (if length (chActiveBands c) \<le> band then True else chActiveBands c ! band)"

definition quadratureBand :: "BandedResponse \<Rightarrow> nat \<Rightarrow> f64 list option" where
  "quadratureBand r band =
     (if HasQuadrature (Some r) then slice_at (Quadrature r) (int band)
      else map_option (\<lambda>row. replicate (length row) (Zero False)) (slice_at (Bands r) (int band)))"

definition copyBandProduct :: "f64 list \<Rightarrow> f64 list \<Rightarrow> int \<Rightarrow> f64 \<Rightarrow> f64 list option" where
  "copyBandProduct target product len gain =
     (let n = min (length product) (nat len) in
      if length target < n then None
      else Some (map (\<lambda>x. fmul x gain) (take n product) @ drop n target))"

text \<open>\<open>xs[i] += ys[i]\<close> and \<open>xs[i] -= ys[i]\<close> over the common indices.\<close>

definition sub_prefix :: "f64 list \<Rightarrow> f64 list \<Rightarrow> f64 list" where
  "sub_prefix xs ys = map (\<lambda>i. if i < length ys then fsub (xs ! i) (ys ! i) else xs ! i) [0..<length xs]"

definition run_convolve :: "convolution \<Rightarrow> nat \<Rightarrow> f64 list \<Rightarrow> f64 list \<Rightarrow> net_error + f64 list" where
  "run_convolve convolve band xs ys = (case convolve xs ys of Inl _ \<Rightarrow> Inl (ConvolveFailed band) | Inr zs \<Rightarrow> Inr zs)"

text \<open>\<open>convolveBand\<close> returns the new rows of the output's in-phase and quadrature bands; the
  quadrature row is used only in a complex chain.\<close>

definition convolveBand ::
  "convolution \<Rightarrow> BandedResponse \<Rightarrow> BandedResponse \<Rightarrow> nat \<Rightarrow> int \<Rightarrow> f64 \<Rightarrow> bool \<Rightarrow> f64 list \<Rightarrow>
   (net_error + f64 list \<times> f64 list) option" where
  "convolveBand convolve running next band len gain complexChain zeros =
     (case (slice_at (Bands running) (int band), slice_at (Bands next) (int band)) of
        (Some a, Some c) \<Rightarrow>
          (case run_convolve convolve band a c of
             Inl err \<Rightarrow> Some (Inl err)
           | Inr realPart \<Rightarrow>
               if \<not> complexChain
               then map_option (\<lambda>row. Inr (row, zeros)) (copyBandProduct zeros realPart len gain)
               else
                 (case (quadratureBand running band, quadratureBand next band) of
                    (Some b, Some d) \<Rightarrow>
                      (case (run_convolve convolve band b d, run_convolve convolve band a d,
                             run_convolve convolve band b c) of
                         (Inr crossImag, Inr firstCross, Inr secondCross) \<Rightarrow>
                           (case (copyBandProduct zeros (sub_prefix realPart crossImag) len gain,
                                  copyBandProduct zeros (add_prefix firstCross secondCross) len gain) of
                              (Some re, Some im) \<Rightarrow> Some (Inr (re, im))
                            | _ \<Rightarrow> None)
                       | _ \<Rightarrow> Some (Inl (ConvolveFailed band)))
                  | _ \<Rightarrow> None))
      | _ \<Rightarrow> None)"

subsection \<open>The chain\<close>

text \<open>A loop over bands that stops at the first error.\<close>

fun band_loop :: "(nat \<Rightarrow> ('e + 'r) option) \<Rightarrow> nat list \<Rightarrow> ('e + 'r list) option" where
  "band_loop f [] = Some (Inr [])"
| "band_loop f (b # bs) =
     (case f b of
        None \<Rightarrow> None
      | Some (Inl err) \<Rightarrow> Some (Inl err)
      | Some (Inr r) \<Rightarrow> map_option (\<lambda>res. res_bind res (\<lambda>rs. Inr (r # rs))) (band_loop f bs))"

definition product_length :: "BandedResponse option \<Rightarrow> BandedResponse option \<Rightarrow> int \<Rightarrow> int" where
  "product_length running next maxLength =
     (let n = br_Len running + br_Len next - 1 in if 0 < maxLength \<and> maxLength < n then maxLength else n)"

definition convolveActive ::
  "convolution \<Rightarrow> PathChain \<Rightarrow> BandedResponse option \<Rightarrow> BandedResponse option \<Rightarrow> f64 list \<Rightarrow> int \<Rightarrow>
   (net_error + BandedResponse) option" where
  "convolveActive convolve c ro no gains maxLength =
     (if br_BandCount no \<noteq> br_BandCount ro then Some (Inl (FactorBands (br_BandCount no) (br_BandCount ro)))
      else
        (let len = product_length ro no maxLength;
             complexChain = HasQuadrature ro \<or> HasQuadrature no in
         case (ro, no) of
           (Some running, Some next) \<Rightarrow>
             (case allocBands (br_BandCount ro) len of
                None \<Rightarrow> None
              | Some rows \<Rightarrow>
                  map_option (\<lambda>res. res_bind res (\<lambda>pairs. Inr
                      \<lparr>brSampleRate = brSampleRate running, Bands = map fst pairs,
                       Quadrature = (if complexChain then map snd pairs else [])\<rparr>))
                    (band_loop (\<lambda>band.
                       case slice_at gains (int band) of
                         None \<Rightarrow> if bandActive c band then None else Some (Inr (rows ! band, rows ! band))
                       | Some gain \<Rightarrow>
                           if \<not> bandActive c band \<or> feq gain (Zero False) then Some (Inr (rows ! band, rows ! band))
                           else convolveBand convolve running next band len gain complexChain (rows ! band))
                     [0..<length (Bands running)]))
         | (Some running, None) \<Rightarrow>
             map_option (\<lambda>rows. Inr \<lparr>brSampleRate = brSampleRate running, Bands = rows,
               Quadrature = (if complexChain then rows else [])\<rparr>) (allocBands (br_BandCount ro) len)
         | (None, _) \<Rightarrow> None))"

fun resolve_loop ::
  "convolution \<Rightarrow> PathChain \<Rightarrow> int \<Rightarrow> BandedResponse option list \<Rightarrow> f64 list list \<Rightarrow> nat \<Rightarrow>
   BandedResponse option \<Rightarrow> (net_error + BandedResponse option) option" where
  "resolve_loop convolve c maxLength (next # factors) (gains # rest) index running =
     (if int (length gains) \<noteq> br_BandCount running
      then Some (Inl (PortalGainBands index (int (length gains)) (br_BandCount running)))
      else
        (case convolveActive convolve c running next gains maxLength of
           None \<Rightarrow> None
         | Some (Inl err) \<Rightarrow> Some (Inl err)
         | Some (Inr folded) \<Rightarrow> resolve_loop convolve c maxLength factors rest (Suc index) (Some folded)))"
| "resolve_loop convolve c maxLength factors gains index running = Some (Inr running)"

definition Resolve :: "convolution \<Rightarrow> PathChain \<Rightarrow> int \<Rightarrow> (net_error + BandedResponse option) option" where
  "Resolve convolve c maxLength =
     (case Factors c of
        [] \<Rightarrow> Some (Inl NoFactors)
      | hd_r # rest \<Rightarrow>
          if length (PortalGains c) \<noteq> length rest
          then Some (Inl (GainsForFactors (int (length (Factors c))) (int (length (PortalGains c)))))
          else resolve_loop convolve c maxLength rest (PortalGains c) 0 (Clone hd_r))"

definition ConvolveBanded ::
  "convolution \<Rightarrow> BandedResponse option \<Rightarrow> BandedResponse option \<Rightarrow> int \<Rightarrow> (net_error + BandedResponse option) option" where
  "ConvolveBanded convolve a b maxLength =
     (if a = None \<or> b = None then Some (Inl NetResponseNil)
      else if br_BandCount a \<noteq> br_BandCount b then Some (Inl (NetBandCounts (br_BandCount a) (br_BandCount b)))
      else Resolve convolve \<lparr>Factors = [a, b], PortalGains = [replicate (nat (br_BandCount a)) (round64 1)],
             chActiveBands = []\<rparr> maxLength)"

subsection \<open>Sums of paths\<close>

definition present_responses :: "BandedResponse option list \<Rightarrow> BandedResponse list" where
  "present_responses rs = List.map_filter (\<lambda>r. if 0 < br_BandCount r then r else None) rs"

text \<open>Adding a row panics when it is longer than the target.\<close>

definition add_row :: "f64 list \<Rightarrow> f64 list \<Rightarrow> f64 list option" where
  "add_row target row = (if length target < length row then None else Some (add_prefix target row))"

definition add_rows :: "nat \<Rightarrow> f64 list list \<Rightarrow> f64 list list \<Rightarrow> f64 list list option" where
  "add_rows n targets rows =
     fill n (\<lambda>band. case (slice_at targets (int band), slice_at rows (int band)) of
       (Some t, Some r) \<Rightarrow> add_row t r | _ \<Rightarrow> None)"

definition add_response :: "nat \<Rightarrow> nat \<Rightarrow> BandedResponse \<Rightarrow> BandedResponse \<Rightarrow> BandedResponse option" where
  "add_response n len out r =
     (let q0 = (if HasQuadrature (Some r) \<and> \<not> HasQuadrature (Some out)
                then replicate n (replicate len (Zero False)) else Quadrature out) in
      case add_rows n (Bands out) (Bands r) of
        None \<Rightarrow> None
      | Some bands \<Rightarrow>
          if HasQuadrature (Some r)
          then map_option (\<lambda>q. out\<lparr>Bands := bands, Quadrature := q\<rparr>) (add_rows n q0 (Quadrature r))
          else Some (out\<lparr>Bands := bands, Quadrature := q0\<rparr>))"

fun sum_lengths :: "BandedResponse list \<Rightarrow> int \<Rightarrow> int \<Rightarrow> net_error + int" where
  "sum_lengths [] bandCount len = Inr len"
| "sum_lengths (r # rs) bandCount len =
     (if br_BandCount (Some r) \<noteq> bandCount then Inl (NetBandCounts (br_BandCount (Some r)) bandCount)
      else sum_lengths rs bandCount (max len (br_Len (Some r))))"

definition SumBandedResponses :: "BandedResponse option list \<Rightarrow> (net_error + BandedResponse) option" where
  "SumBandedResponses responses =
     (case present_responses responses of
        [] \<Rightarrow> Some (Inl NoResponses)
      | hd_r # rest \<Rightarrow>
          (let bandCount = br_BandCount (Some hd_r) in
           case sum_lengths (hd_r # rest) bandCount 0 of
             Inl err \<Rightarrow> Some (Inl err)
           | Inr len \<Rightarrow>
               (case NewBandedResponse (brSampleRate hd_r) bandCount len of
                  None \<Rightarrow> None
                | Some out \<Rightarrow>
                    map_option Inr (opt_foldl (add_response (nat bandCount) (nat len)) out (hd_r # rest)))))"

subsection \<open>Histograms\<close>

definition ScaleHistogram :: "EnergyHistogram option \<Rightarrow> f64 list \<Rightarrow> (hist_error + EnergyHistogram) option" where
  "ScaleHistogram ho gains = (case ho of
     None \<Rightarrow> Some (Inl HistogramNil)
   | Some h \<Rightarrow>
       if int (length gains) \<noteq> hBandCount h then Some (Inl (HistGainCount (int (length gains)) (hBandCount h)))
       else map_option (\<lambda>out. Inr (out\<lparr>Bins := map (\<lambda>i.
           let target = Bins out ! i in
           if i < length (Bins h)
           then target\<lparr>BandEnergy := map (\<lambda>band.
               if band < min (length (BandEnergy (Bins h ! i))) (length gains)
               then fmul (BandEnergy (Bins h ! i) ! band) (gains ! band)
               else BandEnergy target ! band) [0..<length (BandEnergy target)]\<rparr>
           else target) [0..<length (Bins out)]\<rparr>))
         (NewEnergyHistogram (hDuration h) (BinDuration h) (hBandCount h)))"

text \<open>One step of the double loop of \<open>ConvolveHistograms\<close>; a target beyond the last bin ends the
  inner loop, and every later index of it is beyond too.\<close>

definition convolve_bins ::
  "EnergyHistogram \<Rightarrow> EnergyHistogram \<Rightarrow> f64 list list \<Rightarrow> nat \<times> nat \<Rightarrow> f64 list list option" where
  "convolve_bins a b rows ij =
     (let t = fst ij + snd ij in
      if length rows \<le> t then Some rows
      else map_option (\<lambda>row. rows[t := row])
        (fill (nat (hBandCount a)) (\<lambda>band.
          case (slice_at (rows ! t) (int band), slice_at (BandEnergy (Bins a ! fst ij)) (int band),
                slice_at (BandEnergy (Bins b ! snd ij)) (int band)) of
            (Some o', Some x, Some y) \<Rightarrow> Some (fadd o' (fmul x y))
          | _ \<Rightarrow> None)))"

definition ConvolveHistograms ::
  "EnergyHistogram option \<Rightarrow> EnergyHistogram option \<Rightarrow> (hist_error + EnergyHistogram) option" where
  "ConvolveHistograms ao bo = (case (ao, bo) of
     (Some a, Some b) \<Rightarrow>
       if hBandCount a \<noteq> hBandCount b then Some (Inl (HistBandCounts (hBandCount a) (hBandCount b)))
       else if flt (round64 (1 / 10 ^ 12)) (fabs (fsub (BinDuration a) (BinDuration b)))
         then Some (Inl (HistBinDurations (BinDuration a) (BinDuration b)))
       else
         (case NewEnergyHistogram (hDuration a) (BinDuration a) (hBandCount a) of
            None \<Rightarrow> None
          | Some out \<Rightarrow>
              map_option (\<lambda>rows. Inr (out\<lparr>Bins := map2 (\<lambda>bin row. bin\<lparr>BandEnergy := row\<rparr>) (Bins out) rows\<rparr>))
                (opt_foldl (convolve_bins a b) (map BandEnergy (Bins out))
                  (List.product [0..<length (Bins a)] [0..<length (Bins b)])))
   | _ \<Rightarrow> Some (Inl HistogramNil))"

subsection \<open>Portal filters\<close>

text \<open>A mask is nil (\<open>[]\<close>) when there is no gain at all.\<close>

definition AttenuationFloorMask :: "(f64 \<Rightarrow> f64 \<Rightarrow> f64) \<Rightarrow> f64 list list \<Rightarrow> f64 \<Rightarrow> bool list" where
  "AttenuationFloorMask pow gains floorDB = (case gains of
     [] \<Rightarrow> []
   | hd_r # _ \<Rightarrow>
       (let accumulated = foldl (\<lambda>acc filter. map (\<lambda>band.
              if band < length filter then fmul (acc ! band) (filter ! band) else acc ! band) [0..<length acc])
              (replicate (length hd_r) (round64 1)) gains;
            threshold = pow (round64 10) (fdiv floorDB (round64 20)) in
        map (\<lambda>value. flt threshold (fabs value)) accumulated))"

definition PressureFilterFromTransmission :: "f64 list \<Rightarrow> f64 list" where
  "PressureFilterFromTransmission transmission = map (\<lambda>tau. fsqrt (fmax tau (Zero False))) transmission"

definition EnergyFilterFromTransmission :: "f64 list \<Rightarrow> f64 list" where
  "EnergyFilterFromTransmission transmission = map (\<lambda>tau. fmax tau (Zero False)) transmission"

end
