(* ===== verification/Memo_Store.thy ===== *)
theory Memo_Store
  imports Main
begin

text \<open>
  The interface the renderers use of a cache of computed values: a lookup that may change the order
  of the entries but not what is held, and a store that holds at most the new value under its key
  and may forget others. What a client stores correctly it gets back correctly, whatever the store
  forgets.
\<close>

locale memo_store =
  fixes ok :: "'s \<Rightarrow> bool"
    and holds :: "'s \<Rightarrow> 'k \<Rightarrow> 'v \<Rightarrow> bool"
    and lookup :: "'s \<Rightarrow> 'k \<Rightarrow> 'v option \<times> 's"
    and store :: "'s \<Rightarrow> 'k \<Rightarrow> 'v \<Rightarrow> 's"
    and storable :: "'v \<Rightarrow> bool"
  assumes lookup_hit: "ok s \<Longrightarrow> fst (lookup s k) = Some v \<longleftrightarrow> holds s k v"
    and lookup_ok: "ok s \<Longrightarrow> ok (snd (lookup s k))"
    and lookup_holds: "ok s \<Longrightarrow> holds (snd (lookup s k)) k' v \<longleftrightarrow> holds s k' v"
    and store_ok: "ok s \<Longrightarrow> storable v \<Longrightarrow> ok (store s k v)"
    and store_holds: "ok s \<Longrightarrow> storable v \<Longrightarrow> holds (store s k v) k' v' \<Longrightarrow>
      (if k' = k then v' = v else holds s k' v')"
begin

text \<open>Everything held satisfies the client's correctness predicate.\<close>

definition sound :: "('k \<Rightarrow> 'v \<Rightarrow> bool) \<Rightarrow> 's \<Rightarrow> bool" where
  "sound P s \<longleftrightarrow> ok s \<and> (\<forall>k v. holds s k v \<longrightarrow> P k v)"

lemma sound_lookup: "sound P s \<Longrightarrow> sound P (snd (lookup s k))"
  using lookup_ok lookup_holds by (auto simp: sound_def)

lemma sound_hit: "sound P s \<Longrightarrow> fst (lookup s k) = Some v \<Longrightarrow> P k v"
  using lookup_hit by (auto simp: sound_def)

lemma sound_store: "sound P s \<Longrightarrow> storable v \<Longrightarrow> P k v \<Longrightarrow> sound P (store s k v)"
  unfolding sound_def using store_ok store_holds by metis

lemma sound_weaken: "sound P s \<Longrightarrow> (\<And>k v. P k v \<Longrightarrow> Q k v) \<Longrightarrow> sound Q s"
  by (auto simp: sound_def)

lemma lookup_after_store: "sound P s \<Longrightarrow> storable v \<Longrightarrow> fst (lookup (store s k v) k) = Some w \<Longrightarrow> w = v"
  using lookup_hit [OF store_ok, of s v] store_holds by (metis sound_def)

end

end
