(* ===== verification/Response_Cache.thy ===== *)
theory Response_Cache
  imports Scene_Hash Filter_Network Memo_Store
begin

text \<open>
  The byte-budgeted least-recently-used cache of room-group responses (crossroom/cache.go) with the
  factors it stores (\<open>groupFactor\<close> of factors.go). The doubly linked list is the list of its
  elements, the index map points into it. Every method runs under the cache's mutex, so one call is
  one step; on a nil cache the methods do nothing and return zero values, and \<open>Network.Cache\<close> never
  returns nil, so the receiver here is a cache. The abstract cache is the list of entries, most
  recently used first; the operations refine it.
\<close>

subsection \<open>Factors (factors.go)\<close>

record groupFactor =
  Early :: "BandedResponse option"
  LateEnergy :: "EnergyHistogram option"
  gfEvents :: "Event list"
  DGDirections :: "vec3 list"
  DGHistograms :: "EnergyHistogram option list"

definition groupFactorBytes :: "groupFactor \<Rightarrow> int" where
  "groupFactorBytes factor =
     br_BandCount (Early factor) * br_Len (Early factor) * 8 +
     (case LateEnergy factor of None \<Rightarrow> 0 | Some h \<Rightarrow> int (length (Bins h)) * hBandCount h * 8) +
     sum_list (map (\<lambda>event. int (length (BandGain event)) * 8 + 64) (gfEvents factor))"

subsection \<open>Data\<close>

record cacheKey =
  kGroupSignature :: hashw
  kEndpointHash :: hashw
  kConfigHash :: hashw
  kFromKind :: byte
  kToKind :: byte
  kFromIndex :: int
  kToIndex :: int

record CacheStats =
  Hits :: int
  Misses :: int
  Evictions :: int
  StatBytes :: int

record cacheEntry =
  eKey :: cacheKey
  eFactor :: groupFactor
  eBytes :: int

text \<open>The linked list is the list of its elements from front to back; an element is an
  identity whose entry \<open>elems\<close> holds, so that \<open>entries\<close> can point into the list.\<close>

record ResponseCache =
  maxBytes :: int
  cbytes :: int
  order :: "nat list"
  elems :: "nat \<rightharpoonup> cacheEntry"
  entries :: "cacheKey \<rightharpoonup> nat"
  nextElem :: nat
  cstats :: CacheStats

definition DefaultCacheBytes :: int where
  "DefaultCacheBytes = 256 * 2 ^ 20"

definition NewResponseCache :: "int \<Rightarrow> ResponseCache" where
  "NewResponseCache budget = \<lparr>maxBytes = (if budget \<le> 0 then DefaultCacheBytes else budget),
     cbytes = 0, order = [], elems = Map.empty, entries = Map.empty, nextElem = 0,
     cstats = \<lparr>Hits = 0, Misses = 0, Evictions = 0, StatBytes = 0\<rparr>\<rparr>"

definition Stats :: "ResponseCache \<Rightarrow> CacheStats" where
  "Stats c = (cstats c)\<lparr>StatBytes := cbytes c\<rparr>"

definition entry_of :: "ResponseCache \<Rightarrow> nat \<Rightarrow> cacheEntry" where
  "entry_of c el = the (elems c el)"

definition moveToFront :: "nat \<Rightarrow> ResponseCache \<Rightarrow> ResponseCache" where
  "moveToFront el c = c\<lparr>order := el # remove1 el (order c)\<rparr>"

subsection \<open>Operations\<close>

definition cache_get :: "ResponseCache \<Rightarrow> cacheKey \<Rightarrow> groupFactor option \<times> ResponseCache" where
  "cache_get c key = (case entries c key of
     None \<Rightarrow> (None, c\<lparr>cstats := (cstats c)\<lparr>Misses := Misses (cstats c) + 1\<rparr>\<rparr>)
   | Some el \<Rightarrow> (Some (eFactor (entry_of c el)),
       (moveToFront el c)\<lparr>cstats := (cstats c)\<lparr>Hits := Hits (cstats c) + 1\<rparr>\<rparr>))"

definition removeLocked :: "nat \<Rightarrow> ResponseCache \<Rightarrow> ResponseCache" where
  "removeLocked el c =
     (let entry = entry_of c el in
      c\<lparr>order := remove1 el (order c), entries := (entries c)(eKey entry := None),
        cbytes := cbytes c - eBytes entry\<rparr>)"

lemma order_removeLocked [simp]: "order (removeLocked el c) = remove1 el (order c)"
  by (simp add: removeLocked_def Let_def)

function evictLocked :: "ResponseCache \<Rightarrow> ResponseCache" where
  "evictLocked c =
     (if cbytes c \<le> maxBytes c then c
      else if order c = [] then c
      else
        (let c' = removeLocked (last (order c)) c in
         evictLocked (c'\<lparr>cstats := (cstats c')\<lparr>Evictions := Evictions (cstats c') + 1\<rparr>\<rparr>)))"
  by pat_completeness auto
termination
  by (relation "measure (\<lambda>c. length (order c))") (auto simp: length_remove1)

declare evictLocked.simps [simp del]

text \<open>A nil factor is \<open>None\<close>.\<close>

definition cache_put :: "ResponseCache \<Rightarrow> cacheKey \<Rightarrow> groupFactor option \<Rightarrow> ResponseCache" where
  "cache_put c key fo = (case fo of
     None \<Rightarrow> c
   | Some factor \<Rightarrow>
       (let sz = groupFactorBytes factor in
        case entries c key of
          Some el \<Rightarrow>
            (let entry = entry_of c el;
                 c1 = c\<lparr>cbytes := cbytes c + (sz - eBytes entry),
                        elems := (elems c)(el \<mapsto> entry\<lparr>eFactor := factor, eBytes := sz\<rparr>)\<rparr> in
             evictLocked (moveToFront el c1))
        | None \<Rightarrow>
            (let el = nextElem c in
             evictLocked (c\<lparr>elems := (elems c)(el \<mapsto> \<lparr>eKey = key, eFactor = factor, eBytes = sz\<rparr>),
               order := el # order c, nextElem := Suc el,
               entries := (entries c)(key \<mapsto> el), cbytes := cbytes c + sz\<rparr>))))"

text \<open>The loop of \<open>invalidateSignature\<close> visits the elements from front to back, taking the
  successor before an element is removed.\<close>

fun invalidate_loop :: "hashw \<Rightarrow> nat list \<Rightarrow> ResponseCache \<Rightarrow> int \<Rightarrow> int \<times> ResponseCache" where
  "invalidate_loop sig [] c removed = (removed, c)"
| "invalidate_loop sig (el # rest) c removed =
     (if kGroupSignature (eKey (entry_of c el)) = sig
      then invalidate_loop sig rest (removeLocked el c) (removed + 1)
      else invalidate_loop sig rest c removed)"

definition invalidateSignature :: "ResponseCache \<Rightarrow> hashw \<Rightarrow> int \<times> ResponseCache" where
  "invalidateSignature c sig = invalidate_loop sig (order c) c 0"

subsection \<open>The representation invariant\<close>

definition entry_list :: "ResponseCache \<Rightarrow> cacheEntry list" where
  "entry_list c = map (entry_of c) (order c)"

definition total_bytes :: "cacheEntry list \<Rightarrow> int" where
  "total_bytes es = sum_list (map eBytes es)"

definition index_ok :: "ResponseCache \<Rightarrow> bool" where
  "index_ok c \<longleftrightarrow> distinct (order c) \<and> (\<forall>el \<in> set (order c). el < nextElem c \<and> elems c el \<noteq> None) \<and>
     (\<forall>k el. entries c k = Some el \<longleftrightarrow> el \<in> set (order c) \<and> eKey (entry_of c el) = k)"

definition bytes_ok :: "ResponseCache \<Rightarrow> bool" where
  "bytes_ok c \<longleftrightarrow> cbytes c = total_bytes (entry_list c) \<and> (\<forall>e \<in> set (entry_list c). 0 \<le> eBytes e) \<and> 0 < maxBytes c"

definition cache_ok :: "ResponseCache \<Rightarrow> bool" where
  "cache_ok c \<longleftrightarrow> index_ok c \<and> bytes_ok c \<and> cbytes c \<le> maxBytes c"

subsection \<open>The abstract cache\<close>

text \<open>A least-recently-used cache is a list of entries, most recent first. A put drops the old
  entry of the key, conses the new one and keeps the longest prefix within the budget.\<close>

fun fit :: "int \<Rightarrow> cacheEntry list \<Rightarrow> cacheEntry list" where
  "fit budget [] = []"
| "fit budget (e # es) = (if eBytes e \<le> budget then e # fit (budget - eBytes e) es else [])"

definition lru_find :: "cacheKey \<Rightarrow> cacheEntry list \<Rightarrow> cacheEntry option" where
  "lru_find key es = List.find (\<lambda>e. eKey e = key) es"

definition lru_without :: "cacheKey \<Rightarrow> cacheEntry list \<Rightarrow> cacheEntry list" where
  "lru_without key es = filter (\<lambda>e. eKey e \<noteq> key) es"

definition lru_get :: "cacheKey \<Rightarrow> cacheEntry list \<Rightarrow> cacheEntry list" where
  "lru_get key es = (case lru_find key es of None \<Rightarrow> es | Some e \<Rightarrow> e # lru_without key es)"

definition lru_put :: "int \<Rightarrow> cacheKey \<Rightarrow> groupFactor \<Rightarrow> int \<Rightarrow> cacheEntry list \<Rightarrow> cacheEntry list" where
  "lru_put budget key f sz es =
     fit budget (\<lparr>eKey = key, eFactor = f, eBytes = sz\<rparr> # lru_without key es)"

lemma total_bytes_simps [simp]:
  "total_bytes [] = 0" "total_bytes (e # es) = eBytes e + total_bytes es"
  "total_bytes (xs @ ys) = total_bytes xs + total_bytes ys"
  by (simp_all add: total_bytes_def)

lemma total_bytes_nonneg: "\<forall>e \<in> set es. 0 \<le> eBytes e \<Longrightarrow> 0 \<le> total_bytes es"
  by (induction es) auto

lemma fit_all: "\<forall>e \<in> set es. 0 \<le> eBytes e \<Longrightarrow> total_bytes es \<le> budget \<Longrightarrow> fit budget es = es"
proof (induction es arbitrary: budget)
  case (Cons e es)
  then have "0 \<le> total_bytes es" by (auto intro: total_bytes_nonneg)
  with Cons show ?case by auto
qed simp

lemma fit_butlast:
  "es \<noteq> [] \<Longrightarrow> \<forall>e \<in> set es. 0 \<le> eBytes e \<Longrightarrow> budget < total_bytes es \<Longrightarrow> fit budget es = fit budget (butlast es)"
proof (induction es arbitrary: budget)
  case (Cons e es)
  show ?case
  proof (cases "es = []")
    case True
    with Cons show ?thesis by simp
  next
    case False
    with Cons show ?thesis by auto
  qed
qed simp

lemma fit_total: "\<forall>e \<in> set es. 0 \<le> eBytes e \<Longrightarrow> 0 \<le> budget \<Longrightarrow> total_bytes (fit budget es) \<le> budget"
proof (induction es arbitrary: budget)
  case (Cons e es)
  show ?case
  proof (cases "eBytes e \<le> budget")
    case True
    then have "total_bytes (fit (budget - eBytes e) es) \<le> budget - eBytes e"
      using Cons.prems by (intro Cons.IH) auto
    with True show ?thesis by simp
  qed (use Cons.prems in simp)
qed simp

lemma fit_prefix: "\<exists>rest. es = fit budget es @ rest"
  by (induction es arbitrary: budget) auto

lemma fit_subset: "set (fit budget es) \<subseteq> set es"
  by (induction es arbitrary: budget) auto

subsection \<open>Removal and eviction\<close>

lemma entry_list_fields:
  "order c = order c' \<Longrightarrow> elems c = elems c' \<Longrightarrow> entry_list c = entry_list c'"
  by (simp add: entry_list_def entry_of_def)

lemma index_okD:
  assumes "index_ok c"
  shows "distinct (order c)" "el \<in> set (order c) \<Longrightarrow> el < nextElem c"
    "entries c k = Some el \<longleftrightarrow> el \<in> set (order c) \<and> eKey (entry_of c el) = k"
  using assms by (auto simp: index_ok_def)

lemma index_ok_inj:
  "index_ok c \<Longrightarrow> x \<in> set (order c) \<Longrightarrow> y \<in> set (order c) \<Longrightarrow> eKey (entry_of c x) = eKey (entry_of c y) \<longleftrightarrow> x = y"
  by (metis index_okD(3) option.inject)

lemma removeLocked_simps [simp]:
  "elems (removeLocked el c) = elems c" "nextElem (removeLocked el c) = nextElem c"
  "maxBytes (removeLocked el c) = maxBytes c" "cbytes (removeLocked el c) = cbytes c - eBytes (entry_of c el)"
  "entries (removeLocked el c) = (entries c)(eKey (entry_of c el) := None)"
  "entry_of (removeLocked el c) = entry_of c"
  by (simp_all add: removeLocked_def Let_def entry_of_def fun_eq_iff)

lemma removeLocked_index:
  assumes "index_ok c" "el \<in> set (order c)"
  shows "index_ok (removeLocked el c)"
proof -
  have d: "distinct (order c)" using assms(1) by (rule index_okD)
  have "((entries c)(eKey (entry_of c el) := None)) k = Some x \<longleftrightarrow>
      x \<in> set (order c) - {el} \<and> eKey (entry_of c x) = k" for k x
    using index_okD(3) [OF assms(1)] index_ok_inj [OF assms(1) _ assms(2)] by auto
  then show ?thesis using assms(1) d by (auto simp: index_ok_def)
qed

lemma removeLocked_entries:
  assumes "index_ok c" "el \<in> set (order c)"
  shows "entry_list (removeLocked el c) = lru_without (eKey (entry_of c el)) (entry_list c)"
proof -
  have "remove1 el (order c) = filter (\<lambda>x. x \<noteq> el) (order c)"
    using index_okD(1) [OF assms(1)] by (simp add: distinct_remove1_removeAll removeAll_filter_not_eq eq_commute)
  also have "... = filter (\<lambda>x. eKey (entry_of c x) \<noteq> eKey (entry_of c el)) (order c)"
    using index_ok_inj [OF assms(1) _ assms(2)] by (intro filter_cong) auto
  finally show ?thesis by (simp add: entry_list_def lru_without_def filter_map comp_def)
qed

lemma total_bytes_remove:
  "el \<in> set (order c) \<Longrightarrow>
    total_bytes (entry_list c) = eBytes (entry_of c el) + total_bytes (entry_list (removeLocked el c))"
  using sum_list_map_remove1 [of el "order c" "\<lambda>x. eBytes (entry_of c x)"]
  by (simp add: total_bytes_def entry_list_def comp_def)

lemma removeLocked_bytes:
  assumes "bytes_ok c" "el \<in> set (order c)"
  shows "bytes_ok (removeLocked el c)"
proof -
  have "total_bytes (entry_list c) = eBytes (entry_of c el) + total_bytes (entry_list (removeLocked el c))"
    by (rule total_bytes_remove [OF assms(2)])
  moreover have "set (entry_list (removeLocked el c)) \<subseteq> set (entry_list c)"
    using set_remove1_subset [of el "order c"] by (auto simp: entry_list_def)
  ultimately show ?thesis using assms(1) by (auto simp: bytes_ok_def)
qed

lemma entry_of_cstats [simp]: "entry_of (c\<lparr>cstats := s\<rparr>) = entry_of c"
  by (simp add: entry_of_def fun_eq_iff)

lemma entry_list_cstats [simp]:
  "entry_list (c\<lparr>cstats := s\<rparr>) = entry_list c" "index_ok (c\<lparr>cstats := s\<rparr>) = index_ok c" "bytes_ok (c\<lparr>cstats := s\<rparr>) = bytes_ok c"
  by (simp_all add: entry_list_def index_ok_def bytes_ok_def)

lemma remove1_last: "distinct xs \<Longrightarrow> xs \<noteq> [] \<Longrightarrow> remove1 (last xs) xs = butlast xs"
  by (induction xs) auto

lemma evictLocked_refines:
  assumes "index_ok c" "bytes_ok c"
  shows "entry_list (evictLocked c) = fit (maxBytes c) (entry_list c) \<and> cache_ok (evictLocked c) \<and>
    maxBytes (evictLocked c) = maxBytes c"
  using assms
proof (induction c rule: evictLocked.induct)
  case (1 c)
  note bytes = \<open>bytes_ok c\<close> [unfolded bytes_ok_def]
  show ?case
  proof (cases "cbytes c \<le> maxBytes c")
    case True
    then show ?thesis
      using 1(2,3) bytes by (subst (1 2 3) evictLocked.simps) (auto simp: cache_ok_def fit_all)
  next
    case False
    have ne: "order c \<noteq> []" using False bytes by (auto simp: entry_list_def)
    let ?el = "last (order c)"
    let ?c = "removeLocked ?el c"
    let ?c' = "?c\<lparr>cstats := (cstats ?c)\<lparr>Evictions := Evictions (cstats ?c) + 1\<rparr>\<rparr>"
    have el: "?el \<in> set (order c)" using ne by simp
    have "entry_list ?c' = butlast (entry_list c)"
      using ne index_okD(1) [OF 1(2)] by (simp add: entry_list_def remove1_last map_butlast)
    moreover have "fit (maxBytes c) (entry_list c) = fit (maxBytes c) (butlast (entry_list c))"
      using False bytes ne by (intro fit_butlast) (auto simp: entry_list_def)
    moreover have "evictLocked c = evictLocked ?c'"
      using False ne by (subst evictLocked.simps) (simp add: Let_def)
    moreover have "entry_list (evictLocked ?c') = fit (maxBytes ?c') (entry_list ?c') \<and> cache_ok (evictLocked ?c') \<and>
      maxBytes (evictLocked ?c') = maxBytes ?c'"
      using False ne removeLocked_index [OF 1(2) el] removeLocked_bytes [OF 1(3) el] by (intro 1(1)) auto
    ultimately show ?thesis by simp
  qed
qed

subsection \<open>Refinement of the abstract cache\<close>

lemma lru_find_iff:
  "distinct (map eKey es) \<Longrightarrow> lru_find key es = Some e \<longleftrightarrow> e \<in> set es \<and> eKey e = key"
proof (induction es)
  case (Cons a es)
  then show ?case by (auto simp: lru_find_def)
qed (simp add: lru_find_def)

lemma lru_find_None_iff: "lru_find key es = None \<longleftrightarrow> (\<forall>e \<in> set es. eKey e \<noteq> key)"
  by (auto simp: lru_find_def find_None_iff)

lemma index_ok_keys: "index_ok c \<Longrightarrow> distinct (map eKey (entry_list c))"
  using index_ok_inj [of c] index_okD(1) [of c] by (auto simp: entry_list_def distinct_map inj_on_def comp_def)

lemma entries_find:
  assumes "index_ok c"
  shows "lru_find key (entry_list c) = map_option (entry_of c) (entries c key)"
proof (cases "entries c key")
  case None
  then have "\<forall>el \<in> set (order c). eKey (entry_of c el) \<noteq> key" using index_okD(3) [OF assms] by (metis option.distinct(1))
  with None show ?thesis by (simp add: lru_find_None_iff entry_list_def)
next
  case (Some el)
  then have "el \<in> set (order c)" "eKey (entry_of c el) = key" using index_okD(3) [OF assms] by auto
  then have "lru_find key (entry_list c) = Some (entry_of c el)"
    using lru_find_iff [OF index_ok_keys [OF assms]] by (simp add: entry_list_def)
  with Some show ?thesis by simp
qed

lemma moveToFront_simps [simp]:
  "elems (moveToFront el c) = elems c" "entries (moveToFront el c) = entries c" "nextElem (moveToFront el c) = nextElem c"
  "maxBytes (moveToFront el c) = maxBytes c" "cbytes (moveToFront el c) = cbytes c" "cstats (moveToFront el c) = cstats c"
  "entry_of (moveToFront el c) = entry_of c" "order (moveToFront el c) = el # remove1 el (order c)"
  by (simp_all add: moveToFront_def entry_of_def fun_eq_iff)

lemma moveToFront_ok:
  assumes "el \<in> set (order c)" "distinct (order c)"
  shows "index_ok (moveToFront el c) = index_ok c" "bytes_ok (moveToFront el c) = bytes_ok c"
    "entry_list (moveToFront el c) = entry_of c el # entry_list (removeLocked el c)"
proof -
  have s: "set (order (moveToFront el c)) = set (order c)" using assms by auto
  show "index_ok (moveToFront el c) = index_ok c"
    using assms unfolding index_ok_def s by simp
  show e: "entry_list (moveToFront el c) = entry_of c el # entry_list (removeLocked el c)"
    by (simp add: entry_list_def)
  have "total_bytes (entry_list (moveToFront el c)) = total_bytes (entry_list c)"
    unfolding e total_bytes_remove [OF assms(1)] by simp
  moreover have "set (entry_list (moveToFront el c)) = set (entry_list c)"
    unfolding entry_list_def set_map s by simp
  ultimately show "bytes_ok (moveToFront el c) = bytes_ok c" unfolding bytes_ok_def by simp
qed

lemma cache_get_refines:
  assumes "cache_ok c"
  shows "fst (cache_get c key) = map_option eFactor (lru_find key (entry_list c))"
    "entry_list (snd (cache_get c key)) = lru_get key (entry_list c)" "cache_ok (snd (cache_get c key))"
    "maxBytes (snd (cache_get c key)) = maxBytes c"
proof -
  have i: "index_ok c" and b: "bytes_ok c" and m: "cbytes c \<le> maxBytes c" using assms by (auto simp: cache_ok_def)
  have "fst (cache_get c key) = map_option eFactor (lru_find key (entry_list c)) \<and>
    entry_list (snd (cache_get c key)) = lru_get key (entry_list c) \<and> cache_ok (snd (cache_get c key)) \<and>
    maxBytes (snd (cache_get c key)) = maxBytes c"
  proof (cases "entries c key")
    case None
    with assms show ?thesis by (simp add: cache_get_def entries_find [OF i] lru_get_def cache_ok_def)
  next
    case (Some el)
    then have el: "el \<in> set (order c)" "eKey (entry_of c el) = key" using index_okD(3) [OF i] by auto
    with Some i b m show ?thesis
      using moveToFront_ok [OF el(1) index_okD(1) [OF i]] removeLocked_entries [OF i el(1)]
      by (simp add: cache_get_def entries_find [OF i] lru_get_def cache_ok_def)
  qed
  then show "fst (cache_get c key) = map_option eFactor (lru_find key (entry_list c))"
    "entry_list (snd (cache_get c key)) = lru_get key (entry_list c)" "cache_ok (snd (cache_get c key))"
    "maxBytes (snd (cache_get c key)) = maxBytes c" by auto
qed

text \<open>The state a put hands to eviction: the new entry in front of the others.\<close>

definition put_staged :: "ResponseCache \<Rightarrow> cacheKey \<Rightarrow> groupFactor \<Rightarrow> ResponseCache" where
  "put_staged c key factor =
     (let sz = groupFactorBytes factor in
      case entries c key of
        Some el \<Rightarrow> moveToFront el (c\<lparr>cbytes := cbytes c + (sz - eBytes (entry_of c el)),
            elems := (elems c)(el \<mapsto> (entry_of c el)\<lparr>eFactor := factor, eBytes := sz\<rparr>)\<rparr>)
      | None \<Rightarrow> c\<lparr>elems := (elems c)(nextElem c \<mapsto> \<lparr>eKey = key, eFactor = factor, eBytes = sz\<rparr>),
          order := nextElem c # order c, nextElem := Suc (nextElem c),
          entries := (entries c)(key \<mapsto> nextElem c), cbytes := cbytes c + sz\<rparr>)"

lemma cache_put_staged: "cache_put c key (Some factor) = evictLocked (put_staged c key factor)"
  by (simp add: cache_put_def put_staged_def Let_def split: option.splits)


lemma put_staged_update:
  assumes "cache_ok c" "entries c key = Some el" "0 \<le> groupFactorBytes factor"
  shows "index_ok (put_staged c key factor)" "bytes_ok (put_staged c key factor)"
    "entry_list (put_staged c key factor) =
       \<lparr>eKey = key, eFactor = factor, eBytes = groupFactorBytes factor\<rparr> # lru_without key (entry_list c)"
proof -
  have i: "index_ok c" and b: "bytes_ok c" using assms(1) by (auto simp: cache_ok_def)
  have el: "el \<in> set (order c)" "eKey (entry_of c el) = key" using assms(2) index_okD(3) [OF i] by auto
  have d: "distinct (order c)" by (rule index_okD [OF i])
  let ?sz = "groupFactorBytes factor"
  let ?e = "(entry_of c el)\<lparr>eFactor := factor, eBytes := ?sz\<rparr>"
  let ?c1 = "c\<lparr>cbytes := cbytes c + (?sz - eBytes (entry_of c el)), elems := (elems c)(el \<mapsto> ?e)\<rparr>"
  have st: "put_staged c key factor = moveToFront el ?c1" using assms(2) by (simp add: put_staged_def Let_def)
  have e: "?e = \<lparr>eKey = key, eFactor = factor, eBytes = ?sz\<rparr>" using el(2) by (cases "entry_of c el") simp
  have ent: "entry_of ?c1 x = (if x = el then ?e else entry_of c x)" for x by (simp add: entry_of_def)
  have key: "eKey (entry_of ?c1 x) = eKey (entry_of c x)" for x by (simp add: ent)
  have i1: "index_ok ?c1" using i unfolding index_ok_def key by auto
  have others: "entry_list (removeLocked el ?c1) = entry_list (removeLocked el c)"
    using d by (auto simp: entry_list_def ent)
  have tot: "total_bytes (entry_list c) = eBytes (entry_of c el) + total_bytes (entry_list (removeLocked el c))"
    by (rule total_bytes_remove [OF el(1)])
  have tot1: "total_bytes (entry_list ?c1) = ?sz + total_bytes (entry_list (removeLocked el c))"
    using total_bytes_remove [of el ?c1] el(1) others by (simp add: ent)
  have nn: "\<forall>x \<in> set (entry_list ?c1). 0 \<le> eBytes x"
  proof -
    have "\<forall>x \<in> set (order c). 0 \<le> eBytes (entry_of c x)" using b by (simp add: bytes_ok_def entry_list_def)
    with assms(3) show ?thesis by (auto simp: entry_list_def ent)
  qed
  have b1: "bytes_ok ?c1" using b tot tot1 nn by (simp add: bytes_ok_def)
  note mv = moveToFront_ok [of el ?c1]
  show "index_ok (put_staged c key factor)" "bytes_ok (put_staged c key factor)"
    unfolding st using mv(1,2) el(1) d i1 b1 by simp_all
  show "entry_list (put_staged c key factor) =
       \<lparr>eKey = key, eFactor = factor, eBytes = ?sz\<rparr> # lru_without key (entry_list c)"
  proof -
    have "entry_list (moveToFront el ?c1) = entry_of ?c1 el # entry_list (removeLocked el ?c1)"
      using el(1) d by (intro mv(3)) simp_all
    also have "... = ?e # lru_without key (entry_list c)"
      unfolding others removeLocked_entries [OF i el(1)] el(2) by (simp add: ent)
    finally show ?thesis unfolding st e .
  qed
qed

lemma put_staged_insert:
  assumes "cache_ok c" "entries c key = None" "0 \<le> groupFactorBytes factor"
  shows "index_ok (put_staged c key factor)" "bytes_ok (put_staged c key factor)"
    "entry_list (put_staged c key factor) =
       \<lparr>eKey = key, eFactor = factor, eBytes = groupFactorBytes factor\<rparr> # lru_without key (entry_list c)"
proof -
  have i: "index_ok c" and b: "bytes_ok c" using assms(1) by (auto simp: cache_ok_def)
  have absent: "\<forall>el \<in> set (order c). eKey (entry_of c el) \<noteq> key" using assms(2) index_okD(3) [OF i] by (metis option.distinct(1))
  let ?e = "\<lparr>eKey = key, eFactor = factor, eBytes = groupFactorBytes factor\<rparr>"
  let ?c = "put_staged c key factor"
  have st: "order ?c = nextElem c # order c" "elems ?c = (elems c)(nextElem c \<mapsto> ?e)" "nextElem ?c = Suc (nextElem c)"
    "entries ?c = (entries c)(key \<mapsto> nextElem c)" "cbytes ?c = cbytes c + groupFactorBytes factor" "maxBytes ?c = maxBytes c"
    using assms(2) by (simp_all add: put_staged_def Let_def)
  have fresh: "nextElem c \<notin> set (order c)" using index_okD(2) [OF i] by blast
  have ent: "entry_of ?c x = (if x = nextElem c then ?e else entry_of c x)" for x by (simp add: entry_of_def st)
  have l: "entry_list ?c = ?e # entry_list c" using fresh by (auto simp: entry_list_def st ent)
  moreover have "lru_without key (entry_list c) = entry_list c"
    using absent by (auto simp: lru_without_def entry_list_def filter_id_conv)
  ultimately show "entry_list ?c = ?e # lru_without key (entry_list c)" by simp
  show "bytes_ok ?c" using b assms(3) by (auto simp: bytes_ok_def l st)
  show "index_ok ?c"
    using i fresh absent unfolding index_ok_def st by (auto simp: ent less_SucI)
qed

lemma cache_put_refines:
  assumes "cache_ok c" "0 \<le> groupFactorBytes factor"
  shows "entry_list (cache_put c key (Some factor)) =
      lru_put (maxBytes c) key factor (groupFactorBytes factor) (entry_list c)"
    "cache_ok (cache_put c key (Some factor))" "maxBytes (cache_put c key (Some factor)) = maxBytes c"
proof -
  have staged: "index_ok (put_staged c key factor)" "bytes_ok (put_staged c key factor)"
    "entry_list (put_staged c key factor) =
       \<lparr>eKey = key, eFactor = factor, eBytes = groupFactorBytes factor\<rparr> # lru_without key (entry_list c)"
    using put_staged_update [OF assms(1) _ assms(2)] put_staged_insert [OF assms(1) _ assms(2)]
    by (cases "entries c key"; blast)+
  have m: "maxBytes (put_staged c key factor) = maxBytes c" by (simp add: put_staged_def Let_def split: option.splits)
  from evictLocked_refines [OF staged(1,2)] staged(3) m
  show "entry_list (cache_put c key (Some factor)) =
      lru_put (maxBytes c) key factor (groupFactorBytes factor) (entry_list c)"
    "cache_ok (cache_put c key (Some factor))" "maxBytes (cache_put c key (Some factor)) = maxBytes c"
    by (simp_all add: cache_put_staged lru_put_def)
qed

lemma invalidate_loop_refines:
  assumes "index_ok c" "bytes_ok c" "set els \<subseteq> set (order c)" "distinct els"
  shows "order (snd (invalidate_loop sig els c k)) =
      filter (\<lambda>el. \<not> (el \<in> set els \<and> kGroupSignature (eKey (entry_of c el)) = sig)) (order c) \<and>
    fst (invalidate_loop sig els c k) =
      k + int (length (filter (\<lambda>el. kGroupSignature (eKey (entry_of c el)) = sig) els)) \<and>
    elems (snd (invalidate_loop sig els c k)) = elems c \<and>
    index_ok (snd (invalidate_loop sig els c k)) \<and> bytes_ok (snd (invalidate_loop sig els c k)) \<and>
    maxBytes (snd (invalidate_loop sig els c k)) = maxBytes c \<and> cbytes (snd (invalidate_loop sig els c k)) \<le> cbytes c"
  using assms
proof (induction els arbitrary: c k)
  case (Cons el els)
  have el: "el \<in> set (order c)" using Cons.prems(3) by simp
  have d: "distinct (order c)" by (rule index_okD [OF Cons.prems(1)])
  show ?case
  proof (cases "kGroupSignature (eKey (entry_of c el)) = sig")
    case True
    have "set els \<subseteq> set (order (removeLocked el c))" using Cons.prems(3,4) d by auto
    note IH = Cons.IH [OF removeLocked_index [OF Cons.prems(1) el] removeLocked_bytes [OF Cons.prems(2) el] this, of "k + 1"]
    have "0 \<le> eBytes (entry_of c el)" using Cons.prems(2) el by (auto simp: bytes_ok_def entry_list_def)
    moreover have "filter (\<lambda>x. \<not> (x \<in> set els \<and> kGroupSignature (eKey (entry_of c x)) = sig)) (remove1 el (order c)) =
      filter (\<lambda>x. \<not> (x \<in> set (el # els) \<and> kGroupSignature (eKey (entry_of c x)) = sig)) (order c)"
      using d True by (auto simp: distinct_remove1_removeAll removeAll_filter_not_eq intro: filter_cong)
    ultimately show ?thesis using IH Cons.prems(4) True by simp
  next
    case False
    with Cons.IH [OF Cons.prems(1,2), of k] Cons.prems(3,4)
    have IH: "order (snd (invalidate_loop sig els c k)) =
      filter (\<lambda>el. \<not> (el \<in> set els \<and> kGroupSignature (eKey (entry_of c el)) = sig)) (order c)" by simp
    have "filter (\<lambda>x. \<not> (x \<in> set els \<and> kGroupSignature (eKey (entry_of c x)) = sig)) (order c) =
      filter (\<lambda>x. \<not> (x \<in> set (el # els) \<and> kGroupSignature (eKey (entry_of c x)) = sig)) (order c)"
      using False by (intro filter_cong) auto
    then show ?thesis using Cons.IH [OF Cons.prems(1,2), of k] Cons.prems(3,4) False by simp
  qed
qed simp

lemma invalidateSignature_refines:
  assumes "cache_ok c"
  shows "entry_list (snd (invalidateSignature c sig)) = filter (\<lambda>e. kGroupSignature (eKey e) \<noteq> sig) (entry_list c)"
    "fst (invalidateSignature c sig) = int (length (filter (\<lambda>e. kGroupSignature (eKey e) = sig) (entry_list c)))"
    "cache_ok (snd (invalidateSignature c sig))" "maxBytes (snd (invalidateSignature c sig)) = maxBytes c"
proof -
  have i: "index_ok c" and b: "bytes_ok c" and m: "cbytes c \<le> maxBytes c" using assms by (auto simp: cache_ok_def)
  note L = invalidate_loop_refines [OF i b subset_refl index_okD(1) [OF i], of sig 0, folded invalidateSignature_def]
  have e: "entry_of (snd (invalidateSignature c sig)) = entry_of c" using L by (simp add: entry_of_def fun_eq_iff)
  have "filter (\<lambda>el. \<not> (el \<in> set (order c) \<and> kGroupSignature (eKey (entry_of c el)) = sig)) (order c) =
    filter (\<lambda>el. kGroupSignature (eKey (entry_of c el)) \<noteq> sig) (order c)" by (intro filter_cong) auto
  with L show "entry_list (snd (invalidateSignature c sig)) = filter (\<lambda>e. kGroupSignature (eKey e) \<noteq> sig) (entry_list c)"
    by (simp add: entry_list_def e filter_map comp_def)
  show "fst (invalidateSignature c sig) = int (length (filter (\<lambda>e. kGroupSignature (eKey e) = sig) (entry_list c)))"
    using L by (simp add: entry_list_def filter_map comp_def)
  show "cache_ok (snd (invalidateSignature c sig))" "maxBytes (snd (invalidateSignature c sig)) = maxBytes c"
    using L m by (simp_all add: cache_ok_def)
qed

lemma NewResponseCache_ok: "cache_ok (NewResponseCache budget)" "entry_list (NewResponseCache budget) = []"
  by (simp_all add: NewResponseCache_def cache_ok_def index_ok_def bytes_ok_def entry_list_def entry_of_def DefaultCacheBytes_def)


subsection \<open>The cache as a memo store\<close>

definition cache_holds :: "ResponseCache \<Rightarrow> cacheKey \<Rightarrow> groupFactor \<Rightarrow> bool" where
  "cache_holds c key f \<longleftrightarrow> (\<exists>e \<in> set (entry_list c). eKey e = key \<and> eFactor e = f)"

definition storable :: "groupFactor \<Rightarrow> bool" where
  "storable f \<longleftrightarrow> (\<forall>h. LateEnergy f = Some h \<longrightarrow> Bins h \<noteq> [] \<longrightarrow> 0 \<le> hBandCount h)"

lemma storable_bytes: "storable f \<Longrightarrow> 0 \<le> groupFactorBytes f"
proof -
  assume s: "storable f"
  have "0 \<le> br_BandCount (Early f) * br_Len (Early f) * 8"
    by (simp add: br_BandCount_def br_Len_def split: option.splits)
  moreover have "0 \<le> (case LateEnergy f of None \<Rightarrow> 0 | Some h \<Rightarrow> int (length (Bins h)) * hBandCount h * 8)"
    using s by (cases "LateEnergy f") (auto simp: storable_def)
  moreover have "0 \<le> sum_list (map (\<lambda>event. int (length (BandGain event)) * 8 + 64) (gfEvents f))"
    by (intro sum_list_nonneg) auto
  ultimately show ?thesis by (simp add: groupFactorBytes_def)
qed

lemma set_lru_get: "distinct (map eKey es) \<Longrightarrow> set (lru_get key es) = set es"
  by (auto simp: lru_get_def lru_find_iff lru_without_def split: option.splits)
    (metis (no_types, lifting) distinct_map inj_onD)

lemma cache_get_hit: "cache_ok c \<Longrightarrow> fst (cache_get c key) = Some f \<longleftrightarrow> cache_holds c key f"
  using lru_find_iff [OF index_ok_keys, of c key]
  by (auto simp: cache_get_refines cache_holds_def cache_ok_def)

lemma cache_get_holds: "cache_ok c \<Longrightarrow> cache_holds (snd (cache_get c key)) k f \<longleftrightarrow> cache_holds c k f"
  by (simp add: cache_holds_def cache_get_refines set_lru_get index_ok_keys cache_ok_def)

lemma cache_put_holds:
  assumes "cache_ok c" "storable f" "cache_holds (cache_put c key (Some f)) k g"
  shows "if k = key then g = f else cache_holds c k g"
proof -
  let ?e = "\<lparr>eKey = key, eFactor = f, eBytes = groupFactorBytes f\<rparr>"
  obtain e where e: "e \<in> set (entry_list (cache_put c key (Some f)))" "eKey e = k" "eFactor e = g"
    using assms(3) by (auto simp: cache_holds_def)
  have "e = ?e \<or> e \<in> set (lru_without key (entry_list c))"
    using e(1) fit_subset [of "maxBytes c" "?e # lru_without key (entry_list c)"]
    unfolding cache_put_refines(1) [OF assms(1) storable_bytes [OF assms(2)]] lru_put_def by auto
  with e(2,3) show ?thesis by (auto simp: cache_holds_def lru_without_def)
qed

interpretation cache: memo_store cache_ok cache_holds cache_get "\<lambda>c key f. cache_put c key (Some f)" storable
  using cache_get_hit cache_get_refines(3) cache_get_holds cache_put_refines(2) storable_bytes cache_put_holds
  by unfold_locales blast+

text \<open>The caches a sequence of calls reaches from a new one.\<close>

inductive cache_reachable :: "ResponseCache \<Rightarrow> bool" where
  new: "cache_reachable (NewResponseCache budget)"
| get: "cache_reachable c \<Longrightarrow> cache_reachable (snd (cache_get c key))"
| put: "cache_reachable c \<Longrightarrow> storable f \<Longrightarrow> cache_reachable (cache_put c key (Some f))"
| put_nil: "cache_reachable c \<Longrightarrow> cache_reachable (cache_put c key None)"
| invalidate: "cache_reachable c \<Longrightarrow> cache_reachable (snd (invalidateSignature c sig))"

lemma cache_reachable_ok: "cache_reachable c \<Longrightarrow> cache_ok c"
  by (induction rule: cache_reachable.induct)
    (auto simp: NewResponseCache_ok cache_get_refines cache_put_refines storable_bytes invalidateSignature_refines,
     simp add: cache_put_def)

end
