(* ===== verification/Stable_Sort.thy ===== *)
theory Stable_Sort
  imports Main "HOL-Library.Multiset"
begin

text \<open>
  \<open>sort.SliceStable\<close> with a comparison function: insertion of each element behind the elements it
  is not less than. For a comparison that is a strict weak order every stable algorithm returns
  this list.
\<close>

fun insert_before :: "('a \<Rightarrow> 'a \<Rightarrow> bool) \<Rightarrow> 'a \<Rightarrow> 'a list \<Rightarrow> 'a list" where
  "insert_before lt x [] = [x]"
| "insert_before lt x (y # ys) = (if lt x y then x # y # ys else y # insert_before lt x ys)"

definition SliceStable :: "('a \<Rightarrow> 'a \<Rightarrow> bool) \<Rightarrow> 'a list \<Rightarrow> 'a list" where
  "SliceStable lt xs = foldl (\<lambda>acc x. insert_before lt x acc) [] xs"

lemma mset_insert_before [simp]: "mset (insert_before lt x ys) = add_mset x (mset ys)"
  by (induction ys) auto

lemma mset_SliceStable [simp]: "mset (SliceStable lt xs) = mset xs"
proof -
  have "mset (foldl (\<lambda>acc x. insert_before lt x acc) acc xs) = mset acc + mset xs" for acc
    by (induction xs arbitrary: acc) auto
  then show ?thesis by (simp add: SliceStable_def)
qed

lemma set_SliceStable [simp]: "set (SliceStable lt xs) = set xs"
  by (metis mset_SliceStable set_mset_mset)

lemma length_SliceStable [simp]: "length (SliceStable lt xs) = length xs"
  by (metis mset_SliceStable size_mset)

text \<open>A strict weak order on a set: asymmetric, with a transitive complement.\<close>

definition weak_order_on :: "'a set \<Rightarrow> ('a \<Rightarrow> 'a \<Rightarrow> bool) \<Rightarrow> bool" where
  "weak_order_on S lt \<longleftrightarrow> (\<forall>a \<in> S. \<forall>b \<in> S. lt a b \<longrightarrow> \<not> lt b a) \<and>
     (\<forall>a \<in> S. \<forall>b \<in> S. \<forall>c \<in> S. \<not> lt b a \<longrightarrow> \<not> lt c b \<longrightarrow> \<not> lt c a)"

lemma weak_order_asym: "weak_order_on S lt \<Longrightarrow> a \<in> S \<Longrightarrow> b \<in> S \<Longrightarrow> lt a b \<Longrightarrow> \<not> lt b a"
  unfolding weak_order_on_def by blast

lemma weak_order_trans:
  "weak_order_on S lt \<Longrightarrow> a \<in> S \<Longrightarrow> b \<in> S \<Longrightarrow> c \<in> S \<Longrightarrow> \<not> lt b a \<Longrightarrow> \<not> lt c b \<Longrightarrow> \<not> lt c a"
  unfolding weak_order_on_def by blast

lemma set_insert_before [simp]: "set (insert_before lt x ys) = insert x (set ys)"
  by (induction ys) auto

lemma insert_before_sorted:
  assumes "weak_order_on S lt" "x \<in> S" "set ys \<subseteq> S" "sorted_wrt (\<lambda>a b. \<not> lt b a) ys"
  shows "sorted_wrt (\<lambda>a b. \<not> lt b a) (insert_before lt x ys)"
  using assms(3,4)
proof (induction ys)
  case (Cons y ys)
  have y: "y \<in> S" using Cons.prems(1) by simp
  show ?case
  proof (cases "lt x y")
    case True
    have xy: "\<not> lt y x" by (rule weak_order_asym [OF assms(1,2) y True])
    have "\<not> lt z x" if z: "z \<in> set ys" for z
    proof (rule weak_order_trans [OF assms(1,2) y])
      show "z \<in> S" "\<not> lt y x" "\<not> lt z y" using Cons.prems z xy by auto
    qed
    with True xy Cons.prems(2) show ?thesis by simp
  next
    case False
    with Cons show ?thesis by simp
  qed
qed simp

lemma SliceStable_sorted:
  assumes "weak_order_on S lt" "set xs \<subseteq> S"
  shows "sorted_wrt (\<lambda>a b. \<not> lt b a) (SliceStable lt xs)"
  using assms(2)
proof (induction xs rule: rev_induct)
  case Nil
  then show ?case by (simp add: SliceStable_def)
next
  case (snoc x xs)
  have "SliceStable lt (xs @ [x]) = insert_before lt x (SliceStable lt xs)" by (simp add: SliceStable_def)
  with snoc insert_before_sorted [OF assms(1), of x "SliceStable lt xs"] show ?case by simp
qed

end
