(* ===== verification/Ray_Settings.thy ===== *)
theory Ray_Settings
  imports Scene_Model Histograms
begin

text \<open>
  What the renderers hand to the ray tracer: quaternions and head directions
  (geometry/quaternion.go, scene/orientation.go, Receiver.WorldToHeadDir, Source.DirectionTo), the
  launch settings (raytrace/launch.go) and the engine settings (raytrace/engine_config.go).
\<close>

subsection \<open>Quaternions\<close>

definition quat_identity :: quaternion where
  "quat_identity = \<lparr>qW = round64 1, qX = Zero False, qY = Zero False, qZ = Zero False\<rparr>"

definition quat_Mul :: "quaternion \<Rightarrow> quaternion \<Rightarrow> quaternion" where
  "quat_Mul q r =
     \<lparr>qW = fsub (fsub (fsub (fmul (qW q) (qW r)) (fmul (qX q) (qX r))) (fmul (qY q) (qY r))) (fmul (qZ q) (qZ r)),
      qX = fsub (fadd (fadd (fmul (qW q) (qX r)) (fmul (qX q) (qW r))) (fmul (qY q) (qZ r))) (fmul (qZ q) (qY r)),
      qY = fadd (fadd (fsub (fmul (qW q) (qY r)) (fmul (qX q) (qZ r))) (fmul (qY q) (qW r))) (fmul (qZ q) (qX r)),
      qZ = fadd (fsub (fadd (fmul (qW q) (qZ r)) (fmul (qX q) (qY r))) (fmul (qY q) (qX r))) (fmul (qZ q) (qW r))\<rparr>"

definition quat_Conj :: "quaternion \<Rightarrow> quaternion" where
  "quat_Conj q = \<lparr>qW = qW q, qX = fneg (qX q), qY = fneg (qY q), qZ = fneg (qZ q)\<rparr>"

definition quat_Rotate :: "quaternion \<Rightarrow> vec3 \<Rightarrow> vec3" where
  "quat_Rotate q v =
     (let p = \<lparr>qW = Zero False, qX = vX v, qY = vY v, qZ = vZ v\<rparr>;
          r = quat_Mul (quat_Mul q p) (quat_Conj q) in
      mk_vec3 (qX r) (qY r) (qZ r))"

definition effectiveOrientation :: "quaternion \<Rightarrow> quaternion" where
  "effectiveOrientation q =
     (if feq (qW q) (Zero False) \<and> feq (qX q) (Zero False) \<and> feq (qY q) (Zero False) \<and> feq (qZ q) (Zero False)
      then quat_identity else q)"

definition WorldToHeadDir :: "'h receiver \<Rightarrow> vec3 \<Rightarrow> vec3" where
  "WorldToHeadDir r worldDir = vec3_Normalize (quat_Rotate (quat_Conj (effectiveOrientation (rOrientation r))) worldDir)"

definition DirectionTo :: "'dir source \<Rightarrow> vec3 \<Rightarrow> vec3" where
  "DirectionTo s target =
     (let relative = vec3_Sub target (sPosition s) in
      vec3_Normalize (quat_Rotate (quat_Conj (effectiveOrientation (sOrientation s))) relative))"

subsection \<open>Launch and engine settings\<close>

datatype DiffractionMode = DiffractionDisabled | DiffractionKellerCone | DiffractionDAPDFRain

datatype ReflectionStrategy =
    ReflectionStrategyProbabilistic | ReflectionStrategyDeterministicBlend | ReflectionStrategyRussianRoulette

record HybridDetectionConfig =
  Enabled :: bool
  MaxISOrder :: int
  MaxPreEDISOrder :: int
  MaxEDISOrder :: int
  MaxEDOrder :: int

record LaunchConfig =
  NumRays :: int
  MaxBounces :: int
  MaxTimeSeconds :: f64
  SpeedOfSound :: f64
  lcReflectionStrategy :: ReflectionStrategy
  EnergyTerminationThreshold :: f64
  lcDiffractionMode :: DiffractionMode
  MaxDiffractionDepth :: int
  DiffractionAngularThreshold :: f64
  DiffractionConeSamples :: int
  DiffuseRain :: bool
  HybridDetection :: HybridDetectionConfig

definition effectiveDiffractionMode :: "LaunchConfig \<Rightarrow> DiffractionMode" where
  "effectiveDiffractionMode c =
     (if lcDiffractionMode c \<noteq> DiffractionDisabled then lcDiffractionMode c
      else if flt (Zero False) (DiffractionAngularThreshold c) \<or> 0 < DiffractionConeSamples c
      then DiffractionKellerCone else DiffractionDisabled)"

definition effectiveMaxDiffractionDepth :: "LaunchConfig \<Rightarrow> int" where
  "effectiveMaxDiffractionDepth c = (if 0 < MaxDiffractionDepth c then MaxDiffractionDepth c else 2)"

record EngineConfig =
  ecLaunch :: LaunchConfig
  ecReceiverRadius :: f64
  BinDurationSeconds :: f64
  DirectionGroupAzimuth :: int
  DirectionGroupElevation :: int

definition DirectionGroupCounts :: "EngineConfig \<Rightarrow> int \<times> int" where
  "DirectionGroupCounts c =
     (if DirectionGroupAzimuth c \<le> 0 then 12 else DirectionGroupAzimuth c,
      if DirectionGroupElevation c \<le> 0 then 6 else DirectionGroupElevation c)"

definition effectiveReceiverRadius :: "f64 \<Rightarrow> f64" where
  "effectiveReceiverRadius receiverRadius =
     (if fle receiverRadius (Zero False) then round64 (1 / 4) else receiverRadius)"

end
