(* ===== verification/Network_Plan.thy ===== *)
theory Network_Plan
  imports Path_Search Response_Cache Stable_Sort Ray_Settings
begin

text \<open>
  The multi-room renderer (crossroom): room-group sub-scenes (graph_scene.go), ports and hops
  (factors.go, network.go), plans and path ranking (network.go), the render of a path's factors
  through the per-render memo and the response cache (paths.go), engine selection (engine.go) and
  portal toggles of a prepared plan (dynamic.go). The image-source solver, the ray tracer, the
  merged group geometry, the formatted configuration hash and the byte image of directivity and
  HRTF values are arguments. \<open>None\<close> at the outside is a run-time panic.
\<close>

subsection \<open>Group scenes (graph_scene.go)\<close>

definition sourcesInGroup :: "('dir, 'h, 'g, 'b) graph \<Rightarrow> int \<Rightarrow> 'dir source list" where
  "sourcesInGroup g gid = filter (\<lambda>s. GroupOfPosition g (sPosition s) = Some gid) (Sources (gScene g))"

definition receiversInGroup :: "('dir, 'h, 'g, 'b) graph \<Rightarrow> int \<Rightarrow> 'h receiver list" where
  "receiversInGroup g gid = filter (\<lambda>r. GroupOfPosition g (rPosition r) = Some gid) (Receivers (gScene g))"

text \<open>The outer \<open>None\<close> is a panic, the inner one "not a sole shoebox".\<close>

definition soleShoeboxRoom :: "('dir, 'h, 'g, 'b) graph \<Rightarrow> int list \<Rightarrow> room option option" where
  "soleShoeboxRoom g rooms =
     (case rooms of
        [r] \<Rightarrow>
          (case RoomAt (gScene g) r of
             None \<Rightarrow> Some None
           | Some room \<Rightarrow>
               if Kind room \<noteq> RoomKindShoebox \<or> Shoebox room = None then Some None
               else
                 (case slice_at (incident g) r of
                    None \<Rightarrow> None
                  | Some views \<Rightarrow>
                      map_option (\<lambda>states. if PortalOpen \<in> set states then None else Some room)
                        (those (map (\<lambda>v. map_option State (slice_at (Portals (gScene g)) (PortalIndex v))) views))))
      | _ \<Rightarrow> Some None)"

text \<open>\<open>group_geometry\<close> stands for \<open>GroupGeometry\<close>: the merged mesh and its triangle materials.\<close>

definition GroupScene ::
  "(('dir, 'h, 'g, 'b) graph \<Rightarrow> int \<Rightarrow> 'e + mesh \<times> string list) \<Rightarrow> 'e \<Rightarrow> ('dir, 'h, 'g, 'b) graph \<Rightarrow> int \<Rightarrow> ('e + ('dir, 'h) scene) option" where
  "GroupScene group_geometry missing g gid =
     (case GroupRooms g gid of
        None \<Rightarrow> Some (Inl missing)
      | Some rooms \<Rightarrow>
          (let sub = (gScene g)\<lparr>Rooms := [], Portals := [], Sources := sourcesInGroup g gid,
                        Receivers := receiversInGroup g gid\<rparr> in
           case soleShoeboxRoom g rooms of
             None \<Rightarrow> None
           | Some (Some room) \<Rightarrow> Some (Inr (sub\<lparr>Room := room\<rparr>))
           | Some None \<Rightarrow>
               Some (res_bind (group_geometry g gid) (\<lambda>(m, materials).
                 Inr (sub\<lparr>Room := \<lparr>Kind = RoomKindMesh, Shoebox = None, MeshPath = '''', Mesh = Some m,
                   MeshMaterial = '''', TriangleMaterials = Some materials\<rparr>\<rparr>)))))"

subsection \<open>Ports\<close>

datatype portKind = portKindSource | portKindPortal | portKindReceiver

fun kind_byte :: "portKind \<Rightarrow> byte" where
  "kind_byte portKindSource = 0"
| "kind_byte portKindPortal = 1"
| "kind_byte portKindReceiver = 2"

record groupPort =
  gpKind :: portKind
  gpIndex :: int
  gpPosition :: vec3
  gpPolygon :: "vec3 list"

definition networkPortalOffsetMeters :: f64 where
  "networkPortalOffsetMeters = round64 (1 / 10 ^ 5)"

text \<open>\<open>Portal.Center\<close>: the area-weighted centroid of the triangle fan, or the mean vertex.\<close>

definition fan_step :: "vec3 \<Rightarrow> vec3 \<Rightarrow> vec3 \<times> f64 \<Rightarrow> vec3 \<times> vec3 \<Rightarrow> vec3 \<times> f64" where
  "fan_step origin normal acc ab =
     (let weight = vec3_Dot (vec3_Cross (vec3_Sub (fst ab) origin) (vec3_Sub (snd ab) origin)) normal;
          centroid = vec3_Scale (vec3_Add (vec3_Add origin (fst ab)) (snd ab)) (round64 (1 / 3)) in
      (vec3_Add (fst acc) (vec3_Scale centroid weight), fadd (snd acc) weight))"

definition portal_Center :: "portal \<Rightarrow> vec3" where
  "portal_Center p =
     (case Polygon p of
        [] \<Rightarrow> Vec3Zero
      | origin # rest \<Rightarrow>
          (let (weighted, totalWeight) =
                 foldl (fan_step origin (portal_Normal p)) (Vec3Zero, Zero False) (zip rest (tl rest)) in
           if flt portalGeometryTolerance (fabs totalWeight)
           then vec3_Scale weighted (fdiv (round64 1) totalWeight)
           else vec3_Scale (foldl vec3_Add Vec3Zero (Polygon p))
                  (fdiv (round64 1) (f64_of_int (int (length (Polygon p)))))))"

definition portalPort :: "('dir, 'h) scene \<Rightarrow> groupPortalView \<Rightarrow> bool \<Rightarrow> groupPort option" where
  "portalPort s view entering =
     map_option (\<lambda>p.
       \<lparr>gpKind = portKindPortal, gpIndex = PortalIndex (View view),
        gpPosition = vec3_Add (portal_Center p) (vec3_Scale (view_Normal (View view) s)
          (if entering then networkPortalOffsetMeters else fneg networkPortalOffsetMeters)),
        gpPolygon = (if Reversed (View view) then Polygon p else rev (Polygon p))\<rparr>)
     (slice_at (Portals s) (PortalIndex (View view)))"

subsection \<open>Configuration and limits\<close>

record NetworkConfig =
  ncMaxPathHops :: int
  ncMaxPaths :: int
  ncMaxComposedEventsPerPath :: int
  ncBandFloorDB :: f64

definition maxPathHops :: "NetworkConfig \<Rightarrow> int" where
  "maxPathHops c = (if 0 < ncMaxPathHops c then ncMaxPathHops c else 4)"

definition maxPaths :: "NetworkConfig \<Rightarrow> int" where
  "maxPaths c = (if 0 < ncMaxPaths c then ncMaxPaths c else 32)"

definition maxComposedEventsPerPath :: "NetworkConfig \<Rightarrow> int" where
  "maxComposedEventsPerPath c = (if ncMaxComposedEventsPerPath c \<noteq> 0 then ncMaxComposedEventsPerPath c else 4096)"

definition bandFloorDB :: "NetworkConfig \<Rightarrow> f64" where
  "bandFloorDB c = (if \<not> feq (ncBandFloorDB c) (Zero False) then ncBandFloorDB c else DefaultBandFloorDB)"

record Truncation =
  PathSearch :: bool
  PathsFound :: int
  PathsRendered :: int
  EventsDropped :: int

definition trTruncated :: "Truncation \<Rightarrow> bool" where
  "trTruncated t \<longleftrightarrow> PathSearch t \<or> PathsRendered t < PathsFound t \<or> 0 < EventsDropped t"

text \<open>The observer call of \<open>reportTruncation\<close>: what it is handed, if anything.\<close>

definition reportTruncation :: "bool \<Rightarrow> Truncation \<Rightarrow> Truncation option" where
  "reportTruncation observed t = (if \<not> observed \<or> \<not> trTruncated t then None else Some t)"

subsection \<open>Hops and their memo\<close>

record hopKey =
  hkGroup :: int
  hkEntry :: int
  hkExit :: int

definition portalNone :: int where
  "portalNone = -1"

record factorNeeds =
  needEarly :: bool
  needLate :: bool

definition needs_union :: "factorNeeds \<Rightarrow> factorNeeds \<Rightarrow> factorNeeds" where
  "needs_union n m = \<lparr>needEarly = (needEarly n \<or> needEarly m), needLate = (needLate n \<or> needLate m)\<rparr>"

definition needs_missing :: "factorNeeds \<Rightarrow> factorNeeds \<Rightarrow> factorNeeds" where
  "needs_missing n want =
     \<lparr>needEarly = (needEarly want \<and> \<not> needEarly n), needLate = (needLate want \<and> \<not> needLate n)\<rparr>"

definition needs_empty :: "factorNeeds \<Rightarrow> bool" where
  "needs_empty n \<longleftrightarrow> \<not> needEarly n \<and> \<not> needLate n"

definition no_needs :: factorNeeds where
  "no_needs = \<lparr>needEarly = False, needLate = False\<rparr>"

definition factorNeedsOf :: "groupFactor option \<Rightarrow> factorNeeds" where
  "factorNeedsOf f = (case f of None \<Rightarrow> no_needs
   | Some f \<Rightarrow> \<lparr>needEarly = (Early f \<noteq> None), needLate = (LateEnergy f \<noteq> None)\<rparr>)"

record cachedFactor =
  cfFactor :: "groupFactor option"
  cfNeeds :: factorNeeds

record networkPath =
  npGroups :: "int list"
  npPortals :: "groupPortalView list"
  npTransmission :: "f64 list"
  npActiveBands :: "bool list"

definition hopKeyAt :: "networkPath \<Rightarrow> nat \<Rightarrow> hopKey option" where
  "hopKeyAt path index =
     (case (slice_at (npGroups path) (int index),
            if 0 < index then map_option (PortalIndex \<circ> View) (slice_at (npPortals path) (int index - 1))
            else Some portalNone,
            if index < length (npGroups path) - 1
            then map_option (PortalIndex \<circ> View) (slice_at (npPortals path) (int index))
            else Some portalNone) of
        (Some gid, Some entry, Some exit) \<Rightarrow> Some \<lparr>hkGroup = gid, hkEntry = entry, hkExit = exit\<rparr>
      | _ \<Rightarrow> None)"

record ('dir, 'h, 'g, 'b) pathPlan =
  ppGraph :: "('dir, 'h, 'g, 'b) graph"
  ppTree :: PathSearchTree
  ppPaths :: "networkPath list"
  ppSource :: "'dir source"
  ppReceiver :: "'h receiver"
  ppTruncation :: Truncation
  ppFactors :: "hopKey \<rightharpoonup> cachedFactor"
  ppEndpointHash :: hashw

definition storeFactor ::
  "('dir, 'h, 'g, 'b) pathPlan \<Rightarrow> hopKey \<Rightarrow> groupFactor \<Rightarrow> factorNeeds \<Rightarrow> ('dir, 'h, 'g, 'b) pathPlan" where
  "storeFactor p key factor needs = p\<lparr>ppFactors := (ppFactors p)(key \<mapsto> \<lparr>cfFactor = Some factor, cfNeeds = needs\<rparr>)\<rparr>"

definition groupResponseKey ::
  "('dir, 'h, 'g, 'b) pathPlan \<Rightarrow> int \<Rightarrow> groupPort \<Rightarrow> groupPort \<Rightarrow> hashw \<Rightarrow> cacheKey option" where
  "groupResponseKey p gid from to configHash =
     map_option (\<lambda>signature. \<lparr>kGroupSignature = signature, kEndpointHash = ppEndpointHash p, kConfigHash = configHash,
       kFromKind = kind_byte (gpKind from), kToKind = kind_byte (gpKind to),
       kFromIndex = gpIndex from, kToIndex = gpIndex to\<rparr>)
     (GroupSignature (ppGraph p) gid)"

text \<open>The zero port of a source or receiver: index 0 and no polygon.\<close>

definition point_port :: "portKind \<Rightarrow> vec3 \<Rightarrow> groupPort" where
  "point_port kind position = \<lparr>gpKind = kind, gpIndex = 0, gpPosition = position, gpPolygon = []\<rparr>"

definition portal_port_at :: "('dir, 'h) scene \<Rightarrow> networkPath \<Rightarrow> int \<Rightarrow> bool \<Rightarrow> groupPort option" where
  "portal_port_at s path i entering =
     (case slice_at (npPortals path) i of None \<Rightarrow> None | Some view \<Rightarrow> portalPort s view entering)"

definition hopPorts ::
  "('dir, 'h, 'g, 'b) pathPlan \<Rightarrow> networkPath \<Rightarrow> nat \<Rightarrow> bool \<Rightarrow> bool \<Rightarrow> (groupPort \<times> groupPort) option" where
  "hopPorts plan path index is_first is_last =
     (case (if is_first then Some (point_port portKindSource (sPosition (ppSource plan)))
            else portal_port_at (gScene (ppGraph plan)) path (int index - 1) True,
            if is_last then Some (point_port portKindReceiver (rPosition (ppReceiver plan)))
            else portal_port_at (gScene (ppGraph plan)) path (int index) False) of
        (Some from, Some to) \<Rightarrow> Some (from, to)
      | _ \<Rightarrow> None)"


subsection \<open>Solving a hop (factors.go)\<close>

datatype 'e net_failure =
    NetworkNil | NetSceneNil | SourceCount int | ReceiverCount int | NetGraphError graph_error
  | SourceGroupUnclear | ReceiverGroupUnclear | NetSearchError path_error | NoPathAboveFloor
  | GroupMissing int | Solver 'e | EarlyResponse ir_error | PlanNil | ChangePortalRange int

definition factorSource :: "groupPort \<Rightarrow> 'dir source option \<Rightarrow> 'dir source" where
  "factorSource entry so = (case so of
     Some s \<Rightarrow> if gpKind entry = portKindSource then s
       else \<lparr>sPosition = gpPosition entry, sOrientation = quat_identity, GainDB = Zero False, Directivity = None\<rparr>
   | None \<Rightarrow> \<lparr>sPosition = gpPosition entry, sOrientation = quat_identity, GainDB = Zero False, Directivity = None\<rparr>)"

definition factorReceiver :: "groupPort \<Rightarrow> 'h receiver option \<Rightarrow> 'h receiver" where
  "factorReceiver exit ro = (case ro of
     Some r \<Rightarrow> if gpKind exit = portKindReceiver then r
       else \<lparr>rPosition = gpPosition exit, rOrientation = quat_identity, rType = ''omni'', HRTF = None\<rparr>
   | None \<Rightarrow> \<lparr>rPosition = gpPosition exit, rOrientation = quat_identity, rType = ''omni'', HRTF = None\<rparr>)"

definition unitBandEnergy :: "int \<Rightarrow> f64 list option" where
  "unitBandEnergy bandCount = map_option (\<lambda>zs. map (\<lambda>_. round64 1) zs) (make_floats bandCount)"

definition translatedSources :: "'dir source list \<Rightarrow> vec3 \<Rightarrow> 'dir source list" where
  "translatedSources ss offset = map (\<lambda>s. s\<lparr>sPosition := vec3_Add (sPosition s) offset\<rparr>) ss"

definition translatedReceivers :: "'h receiver list \<Rightarrow> vec3 \<Rightarrow> 'h receiver list" where
  "translatedReceivers rs offset = map (\<lambda>r. r\<lparr>rPosition := vec3_Add (rPosition r) offset\<rparr>) rs"

definition networkLocalizedScene :: "('dir, 'h) scene \<Rightarrow> ('dir, 'h) scene" where
  "networkLocalizedScene s = (case Shoebox (Room s) of
     None \<Rightarrow> s
   | Some box \<Rightarrow>
       if Kind (Room s) \<noteq> RoomKindShoebox \<or> vec3_eq (Origin box) Vec3Zero then s
       else
         (let offset = vec3_Scale (Origin box) (round64 (- 1)) in
          s\<lparr>Room := (Room s)\<lparr>Shoebox := Some (box\<lparr>Origin := Vec3Zero\<rparr>)\<rparr>,
            Sources := translatedSources (Sources s) offset,
            Receivers := translatedReceivers (Receivers s) offset\<rparr>))"

text \<open>What the renderer uses of the solvers: \<open>ism_solve\<close> is \<open>ISMSolver.Solve\<close> on a scene, a band
  layout and a speed of sound; \<open>trace_surface\<close> builds a surface receiver from a polygon and traces
  to it; \<open>trace_receiver\<close> is \<open>Trace\<close>, or \<open>TraceSecondary\<close> when given emissions, and returns the
  histogram and the directivity groups with the histograms it filled in.\<close>

type_synonym late_field = "EnergyHistogram \<times> (vec3 list \<times> EnergyHistogram option list) option"

record ('dir, 'h, 'g, 'b, 'e) solvers =
  ism_solve :: "('dir, 'h) scene \<Rightarrow> band_spec \<Rightarrow> f64 \<Rightarrow> 'e + Event list"
  trace_surface :: "LaunchConfig \<Rightarrow> f64 \<Rightarrow> ('dir, 'h) scene \<Rightarrow> vec3 list \<Rightarrow> 'e + EnergyHistogram"
  trace_receiver :: "LaunchConfig \<Rightarrow> f64 \<Rightarrow> f64 \<Rightarrow> DirectivityGroup list \<Rightarrow> ('dir, 'h) scene \<Rightarrow>
    EnergyEmission list option \<Rightarrow> 'e + EnergyHistogram \<times> DirectivityGroup list"
  group_mesh :: "('dir, 'h, 'g, 'b) graph \<Rightarrow> int \<Rightarrow> 'e net_failure + mesh \<times> string list"
  cos_fn :: "f64 \<Rightarrow> f64"
  sin_fn :: "f64 \<Rightarrow> f64"
  ismBandSpec :: band_spec
  ismSpeedOfSound :: f64
  raytraceConfig :: EngineConfig
  DynamicRays :: int

definition solveFactorEarly ::
  "('dir, 'h, 'g, 'b, 'e) solvers \<Rightarrow> ('dir, 'h) scene \<Rightarrow> groupPort \<Rightarrow> groupPort \<Rightarrow> RenderConfig \<Rightarrow>
   'dir source option \<Rightarrow> 'h receiver option \<Rightarrow> ('e net_failure + BandedResponse \<times> Event list) option" where
  "solveFactorEarly sv gsc entry exit cfg so ro =
     (let speed = (if fle (ismSpeedOfSound sv) (Zero False) then round64 343 else ismSpeedOfSound sv);
          spec = (if BandCount (ismBandSpec sv) = 0 then BandSpec gsc else ismBandSpec sv);
          sub = gsc\<lparr>Sources := [factorSource entry so], Receivers := [factorReceiver exit ro]\<rparr> in
      case ism_solve sv (networkLocalizedScene sub) spec speed of
        Inl e \<Rightarrow> Some (Inl (Solver e))
      | Inr events \<Rightarrow>
          (case BandedFromEvents (cos_fn sv) (sin_fn sv) events
                  \<lparr>rcSampleRate = rcSampleRate cfg, DurationSeconds = DurationSeconds cfg, rcBandSpec = spec\<rparr> of
             None \<Rightarrow> None
           | Some (Inl e) \<Rightarrow> Some (Inl (EarlyResponse e))
           | Some (Inr early) \<Rightarrow> Some (Inr (early, events))))"

definition late_launch :: "('dir, 'h, 'g, 'b, 'e) solvers \<Rightarrow> RenderConfig \<Rightarrow> LaunchConfig" where
  "late_launch sv cfg =
     (let l0 = ecLaunch (raytraceConfig sv);
          l1 = (if fle (MaxTimeSeconds l0) (Zero False) then l0\<lparr>MaxTimeSeconds := DurationSeconds cfg\<rparr> else l0);
          l2 = (if fle (SpeedOfSound l1) (Zero False) then l1\<lparr>SpeedOfSound := round64 343\<rparr> else l1) in
      if 0 < DynamicRays sv then l2\<lparr>NumRays := DynamicRays sv\<rparr> else l2)"

definition traceFactorLateToReceiver ::
  "('dir, 'h, 'g, 'b, 'e) solvers \<Rightarrow> ('dir, 'h) scene \<Rightarrow> groupPort \<Rightarrow> LaunchConfig \<Rightarrow> 'h receiver \<Rightarrow>
   ('e net_failure + late_field) option" where
  "traceFactorLateToReceiver sv sub entry launch receiver =
     (let traced = sub\<lparr>Receivers := [receiver]\<rparr>;
          groups = (if HRTF receiver = None then []
            else NewDirectivityGroups (cos_fn sv) (sin_fn sv) (fst (DirectionGroupCounts (raytraceConfig sv)))
                   (snd (DirectionGroupCounts (raytraceConfig sv)))) in
      case (if gpKind entry = portKindSource then Some None
            else map_option (\<lambda>unit. Some [\<lparr>eePosition = gpPosition entry, eeTimeSeconds = Zero False, BandEnergyOf = unit\<rparr>])
                   (unitBandEnergy (BandCount (BandSpec traced)))) of
        None \<Rightarrow> None
      | Some emissions \<Rightarrow>
          (case trace_receiver sv launch (ecReceiverRadius (raytraceConfig sv)) (BinDurationSeconds (raytraceConfig sv))
                  groups traced emissions of
             Inl e \<Rightarrow> Some (Inl (Solver e))
           | Inr (histogram, filled) \<Rightarrow>
               Some (Inr (histogram,
                 if groups = [] then None
                 else Some (map (\<lambda>dg. WorldToHeadDir receiver (dgDirection dg)) filled, map dgHistogram filled)))))"

definition trace_late ::
  "('dir, 'h, 'g, 'b, 'e) solvers \<Rightarrow> ('dir, 'h) scene \<Rightarrow> groupPort \<Rightarrow> groupPort \<Rightarrow> RenderConfig \<Rightarrow>
   'dir source option \<Rightarrow> 'h receiver option \<Rightarrow> ('e net_failure + late_field) option" where
  "trace_late sv gsc entry exit cfg so ro =
     (let sub = gsc\<lparr>Sources := [factorSource entry so], Receivers := []\<rparr>; launch = late_launch sv cfg in
      if gpKind exit = portKindReceiver then traceFactorLateToReceiver sv sub entry launch (factorReceiver exit ro)
      else
        (case trace_surface sv launch (BinDurationSeconds (raytraceConfig sv)) sub (gpPolygon exit) of
           Inl e \<Rightarrow> Some (Inl (Solver e))
         | Inr surface \<Rightarrow> Some (Inr (surface, None))))"

text \<open>The trace fills in the late fields of the factor.\<close>

definition traceFactorLate ::
  "('dir, 'h, 'g, 'b, 'e) solvers \<Rightarrow> groupFactor \<Rightarrow> ('dir, 'h) scene \<Rightarrow> groupPort \<Rightarrow> groupPort \<Rightarrow> RenderConfig \<Rightarrow>
   'dir source option \<Rightarrow> 'h receiver option \<Rightarrow> ('e net_failure + groupFactor) option" where
  "traceFactorLate sv factor gsc entry exit cfg so ro =
     (case trace_late sv gsc entry exit cfg so ro of
        None \<Rightarrow> None
      | Some (Inl e) \<Rightarrow> Some (Inl e)
      | Some (Inr (histogram, None)) \<Rightarrow> Some (Inr (factor\<lparr>LateEnergy := Some histogram\<rparr>))
      | Some (Inr (histogram, Some (directions, dgs))) \<Rightarrow>
          Some (Inr (factor\<lparr>LateEnergy := Some histogram, DGDirections := directions, DGHistograms := dgs\<rparr>)))"

definition empty_factor :: groupFactor where
  "empty_factor = \<lparr>Early = None, LateEnergy = None, gfEvents = [], DGDirections = [], DGHistograms = []\<rparr>"

definition solveFactor ::
  "('dir, 'h, 'g, 'b, 'e) solvers \<Rightarrow> ('dir, 'h) scene \<Rightarrow> groupPort \<Rightarrow> groupPort \<Rightarrow> RenderConfig \<Rightarrow>
   'dir source option \<Rightarrow> 'h receiver option \<Rightarrow> groupFactor option \<Rightarrow> factorNeeds \<Rightarrow>
   ('e net_failure + groupFactor) option" where
  "solveFactor sv gsc entry exit cfg so ro into needs =
     (let factor = (case into of None \<Rightarrow> empty_factor | Some f \<Rightarrow> f) in
      case (if needEarly needs
            then map_option (\<lambda>res. res_bind res (\<lambda>(early, events). Inr (factor\<lparr>Early := Some early, gfEvents := events\<rparr>)))
                   (solveFactorEarly sv gsc entry exit cfg so ro)
            else Some (Inr factor)) of
        None \<Rightarrow> None
      | Some (Inl e) \<Rightarrow> Some (Inl e)
      | Some (Inr factor') \<Rightarrow>
          (if \<not> needLate needs then Some (Inr factor') else traceFactorLate sv factor' gsc entry exit cfg so ro))"

text \<open>The four path types differ in which endpoints are the real source and receiver.\<close>

definition solveHop ::
  "('dir, 'h, 'g, 'b, 'e) solvers \<Rightarrow> ('dir, 'h, 'g, 'b) pathPlan \<Rightarrow> networkPath \<Rightarrow> nat \<Rightarrow> RenderConfig \<Rightarrow>
   groupFactor option \<Rightarrow> factorNeeds \<Rightarrow> ('e net_failure + groupFactor) option" where
  "solveHop sv plan path index cfg into needs =
     (case slice_at (npGroups path) (int index) of
        None \<Rightarrow> None
      | Some gid \<Rightarrow>
          (case GroupScene (group_mesh sv) (GroupMissing gid) (ppGraph plan) gid of
             None \<Rightarrow> None
           | Some (Inl e) \<Rightarrow> Some (Inl e)
           | Some (Inr gsc) \<Rightarrow>
               (let is_first = (index = 0); is_last = (index = length (npGroups path) - 1);
                    sc = gScene (ppGraph plan);
                    src = point_port portKindSource (sPosition (ppSource plan));
                    dst = point_port portKindReceiver (rPosition (ppReceiver plan)) in
                if is_first \<and> is_last
                then solveFactor sv gsc src dst cfg (Some (ppSource plan)) (Some (ppReceiver plan)) into needs
                else if is_first
                then (case portal_port_at sc path (int index) False of
                    None \<Rightarrow> None
                  | Some exit \<Rightarrow> solveFactor sv gsc src exit cfg (Some (ppSource plan)) None into needs)
                else if is_last
                then (case portal_port_at sc path (int index - 1) True of
                    None \<Rightarrow> None
                  | Some entry \<Rightarrow> solveFactor sv gsc entry dst cfg None (Some (ppReceiver plan)) into needs)
                else (case (portal_port_at sc path (int index - 1) True, portal_port_at sc path (int index) False) of
                    (Some entry, Some exit) \<Rightarrow> solveFactor sv gsc entry exit cfg None None into needs
                  | _ \<Rightarrow> None))))"

subsection \<open>The factors of a path (paths.go)\<close>

text \<open>The state of a render: the plan, whose memo grows, and the cache the renderer shares.\<close>

type_synonym ('dir, 'h, 'g, 'b) render_state = "('dir, 'h, 'g, 'b) pathPlan \<times> ResponseCache"

definition recall ::
  "('dir, 'h, 'g, 'b) render_state \<Rightarrow> hopKey \<Rightarrow> cacheKey option \<Rightarrow> cachedFactor \<times> ResponseCache" where
  "recall st key respKey =
     (let cached = (case ppFactors (fst st) key of
            None \<Rightarrow> \<lparr>cfFactor = None, cfNeeds = no_needs\<rparr> | Some cf \<Rightarrow> cf) in
      case (cfFactor cached, respKey) of
        (None, Some rk) \<Rightarrow>
          (case cache_get (snd st) rk of
             (Some stored, c) \<Rightarrow> (\<lparr>cfFactor = Some stored, cfNeeds = factorNeedsOf (Some stored)\<rparr>, c)
           | (None, c) \<Rightarrow> (cached, c))
      | _ \<Rightarrow> (cached, snd st))"

definition render_hop ::
  "('dir, 'h, 'g, 'b, 'e) solvers \<Rightarrow> hashw \<Rightarrow> networkPath \<Rightarrow> RenderConfig \<Rightarrow> factorNeeds \<Rightarrow> nat \<Rightarrow>
   ('dir, 'h, 'g, 'b) render_state \<Rightarrow> (('e net_failure + groupFactor) \<times> ('dir, 'h, 'g, 'b) render_state) option" where
  "render_hop sv configHash path cfg needs index st =
     (let plan = fst st in
      case (slice_at (npGroups path) (int index), hopKeyAt path index,
            hopPorts plan path index (index = 0) (index = length (npGroups path) - 1)) of
        (Some gid, Some key, Some (from, to)) \<Rightarrow>
          (let respKey = groupResponseKey plan gid from to configHash;
               (cached, c1) = recall st key respKey;
               missing = needs_missing (cfNeeds cached) needs in
           case cfFactor cached of
             Some f \<Rightarrow>
               if needs_empty missing then Some (Inr f, (storeFactor plan key f (cfNeeds cached), c1))
               else
                 (case solveHop sv plan path index cfg (Some f) missing of
                    None \<Rightarrow> None
                  | Some (Inl e) \<Rightarrow> Some (Inl e, (plan, c1))
                  | Some (Inr factor) \<Rightarrow>
                      Some (Inr factor, (storeFactor plan key factor (needs_union (cfNeeds cached) needs),
                        (case respKey of None \<Rightarrow> c1 | Some rk \<Rightarrow> cache_put c1 rk (Some factor)))))
           | None \<Rightarrow>
               (case solveHop sv plan path index cfg None missing of
                  None \<Rightarrow> None
                | Some (Inl e) \<Rightarrow> Some (Inl e, (plan, c1))
                | Some (Inr factor) \<Rightarrow>
                    Some (Inr factor, (storeFactor plan key factor (needs_union (cfNeeds cached) needs),
                      (case respKey of None \<Rightarrow> c1 | Some rk \<Rightarrow> cache_put c1 rk (Some factor))))))
      | _ \<Rightarrow> None)"

fun render_hops ::
  "('dir, 'h, 'g, 'b, 'e) solvers \<Rightarrow> hashw \<Rightarrow> networkPath \<Rightarrow> RenderConfig \<Rightarrow> factorNeeds \<Rightarrow> nat list \<Rightarrow>
   ('dir, 'h, 'g, 'b) render_state \<Rightarrow> (('e net_failure + groupFactor list) \<times> ('dir, 'h, 'g, 'b) render_state) option" where
  "render_hops sv configHash path cfg needs [] st = Some (Inr [], st)"
| "render_hops sv configHash path cfg needs (index # rest) st =
     (case render_hop sv configHash path cfg needs index st of
        None \<Rightarrow> None
      | Some (Inl e, st') \<Rightarrow> Some (Inl e, st')
      | Some (Inr f, st') \<Rightarrow>
          (case render_hops sv configHash path cfg needs rest st' of
             None \<Rightarrow> None
           | Some (Inl e, st'') \<Rightarrow> Some (Inl e, st'')
           | Some (Inr fs, st'') \<Rightarrow> Some (Inr (f # fs), st'')))"

definition renderPathFactors ::
  "('dir, 'h, 'g, 'b, 'e) solvers \<Rightarrow> hashw \<Rightarrow> nat \<Rightarrow> RenderConfig \<Rightarrow> factorNeeds \<Rightarrow> ('dir, 'h, 'g, 'b) render_state \<Rightarrow>
   (('e net_failure + groupFactor list) \<times> ('dir, 'h, 'g, 'b) render_state) option" where
  "renderPathFactors sv configHash pathIndex cfg needs st =
     (if length (ppPaths (fst st)) \<le> pathIndex then None
      else (let path = ppPaths (fst st) ! pathIndex in
            render_hops sv configHash path cfg needs [0..<length (npGroups path)] st))"


subsection \<open>Paths and plans (network.go)\<close>

definition pathEnergy :: "networkPath \<Rightarrow> f64" where
  "pathEnergy path = foldl fadd (Zero False) (npTransmission path)"

text \<open>One leaf of the search tree as a path: the groups of the nodes from the root and the portals of
  their steps.\<close>

definition leaf_path :: "PathSearchTree \<Rightarrow> int \<Rightarrow> networkPath option" where
  "leaf_path tree leaf =
     (case (slice_at (Nodes tree) leaf, PathTo tree leaf) of
        (Some node, Some nodes) \<Rightarrow>
          map_option (\<lambda>ns. \<lparr>npGroups = map nGroup ns, npPortals = List.map_filter (\<lambda>n. map_option stepPortal (nStep n)) ns,
              npTransmission = nTransmission node, npActiveBands = nActiveBands node\<rparr>)
            (those (map (slice_at (Nodes tree)) nodes))
      | _ \<Rightarrow> None)"

fun receiver_paths :: "PathSearchTree \<Rightarrow> int \<Rightarrow> int list \<Rightarrow> networkPath list option" where
  "receiver_paths tree receiverGroup [] = Some []"
| "receiver_paths tree receiverGroup (leaf # leaves) =
     (case slice_at (Nodes tree) leaf of
        None \<Rightarrow> None
      | Some node \<Rightarrow>
          if nGroup node \<noteq> receiverGroup then receiver_paths tree receiverGroup leaves
          else (case leaf_path tree leaf of
              None \<Rightarrow> None
            | Some path \<Rightarrow> map_option (\<lambda>rest. path # rest) (receiver_paths tree receiverGroup leaves)))"

definition stronger :: "networkPath \<Rightarrow> networkPath \<Rightarrow> bool" where
  "stronger p q \<longleftrightarrow> flt (pathEnergy q) (pathEnergy p)"

definition rankPaths :: "NetworkConfig \<Rightarrow> PathSearchTree \<Rightarrow> int \<Rightarrow> (networkPath list \<times> int) option" where
  "rankPaths cfg tree receiverGroup =
     map_option (\<lambda>paths.
       let ranked = SliceStable stronger paths; found = int (length ranked) in
       (if maxPaths cfg < found then take (nat (maxPaths cfg)) ranked else ranked, found))
     (receiver_paths tree receiverGroup (Leaves tree))"

text \<open>\<open>endpointHash\<close>: \<open>dir_bytes\<close> and \<open>hrtf_bytes\<close> are what \<open>writeModelIdentity\<close> writes for a
  directivity and an HRTF value.\<close>

definition writeQuat :: "quaternion \<Rightarrow> hashw \<Rightarrow> hashw" where
  "writeQuat q = writeFloat (qZ q) \<circ> writeFloat (qY q) \<circ> writeFloat (qX q) \<circ> writeFloat (qW q)"

definition endpointHash ::
  "('dir option \<Rightarrow> byte list) \<Rightarrow> ('h option \<Rightarrow> byte list) \<Rightarrow> ('dir, 'h) scene \<Rightarrow> hashw" where
  "endpointHash dir_bytes hrtf_bytes s =
     (let h1 = fold (\<lambda>src h. hash_Write (dir_bytes (Directivity src))
                 (writeFloat (GainDB src) (writeQuat (sOrientation src) (writeVec3 (sPosition src) h)))) (Sources s) newSceneHashWriter;
          h2 = fold (\<lambda>r h. hash_Write (hrtf_bytes (HRTF r))
                 (hash_Write (string_bytes (''|type:'' @ rType r @ ''|''))
                   (writeQuat (rOrientation r) (writeVec3 (rPosition r) h)))) (Receivers s) h1 in
      fold writeFloat (CenterFreqs (BandSpec s)) h2)"

record ('dir, 'h) environment =
  e_pow :: "f64 \<Rightarrow> f64 \<Rightarrow> f64"
  e_log10 :: "f64 \<Rightarrow> f64"
  e_cos :: "f64 \<Rightarrow> f64"
  e_rate :: "'h \<Rightarrow> int"
  e_names :: "string list"
  e_dir_bytes :: "'dir option \<Rightarrow> byte list"
  e_hrtf_bytes :: "'h option \<Rightarrow> byte list"

definition search_config :: "NetworkConfig \<Rightarrow> ('dir, 'h) scene \<Rightarrow> PathSearchConfig" where
  "search_config cfg s = \<lparr>MaxDepth = maxPathHops cfg, MaxNodes = 0, PruneFloorDB = bandFloorDB cfg,
     cBandCount = BandCount (BandSpec s), ReductionWeights = []\<rparr>"

text \<open>A nil renderer or scene is \<open>None\<close>; the renderer's own settings are its configuration.\<close>

definition prepare ::
  "('dir, 'h) environment \<Rightarrow> NetworkConfig option \<Rightarrow> ('dir, 'h) scene option \<Rightarrow>
   ('e net_failure + ('dir, 'h, 'g, 'b) pathPlan) option" where
  "prepare env r so = (case (r, so) of
     (None, _) \<Rightarrow> Some (Inl NetworkNil)
   | (Some cfg, None) \<Rightarrow> Some (Inl NetSceneNil)
   | (Some cfg, Some sc) \<Rightarrow>
       (case (Sources sc, Receivers sc) of
          ([source], [receiver]) \<Rightarrow>
            (case NewAcousticSceneGraph (e_pow env) (e_rate env) (e_names env) (Some sc) of
               None \<Rightarrow> None
             | Some (Inl e) \<Rightarrow> Some (Inl (NetGraphError e))
             | Some (Inr graph) \<Rightarrow>
                 (case GroupOfPosition graph (sPosition source) of
                    None \<Rightarrow> Some (Inl SourceGroupUnclear)
                  | Some sourceGroup \<Rightarrow>
                      (case GroupOfPosition graph (rPosition receiver) of
                         None \<Rightarrow> Some (Inl ReceiverGroupUnclear)
                       | Some receiverGroup \<Rightarrow>
                           (case SearchPaths (e_log10 env) (e_cos env) (e_pow env) graph sourceGroup (search_config cfg sc) of
                              None \<Rightarrow> None
                            | Some (Inl e) \<Rightarrow> Some (Inl (NetSearchError e))
                            | Some (Inr tree) \<Rightarrow>
                                (case rankPaths cfg tree receiverGroup of
                                   None \<Rightarrow> None
                                 | Some (paths, found) \<Rightarrow>
                                     if paths = [] then Some (Inl NoPathAboveFloor)
                                     else Some (Inr \<lparr>ppGraph = graph, ppTree = tree, ppPaths = paths, ppSource = source,
                                       ppReceiver = receiver,
                                       ppTruncation = \<lparr>PathSearch = Truncated tree, PathsFound = found,
                                         PathsRendered = int (length paths), EventsDropped = 0\<rparr>,
                                       ppFactors = Map.empty,
                                       ppEndpointHash = endpointHash (e_dir_bytes env) (e_hrtf_bytes env) sc\<rparr>))))))
        | _ \<Rightarrow> Some (Inl (if length (Sources sc) \<noteq> 1 then SourceCount (int (length (Sources sc)))
                          else ReceiverCount (int (length (Receivers sc)))))))"

subsection \<open>Engine selection (engine.go)\<close>

definition shoebox_at :: "('dir, 'h) scene \<Rightarrow> int \<Rightarrow> bool" where
  "shoebox_at s r = (case RoomAt s r of None \<Rightarrow> False | Some room \<Rightarrow> Kind room = RoomKindShoebox \<and> Shoebox room \<noteq> None)"

definition oneHopRoomPair :: "('dir, 'h) scene option \<Rightarrow> (int \<times> int) option" where
  "oneHopRoomPair so = (case so of
     None \<Rightarrow> None
   | Some s \<Rightarrow>
       (case (Sources s, Receivers s) of
          ([source], [receiver]) \<Rightarrow>
            if RoomCount s \<noteq> 2 then None
            else (case (RoomIndexAt s (sPosition source), RoomIndexAt s (rPosition receiver)) of
                (Some a, Some b) \<Rightarrow> if a = b \<or> \<not> shoebox_at s a \<or> \<not> shoebox_at s b then None else Some (a, b)
              | _ \<Rightarrow> None)
        | _ \<Rightarrow> None))"

fun one_hop_scan :: "int \<times> int \<Rightarrow> portal list \<Rightarrow> bool \<Rightarrow> bool" where
  "one_hop_scan ab [] joined = joined"
| "one_hop_scan ab (p # ps) joined =
     (if State p = PortalOpen then False
      else one_hop_scan ab ps (joined \<or> RoomIndices p = ab \<or> RoomIndices p = (snd ab, fst ab)))"

definition matchesOneHop :: "('dir, 'h) scene option \<Rightarrow> bool" where
  "matchesOneHop so = (case oneHopRoomPair so of
     None \<Rightarrow> False
   | Some ab \<Rightarrow> (case so of None \<Rightarrow> False | Some s \<Rightarrow> one_hop_scan ab (Portals s) False))"

subsection \<open>Portal toggles (dynamic.go)\<close>

record PortalStateChange =
  chPortalIndex :: int
  chState :: string
  chAperture :: f64

definition EffectiveState :: "PortalStateChange \<Rightarrow> string" where
  "EffectiveState c = (if chState c = PortalOpen \<and> flt (chAperture c) (round64 1) then PortalClosed else chState c)"

record ChangeSet =
  RemovedSignatures :: "hashw list"
  AddedSignatures :: "hashw list"
  AddedGroups :: int
  ReusedGroups :: int

record ('dir, 'h, 'g, 'b) Plan =
  plRenderer :: "NetworkConfig option"
  plScene :: "('dir, 'h) scene"
  plPlan :: "('dir, 'h, 'g, 'b) pathPlan"
  plSignatures :: "int \<rightharpoonup> hashw"

definition Prepare ::
  "('dir, 'h) environment \<Rightarrow> NetworkConfig option \<Rightarrow> ('dir, 'h) scene option \<Rightarrow>
   ('e net_failure + ('dir, 'h, 'g, 'b) Plan) option" where
  "Prepare env r so = (case (r, so) of
     (None, _) \<Rightarrow> Some (Inl NetworkNil)
   | (Some cfg, None) \<Rightarrow> Some (Inl NetSceneNil)
   | (Some cfg, Some sc) \<Rightarrow> map_option (\<lambda>res. res_bind res (\<lambda>inner. Inr \<lparr>plRenderer = r, plScene = sc, plPlan = inner,
       plSignatures = GroupSignatures (ppGraph inner)\<rparr>)) (prepare env r (Some sc)))"

definition with_state :: "('dir, 'h) scene \<Rightarrow> int \<Rightarrow> string \<Rightarrow> ('dir, 'h) scene" where
  "with_state s i st = s\<lparr>Portals := (Portals s)[nat i := (Portals s ! nat i)\<lparr>State := st\<rparr>]\<rparr>"

text \<open>The order in which Go ranges over a map is unspecified: \<open>iter\<close> lists the values of a map in
  some order of its keys.\<close>

fun sort_signatures :: "(hashw \<Rightarrow> bool) \<Rightarrow> hashw list \<Rightarrow> ChangeSet \<Rightarrow> ChangeSet" where
  "sort_signatures previous [] acc = acc"
| "sort_signatures previous (sig # sigs) acc =
     sort_signatures previous sigs
       (if previous sig then acc\<lparr>ReusedGroups := ReusedGroups acc + 1\<rparr>
        else acc\<lparr>AddedSignatures := AddedSignatures acc @ [sig], AddedGroups := AddedGroups acc + 1\<rparr>)"

definition no_changes :: ChangeSet where
  "no_changes = \<lparr>RemovedSignatures = [], AddedSignatures = [], AddedGroups = 0, ReusedGroups = 0\<rparr>"

definition change_set :: "hashw list \<Rightarrow> hashw list \<Rightarrow> ChangeSet" where
  "change_set previous current =
     (sort_signatures (\<lambda>sig. sig \<in> set previous) current no_changes)
       \<lparr>RemovedSignatures := filter (\<lambda>sig. sig \<notin> set current) previous\<rparr>"

definition apply_change ::
  "((int \<rightharpoonup> hashw) \<Rightarrow> hashw list) \<Rightarrow> ('dir, 'h) environment \<Rightarrow> ('dir, 'h, 'g, 'b) Plan \<Rightarrow> PortalStateChange \<Rightarrow>
   (('e net_failure + ChangeSet) \<times> ('dir, 'h, 'g, 'b) Plan) option" where
  "apply_change iter env p change =
     (if chPortalIndex change < 0 \<or> int (length (Portals (plScene p))) \<le> chPortalIndex change
      then Some (Inl (ChangePortalRange (chPortalIndex change)), p)
      else
        (let restore = State (Portals (plScene p) ! nat (chPortalIndex change));
             changed = with_state (plScene p) (chPortalIndex change) (EffectiveState change) in
         case prepare env (plRenderer p) (Some changed) of
           None \<Rightarrow> None
         | Some (Inl e) \<Rightarrow> Some (Inl e, p\<lparr>plScene := with_state changed (chPortalIndex change) restore\<rparr>)
         | Some (Inr inner) \<Rightarrow>
             (let signatures = GroupSignatures (ppGraph inner) in
              Some (Inr (change_set (iter (plSignatures p)) (iter signatures)),
                p\<lparr>plScene := changed, plPlan := inner, plSignatures := signatures\<rparr>))))"

definition Apply ::
  "((int \<rightharpoonup> hashw) \<Rightarrow> hashw list) \<Rightarrow> ('dir, 'h) environment \<Rightarrow> ('dir, 'h, 'g, 'b) Plan option \<Rightarrow> PortalStateChange \<Rightarrow>
   (('e net_failure + ChangeSet) \<times> ('dir, 'h, 'g, 'b) Plan option) option" where
  "Apply iter env po change =
     (case po of
        None \<Rightarrow> Some (Inl PlanNil, None)
      | Some p \<Rightarrow>
          if plRenderer p = None then Some (Inl PlanNil, po)
          else map_option (\<lambda>(r, p'). (r, Some p')) (apply_change iter env p change))"

end
