(* ===== verification/Path_Tree.thy ===== *)
theory Path_Tree
  imports Path_Search
begin

text \<open>
  Facts about the trees the path search builds: the edges it follows are distinct and in
  range, and appending a child for a fresh edge keeps a tree well formed: parents precede
  their children, every node carries what \<open>growPath\<close> computes from its parent, the groups on
  a path are distinct, and the child and leaf lists are exact.
\<close>

subsection \<open>Incidence lists are in portal order\<close>

definition incident_sorted :: "portalView list list \<Rightarrow> bool" where
  "incident_sorted inc \<longleftrightarrow> (\<forall>vs \<in> set inc. sorted_wrt (<) (map PortalIndex vs))"

lemma append_view_sorted:
  assumes "append_view inc i v = Some inc'" "\<forall>vs \<in> set inc. sorted_wrt (<) (map PortalIndex vs)"
    "\<forall>u \<in> set (inc ! nat i). PortalIndex u < PortalIndex v"
  shows "\<forall>vs \<in> set inc'. sorted_wrt (<) (map PortalIndex vs)"
proof -
  have i: "nat i < length inc" "inc' = inc[nat i := inc ! nat i @ [v]]"
    using assms(1) by (auto simp: append_view_def slice_at_def split: if_splits)
  have "sorted_wrt (<) (map PortalIndex (inc ! nat i @ [v]))"
    using assms(2,3) i(1) by (simp add: sorted_wrt_append)
  with assms(2) i show ?thesis
    by (auto dest!: set_update_subset_insert [THEN subsetD])
qed

lemma append_view_nth:
  assumes "append_view inc i v = Some inc'" "r < length inc"
  shows "set (inc' ! r) = set (inc ! r) \<union> (if int r = i then {v} else {})" "length inc' = length inc"
  using assms by (auto simp: append_view_def slice_at_def nth_list_update split: if_splits)

lemma build_incident_sorted:
  assumes "build_incident ips inc = Some inc'" "incident_sorted inc"
    "sorted_wrt (<) (map fst ips)" "\<forall>(i, p) \<in> set ips. fst (RoomIndices p) \<noteq> snd (RoomIndices p)"
    "\<forall>vs \<in> set inc. \<forall>v \<in> set vs. \<forall>(i, p) \<in> set ips. PortalIndex v < i"
  shows "incident_sorted inc'"
  using assms
proof (induction ips inc rule: build_incident.induct)
  case (1 inc)
  then show ?case by simp
next
  case (2 index p rest inc)
  obtain a b where ab: "RoomIndices p = (a, b)" by (cases "RoomIndices p")
  with 2(5) have ne: "a \<noteq> b" by simp
  let ?va = "\<lparr>PortalIndex = index, FromRoom = a, ToRoom = b, Reversed = False\<rparr>"
  let ?vb = "\<lparr>PortalIndex = index, FromRoom = b, ToRoom = a, Reversed = True\<rparr>"
  from 2(2) ab obtain inc1 inc2 where i1: "append_view inc a ?va = Some inc1"
    and i2: "append_view inc1 b ?vb = Some inc2" and rest: "build_incident rest inc2 = Some inc'"
    by (auto split: option.splits)
  have l: "0 \<le> a" "nat a < length inc" "0 \<le> b" "nat b < length inc" "length inc1 = length inc" "length inc2 = length inc"
    using i1 i2 by (auto simp: append_view_def slice_at_def split: if_splits)
  have s1: "\<forall>vs \<in> set inc1. sorted_wrt (<) (map PortalIndex vs)"
    by (rule append_view_sorted [OF i1]) (use 2(3,6) l in \<open>auto simp: incident_sorted_def\<close>)
  have "set (inc1 ! nat b) = set (inc ! nat b)"
    using append_view_nth(1) [OF i1, of "nat b"] l ne by simp
  then have s2: "incident_sorted inc2"
    unfolding incident_sorted_def
    by (intro append_view_sorted [OF i2 s1]) (use 2(6) l in auto)
  have m: "PortalIndex v \<le> index" if "vs \<in> set inc2" "v \<in> set vs" for vs v
  proof -
    from that(1) obtain r where r: "r < length inc" "vs = inc2 ! r" using l(6) by (auto simp: in_set_conv_nth)
    from append_view_nth(1) [OF i2, of r] append_view_nth(1) [OF i1, of r] r that(2) l
    have "v \<in> set (inc ! r) \<or> PortalIndex v = index" by (auto split: if_splits)
    with 2(6) r show ?thesis by fastforce
  qed
  show ?case
  proof (rule 2(1) [OF ab [symmetric] refl i1 i2 rest s2])
    show "sorted_wrt (<) (map fst rest)" using 2(4) by simp
    show "\<forall>(i, p) \<in> set rest. fst (RoomIndices p) \<noteq> snd (RoomIndices p)" using 2(5) by auto
    show "\<forall>vs \<in> set inc2. \<forall>v \<in> set vs. \<forall>(i, p) \<in> set rest. PortalIndex v < i"
      using m 2(4) by fastforce
  qed
qed

lemma sorted_indexed: "sorted_wrt (<) (map fst (indexed xs))"
  by (simp add: indexed_def sorted_wrt_map)

lemma NewAcousticSceneGraph_incident:
  fixes g :: "('dir, 'h, 'g, 'b) graph"
  assumes "NewAcousticSceneGraph pow rate names so = Some (Inr g)"
  shows "incident_sorted (incident g)"
proof -
  from assms obtain s inc where s: "so = Some s" "Validate pow rate names (Some s) = []"
    "build_incident (indexed (Portals s)) (replicate (nat (RoomCount s)) []) = Some inc"
    and g: "UpdateRoomGroups \<lparr>gScene = s, incident = inc, groupOfRoom = [], roomsOfGroup = [],
                 geomCache = Map.empty, bvhCache = Map.empty\<rparr> = Some g"
    by (auto simp: NewAcousticSceneGraph_def split: option.splits if_splits)
  have "incident g = inc"
    using g by (auto simp: UpdateRoomGroups_def evictUnreachableGeometry_def Let_def split: option.splits)
  moreover have "incident_sorted inc"
  proof (rule build_incident_sorted [OF s(3) _ sorted_indexed])
    have "fst (RoomIndices p) \<noteq> snd (RoomIndices p)" if "p \<in> set (Portals s)" for p
      using validatePortals_references [OF Validate_portals [OF s(2)] that]
      by (auto simp: validatePortalReferences_def split: if_splits)
    then show "\<forall>(i, p) \<in> set (indexed (Portals s)). fst (RoomIndices p) \<noteq> snd (RoomIndices p)"
      by (auto simp: set_indexed)
  qed (auto simp: incident_sorted_def)
  ultimately show ?thesis by simp
qed

lemma reachable_incident_sorted: "graph_reachable pow rate names g \<Longrightarrow> incident_sorted (incident g)"
proof (induction rule: graph_reachable.induct)
  case (new so g)
  then show ?case by (rule NewAcousticSceneGraph_incident)
next
  case (toggle g i st g')
  with SetPortalState_Inr(5) [OF graph_reachable_ok [OF toggle(1)] toggle(2)] show ?case by simp
qed simp_all

subsection \<open>The edges the search follows\<close>

definition group_out :: "('dir, 'h, 'g, 'b) graph \<Rightarrow> int \<Rightarrow> groupPortalView list" where
  "group_out g a = (case sortedGroupEdges g a of None \<Rightarrow> [] | Some es \<Rightarrow> es)"

lemma sortedGroupEdges_group_out:
  assumes "graph_ok g"
  shows "sortedGroupEdges g a = Some (group_out g a)"
  using GroupPortalViews_spec [OF assms, of a] by (simp add: group_out_def sortedGroupEdges_def)

lemma group_out_set:
  assumes "graph_ok g" "GroupPortalViews g a = Some views"
  shows "set (group_out g a) = set views"
  using assms(2) by (simp add: group_out_def sortedGroupEdges_def)

lemma group_edges_distinct:
  assumes "incident_sorted (incident g)"
  shows "distinct (group_edges g r)"
proof -
  have "distinct (PortalViews g r)"
  proof (cases "slice_at (incident g) r")
    case (Some vs)
    then have "vs \<in> set (incident g)" by (auto simp: slice_at_Some_iff)
    with assms have "sorted_wrt (<) (map PortalIndex vs)" by (simp add: incident_sorted_def)
    then have "distinct (map PortalIndex vs)" by (simp add: strict_sorted_iff)
    with Some show ?thesis by (simp add: PortalViews_def distinct_map)
  qed (simp add: PortalViews_def)
  then show ?thesis by (simp add: group_edges_def)
qed

lemma distinct_concat_keyed:
  assumes "distinct rs" "\<And>r. distinct (f r)" "\<And>r x. x \<in> set (f r) \<Longrightarrow> key x = r"
  shows "distinct (concat (map f rs))"
  using assms(1)
proof (induction rs)
  case (Cons r rs)
  then show ?case using assms(2) by (auto dest: assms(3))
qed simp

lemma group_out_distinct:
  assumes "graph_ok g" "incident_sorted (incident g)"
  shows "distinct (group_out g a)"
proof -
  let ?f = "\<lambda>v. \<lparr>View = v, FromGroup = a, ToGroup = the (GroupOf g (ToRoom v))\<rparr>"
  have "distinct (case GroupRooms g a of None \<Rightarrow> [] | Some rs \<Rightarrow> concat (map (\<lambda>r. map ?f (group_edges g r)) rs))"
  proof (cases "GroupRooms g a")
    case (Some rs)
    have "distinct rs" using GroupRooms_members(2) [OF assms(1) Some] .
    moreover have "FromRoom v = r" if "v \<in> set (group_edges g r)" for v r
      using that PortalViews_iff [OF assms(1), of v r] by (simp add: group_edges_def)
    moreover have "distinct (map ?f (group_edges g r))" for r
      using group_edges_distinct [OF assms(2), of r] by (simp add: distinct_map inj_on_def)
    ultimately have "distinct (concat (map (\<lambda>r. map ?f (group_edges g r)) rs))"
      by (intro distinct_concat_keyed [of _ _ "\<lambda>x. FromRoom (View x)"]) auto
    with Some show ?thesis by simp
  qed simp
  with GroupPortalViews_spec [OF assms(1), of a] show ?thesis
    by (simp add: group_out_def sortedGroupEdges_def)
qed

lemma group_out_range:
  assumes g: "graph_ok g" and e: "e \<in> set (group_out g a)"
  shows "FromGroup e = a" "0 \<le> ToGroup e" "ToGroup e < GroupCount g" "ToGroup e \<noteq> a"
    "0 \<le> PortalIndex (View e)" "PortalIndex (View e) < int (length (Portals (gScene g)))"
    "view_matches (Portals (gScene g)) (View e)" "GroupOf g (FromRoom (View e)) = Some a"
    "GroupOf g (ToRoom (View e)) = Some (ToGroup e)"
    "State (Portals (gScene g) ! nat (PortalIndex (View e))) \<noteq> PortalOpen"
proof -
  from e GroupPortalViews_spec [OF g, of a] obtain rs r v where
    rs: "GroupRooms g a = Some rs" "r \<in> set rs" "v \<in> set (group_edges g r)"
    and ev: "e = \<lparr>View = v, FromGroup = a, ToGroup = the (GroupOf g (ToRoom v))\<rparr>"
    by (auto simp: group_out_def sortedGroupEdges_def split: option.splits)
  have m: "view_matches (Portals (gScene g)) v" "FromRoom v = r"
    "State (Portals (gScene g) ! nat (PortalIndex v)) \<noteq> PortalOpen" "GroupOf g (ToRoom v) \<noteq> GroupOf g r"
    using rs(3) PortalViews_iff [OF g, of v r] by (auto simp: group_edges_def)
  have "rooms_in_range (length (incident g)) (Portals (gScene g))"
    using graph_okD(5) [OF g] by (simp add: incident_ok_def)
  from view_matches_range(3,4) [OF this m(1)] graph_okD(1) [OF g]
  obtain k where k: "GroupOf g (ToRoom v) = Some (int k)" "k < length (roomsOfGroup g)"
    using GroupOf_total [OF g, of "ToRoom v"] by auto
  have r: "GroupOf g r = Some a" using GroupRooms_members(4) [OF g rs(1)] rs(2) by auto
  show "FromGroup e = a" "0 \<le> ToGroup e" "ToGroup e < GroupCount g" "ToGroup e \<noteq> a"
    "0 \<le> PortalIndex (View e)" "PortalIndex (View e) < int (length (Portals (gScene g)))"
    "view_matches (Portals (gScene g)) (View e)" "GroupOf g (FromRoom (View e)) = Some a"
    "GroupOf g (ToRoom (View e)) = Some (ToGroup e)"
    "State (Portals (gScene g) ! nat (PortalIndex (View e))) \<noteq> PortalOpen"
    using m k r by (simp_all add: ev GroupCount_def view_matches_def)
qed

subsection \<open>Ancestors\<close>

fun ancestors :: "int list \<Rightarrow> nat \<Rightarrow> nat list" where
  "ancestors ps i = i # (if i < length ps \<and> 0 \<le> ps ! i \<and> nat (ps ! i) < i
     then ancestors ps (nat (ps ! i)) else [])"

declare ancestors.simps [simp del]

lemma ancestors_append: "i < length ps \<Longrightarrow> ancestors (ps @ qs) i = ancestors ps i"
proof (induction ps i rule: ancestors.induct)
  case (1 ps i)
  then show ?case
    unfolding ancestors.simps [of "ps @ qs" i] ancestors.simps [of ps i] by (simp add: nth_append)
qed

lemma ancestors_le: "j \<in> set (ancestors ps i) \<Longrightarrow> j \<le> i"
proof (induction ps i rule: ancestors.induct)
  case (1 ps i)
  then show ?case by (subst (asm) (2) ancestors.simps) (auto split: if_splits)
qed

lemma ancestors_new:
  assumes "0 \<le> p" "nat p < length ps"
  shows "ancestors (ps @ [p]) (length ps) = length ps # ancestors ps (nat p)"
  using assms by (subst ancestors.simps) (simp add: nth_append ancestors_append)

lemma ancestors_ne [simp]: "ancestors ps i \<noteq> []" "hd (ancestors ps i) = i" "i \<in> set (ancestors ps i)"
  by (subst ancestors.simps, simp)+

subsection \<open>The tree invariant\<close>

definition parents :: "PathSearchTree \<Rightarrow> int list" where
  "parents t = map nParent (Nodes t)"

definition group_path :: "PathSearchTree \<Rightarrow> nat \<Rightarrow> int list" where
  "group_path t i = map (\<lambda>j. nGroup (Nodes t ! j)) (ancestors (parents t) i)"

definition edge_to :: "PathSearchTree \<Rightarrow> nat \<Rightarrow> groupPortalView option" where
  "edge_to t i = map_option stepPortal (nStep (Nodes t ! i))"

text \<open>What \<open>growPath\<close> writes into a node reached from \<open>pn\<close> through \<open>e\<close>.\<close>

definition child_node ::
  "(f64 \<Rightarrow> f64) \<Rightarrow> (f64 \<Rightarrow> f64) \<Rightarrow> (f64 \<Rightarrow> f64 \<Rightarrow> f64) \<Rightarrow> ('dir, 'h, 'g, 'b) graph \<Rightarrow>
   PathSearchConfig \<Rightarrow> int list \<Rightarrow> PathNode \<Rightarrow> groupPortalView \<Rightarrow> PathNode \<Rightarrow> bool" where
  "child_node log10 cosine pow g cfg rg pn e n \<longleftrightarrow>
     (\<exists>tr. accumulate pow (gScene g) (Portals (gScene g) ! nat (PortalIndex (View e)))
        (nTransmission pn) (cBandCount cfg) = Some (tr, nTransmission n) \<and>
        nStep n = Some \<lparr>stepPortal = e, stepTransmission = tr\<rparr>) \<and>
     nGroup n = ToGroup e \<and> nDepth n = nDepth pn + 1 \<and> nDepth n \<le> MaxDepth cfg \<and>
     nActiveBands n = activeBands log10 (nTransmission n) (PruneFloorDB cfg) \<and>
     anyActive (nActiveBands n) \<and>
     nReductionDB n = WeightedReductionIndexDB log10 cosine (nTransmission n) (ReductionWeights cfg) \<and>
     nIsLeaf n = (nGroup n \<in> set rg)"

definition tree_ok where
  "tree_ok log10 cosine pow g cfg rg src t \<longleftrightarrow>
     Nodes t \<noteq> [] \<and> nGroup (Nodes t ! 0) = src \<and> nDepth (Nodes t ! 0) = 0 \<and> nParent (Nodes t ! 0) = -1 \<and>
     nStep (Nodes t ! 0) = None \<and> nTransmission (Nodes t ! 0) = replicate (nat (cBandCount cfg)) (round64 1) \<and>
     nIsLeaf (Nodes t ! 0) = (src \<in> set rg) \<and>
     (\<forall>i. 0 < i \<longrightarrow> i < length (Nodes t) \<longrightarrow>
        0 \<le> nParent (Nodes t ! i) \<and> nat (nParent (Nodes t ! i)) < i \<and>
        (\<exists>e \<in> set (group_out g (nGroup (Nodes t ! nat (nParent (Nodes t ! i))))).
          child_node log10 cosine pow g cfg rg (Nodes t ! nat (nParent (Nodes t ! i))) e (Nodes t ! i))) \<and>
     (\<forall>i < length (Nodes t). distinct (group_path t i)) \<and>
     (\<forall>i < length (Nodes t). nChildren (Nodes t ! i) =
        map int (filter (\<lambda>j. nParent (Nodes t ! j) = int i) [0..<length (Nodes t)])) \<and>
     Leaves t = map int (filter (\<lambda>j. nIsLeaf (Nodes t ! j)) [0..<length (Nodes t)]) \<and>
     (1 < length (Nodes t) \<longrightarrow> int (length (Nodes t)) \<le> MaxNodes cfg) \<and>
     (\<forall>i j. i < length (Nodes t) \<longrightarrow> j < length (Nodes t) \<longrightarrow>
        nParent (Nodes t ! i) = nParent (Nodes t ! j) \<longrightarrow> edge_to t i = edge_to t j \<longrightarrow> i = j)"

lemma tree_okI:
  assumes "Nodes t \<noteq> []" "nGroup (Nodes t ! 0) = src" "nDepth (Nodes t ! 0) = 0" "nParent (Nodes t ! 0) = -1"
    "nStep (Nodes t ! 0) = None" "nTransmission (Nodes t ! 0) = replicate (nat (cBandCount cfg)) (round64 1)"
    "nIsLeaf (Nodes t ! 0) = (src \<in> set rg)"
    "\<And>i. 0 < i \<Longrightarrow> i < length (Nodes t) \<Longrightarrow>
        0 \<le> nParent (Nodes t ! i) \<and> nat (nParent (Nodes t ! i)) < i \<and>
        (\<exists>e \<in> set (group_out g (nGroup (Nodes t ! nat (nParent (Nodes t ! i))))).
          child_node log10 cosine pow g cfg rg (Nodes t ! nat (nParent (Nodes t ! i))) e (Nodes t ! i))"
    "\<And>i. i < length (Nodes t) \<Longrightarrow> distinct (group_path t i)"
    "\<And>i. i < length (Nodes t) \<Longrightarrow> nChildren (Nodes t ! i) =
        map int (filter (\<lambda>j. nParent (Nodes t ! j) = int i) [0..<length (Nodes t)])"
    "Leaves t = map int (filter (\<lambda>j. nIsLeaf (Nodes t ! j)) [0..<length (Nodes t)])"
    "1 < length (Nodes t) \<Longrightarrow> int (length (Nodes t)) \<le> MaxNodes cfg"
    "\<And>i j. i < length (Nodes t) \<Longrightarrow> j < length (Nodes t) \<Longrightarrow>
        nParent (Nodes t ! i) = nParent (Nodes t ! j) \<Longrightarrow> edge_to t i = edge_to t j \<Longrightarrow> i = j"
  shows "tree_ok log10 cosine pow g cfg rg src t"
  unfolding tree_ok_def using assms by blast

lemma tree_okD:
  assumes "tree_ok log10 cosine pow g cfg rg src t"
  shows "Nodes t \<noteq> []" "nGroup (Nodes t ! 0) = src" "nDepth (Nodes t ! 0) = 0" "nParent (Nodes t ! 0) = -1"
    "nStep (Nodes t ! 0) = None" "nTransmission (Nodes t ! 0) = replicate (nat (cBandCount cfg)) (round64 1)"
    "nIsLeaf (Nodes t ! 0) = (src \<in> set rg)"
    "\<And>i. 0 < i \<Longrightarrow> i < length (Nodes t) \<Longrightarrow>
        0 \<le> nParent (Nodes t ! i) \<and> nat (nParent (Nodes t ! i)) < i \<and>
        (\<exists>e \<in> set (group_out g (nGroup (Nodes t ! nat (nParent (Nodes t ! i))))).
          child_node log10 cosine pow g cfg rg (Nodes t ! nat (nParent (Nodes t ! i))) e (Nodes t ! i))"
    "\<And>i. i < length (Nodes t) \<Longrightarrow> distinct (group_path t i)"
    "\<And>i. i < length (Nodes t) \<Longrightarrow> nChildren (Nodes t ! i) =
        map int (filter (\<lambda>j. nParent (Nodes t ! j) = int i) [0..<length (Nodes t)])"
    "Leaves t = map int (filter (\<lambda>j. nIsLeaf (Nodes t ! j)) [0..<length (Nodes t)])"
    "1 < length (Nodes t) \<Longrightarrow> int (length (Nodes t)) \<le> MaxNodes cfg"
    "\<And>i j. i < length (Nodes t) \<Longrightarrow> j < length (Nodes t) \<Longrightarrow>
        nParent (Nodes t ! i) = nParent (Nodes t ! j) \<Longrightarrow> edge_to t i = edge_to t j \<Longrightarrow> i = j"
  using assms unfolding tree_ok_def by blast+

subsection \<open>Growing a tree\<close>

definition grown :: "PathSearchTree \<Rightarrow> nat \<Rightarrow> PathNode \<Rightarrow> PathSearchTree" where
  "grown t p n = t\<lparr>Nodes := (Nodes t)[p := (Nodes t ! p)\<lparr>nChildren :=
       nChildren (Nodes t ! p) @ [int (length (Nodes t))]\<rparr>] @ [n],
     Leaves := Leaves t @ (if nIsLeaf n then [int (length (Nodes t))] else [])\<rparr>"

lemma grown_length [simp]: "length (Nodes (grown t p n)) = Suc (length (Nodes t))"
  by (simp add: grown_def)

lemma grown_new [simp]: "Nodes (grown t p n) ! length (Nodes t) = n"
  by (simp add: grown_def nth_append)

lemma grown_Leaves [simp]:
  "Leaves (grown t p n) = Leaves t @ (if nIsLeaf n then [int (length (Nodes t))] else [])"
  "Truncated (grown t p n) = Truncated t" "Root (grown t p n) = Root t"
  by (simp_all add: grown_def)

lemma grown_old:
  assumes "i < length (Nodes t)"
  shows "nGroup (Nodes (grown t p n) ! i) = nGroup (Nodes t ! i)"
    "nDepth (Nodes (grown t p n) ! i) = nDepth (Nodes t ! i)"
    "nParent (Nodes (grown t p n) ! i) = nParent (Nodes t ! i)"
    "nStep (Nodes (grown t p n) ! i) = nStep (Nodes t ! i)"
    "nTransmission (Nodes (grown t p n) ! i) = nTransmission (Nodes t ! i)"
    "nActiveBands (Nodes (grown t p n) ! i) = nActiveBands (Nodes t ! i)"
    "nReductionDB (Nodes (grown t p n) ! i) = nReductionDB (Nodes t ! i)"
    "nIsLeaf (Nodes (grown t p n) ! i) = nIsLeaf (Nodes t ! i)"
    "nChildren (Nodes (grown t p n) ! i) = nChildren (Nodes t ! i) @
       (if i = p then [int (length (Nodes t))] else [])"
  using assms by (cases "i = p"; simp add: grown_def nth_append)+

lemma edge_to_grown:
  "i < length (Nodes t) \<Longrightarrow> edge_to (grown t p n) i = edge_to t i"
  "edge_to (grown t p n) (length (Nodes t)) = map_option stepPortal (nStep n)"
  by (simp_all add: edge_to_def grown_old)

lemma parents_grown: "p < length (Nodes t) \<Longrightarrow> parents (grown t p n) = parents t @ [nParent n]"
  by (rule nth_equalityI)
    (auto simp: parents_def nth_append grown_old less_Suc_eq)

lemma group_path_grown:
  assumes "p < length (Nodes t)"
  shows "i < length (Nodes t) \<Longrightarrow> group_path (grown t p n) i = group_path t i"
    "nParent n = int p \<Longrightarrow> group_path (grown t p n) (length (Nodes t)) = nGroup n # group_path t p"
proof -
  have old: "map (\<lambda>j. nGroup (Nodes (grown t p n) ! j)) (ancestors (parents t) i) = group_path t i"
    if "i < length (Nodes t)" for i
    using that unfolding group_path_def
    by (intro map_cong refl grown_old(1)) (auto dest: ancestors_le)
  have l: "length (parents t) = length (Nodes t)" by (simp add: parents_def)
  show "group_path (grown t p n) i = group_path t i" if "i < length (Nodes t)"
    using that old [OF that]
    by (simp add: group_path_def [of "grown t p n"] parents_grown [OF assms] ancestors_append l)
  show "group_path (grown t p n) (length (Nodes t)) = nGroup n # group_path t p" if "nParent n = int p"
    using old [OF assms] ancestors_new [of "int p" "parents t"] assms that l
    by (simp add: group_path_def [of "grown t p n"] parents_grown [OF assms])
qed

lemma child_node_cong:
  assumes "nTransmission pn = nTransmission pn'" "nDepth pn = nDepth pn'"
    "nGroup n = nGroup n'" "nDepth n = nDepth n'" "nStep n = nStep n'" "nTransmission n = nTransmission n'"
    "nActiveBands n = nActiveBands n'" "nReductionDB n = nReductionDB n'" "nIsLeaf n = nIsLeaf n'"
  shows "child_node log10 cosine pow g cfg rg pn e n \<longleftrightarrow> child_node log10 cosine pow g cfg rg pn' e n'"
  using assms by (simp add: child_node_def)

lemma tree_ok_grown:
  assumes t: "tree_ok log10 cosine pow g cfg rg src t" and p: "p < length (Nodes t)"
    and e: "e \<in> set (group_out g (nGroup (Nodes t ! p)))" "ToGroup e \<notin> set (group_path t p)"
    and new: "\<And>j. j < length (Nodes t) \<Longrightarrow> nParent (Nodes t ! j) = int p \<Longrightarrow> edge_to t j \<noteq> Some e"
    and max: "int (length (Nodes t)) < MaxNodes cfg"
    and n: "child_node log10 cosine pow g cfg rg (Nodes t ! p) e n" "nParent n = int p" "nChildren n = []"
  shows "tree_ok log10 cosine pow g cfg rg src (grown t p n)"
proof (rule tree_okI)
  let ?t = "grown t p n" let ?l = "length (Nodes t)"
  note D = tree_okD [OF t]
  have l0: "0 < ?l" using D(1) by simp
  show "Nodes ?t \<noteq> []" by (simp add: grown_def)
  show "nGroup (Nodes ?t ! 0) = src" "nDepth (Nodes ?t ! 0) = 0" "nParent (Nodes ?t ! 0) = -1"
    "nStep (Nodes ?t ! 0) = None" "nTransmission (Nodes ?t ! 0) = replicate (nat (cBandCount cfg)) (round64 1)"
    "nIsLeaf (Nodes ?t ! 0) = (src \<in> set rg)"
    using D(2-7) by (simp_all add: grown_old [OF l0])
  show "0 \<le> nParent (Nodes ?t ! i) \<and> nat (nParent (Nodes ?t ! i)) < i \<and>
        (\<exists>e \<in> set (group_out g (nGroup (Nodes ?t ! nat (nParent (Nodes ?t ! i))))).
          child_node log10 cosine pow g cfg rg (Nodes ?t ! nat (nParent (Nodes ?t ! i))) e (Nodes ?t ! i))"
    if i: "0 < i" "i < length (Nodes ?t)" for i
  proof (cases "i = ?l")
    case True
    have "child_node log10 cosine pow g cfg rg (Nodes ?t ! p) e n"
      by (subst child_node_cong [of _ "Nodes t ! p" n n]) (simp_all add: grown_old [OF p] n(1))
    with True p e(1) n(2) show ?thesis by (auto simp: grown_old [OF p])
  next
    case False
    with i have il: "i < ?l" by simp
    let ?q = "nat (nParent (Nodes t ! i))"
    from D(8) [OF i(1) il] obtain e' where q: "0 \<le> nParent (Nodes t ! i)" "?q < i"
      "e' \<in> set (group_out g (nGroup (Nodes t ! ?q)))"
      "child_node log10 cosine pow g cfg rg (Nodes t ! ?q) e' (Nodes t ! i)" by blast
    then have "?q < ?l" using il by simp
    from q(4) have "child_node log10 cosine pow g cfg rg (Nodes ?t ! ?q) e' (Nodes ?t ! i)"
      by (subst child_node_cong) (simp_all add: grown_old \<open>?q < ?l\<close> il)
    with q show ?thesis by (auto simp: grown_old [OF il] grown_old [OF \<open>?q < ?l\<close>])
  qed
  show "distinct (group_path ?t i)" if "i < length (Nodes ?t)" for i
  proof (cases "i = ?l")
    case True
    have "nGroup n = ToGroup e" using n(1) by (simp add: child_node_def)
    with True e(2) D(9) [OF p] group_path_grown(2) [OF p n(2)] show ?thesis by simp
  next
    case False
    with that D(9) show ?thesis by (simp add: group_path_grown(1) [OF p])
  qed
  have f: "filter P [0..<length (Nodes ?t)] = filter P [0..<?l] @ (if P ?l then [?l] else [])" for P
    by simp
  show "nChildren (Nodes ?t ! i) =
      map int (filter (\<lambda>j. nParent (Nodes ?t ! j) = int i) [0..<length (Nodes ?t)])"
    if "i < length (Nodes ?t)" for i
  proof (cases "i = ?l")
    case True
    have "nParent (Nodes t ! j) \<noteq> int ?l" if "j < ?l" for j
      using D(4) D(8) [of j] that by (cases "j = 0") auto
    then have "filter (\<lambda>j. nParent (Nodes ?t ! j) = int i) [0..<?l] = []"
      using True by (auto simp: filter_empty_conv grown_old)
    with True n p show ?thesis unfolding f by simp
  next
    case False
    with that have il: "i < ?l" by simp
    have "filter (\<lambda>j. nParent (Nodes ?t ! j) = int i) [0..<?l] =
      filter (\<lambda>j. nParent (Nodes t ! j) = int i) [0..<?l]"
      by (intro filter_cong refl) (simp add: grown_old)
    with D(10) [OF il] n(2) show ?thesis unfolding f by (auto simp: grown_old [OF il])
  qed
  have "filter (\<lambda>j. nIsLeaf (Nodes ?t ! j)) [0..<?l] = filter (\<lambda>j. nIsLeaf (Nodes t ! j)) [0..<?l]"
    by (intro filter_cong refl) (simp add: grown_old)
  then show "Leaves ?t = map int (filter (\<lambda>j. nIsLeaf (Nodes ?t ! j)) [0..<length (Nodes ?t)])"
    using D(11) unfolding f by simp
  show "int (length (Nodes ?t)) \<le> MaxNodes cfg" using max by simp
  have en: "edge_to ?t ?l = Some e" using n(1) by (auto simp: edge_to_grown(2) child_node_def)
  show "i = j" if "i < length (Nodes ?t)" "j < length (Nodes ?t)"
    "nParent (Nodes ?t ! i) = nParent (Nodes ?t ! j)" "edge_to ?t i = edge_to ?t j" for i j
  proof -
    have *: "False" if "k < ?l" "nParent (Nodes ?t ! k) = int p" "edge_to ?t k = Some e" for k
      using new [OF that(1)] that by (simp add: grown_old edge_to_grown)
    show ?thesis
      using that D(13) [of i j] * [of i] * [of j] en n(2)
      by (cases "i = ?l"; cases "j = ?l") (auto simp: grown_old edge_to_grown(1))
  qed
qed

end
