(* ===== verification/Path_Exploration.thy ===== *)
theory Path_Exploration
  imports Path_Tree
begin

text \<open>
  The invariant of the explicit-stack search and its consequences: the search returns, every
  node of the tree is a simple path of the group graph, no path occurs twice, and the tree
  is complete exactly when it is not marked as truncated.
\<close>

subsection \<open>The search invariant\<close>

definition covered :: "PathSearchTree \<Rightarrow> nat \<Rightarrow> groupPortalView \<Rightarrow> bool" where
  "covered t i e \<longleftrightarrow> ToGroup e \<in> set (group_path t i) \<or>
     (\<exists>j < length (Nodes t). nParent (Nodes t ! j) = int i \<and> edge_to t j = Some e)"

definition frame_ok :: "('dir, 'h, 'g, 'b) graph \<Rightarrow> PathSearchTree \<Rightarrow> pathFrame \<Rightarrow> bool" where
  "frame_ok g t f \<longleftrightarrow> 0 \<le> fNode f \<and> fNode f < int (length (Nodes t)) \<and>
     fEdges f = group_out g (nGroup (Nodes t ! nat (fNode f))) \<and>
     (\<forall>j < length (Nodes t). nParent (Nodes t ! j) = fNode f \<longrightarrow>
        edge_to t j \<in> Some ` set (take (childCursor f) (fEdges f)))"

definition stack_ok :: "PathSearchTree \<Rightarrow> pathFrame list \<Rightarrow> bool" where
  "stack_ok t stack \<longleftrightarrow> stack = [] \<or>
     map (\<lambda>f. nat (fNode f)) stack = ancestors (parents t) (nat (fNode (hd stack)))"

definition on_path_ok :: "('dir, 'h, 'g, 'b) graph \<Rightarrow> PathSearchTree \<Rightarrow> bool list \<Rightarrow> pathFrame list \<Rightarrow> bool" where
  "on_path_ok g t onPath stack \<longleftrightarrow> int (length onPath) = GroupCount g \<and>
     (\<forall>x. 0 \<le> x \<longrightarrow> x < GroupCount g \<longrightarrow>
        onPath ! nat x = (x \<in> (\<lambda>f. nGroup (Nodes t ! nat (fNode f))) ` set stack))"

definition cover_ok :: "('dir, 'h, 'g, 'b) graph \<Rightarrow> PathSearchTree \<Rightarrow> pathFrame list \<Rightarrow> bool" where
  "cover_ok g t stack \<longleftrightarrow> (\<not> Truncated t \<longrightarrow>
     (\<forall>i < length (Nodes t). \<forall>e \<in> set (group_out g (nGroup (Nodes t ! i))).
        (\<exists>f \<in> set stack. fNode f = int i \<and> e \<in> set (drop (childCursor f) (fEdges f))) \<or> covered t i e))"

definition cut_ok :: "('dir, 'h, 'g, 'b) graph \<Rightarrow> PathSearchTree \<Rightarrow> pathFrame list \<Rightarrow> bool" where
  "cut_ok g t stack \<longleftrightarrow> (Truncated t \<longrightarrow>
     (\<exists>i < length (Nodes t). \<exists>e \<in> set (group_out g (nGroup (Nodes t ! i))). \<not> covered t i e \<and>
        (\<forall>f \<in> set stack. fNode f = int i \<longrightarrow> e \<notin> set (drop (childCursor f) (fEdges f)))))"

definition path_inv where
  "path_inv log10 cosine pow g cfg rg src t onPath stack \<longleftrightarrow>
     tree_ok log10 cosine pow g cfg rg src t \<and> (\<forall>f \<in> set stack. frame_ok g t f) \<and>
     stack_ok t stack \<and> on_path_ok g t onPath stack \<and> cover_ok g t stack \<and> cut_ok g t stack"

lemma node_group_range:
  assumes "tree_ok log10 cosine pow g cfg rg src t" "graph_ok g" "0 \<le> src" "src < GroupCount g"
    "i < length (Nodes t)"
  shows "0 \<le> nGroup (Nodes t ! i)" "nGroup (Nodes t ! i) < GroupCount g"
proof -
  have "0 \<le> nGroup (Nodes t ! i) \<and> nGroup (Nodes t ! i) < GroupCount g"
  proof (cases "i = 0")
    case True
    with assms tree_okD(2) [OF assms(1)] show ?thesis by simp
  next
    case False
    with tree_okD(8) [OF assms(1), of i] assms(5) group_out_range(2,3) [OF assms(2)] show ?thesis
      by (auto simp: child_node_def)
  qed
  then show "0 \<le> nGroup (Nodes t ! i)" "nGroup (Nodes t ! i) < GroupCount g" by simp_all
qed

lemma stack_groups:
  assumes "stack_ok t (f # fs)"
  shows "map (\<lambda>f. nGroup (Nodes t ! nat (fNode f))) (f # fs) = group_path t (nat (fNode f))"
proof -
  have "map (\<lambda>f. nGroup (Nodes t ! nat (fNode f))) (f # fs) =
    map (\<lambda>j. nGroup (Nodes t ! j)) (map (\<lambda>f. nat (fNode f)) (f # fs))" by simp
  also have "map (\<lambda>f. nat (fNode f)) (f # fs) = ancestors (parents t) (nat (fNode f))"
    using assms by (simp add: stack_ok_def)
  finally show ?thesis by (simp add: group_path_def)
qed

lemma stack_ok_pop:
  assumes "stack_ok t (f # fs)"
  shows "stack_ok t fs"
proof (cases fs)
  case (Cons f2 fs2)
  let ?i = "nat (fNode f)"
  from assms have "map (\<lambda>f. nat (fNode f)) fs = tl (ancestors (parents t) ?i)"
    unfolding stack_ok_def by (metis list.distinct(1) list.sel(1,3) map_tl)
  moreover have "tl (ancestors (parents t) ?i) \<noteq> []" using calculation Cons by auto
  then have "tl (ancestors (parents t) ?i) = ancestors (parents t) (nat (parents t ! ?i))"
    unfolding ancestors.simps [of "parents t" ?i] by (auto split: if_splits)
  moreover have "hd (ancestors (parents t) (nat (parents t ! ?i))) = nat (parents t ! ?i)" by simp
  ultimately show ?thesis using Cons unfolding stack_ok_def by (metis list.sel(1) list.simps(9))
qed (simp add: stack_ok_def)

lemma inv_pop:
  assumes inv: "path_inv log10 cosine pow g cfg rg src t onPath (f # fs)" and g: "graph_ok g"
    and src: "0 \<le> src" "src < GroupCount g" and c: "length (fEdges f) \<le> childCursor f"
  shows "slice_at (Nodes t) (fNode f) = Some (Nodes t ! nat (fNode f))"
    "slice_at onPath (nGroup (Nodes t ! nat (fNode f))) \<noteq> None"
    "path_inv log10 cosine pow g cfg rg src t (onPath[nat (nGroup (Nodes t ! nat (fNode f))) := False]) fs"
proof -
  let ?i = "nat (fNode f)" let ?a = "nGroup (Nodes t ! ?i)"
  have I: "tree_ok log10 cosine pow g cfg rg src t" "\<forall>f \<in> set (f # fs). frame_ok g t f"
    "stack_ok t (f # fs)" "on_path_ok g t onPath (f # fs)" "cover_ok g t (f # fs)" "cut_ok g t (f # fs)"
    using inv unfolding path_inv_def by blast+
  have f: "0 \<le> fNode f" "fNode f < int (length (Nodes t))" using I(2) by (auto simp: frame_ok_def)
  then show s: "slice_at (Nodes t) (fNode f) = Some (Nodes t ! ?i)" by (simp add: slice_at_def)
  have a: "0 \<le> ?a" "?a < GroupCount g" using node_group_range [OF I(1) g src, of ?i] f by auto
  have len: "int (length onPath) = GroupCount g" using I(4) by (simp add: on_path_ok_def)
  then show "slice_at onPath ?a \<noteq> None" using a by (simp add: slice_at_def)
  have "distinct (map (\<lambda>f. nGroup (Nodes t ! nat (fNode f))) (f # fs))"
    unfolding stack_groups [OF I(3)] using tree_okD(9) [OF I(1), of ?i] f by simp
  then have na: "?a \<notin> (\<lambda>f. nGroup (Nodes t ! nat (fNode f))) ` set fs" by simp
  have "on_path_ok g t (onPath[nat ?a := False]) fs"
    unfolding on_path_ok_def
  proof (intro conjI allI impI)
    fix x assume x: "0 \<le> x" "x < GroupCount g"
    show "onPath[nat ?a := False] ! nat x = (x \<in> (\<lambda>f. nGroup (Nodes t ! nat (fNode f))) ` set fs)"
    proof (cases "x = ?a")
      case True
      with na x len show ?thesis by simp
    next
      case False
      then have "nat x \<noteq> nat ?a" using x a by simp
      with False x I(4) show ?thesis by (auto simp: on_path_ok_def)
    qed
  qed (use len in simp)
  moreover have "cover_ok g t fs" using I(5) c by (auto simp: cover_ok_def)
  moreover have "cut_ok g t fs" using I(6) unfolding cut_ok_def by (meson list.set_intros(2))
  moreover have "\<forall>f \<in> set fs. frame_ok g t f" using I(2) by simp
  ultimately show "path_inv log10 cosine pow g cfg rg src t (onPath[nat ?a := False]) fs"
    using I(1) stack_ok_pop [OF I(3)] unfolding path_inv_def by blast
qed

lemma those_Some: "(\<And>x. x \<in> set xs \<Longrightarrow> f x = Some (h x)) \<Longrightarrow> those (map f xs) = Some (map h xs)"
  by (induction xs) auto

lemma map_int_upt: "map int [0..<n] = [0..int n - 1]"
proof (induction n)
  case (Suc n)
  have "[0..int n] = [0..int n - 1] @ [int n]" by (rule upto_rec2) simp
  with Suc show ?case by simp
qed simp

lemma those_length: "those xs = Some ys \<Longrightarrow> length ys = length xs"
  by (induction xs arbitrary: ys) (auto split: option.splits)

lemma accumulate_length:
  "accumulate pow s p ts bandCount = Some (tr, acc) \<Longrightarrow> 0 \<le> bandCount \<Longrightarrow> int (length acc) = bandCount"
  by (auto simp: accumulate_def Let_def dest!: those_length)

lemma accumulate_Some:
  assumes "int (length ts) = bandCount"
  shows "\<exists>tr acc. accumulate pow s p ts bandCount = Some (tr, acc) \<and>
    int (length tr) = bandCount \<and> int (length acc) = bandCount \<and>
    (\<forall>b < length ts. tr ! b = portal_TransmissionAt pow p (Materials s) (int b) \<and>
       acc ! b = fmul (ts ! b) (tr ! b))"
proof -
  let ?t = "portal_TransmissionAt pow p (Materials s)"
  let ?bands = "[0..bandCount - 1]"
  have u: "?bands = map int [0..<length ts]"
    by (simp add: map_int_upt flip: assms)
  have "those (map (\<lambda>band. map_option (\<lambda>t. fmul t (?t band)) (slice_at ts band)) ?bands) =
    Some (map (\<lambda>band. fmul (ts ! nat band) (?t band)) ?bands)"
    by (rule those_Some) (auto simp: u slice_at_def)
  then have "accumulate pow s p ts bandCount =
    Some (map ?t ?bands, map (\<lambda>band. fmul (ts ! nat band) (?t band)) ?bands)"
    unfolding accumulate_def Let_def by simp
  moreover have "length ?bands = length ts" unfolding u by simp
  moreover have "?bands ! b = int b" if "b < length ts" for b unfolding u using that by simp
  ultimately show ?thesis using assms by simp
qed

lemma transmission_length:
  assumes "tree_ok log10 cosine pow g cfg rg src t" "0 \<le> cBandCount cfg" "i < length (Nodes t)"
  shows "int (length (nTransmission (Nodes t ! i))) = cBandCount cfg"
proof (cases "i = 0")
  case True
  with tree_okD(6) [OF assms(1)] assms(2) show ?thesis by simp
next
  case False
  with tree_okD(8) [OF assms(1), of i] assms(2,3) show ?thesis
    by (auto simp: child_node_def dest: accumulate_length)
qed

text \<open>One call of \<open>growPath\<close> for an edge of the top frame.\<close>

lemma growPath_cases:
  assumes t: "tree_ok log10 cosine pow g cfg rg src t" and g: "graph_ok g"
    and b: "0 \<le> cBandCount cfg" and p: "0 \<le> p" "p < int (length (Nodes t))"
    and e: "e \<in> set (group_out g (nGroup (Nodes t ! nat p)))" and l: "int (length onPath) = GroupCount g"
  obtains
    (cycle) "onPath ! nat (ToGroup e)" "growPath log10 cosine pow g t cfg p e onPath rg = Some (t, None)"
  | (cut) "\<not> onPath ! nat (ToGroup e)" "growPath log10 cosine pow g t cfg p e onPath rg = Some (t\<lparr>Truncated := True\<rparr>, None)"
  | (grow) n where "\<not> onPath ! nat (ToGroup e)"
      "growPath log10 cosine pow g t cfg p e onPath rg = Some (grown t (nat p) n, Some (int (length (Nodes t))))"
      "child_node log10 cosine pow g cfg rg (Nodes t ! nat p) e n" "nParent n = p" "nChildren n = []"
      "int (length (Nodes t)) < MaxNodes cfg"
proof -
  note r = group_out_range [OF g e]
  have pl: "nat p < length (Nodes t)" using p by linarith
  let ?pn = "Nodes t ! nat p" let ?pt = "Portals (gScene g) ! nat (PortalIndex (View e))"
  have s: "slice_at onPath (ToGroup e) = Some (onPath ! nat (ToGroup e))" "slice_at (Nodes t) p = Some ?pn"
    "slice_at (Portals (gScene g)) (PortalIndex (View e)) = Some ?pt"
    using r(2,3,5,6) p l by (simp_all add: slice_at_def)
  obtain tr acc where a: "accumulate pow (gScene g) ?pt (nTransmission ?pn) (cBandCount cfg) = Some (tr, acc)"
    using accumulate_Some [OF transmission_length [OF t b pl]] by blast
  let ?act = "activeBands log10 acc (PruneFloorDB cfg)"
  let ?n = "\<lparr>nGroup = ToGroup e, nDepth = nDepth ?pn + 1, nParent = p, nChildren = [],
     nStep = Some \<lparr>stepPortal = e, stepTransmission = tr\<rparr>, nTransmission = acc, nActiveBands = ?act,
     nReductionDB = WeightedReductionIndexDB log10 cosine acc (ReductionWeights cfg),
     nIsLeaf = (ToGroup e \<in> set rg)\<rparr>"
  note def = growPath_def [of log10 cosine pow g t cfg p e onPath rg, unfolded s option.case]
  consider "onPath ! nat (ToGroup e)"
    | "\<not> onPath ! nat (ToGroup e)" "MaxDepth cfg < nDepth ?pn + 1 \<or> MaxNodes cfg \<le> int (length (Nodes t)) \<or> \<not> anyActive ?act"
    | "\<not> onPath ! nat (ToGroup e)" "nDepth ?pn + 1 \<le> MaxDepth cfg" "int (length (Nodes t)) < MaxNodes cfg" "anyActive ?act"
    by linarith
  then show thesis
  proof cases
    case 1
    then show thesis by (intro cycle) (simp_all add: def)
  next
    case 2
    then show thesis by (intro cut) (auto simp add: def a)
  next
    case 3
    have gp: "growPath log10 cosine pow g t cfg p e onPath rg = Some (grown t (nat p) ?n, Some (int (length (Nodes t))))"
      using 3 by (simp add: def a grown_def Let_def)
    have "child_node log10 cosine pow g cfg rg ?pn e ?n"
      using 3 a by (simp add: child_node_def)
    from grow [OF 3(1) gp this _ _ 3(3)] show thesis by simp
  qed
qed

definition advanced :: "pathFrame \<Rightarrow> pathFrame" where
  "advanced f = f\<lparr>childCursor := Suc (childCursor f)\<rparr>"

lemma advanced_simps [simp]:
  "fNode (advanced f) = fNode f" "fEdges (advanced f) = fEdges f"
  "childCursor (advanced f) = Suc (childCursor f)"
  by (simp_all add: advanced_def)

lemma frame_ok_advanced: "frame_ok g t f \<Longrightarrow> frame_ok g t (advanced f)"
proof -
  have "set (take c xs) \<subseteq> set (take (Suc c) xs)" for c and xs :: "groupPortalView list"
    by (rule set_take_subset_set_take) simp
  then show "frame_ok g t f \<Longrightarrow> frame_ok g t (advanced f)" unfolding frame_ok_def by fastforce
qed

lemma stack_ok_advanced: "stack_ok t (f # fs) \<Longrightarrow> stack_ok t (advanced f # fs)"
  by (simp add: stack_ok_def)

lemma on_path_ok_advanced: "on_path_ok g t onPath (f # fs) \<Longrightarrow> on_path_ok g t onPath (advanced f # fs)"
  by (simp add: on_path_ok_def)

lemma cover_ok_advanced:
  assumes "cover_ok g t (f # fs)" "childCursor f < length (fEdges f)"
    "\<not> Truncated t \<Longrightarrow> covered t (nat (fNode f)) (fEdges f ! childCursor f)"
  shows "cover_ok g t (advanced f # fs)"
  unfolding cover_ok_def
proof (intro impI allI ballI)
  fix i e assume tr: "\<not> Truncated t" and i: "i < length (Nodes t)"
    and e: "e \<in> set (group_out g (nGroup (Nodes t ! i)))"
  from assms(1) tr i e consider
    "\<exists>h \<in> set fs. fNode h = int i \<and> e \<in> set (drop (childCursor h) (fEdges h))"
    | "fNode f = int i" "e \<in> set (drop (childCursor f) (fEdges f))" | "covered t i e"
    by (auto simp: cover_ok_def)
  then show "(\<exists>h \<in> set (advanced f # fs). fNode h = int i \<and> e \<in> set (drop (childCursor h) (fEdges h))) \<or> covered t i e"
  proof cases
    case 2
    from Cons_nth_drop_Suc [OF assms(2)] 2(2)
    have "e = fEdges f ! childCursor f \<or> e \<in> set (drop (Suc (childCursor f)) (fEdges f))"
      by (metis set_ConsD)
    with 2(1) assms(3) [OF tr] show ?thesis by auto
  qed auto
qed

lemma drop_Suc_subset: "set (drop (Suc c) xs) \<subseteq> set (drop c xs)"
  by (rule set_drop_subset_set_drop) simp

lemma cut_ok_advanced: "cut_ok g t (f # fs) \<Longrightarrow> cut_ok g t (advanced f # fs)"
  using drop_Suc_subset unfolding cut_ok_def by fastforce

text \<open>The nodes of the frames below the top are others than the top's.\<close>

lemma stack_nodes_differ:
  assumes "tree_ok log10 cosine pow g cfg rg src t" "stack_ok t (f # fs)"
    "nat (fNode f) < length (Nodes t)" "h \<in> set fs"
  shows "fNode h \<noteq> fNode f"
proof
  assume "fNode h = fNode f"
  then have "nGroup (Nodes t ! nat (fNode h)) = nGroup (Nodes t ! nat (fNode f))" by simp
  moreover have "nGroup (Nodes t ! nat (fNode h)) \<in> (\<lambda>f. nGroup (Nodes t ! nat (fNode f))) ` set fs"
    using assms(4) by (rule imageI)
  moreover have "distinct (map (\<lambda>f. nGroup (Nodes t ! nat (fNode f))) (f # fs))"
    unfolding stack_groups [OF assms(2)] using tree_okD(9) [OF assms(1,3)] .
  then have "nGroup (Nodes t ! nat (fNode f)) \<notin> (\<lambda>f. nGroup (Nodes t ! nat (fNode f))) ` set fs" by simp
  ultimately show False by simp
qed

lemma distinct_nth_take_drop:
  assumes "distinct xs" "c < length xs"
  shows "xs ! c \<notin> set (take c xs)" "xs ! c \<notin> set (drop (Suc c) xs)"
  using assms by (auto simp: in_set_conv_nth nth_eq_iff_index_eq)

lemma truncated_simps [simp]:
  "parents (t\<lparr>Truncated := True\<rparr>) = parents t" "group_path (t\<lparr>Truncated := True\<rparr>) = group_path t"
  "edge_to (t\<lparr>Truncated := True\<rparr>) = edge_to t" "covered (t\<lparr>Truncated := True\<rparr>) = covered t"
proof -
  show p: "parents (t\<lparr>Truncated := True\<rparr>) = parents t" by (simp add: parents_def)
  show g: "group_path (t\<lparr>Truncated := True\<rparr>) = group_path t" by (intro ext) (simp add: group_path_def p)
  show e: "edge_to (t\<lparr>Truncated := True\<rparr>) = edge_to t" by (intro ext) (simp add: edge_to_def)
  show "covered (t\<lparr>Truncated := True\<rparr>) = covered t" by (intro ext) (simp add: covered_def g e)
qed

lemma on_path_group_path:
  assumes "on_path_ok g t onPath (f # fs)" "stack_ok t (f # fs)" "0 \<le> x" "x < GroupCount g"
  shows "onPath ! nat x \<longleftrightarrow> x \<in> set (group_path t (nat (fNode f)))"
  using assms stack_groups [OF assms(2)] unfolding on_path_ok_def by (metis list.set_map)

lemma top_frame:
  assumes "path_inv log10 cosine pow g cfg rg src t onPath (f # fs)" "graph_ok g"
    "incident_sorted (incident g)" "childCursor f < length (fEdges f)"
  shows "tree_ok log10 cosine pow g cfg rg src t" "0 \<le> fNode f" "nat (fNode f) < length (Nodes t)"
    "fEdges f = group_out g (nGroup (Nodes t ! nat (fNode f)))"
    "fEdges f ! childCursor f \<in> set (group_out g (nGroup (Nodes t ! nat (fNode f))))"
    "onPath ! nat (ToGroup (fEdges f ! childCursor f)) \<longleftrightarrow>
       ToGroup (fEdges f ! childCursor f) \<in> set (group_path t (nat (fNode f)))"
    "\<And>j. j < length (Nodes t) \<Longrightarrow> nParent (Nodes t ! j) = fNode f \<Longrightarrow> edge_to t j \<noteq> Some (fEdges f ! childCursor f)"
    "fEdges f ! childCursor f \<notin> set (drop (Suc (childCursor f)) (fEdges f))"
    "\<And>h. h \<in> set fs \<Longrightarrow> fNode h \<noteq> fNode f"
proof -
  let ?e = "fEdges f ! childCursor f"
  show t: "tree_ok log10 cosine pow g cfg rg src t" using assms(1) by (simp add: path_inv_def)
  have I: "on_path_ok g t onPath (f # fs)" "stack_ok t (f # fs)" "frame_ok g t f"
    using assms(1) by (simp_all add: path_inv_def)
  show f: "0 \<le> fNode f" "nat (fNode f) < length (Nodes t)"
    "fEdges f = group_out g (nGroup (Nodes t ! nat (fNode f)))" using I(3) by (auto simp: frame_ok_def)
  have d: "distinct (fEdges f)" using group_out_distinct [OF assms(2,3)] f(3) by simp
  show e: "?e \<in> set (group_out g (nGroup (Nodes t ! nat (fNode f))))" using assms(4) f(3) by (metis nth_mem)
  show "onPath ! nat (ToGroup ?e) \<longleftrightarrow> ToGroup ?e \<in> set (group_path t (nat (fNode f)))"
    by (rule on_path_group_path [OF I(1,2) group_out_range(2,3) [OF assms(2) e]])
  show "edge_to t j \<noteq> Some ?e" if "j < length (Nodes t)" "nParent (Nodes t ! j) = fNode f" for j
    using I(3) that distinct_nth_take_drop(1) [OF d assms(4)] by (auto simp: frame_ok_def)
  show "?e \<notin> set (drop (Suc (childCursor f)) (fEdges f))"
    by (rule distinct_nth_take_drop(2) [OF d assms(4)])
  show "fNode h \<noteq> fNode f" if "h \<in> set fs" for h by (rule stack_nodes_differ [OF t I(2) f(2) that])
qed

lemma inv_cut:
  assumes inv: "path_inv log10 cosine pow g cfg rg src t onPath (f # fs)" and g: "graph_ok g"
    and s: "incident_sorted (incident g)" and c: "childCursor f < length (fEdges f)"
    and off: "\<not> onPath ! nat (ToGroup (fEdges f ! childCursor f))"
  shows "path_inv log10 cosine pow g cfg rg src (t\<lparr>Truncated := True\<rparr>) onPath (advanced f # fs)"
proof -
  let ?t = "t\<lparr>Truncated := True\<rparr>" let ?e = "fEdges f ! childCursor f"
  note F = top_frame [OF inv g s c]
  have I: "tree_ok log10 cosine pow g cfg rg src t" "\<forall>f \<in> set (f # fs). frame_ok g t f"
    "stack_ok t (f # fs)" "on_path_ok g t onPath (f # fs)"
    using inv unfolding path_inv_def by blast+
  have "\<not> covered t (nat (fNode f)) ?e"
    using F(2,6,7) off by (auto simp: covered_def)
  moreover have "?e \<notin> set (drop (childCursor h) (fEdges h))"
    if "h \<in> set (advanced f # fs)" "fNode h = int (nat (fNode f))" for h
    using that F(2,8,9) by auto
  ultimately have "cut_ok g ?t (advanced f # fs)"
    unfolding cut_ok_def using F(3,5) by (intro impI exI [of _ "nat (fNode f)"] conjI bexI [of _ ?e]) auto
  moreover have "tree_ok log10 cosine pow g cfg rg src ?t" using I(1) by (simp add: tree_ok_def)
  moreover have "\<forall>h \<in> set (advanced f # fs). frame_ok g ?t h"
    using I(2) frame_ok_advanced [of g t f] by (auto simp: frame_ok_def)
  moreover have "stack_ok ?t (advanced f # fs)" "on_path_ok g ?t onPath (advanced f # fs)"
    using stack_ok_advanced [OF I(3)] on_path_ok_advanced [OF I(4)]
    by (simp_all add: stack_ok_def on_path_ok_def)
  moreover have "cover_ok g ?t (advanced f # fs)" by (simp add: cover_ok_def)
  ultimately show ?thesis unfolding path_inv_def by blast
qed

lemma inv_skip:
  assumes "path_inv log10 cosine pow g cfg rg src t onPath (f # fs)" "childCursor f < length (fEdges f)"
    "covered t (nat (fNode f)) (fEdges f ! childCursor f)"
  shows "path_inv log10 cosine pow g cfg rg src t onPath (advanced f # fs)"
proof -
  have "cover_ok g t (advanced f # fs)"
    by (rule cover_ok_advanced [OF _ assms(2)]) (use assms(1,3) in \<open>auto simp: path_inv_def\<close>)
  with assms(1) show ?thesis
    unfolding path_inv_def
    by (auto intro: frame_ok_advanced stack_ok_advanced on_path_ok_advanced cut_ok_advanced)
qed

lemma frame_ok_grown:
  assumes "frame_ok g t f" "p < length (Nodes t)" "nParent n = int p"
    "fNode f = int p \<Longrightarrow> map_option stepPortal (nStep n) \<in> Some ` set (take (childCursor f) (fEdges f))"
  shows "frame_ok g (grown t p n) f"
proof -
  have i: "nat (fNode f) < length (Nodes t)" using assms(1) by (auto simp: frame_ok_def)
  have "edge_to (grown t p n) j \<in> Some ` set (take (childCursor f) (fEdges f))"
    if "j < Suc (length (Nodes t))" "nParent (Nodes (grown t p n) ! j) = fNode f" for j
  proof (cases "j = length (Nodes t)")
    case True
    with that assms(3,4) show ?thesis by (simp add: edge_to_grown(2))
  next
    case False
    with that assms(1) show ?thesis by (auto simp: frame_ok_def grown_old edge_to_grown(1))
  qed
  with assms(1) i show ?thesis by (simp add: frame_ok_def grown_old)
qed

lemma covered_grown:
  assumes "p < length (Nodes t)" "i < length (Nodes t)" "covered t i e"
  shows "covered (grown t p n) i e"
proof -
  from assms(3) consider "ToGroup e \<in> set (group_path t i)"
    | j where "j < length (Nodes t)" "nParent (Nodes t ! j) = int i" "edge_to t j = Some e"
    by (auto simp: covered_def)
  then show ?thesis
  proof cases
    case 1
    with assms show ?thesis by (simp add: covered_def group_path_grown(1))
  next
    case 2
    then have "nParent (Nodes (grown t p n) ! j) = int i" "edge_to (grown t p n) j = Some e"
      by (simp_all add: grown_old edge_to_grown(1))
    with 2(1) show ?thesis unfolding covered_def by (intro disjI2 exI [of _ j]) simp
  qed
qed

definition new_frame :: "('dir, 'h, 'g, 'b) graph \<Rightarrow> PathSearchTree \<Rightarrow> PathNode \<Rightarrow> pathFrame" where
  "new_frame g t n = \<lparr>fNode = int (length (Nodes t)), fEdges = group_out g (nGroup n), childCursor = 0\<rparr>"

lemma new_frame_simps [simp]:
  "fNode (new_frame g t n) = int (length (Nodes t))" "fEdges (new_frame g t n) = group_out g (nGroup n)"
  "childCursor (new_frame g t n) = 0"
  by (simp_all add: new_frame_def)

lemma frames_grown:
  assumes "tree_ok log10 cosine pow g cfg rg src (grown t p n)"
    and fr: "\<forall>h \<in> set (f # fs). frame_ok g t h" and p: "p < length (Nodes t)" "fNode f = int p" "nParent n = int p"
    and n: "map_option stepPortal (nStep n) = Some (fEdges f ! childCursor f)"
    and c: "childCursor f < length (fEdges f)" and other: "\<And>h. h \<in> set fs \<Longrightarrow> fNode h \<noteq> fNode f"
  shows "\<forall>h \<in> set (new_frame g t n # advanced f # fs). frame_ok g (grown t p n) h"
proof -
  have "frame_ok g (grown t p n) (new_frame g t n)"
  proof -
    have "nParent (Nodes (grown t p n) ! j) \<noteq> int (length (Nodes t))" if "j < Suc (length (Nodes t))" for j
      using tree_okD(4) [OF assms(1)] tree_okD(8) [OF assms(1), of j] that by (cases "j = 0") auto
    then show ?thesis by (auto simp: frame_ok_def)
  qed
  moreover have "fEdges f ! childCursor f \<in> set (take (Suc (childCursor f)) (fEdges f))"
    using c by (auto simp: take_Suc_conv_app_nth)
  then have "frame_ok g (grown t p n) (advanced f)"
    using fr n by (intro frame_ok_grown [OF _ p(1,3)]) (auto simp: frame_ok_advanced)
  moreover have "frame_ok g (grown t p n) h" if "h \<in> set fs" for h
    using that fr other [OF that] p by (intro frame_ok_grown [OF _ p(1,3)]) auto
  ultimately show ?thesis by auto
qed

lemma stack_ok_grown:
  assumes "stack_ok t (f # fs)" "p < length (Nodes t)" "fNode f = int p" "nParent n = int p"
  shows "stack_ok (grown t p n) (new_frame g t n # advanced f # fs)"
  using assms ancestors_new [of "int p" "parents t"]
  by (simp add: stack_ok_def parents_grown) (simp add: parents_def)

lemma on_path_ok_grown:
  assumes on: "on_path_ok g t onPath (f # fs)" and fr: "\<forall>h \<in> set (f # fs). frame_ok g t h"
    and n: "0 \<le> nGroup n" "nGroup n < GroupCount g"
  shows "on_path_ok g (grown t p n) (onPath[nat (nGroup n) := True]) (new_frame g t n # advanced f # fs)"
  unfolding on_path_ok_def
proof (intro conjI allI impI)
  have len: "int (length onPath) = GroupCount g" using on by (simp add: on_path_ok_def)
  then show "int (length (onPath[nat (nGroup n) := True])) = GroupCount g" by simp
  fix x assume x: "0 \<le> x" "x < GroupCount g"
  have old: "nGroup (Nodes (grown t p n) ! nat (fNode h)) = nGroup (Nodes t ! nat (fNode h))"
    if "h \<in> set (advanced f # fs)" for h
    using that fr by (intro grown_old(1)) (auto simp: frame_ok_def)
  have "(\<lambda>f. nGroup (Nodes (grown t p n) ! nat (fNode f))) ` set (advanced f # fs) =
    (\<lambda>f. nGroup (Nodes t ! nat (fNode f))) ` set (advanced f # fs)"
    by (intro image_cong refl old)
  then have im: "(\<lambda>f. nGroup (Nodes (grown t p n) ! nat (fNode f))) ` set (new_frame g t n # advanced f # fs) =
    insert (nGroup n) ((\<lambda>f. nGroup (Nodes t ! nat (fNode f))) ` set (f # fs))" by simp
  show "onPath[nat (nGroup n) := True] ! nat x =
    (x \<in> (\<lambda>f. nGroup (Nodes (grown t p n) ! nat (fNode f))) ` set (new_frame g t n # advanced f # fs))"
  proof (cases "x = nGroup n")
    case True
    with len x show ?thesis unfolding im by simp
  next
    case False
    then have "nat x \<noteq> nat (nGroup n)" using x n(1) by simp
    with False x on show ?thesis unfolding im by (auto simp: on_path_ok_def)
  qed
qed

lemma cover_ok_grown:
  assumes co: "cover_ok g t (f # fs)" and c: "childCursor f < length (fEdges f)"
    and p: "p < length (Nodes t)" "fNode f = int p" "nParent n = int p"
    and n: "map_option stepPortal (nStep n) = Some (fEdges f ! childCursor f)"
  shows "cover_ok g (grown t p n) (new_frame g t n # advanced f # fs)"
  unfolding cover_ok_def
proof (intro impI allI ballI)
  let ?t = "grown t p n" let ?l = "length (Nodes t)" let ?fs = "new_frame g t n # advanced f # fs"
  fix i e assume tr: "\<not> Truncated ?t" and i: "i < length (Nodes ?t)"
    and e: "e \<in> set (group_out g (nGroup (Nodes ?t ! i)))"
  show "(\<exists>h \<in> set ?fs. fNode h = int i \<and> e \<in> set (drop (childCursor h) (fEdges h))) \<or> covered ?t i e"
  proof (cases "i = ?l")
    case True
    with e show ?thesis by simp
  next
    case False
    with i have il: "i < ?l" by simp
    with e co tr consider
      "\<exists>h \<in> set fs. fNode h = int i \<and> e \<in> set (drop (childCursor h) (fEdges h))"
      | "fNode f = int i" "e \<in> set (drop (childCursor f) (fEdges f))" | "covered t i e"
      by (auto simp: cover_ok_def grown_old)
    then show ?thesis
    proof cases
      case 2
      have "covered ?t p (fEdges f ! childCursor f)"
        unfolding covered_def
        by (intro disjI2 exI [of _ ?l]) (simp add: p(3) edge_to_grown(2) n)
      moreover from Cons_nth_drop_Suc [OF c] 2(2)
      have "e = fEdges f ! childCursor f \<or> e \<in> set (drop (Suc (childCursor f)) (fEdges f))"
        by (metis set_ConsD)
      ultimately show ?thesis using 2(1) p(2) by auto
    next
      case 3
      with covered_grown [OF p(1) il] show ?thesis by simp
    qed auto
  qed
qed

lemma cut_ok_grown:
  assumes cu: "cut_ok g t (f # fs)" and c: "childCursor f < length (fEdges f)"
    and p: "p < length (Nodes t)" "fNode f = int p" "nParent n = int p"
    and n: "map_option stepPortal (nStep n) = Some (fEdges f ! childCursor f)"
  shows "cut_ok g (grown t p n) (new_frame g t n # advanced f # fs)"
  unfolding cut_ok_def
proof
  let ?t = "grown t p n" let ?l = "length (Nodes t)"
  assume "Truncated ?t"
  with cu obtain i e where i: "i < ?l" and e: "e \<in> set (group_out g (nGroup (Nodes t ! i)))" "\<not> covered t i e"
    and pend: "\<forall>h \<in> set (f # fs). fNode h = int i \<longrightarrow> e \<notin> set (drop (childCursor h) (fEdges h))"
    by (auto simp: cut_ok_def)
  have "fEdges f ! childCursor f \<in> set (drop (childCursor f) (fEdges f))"
    using Cons_nth_drop_Suc [OF c] by (metis list.set_intros(1))
  with pend p(2) have ne: "i = p \<Longrightarrow> fEdges f ! childCursor f \<noteq> e" by auto
  have "\<not> covered ?t i e"
  proof
    assume "covered ?t i e"
    with e(2) i obtain j where j: "j < Suc ?l" "nParent (Nodes ?t ! j) = int i" "edge_to ?t j = Some e"
      by (auto simp: covered_def group_path_grown(1) [OF p(1)])
    with e(2) n p(3) ne show False
      by (cases "j = ?l") (auto simp: covered_def grown_old edge_to_grown less_Suc_eq)
  qed
  moreover have "\<forall>h \<in> set (new_frame g t n # advanced f # fs). fNode h = int i \<longrightarrow>
      e \<notin> set (drop (childCursor h) (fEdges h))"
    using pend i drop_Suc_subset by fastforce
  ultimately show "\<exists>i < length (Nodes ?t). \<exists>e \<in> set (group_out g (nGroup (Nodes ?t ! i))). \<not> covered ?t i e \<and>
      (\<forall>h \<in> set (new_frame g t n # advanced f # fs). fNode h = int i \<longrightarrow>
        e \<notin> set (drop (childCursor h) (fEdges h)))"
    using i e(1) by (intro exI [of _ i] conjI bexI [of _ e]) (auto simp: grown_old)
qed

lemma inv_grow:
  assumes inv: "path_inv log10 cosine pow g cfg rg src t onPath (f # fs)" and g: "graph_ok g"
    and s: "incident_sorted (incident g)" and c: "childCursor f < length (fEdges f)"
    and off: "\<not> onPath ! nat (ToGroup (fEdges f ! childCursor f))"
    and n: "child_node log10 cosine pow g cfg rg (Nodes t ! nat (fNode f)) (fEdges f ! childCursor f) n"
      "nParent n = fNode f" "nChildren n = []"
    and max: "int (length (Nodes t)) < MaxNodes cfg"
  shows "path_inv log10 cosine pow g cfg rg src (grown t (nat (fNode f)) n)
    (onPath[nat (nGroup n) := True]) (new_frame g t n # advanced f # fs)"
proof -
  note F = top_frame [OF inv g s c]
  let ?p = "nat (fNode f)"
  have I: "\<forall>f \<in> set (f # fs). frame_ok g t f" "stack_ok t (f # fs)" "on_path_ok g t onPath (f # fs)"
    "cover_ok g t (f # fs)" "cut_ok g t (f # fs)"
    using inv unfolding path_inv_def by blast+
  have p: "fNode f = int ?p" "nParent n = int ?p" using n(2) F(2) by simp_all
  have gn: "nGroup n = ToGroup (fEdges f ! childCursor f)"
    "map_option stepPortal (nStep n) = Some (fEdges f ! childCursor f)"
    using n(1) by (auto simp: child_node_def)
  have r: "0 \<le> nGroup n" "nGroup n < GroupCount g"
    using group_out_range(2,3) [OF g F(5)] by (simp_all add: gn(1))
  have tree: "tree_ok log10 cosine pow g cfg rg src (grown t ?p n)"
    by (rule tree_ok_grown [OF F(1,3,5) _ _ max n(1) p(2) n(3)]) (use F(6,7) off p(1) in auto)
  with frames_grown [OF tree I(1) F(3) p gn(2) c F(9)] stack_ok_grown [OF I(2) F(3) p]
    on_path_ok_grown [OF I(3,1) r] cover_ok_grown [OF I(4) c F(3) p gn(2)]
    cut_ok_grown [OF I(5) c F(3) p gn(2)]
  show ?thesis unfolding path_inv_def by blast
qed

subsection \<open>The whole search\<close>

lemma expand_loop_inv:
  assumes "path_inv log10 cosine pow g cfg rg src t onPath stack" "graph_ok g"
    "incident_sorted (incident g)" "0 \<le> src" "src < GroupCount g" "0 \<le> cBandCount cfg"
  shows "\<exists>t' onPath'. expand_loop log10 cosine pow g cfg rg t onPath stack = Some t' \<and>
    path_inv log10 cosine pow g cfg rg src t' onPath' [] \<and> Root t' = Root t"
  using assms
proof (induction log10 cosine pow g cfg rg t onPath stack rule: expand_loop.induct)
  case (1 log10 cosine pow g cfg rg t onPath)
  then show ?case by auto
next
  case (2 log10 cosine pow g cfg rg t onPath f fs)
  note inv = 2(4) and g = 2(5) and srt = 2(6) and src = 2(7,8) and b = 2(9)
  note eq = expand_loop.simps(2) [of log10 cosine pow g cfg rg t onPath f fs]
  show ?case
  proof (cases "length (fEdges f) \<le> childCursor f")
    case True
    note P = inv_pop [OF inv g src True]
    obtain x where x: "slice_at onPath (nGroup (Nodes t ! nat (fNode f))) = Some x" using P(2) by blast
    from 2(1) [OF True P(1) x P(3) g srt src b]
    show ?thesis unfolding eq using True P(1) x by simp
  next
    case False
    let ?e = "fEdges f ! childCursor f"
    have c: "childCursor f < length (fEdges f)" using False by simp
    note F = top_frame [OF inv g srt c]
    have len: "int (length onPath) = GroupCount g" using inv by (simp add: path_inv_def on_path_ok_def)
    have fl: "fNode f < int (length (Nodes t))" using F(2,3) by linarith
    have adv: "f\<lparr>childCursor := Suc (childCursor f)\<rparr> = advanced f" by (simp add: advanced_def)
    show ?thesis
    proof (rule growPath_cases [OF F(1) g b F(2) fl F(5) len])
      assume on: "onPath ! nat (ToGroup ?e)"
        and gp: "growPath log10 cosine pow g t cfg (fNode f) ?e onPath rg = Some (t, None)"
      have "path_inv log10 cosine pow g cfg rg src t onPath (advanced f # fs)"
        by (rule inv_skip [OF inv c]) (use on F(6) in \<open>simp add: covered_def\<close>)
      from 2(2) [OF False refl refl gp refl refl, unfolded adv, OF this g srt src b]
      show ?thesis unfolding eq using False gp by (simp add: Let_def adv)
    next
      assume off: "\<not> onPath ! nat (ToGroup ?e)"
        and gp: "growPath log10 cosine pow g t cfg (fNode f) ?e onPath rg = Some (t\<lparr>Truncated := True\<rparr>, None)"
      from 2(2) [OF False refl refl gp refl refl, unfolded adv, OF inv_cut [OF inv g srt c off] g srt src b]
      show ?thesis unfolding eq using False gp by (simp add: Let_def adv)
    next
      fix n assume off: "\<not> onPath ! nat (ToGroup ?e)"
        and gp: "growPath log10 cosine pow g t cfg (fNode f) ?e onPath rg =
          Some (grown t (nat (fNode f)) n, Some (int (length (Nodes t))))"
        and n: "child_node log10 cosine pow g cfg rg (Nodes t ! nat (fNode f)) ?e n" "nParent n = fNode f" "nChildren n = []"
        and max: "int (length (Nodes t)) < MaxNodes cfg"
      have gn: "nGroup n = ToGroup ?e" using n(1) by (simp add: child_node_def)
      have s: "slice_at (Nodes (grown t (nat (fNode f)) n)) (int (length (Nodes t))) = Some n"
        "slice_at onPath (nGroup n) = Some False" "sortedGroupEdges g (nGroup n) = Some (group_out g (nGroup n))"
        using len group_out_range(2,3) [OF g F(5)] off sortedGroupEdges_group_out [OF g]
        by (simp_all add: slice_at_def gn)
      have pr: "(slice_at onPath (nGroup n), sortedGroupEdges g (nGroup n)) = (Some False, Some (group_out g (nGroup n)))"
        using s by simp
      note inv' = inv_grow [OF inv g srt c off n max]
      from 2(3) [OF False refl refl gp refl refl s(1) pr [symmetric] refl refl, unfolded adv,
          folded new_frame_def, OF inv' g srt src b]
      show ?thesis unfolding eq using False gp s by (simp add: Let_def adv new_frame_def)
    qed
  qed
qed

declare expand_loop.simps [simp del]

lemma withDefaults_limits:
  assumes "withDefaults cosine c n = Inr cfg"
  shows "0 < MaxDepth cfg" "0 < MaxNodes cfg"
  using assms
  by (auto simp: withDefaults_def Let_def DefaultMaxPathDepth_def DefaultMaxPathNodes_def
      split: if_splits option.splits)

definition root_tree :: "(f64 \<Rightarrow> f64) \<Rightarrow> PathSearchConfig \<Rightarrow> int list \<Rightarrow> int \<Rightarrow> PathSearchTree" where
  "root_tree log10 cfg rg src =
     (let unity = replicate (nat (cBandCount cfg)) (round64 1);
          rootNode = \<lparr>nGroup = src, nDepth = 0, nParent = -1, nChildren = [], nStep = None,
            nTransmission = unity, nActiveBands = activeBands log10 unity (PruneFloorDB cfg),
            nReductionDB = Zero False, nIsLeaf = (src \<in> set rg)\<rparr> in
      \<lparr>Nodes = [rootNode], Root = 0, Leaves = (if nIsLeaf rootNode then [0] else []), Truncated = False\<rparr>)"

lemma root_tree_inv:
  assumes g: "graph_ok g" and src: "0 \<le> src" "src < GroupCount g"
  shows "path_inv log10 cosine pow g cfg rg src (root_tree log10 cfg rg src)
    ((replicate (nat (GroupCount g)) False)[nat src := True])
    [\<lparr>fNode = 0, fEdges = group_out g src, childCursor = 0\<rparr>]"
proof -
  let ?t = "root_tree log10 cfg rg src"
  have l: "length (Nodes ?t) = 1" by (simp add: root_tree_def Let_def)
  have n: "nGroup (Nodes ?t ! 0) = src" "nParent (Nodes ?t ! 0) = -1" "nChildren (Nodes ?t ! 0) = []"
    "\<not> Truncated ?t"
    by (simp_all add: root_tree_def Let_def)
  have a: "ancestors (parents ?t) 0 = [0]" by (subst ancestors.simps) simp
  have "tree_ok log10 cosine pow g cfg rg src ?t"
    by (rule tree_okI) (simp_all add: l n a group_path_def, simp_all add: root_tree_def Let_def)
  moreover have "on_path_ok g ?t ((replicate (nat (GroupCount g)) False)[nat src := True])
      [\<lparr>fNode = 0, fEdges = group_out g src, childCursor = 0\<rparr>]"
    using src by (auto simp: on_path_ok_def n nth_list_update)
  ultimately show ?thesis
    unfolding path_inv_def
    by (auto simp: frame_ok_def stack_ok_def cover_ok_def cut_ok_def l n a)
qed

lemma SearchPaths_tree:
  assumes g: "graph_ok g" and s: "incident_sorted (incident g)"
    and cfg: "withDefaults cosine cfg0 (BandCount (BandSpec (gScene g))) = Inr cfg" "0 < cBandCount cfg"
    and src: "GroupRooms g src = Some rooms"
  shows "\<exists>t onPath. SearchPaths log10 cosine pow g src cfg0 = Some (Inr t) \<and> Root t = 0 \<and>
    path_inv log10 cosine pow g cfg (groupsHoldingReceivers g) src t onPath []"
proof -
  let ?rg = "groupsHoldingReceivers g" let ?t = "root_tree log10 cfg ?rg src"
  from src have r: "0 \<le> src" "src < GroupCount g" by (auto simp: GroupRooms_cases [OF g])
  have b: "0 \<le> cBandCount cfg" using cfg(2) by simp
  obtain t onPath where t: "expand_loop log10 cosine pow g cfg ?rg ?t
      ((replicate (nat (GroupCount g)) False)[nat src := True])
      [\<lparr>fNode = 0, fEdges = group_out g src, childCursor = 0\<rparr>] = Some t"
    "path_inv log10 cosine pow g cfg ?rg src t onPath []" "Root t = Root ?t"
    using expand_loop_inv [OF root_tree_inv [OF g r] g s r b] by blast
  have n: "slice_at (Nodes ?t) 0 = Some (Nodes ?t ! 0)" "nGroup (Nodes ?t ! 0) = src"
    by (simp_all add: slice_at_def root_tree_def Let_def)
  have "expandPaths log10 cosine pow g ?t cfg ?rg = Some t"
    using r t(1) n sortedGroupEdges_group_out [OF g, of src]
    by (simp add: expandPaths_def slice_at_def [of "replicate _ _"])
  then have "SearchPaths log10 cosine pow g src cfg0 = Some (Inr t)"
    using src cfg by (simp add: SearchPaths_def root_tree_def Let_def)
  with t show ?thesis by (auto simp: root_tree_def Let_def)
qed

subsection \<open>Simple paths\<close>

definition simple_path :: "('dir, 'h, 'g, 'b) graph \<Rightarrow> int \<Rightarrow> groupPortalView list \<Rightarrow> bool" where
  "simple_path g src es \<longleftrightarrow>
     (\<forall>k < length es. es ! k \<in> set (group_out g (if k = 0 then src else ToGroup (es ! (k - 1))))) \<and>
     distinct (src # map ToGroup es)"

definition steps :: "PathSearchTree \<Rightarrow> nat \<Rightarrow> groupPortalView list" where
  "steps t i = List.map_filter (edge_to t) (rev (ancestors (parents t) i))"

definition end_group :: "int \<Rightarrow> groupPortalView list \<Rightarrow> int" where
  "end_group src es = (if es = [] then src else ToGroup (last es))"

lemma simple_path_snoc:
  "simple_path g src (es @ [e]) \<longleftrightarrow> simple_path g src es \<and> e \<in> set (group_out g (end_group src es)) \<and>
     ToGroup e \<notin> set (src # map ToGroup es)"
  (is "?l \<longleftrightarrow> ?r")
proof -
  have "(\<forall>k < length (es @ [e]). (es @ [e]) ! k \<in> set (group_out g (if k = 0 then src else ToGroup ((es @ [e]) ! (k - 1))))) \<longleftrightarrow>
    (\<forall>k < length es. es ! k \<in> set (group_out g (if k = 0 then src else ToGroup (es ! (k - 1))))) \<and>
    e \<in> set (group_out g (end_group src es))"
    by (auto simp: nth_append less_Suc_eq end_group_def last_conv_nth)
  then show ?thesis by (auto simp: simple_path_def)
qed

lemma steps_root: "edge_to t 0 = None \<Longrightarrow> nParent (Nodes t ! 0) = -1 \<Longrightarrow> Nodes t \<noteq> [] \<Longrightarrow> steps t 0 = []"
  by (simp add: steps_def ancestors.simps [of _ 0] List.map_filter_def)

lemma ancestors_child:
  assumes "tree_ok log10 cosine pow g cfg rg src t" "0 < i" "i < length (Nodes t)"
  shows "ancestors (parents t) i = i # ancestors (parents t) (nat (nParent (Nodes t ! i)))"
  using tree_okD(8) [OF assms] assms(3) by (subst ancestors.simps) (simp add: parents_def)

lemma steps_child:
  assumes "tree_ok log10 cosine pow g cfg rg src t" "0 < i" "i < length (Nodes t)" "edge_to t i = Some e"
  shows "steps t i = steps t (nat (nParent (Nodes t ! i))) @ [e]"
  using ancestors_child [OF assms(1-3)] assms(4)
  by (simp add: steps_def List.map_filter_def)

lemma child_edge:
  assumes t: "tree_ok log10 cosine pow g cfg rg src t" and i: "0 < i" "i < length (Nodes t)"
  obtains e where "edge_to t i = Some e" "e \<in> set (group_out g (nGroup (Nodes t ! nat (nParent (Nodes t ! i)))))"
    "nGroup (Nodes t ! i) = ToGroup e" "nDepth (Nodes t ! i) = nDepth (Nodes t ! nat (nParent (Nodes t ! i))) + 1"
    "nat (nParent (Nodes t ! i)) < i" "nParent (Nodes t ! i) = int (nat (nParent (Nodes t ! i)))"
  using tree_okD(8) [OF t i] that by (fastforce simp: child_node_def edge_to_def)

text \<open>Every node stands for a simple path of the group graph; its group is where the path
  ends, its group path the groups the path visits, its depth the path's length.\<close>

lemma node_path:
  assumes t: "tree_ok log10 cosine pow g cfg rg src t" and "i < length (Nodes t)"
  shows "nGroup (Nodes t ! i) = end_group src (steps t i) \<and>
    group_path t i = rev (src # map ToGroup (steps t i)) \<and>
    nDepth (Nodes t ! i) = int (length (steps t i)) \<and> simple_path g src (steps t i)"
  using assms(2)
proof (induction i rule: less_induct)
  case (less i)
  note D = tree_okD [OF t]
  have root: "steps t 0 = []" by (rule steps_root) (use D(1,4,5) in \<open>simp_all add: edge_to_def\<close>)
  show ?case
  proof (cases "i = 0")
    case True
    with D(2,3) root show ?thesis
      by (simp add: end_group_def group_path_def ancestors.simps [of _ 0] simple_path_def)
  next
    case False
    let ?p = "nat (nParent (Nodes t ! i))"
    from False have i: "0 < i" by simp
    obtain e where e: "edge_to t i = Some e" "e \<in> set (group_out g (nGroup (Nodes t ! ?p)))"
      "nGroup (Nodes t ! i) = ToGroup e" "nDepth (Nodes t ! i) = nDepth (Nodes t ! ?p) + 1" "?p < i"
      by (rule child_edge [OF t i less.prems])
    note s = steps_child [OF t i less.prems e(1)]
    have gp: "group_path t i = ToGroup e # group_path t ?p"
      using ancestors_child [OF t i less.prems] e(3) by (simp add: group_path_def)
    have IH: "nGroup (Nodes t ! ?p) = end_group src (steps t ?p)"
      "group_path t ?p = rev (src # map ToGroup (steps t ?p))"
      "nDepth (Nodes t ! ?p) = int (length (steps t ?p))" "simple_path g src (steps t ?p)"
      using less.IH [OF e(5)] less.prems e(5) by auto
    have "ToGroup e \<notin> set (group_path t ?p)" using D(9) [OF less.prems] gp by simp
    then have "simple_path g src (steps t i)"
      unfolding s simple_path_snoc using IH(1,2,4) e(2) by simp
    moreover have "end_group src (steps t i) = ToGroup e" by (simp add: s end_group_def)
    ultimately show ?thesis using e(3,4) gp IH by (simp add: s)
  qed
qed

lemma steps_inj:
  assumes t: "tree_ok log10 cosine pow g cfg rg src t"
  shows "i < length (Nodes t) \<Longrightarrow> j < length (Nodes t) \<Longrightarrow> steps t i = steps t j \<Longrightarrow> i = j"
proof (induction i arbitrary: j rule: less_induct)
  case (less i)
  note D = tree_okD [OF t]
  have root: "steps t 0 = []" by (rule steps_root) (use D(1,4,5) in \<open>simp_all add: edge_to_def\<close>)
  have pos: "steps t k \<noteq> []" if k: "0 < k" "k < length (Nodes t)" for k
  proof -
    obtain e where "edge_to t k = Some e" by (rule child_edge [OF t k])
    from steps_child [OF t k this] show ?thesis by simp
  qed
  show ?case
  proof (cases "i = 0 \<or> j = 0")
    case True
    with root pos less.prems show ?thesis by (metis gr0I)
  next
    case False
    then have i: "0 < i" and j: "0 < j" by auto
    let ?p = "nat (nParent (Nodes t ! i))" let ?q = "nat (nParent (Nodes t ! j))"
    obtain e where e: "edge_to t i = Some e" "?p < i" "nParent (Nodes t ! i) = int ?p"
      by (rule child_edge [OF t i less.prems(1)])
    obtain e' where e': "edge_to t j = Some e'" "?q < j" "nParent (Nodes t ! j) = int ?q"
      by (rule child_edge [OF t j less.prems(2)])
    from less.prems(3) steps_child [OF t i less.prems(1) e(1)] steps_child [OF t j less.prems(2) e'(1)]
    have eq: "steps t ?p = steps t ?q" "e = e'" by auto
    have "?p = ?q" using less.IH [OF e(2) _ _ eq(1)] less.prems e(2) e'(2) by simp
    with D(13) [OF less.prems(1,2)] e e' eq(2) show ?thesis by simp
  qed
qed

text \<open>A tree that is not truncated has every simple path; a truncated one lacks one.\<close>

lemma exhaustive:
  assumes t: "tree_ok log10 cosine pow g cfg rg src t" and c: "cover_ok g t []" "\<not> Truncated t"
  shows "simple_path g src es \<Longrightarrow> \<exists>i < length (Nodes t). steps t i = es"
proof (induction es rule: rev_induct)
  case Nil
  note D = tree_okD [OF t]
  have "steps t 0 = []" by (rule steps_root) (use D(1,4,5) in \<open>simp_all add: edge_to_def\<close>)
  with D(1) show ?case by auto
next
  case (snoc e es)
  then have s: "simple_path g src es" "e \<in> set (group_out g (end_group src es))"
    "ToGroup e \<notin> set (src # map ToGroup es)" unfolding simple_path_snoc by auto
  from snoc.IH [OF s(1)] obtain i where i: "i < length (Nodes t)" "steps t i = es" by blast
  note N = node_path [OF t i(1), unfolded i(2)]
  have "covered t i e" using c i(1) s(2) N by (auto simp: cover_ok_def)
  then obtain j where j: "j < length (Nodes t)" "nParent (Nodes t ! j) = int i" "edge_to t j = Some e"
    using s(3) N by (auto simp: covered_def)
  then have "0 < j" using tree_okD(4) [OF t] by (cases "j = 0") auto
  from steps_child [OF t this j(1,3)] j(1,2) i(2) show ?case by auto
qed

lemma truncated_missing:
  assumes t: "tree_ok log10 cosine pow g cfg rg src t" and c: "cut_ok g t []" "Truncated t"
  shows "\<exists>es. simple_path g src es \<and> (\<forall>i < length (Nodes t). steps t i \<noteq> es)"
proof -
  from c obtain i e where i: "i < length (Nodes t)" "e \<in> set (group_out g (nGroup (Nodes t ! i)))" "\<not> covered t i e"
    by (auto simp: cut_ok_def)
  note N = node_path [OF t i(1)]
  have "simple_path g src (steps t i @ [e])"
    unfolding simple_path_snoc using N i(2,3) by (auto simp: covered_def)
  moreover have "steps t j \<noteq> steps t i @ [e]" if j: "j < length (Nodes t)" for j
  proof
    assume eq: "steps t j = steps t i @ [e]"
    have root: "steps t 0 = []"
      by (rule steps_root) (use tree_okD(1,4,5) [OF t] in \<open>simp_all add: edge_to_def\<close>)
    with eq have j0: "0 < j" by (cases "j = 0") auto
    let ?q = "nat (nParent (Nodes t ! j))"
    obtain e' where e': "edge_to t j = Some e'" "?q < j" "nParent (Nodes t ! j) = int ?q"
      by (rule child_edge [OF t j0 j])
    with eq steps_child [OF t j0 j e'(1)] have s: "steps t ?q = steps t i" "e' = e" by auto
    have "?q = i" using steps_inj [OF t _ i(1) s(1)] e'(2) j by simp
    with e' s(2) j i(3) show False by (auto simp: covered_def)
  qed
  ultimately show ?thesis by blast
qed

end
