(* ===== verification/Example_Building.thy ===== *)
theory Example_Building
  imports Room_Groups
begin

text \<open>
  A building of three rooms in a row, two metres each way, with a door between the first
  and the second and one between the second and the third. It passes the scene validation
  for every state of its doors, and the graph the constructor builds for it is computed
  here; the properties of the development are instantiated at it.
\<close>

definition box_room :: "f64 \<Rightarrow> room" where
  "box_room x = \<lparr>Kind = RoomKindShoebox, Shoebox = Some \<lparr>Width = Num 2, Depth = Num 2, Height = Num 2,
     WallMaterials = replicate 6 ''brick'', Origin = mk_vec3 x (Zero False) (Zero False)\<rparr>,
     MeshPath = '''', Mesh = None, MeshMaterial = '''', TriangleMaterials = None\<rparr>"

definition no_room :: room where
  "no_room = \<lparr>Kind = '''', Shoebox = None, MeshPath = '''', Mesh = None, MeshMaterial = '''',
     TriangleMaterials = None\<rparr>"

definition door_at :: "real \<Rightarrow> int \<Rightarrow> int \<Rightarrow> string \<Rightarrow> portal" where
  "door_at x a b st = \<lparr>RoomIndices = (a, b), Polygon =
     [mk_vec3 (Num x) (Zero False) (Zero False), mk_vec3 (Num x) (Num 1) (Zero False),
      mk_vec3 (Num x) (Num 1) (Num 1), mk_vec3 (Num x) (Zero False) (Num 1)],
     Material = ''door'', State = st\<rparr>"

definition building_materials :: "string \<rightharpoonup> material" where
  "building_materials =
     [''brick'' \<mapsto> \<lparr>Name = ''brick'', AbsorptionByBand = [Num (1 / 2)], Scattering = [],
        ScatteringByBand = [], TransmissionByBand = [], SoundReductionIndex = []\<rparr>,
      ''door'' \<mapsto> \<lparr>Name = ''door'', AbsorptionByBand = [Num (1 / 2)], Scattering = [],
        ScatteringByBand = [], TransmissionByBand = [Num (1 / 2)], SoundReductionIndex = []\<rparr>]"

definition building :: "string \<Rightarrow> string \<Rightarrow> (unit, unit) scene" where
  "building st1 st2 = \<lparr>Room = no_room,
     Rooms = [box_room (Zero False), box_room (Num 2), box_room (Num 4)],
     Portals = [door_at 2 0 1 st1, door_at 4 1 2 st2],
     Materials = building_materials, Sources = [], Receivers = [],
     BandSpec = \<lparr>CenterFreqs = [Num 1000], LowerEdges = [Num 500], UpperEdges = [Num 2000]\<rparr>,
     SampleRate = 48000\<rparr>"

definition building_names :: "string list" where
  "building_names = [''brick'', ''door'']"

lemma building_bands: "validateBandSpec (building st1 st2) = []"
  by (simp add: building_def validateBandSpec_def validateBand_def float_eval f64_of_int_def)

lemma building_RoomAt:
  "RoomCount (building st1 st2) = 3"
  "RoomAt (building st1 st2) 0 = Some (box_room (Zero False))"
  "RoomAt (building st1 st2) 1 = Some (box_room (Num 2))"
  "RoomAt (building st1 st2) 2 = Some (box_room (Num 4))"
  by (simp_all add: building_def RoomCount_def RoomAt_def slice_at_def)

lemma upto_3: "[0..(3::int) - 1] = [0, 1, 2]" "[0..(1::int) - 1] = [0]"
  by (simp_all add: upto.simps)

lemma building_rooms: "validateSceneRooms (building st1 st2) = []"
proof -
  have r: "validateRoom (box_room x) = []" if "is_finite x" for x
    using that by (simp add: validateRoom_def box_room_def isFiniteVec3_def validateShoeboxRoom_def float_eval triangle_materials_def numeral_eq_Suc)
  have e: "roomIsSet (Room (building st1 st2)) = False" "length (Rooms (building st1 st2)) = 3"
    "Rooms (building st1 st2) \<noteq> []"
    by (simp_all add: building_def roomIsSet_def no_room_def)
  show ?thesis
    unfolding validateSceneRooms_def building_RoomAt(1) upto_3
    by (simp add: building_RoomAt r e is_finite_def)
qed

lemma building_references: "validateMaterialReferences (building st1 st2) = []"
  unfolding validateMaterialReferences_def building_RoomAt(1) upto_3
  by (simp add: building_RoomAt) (simp add: box_room_def RoomKindShoebox_def RoomKindMesh_def
    undefined_names_def triangle_materials_def building_def building_materials_def)

lemma building_materials_ok:
  "validateMaterials pow building_names (Materials (building st1 st2)) (BandCount (BandSpec (building st1 st2))) = []"
proof -
  have b: "BandCount (BandSpec (building st1 st2)) = 1"
    by (simp add: building_def BandCount_def)
  have "fadd (Num (1/2)) (Zero False) = Num (1 / 2)" "fadd (Num (1/2)) (Num (1/2)) = Num 1"
    by (simp_all add: float_eval)
  moreover have "\<not> flt (round64 (1 + materialConservationTolerance)) (Num x)" if "x \<le> 1" for x
  proof -
    have "fle (Num x) (Num 1)" using that by (simp add: fle_def)
    moreover have "fle (Num 1) (round64 (1 + materialConservationTolerance))"
      using round64_mono [of 1 "1 + materialConservationTolerance"]
      by (simp add: materialConservationTolerance_def)
    ultimately have "fle (Num x) (round64 (1 + materialConservationTolerance))" by (rule fle_trans)
    then show ?thesis by (simp add: not_flt_iff)
  qed
  ultimately have "\<not> flt (round64 (1 + materialConservationTolerance)) (fadd (Num (1/2)) (Zero False))"
    "\<not> flt (round64 (1 + materialConservationTolerance)) (fadd (Num (1/2)) (Num (1/2)))" by simp_all
  moreover have "validateUnitCoefficients name property [] = []"
    "validateUnitCoefficients name property [Num (1 / 2)] = []" for name property
    by (simp_all add: validateUnitCoefficients_def float_eval)
  ultimately show ?thesis
    unfolding validateMaterials_def b building_names_def
    by (simp add: building_def building_materials_def validateMaterial_def
      validateMaterialScattering_def effective_scattering_def
      validateMaterialTransmission_def validateMaterialBandCount_def validateMaterialEnergy_def
      upto_3 AbsorptionAt_def material_TransmissionAt_def coefficientAt_def)
qed

lemma door_Normal:
  assumes "x \<noteq> 0"
  shows "portal_Normal (door_at x a b st) = mk_vec3 (Num 1) (Zero False) (Zero False)"
proof -
  have "flt portalGeometryTolerance (Num 1)" by (simp add: flt_def)
  then show ?thesis using assms
    by (simp add: portal_Normal_def door_at_def vec3_Sub_def vec3_Cross_def vec3_Norm_def
      vec3_Dot_def vec3_Normalize_def vec3_Scale_def float_eval)
qed

lemma door_Area:
  assumes "x \<in> {2, 4}"
  shows "portal_Area (door_at x a b st) = Num 1"
proof -
  have n: "x \<noteq> 0" using assms by auto
  let ?v = "\<lambda>y z. mk_vec3 (Num x) y z" let ?n = "mk_vec3 (Num 1) (Zero False) (Zero False)"
  let ?o = "Zero False" let ?i = "Num 1"
  have c: "vec3_Dot (vec3_Cross (?v ?o ?o) (?v ?i ?o)) ?n = ?o"
    "vec3_Dot (vec3_Cross (?v ?i ?o) (?v ?i ?i)) ?n = Num 1"
    "vec3_Dot (vec3_Cross (?v ?i ?i) (?v ?o ?i)) ?n = Num 1"
    "vec3_Dot (vec3_Cross (?v ?o ?i) (?v ?o ?o)) ?n = ?o"
    using assms by (auto simp add: vec3_Cross_def vec3_Dot_def float_eval)
  have u: "[0..<4] = [0, 1, 2, 3::nat]" by (simp add: upt_rec)
  have l: "length (Polygon (door_at x a b st)) = 4" by (simp add: door_at_def)
  have nth: "Polygon (door_at x a b st) ! 0 = ?v ?o ?o" "Polygon (door_at x a b st) ! 1 = ?v ?i ?o"
    "Polygon (door_at x a b st) ! 2 = ?v ?i ?i" "Polygon (door_at x a b st) ! 3 = ?v ?o ?i"
    by (simp_all add: door_at_def)
  have m: "(0 + 1) mod 4 = (1::nat)" "(1 + 1) mod 4 = (2::nat)" "(2 + 1) mod 4 = (3::nat)"
    "(3 + 1) mod 4 = (0::nat)" by simp_all
  have z: "\<not> vec3_eq ?n Vec3Zero" by (simp add: vec3_eq_def Vec3Zero_def float_eval)
  show ?thesis
    unfolding portal_Area_def door_Normal [OF n] l u Let_def
    unfolding foldl_Cons foldl_Nil m nth c if_not_P [OF z] by (simp add: float_eval)
qed

lemma door_polygon:
  assumes "x \<in> {2, 4}"
  shows "validatePortalPolygon (door_at x a b st) =
    Inr \<lparr>pNormal = mk_vec3 (Num 1) (Zero False) (Zero False), pDistance = Num x\<rparr>"
proof -
  have n: "x \<noteq> 0" using assms by auto
  have pl: "NewPlaneFromPointNormal (mk_vec3 (Num x) (Zero False) (Zero False)) (mk_vec3 (Num 1) (Zero False) (Zero False))
    = \<lparr>pNormal = mk_vec3 (Num 1) (Zero False) (Zero False), pDistance = Num x\<rparr>"
    using assms by (auto simp: NewPlaneFromPointNormal_def vec3_Normalize_def vec3_Norm_def vec3_Dot_def vec3_Scale_def float_eval)
  have a: "\<not> fle (Num 1) portalGeometryTolerance"
    by (simp add: fle_def not_le)
  have z: "\<not> flt portalGeometryTolerance (Zero False)"
    by (simp add: flt_def not_less)
  let ?p = "door_at x a b st"
  let ?pl = "\<lparr>pNormal = mk_vec3 (Num 1) (Zero False) (Zero False), pDistance = Num x\<rparr>"
  have l: "length (Polygon ?p) = 4" "Polygon ?p ! 0 = mk_vec3 (Num x) (Zero False) (Zero False)"
    by (simp_all add: door_at_def)
  have fin: "isFiniteVec3 (Polygon ?p ! i)" if "i < 4" for i
  proof -
    have "Polygon ?p ! i \<in> set (Polygon ?p)" using that l by simp
    then show ?thesis by (auto simp: door_at_def isFiniteVec3_def is_finite_def)
  qed
  have e: "concat (map (\<lambda>i. err_if (\<not> isFiniteVec3 (Polygon ?p ! i)) (PolygonVertexNotFinite i)) [0..<4]) = []"
    using fin by simp
  have side: "plane_SideOf ?pl (mk_vec3 (Num x) y z) = Zero False" if "y \<in> {Zero False, Num 1}" "z \<in> {Zero False, Num 1}" for y z
  proof -
    have x: "fmul (Num 1) (Num x) = Num x" "fadd (Num x) (Zero False) = Num x" "fsub (Num x) (Num x) = Zero False"
      using assms by (auto simp: float_eval)
    have "fmul (Zero False) y = Zero False" "fmul (Zero False) z = Zero False"
      using that by (auto simp: float_eval)
    with x show ?thesis by (simp add: plane_SideOf_def vec3_Dot_def)
  qed
  have planar: "portalPolygonIsPlanar (Polygon ?p) ?pl"
  proof -
    have "plane_SideOf ?pl v = Zero False" if "v \<in> set (tl (Polygon ?p))" for v
      using that by (auto simp: door_at_def intro!: side)
    with z show ?thesis by (auto simp: portalPolygonIsPlanar_def)
  qed
  have v: "\<not> vec3_eq (mk_vec3 (Num 1) (Zero False) (Zero False)) Vec3Zero"
    by (simp add: vec3_eq_def Vec3Zero_def float_eval)
  show ?thesis
    unfolding validatePortalPolygon_def door_Normal [OF n] door_Area [OF assms] Let_def l pl e
    using a v planar by simp
qed

lemma boxes:
  "shoebox_Bounds (the (Shoebox (box_room (Zero False)))) =
     mk_box (mk_vec3 (Zero False) (Zero False) (Zero False)) (mk_vec3 (Num 2) (Num 2) (Num 2))"
  "shoebox_Bounds (the (Shoebox (box_room (Num 2)))) =
     mk_box (mk_vec3 (Num 2) (Zero False) (Zero False)) (mk_vec3 (Num 4) (Num 2) (Num 2))"
  "shoebox_Bounds (the (Shoebox (box_room (Num 4)))) =
     mk_box (mk_vec3 (Num 4) (Zero False) (Zero False)) (mk_vec3 (Num 6) (Num 2) (Num 2))"
  by (simp_all add: box_room_def shoebox_Bounds_def NewBox_def vec3_Add_def min64_def max64_def float_eval)

lemma door_on_box:
  assumes "x \<in> {2, 4}" "x = fval (vX (Min b)) \<or> x = fval (vX (Max b))"
    "is_finite (vX (Min b))" "is_finite (vX (Max b))"
    "vY (Min b) = Zero False" "vZ (Min b) = Zero False" "vY (Max b) = Num 2" "vZ (Max b) = Num 2"
  shows "portalOnShoeboxBoundary (Polygon (door_at x i j st)) b"
proof -
  have yz: "portalWithinYZ v b" if "v \<in> set (Polygon (door_at x i j st))" for v
    using that unfolding portalWithinYZ_def assms(5-8)
    by (auto simp: door_at_def intro!: within_bounds; simp add: fle_def is_finite_def
      representable_small(1) [of num.One] representable_small(2) [of num.One])
  have vx: "vX v = Num x" if "v \<in> set (Polygon (door_at x i j st))" for v
    using that by (auto simp: door_at_def)
  have on: "on_face (Num x) e" if "fval e = x" "is_finite e" for e
    using that by (cases e) (auto simp: on_face_def is_finite_def fsub_def fadd_def fle_def)
  from assms(2) show ?thesis
  proof
    assume "x = fval (vX (Min b))"
    then have "portalVertexOnShoeboxFace v b 0" if "v \<in> set (Polygon (door_at x i j st))" for v
      using that yz vx on assms(3) by (simp add: portalVertexOnShoeboxFace_def)
    then show ?thesis unfolding portalOnShoeboxBoundary_def by (intro bexI [of _ 0]) auto
  next
    assume "x = fval (vX (Max b))"
    then have "portalVertexOnShoeboxFace v b 1" if "v \<in> set (Polygon (door_at x i j st))" for v
      using that yz vx on assms(4) by (simp add: portalVertexOnShoeboxFace_def)
    then show ?thesis unfolding portalOnShoeboxBoundary_def by (intro bexI [of _ 1]) auto
  qed
qed


lemma box_room_Kind: "Kind (box_room x) = RoomKindShoebox"
  "Shoebox (box_room x) = Some (the (Shoebox (box_room x)))"
  by (simp_all add: box_room_def)

lemma door_boundaries:
  "validatePortalBoundary (door_at 2 i j st) (box_room (Zero False)) k = []"
  "validatePortalBoundary (door_at 2 i j st) (box_room (Num 2)) k = []"
  "validatePortalBoundary (door_at 4 i j st) (box_room (Num 2)) k = []"
  "validatePortalBoundary (door_at 4 i j st) (box_room (Num 4)) k = []"
  unfolding validatePortalBoundary_def portalOnRoomBoundary_def box_room_Kind(1)
  by (subst box_room_Kind(2), simp only: option.case if_True boxes refl, subst door_on_box; simp add: is_finite_def)+

lemma door_windings:
  "validatePortalWinding \<lparr>pNormal = mk_vec3 (Num 1) (Zero False) (Zero False), pDistance = Num 2\<rparr>
     (box_room (Zero False)) (box_room (Num 2)) k = []"
  "validatePortalWinding \<lparr>pNormal = mk_vec3 (Num 1) (Zero False) (Zero False), pDistance = Num 4\<rparr>
     (box_room (Num 2)) (box_room (Num 4)) k = []"
proof -
  have b: "room_Bounds (box_room x) = Some (shoebox_Bounds (the (Shoebox (box_room x))))" for x
    by (simp add: room_Bounds_def box_room_def)
  have t: "flt (Num (- 1)) (fneg portalGeometryTolerance)" "flt portalGeometryTolerance (Num 1)"
    by (simp_all add: flt_def)
  show "validatePortalWinding \<lparr>pNormal = mk_vec3 (Num 1) (Zero False) (Zero False), pDistance = Num 2\<rparr>
     (box_room (Zero False)) (box_room (Num 2)) k = []"
    unfolding validatePortalWinding_def b boxes option.case Let_def
    by (simp add: box_Center_def vec3_Add_def vec3_Scale_def plane_SideOf_def vec3_Dot_def
       fadd_def fsub_def fmul_def f64_eval t)
  show "validatePortalWinding \<lparr>pNormal = mk_vec3 (Num 1) (Zero False) (Zero False), pDistance = Num 4\<rparr>
     (box_room (Num 2)) (box_room (Num 4)) k = []"
    unfolding validatePortalWinding_def b boxes option.case Let_def
    by (simp add: box_Center_def vec3_Add_def vec3_Scale_def plane_SideOf_def vec3_Dot_def
       fadd_def fsub_def fmul_def f64_eval t)
qed

lemma door_references:
  assumes "st \<in> {PortalOpen, PortalClosed}" "(i, j) \<in> {(0, 1), (1, 2)}"
  shows "validatePortalReferences (building st1 st2) (door_at x i j st) = []"
proof -
  have "Materials (building st1 st2) ''door'' \<noteq> None"
    by (simp add: building_def building_materials_def)
  moreover have "State (door_at x i j st) = st" "Material (door_at x i j st) = ''door''"
    "RoomIndices (door_at x i j st) = (i, j)" by (simp_all add: door_at_def)
  moreover have "RoomAt (building st1 st2) i \<noteq> None" "RoomAt (building st1 st2) j \<noteq> None" "i \<noteq> j"
    using assms(2) by (auto simp only: RoomAt_Some_iff_index building_RoomAt(1) insert_iff empty_iff prod.inject)
  ultimately show ?thesis
    unfolding validatePortalReferences_def using assms(1) by simp
qed

lemma building_portals:
  assumes "st1 \<in> {PortalOpen, PortalClosed}" "st2 \<in> {PortalOpen, PortalClosed}"
  shows "validatePortals (building st1 st2) = []"
proof -
  let ?s = "building st1 st2"
  have i: "indexed (Portals ?s) = [(0, door_at 2 0 1 st1), (1, door_at 4 1 2 st2)]"
    by (simp add: building_def indexed_def)
  have ri: "RoomIndices (door_at x a b st) = (a, b)" for x a b st by (simp add: door_at_def)
  have x: "(2::real) \<in> {2, 4}" "(4::real) \<in> {2, 4}" by simp_all
  have "validatePortal ?s (door_at 2 0 1 st1) = []"
    unfolding validatePortal_def door_polygon [OF x(1)] ri fst_conv snd_conv building_RoomAt Let_def
    using door_references [OF assms(1), of 0 1] by (simp add: door_boundaries door_windings)
  moreover have "validatePortal ?s (door_at 4 1 2 st2) = []"
    unfolding validatePortal_def door_polygon [OF x(2)] ri fst_conv snd_conv building_RoomAt Let_def
    using door_references [OF assms(2), of 1 2] by (simp add: door_boundaries door_windings)
  ultimately show ?thesis by (simp add: validatePortals_def i)
qed

theorem building_valid:
  assumes "st1 \<in> {PortalOpen, PortalClosed}" "st2 \<in> {PortalOpen, PortalClosed}"
  shows "Validate pow rate building_names (Some (building st1 st2)) = []"
proof -
  have "SampleRate (building st1 st2) = 48000" "Sources (building st1 st2) = []"
    "Receivers (building st1 st2) = []" by (simp_all add: building_def)
  then show ?thesis
    by (simp add: Validate_def building_bands building_rooms building_references
      building_materials_ok building_portals [OF assms] validatePositions_def validateReceivers_def)
qed


subsection \<open>The graph of the building\<close>

definition mk_view :: "int \<Rightarrow> int \<Rightarrow> int \<Rightarrow> bool \<Rightarrow> portalView" where
  "mk_view i a b r = \<lparr>PortalIndex = i, FromRoom = a, ToRoom = b, Reversed = r\<rparr>"

definition building_graph :: "(unit, unit, unit, unit) graph" where
  "building_graph = \<lparr>gScene = building PortalOpen PortalClosed,
     incident = [[mk_view 0 0 1 False], [mk_view 0 1 0 True, mk_view 1 1 2 False], [mk_view 1 2 1 True]],
     groupOfRoom = [0, 0, 1], roomsOfGroup = [[0, 1], [2]],
     geomCache = Map.empty, bvhCache = Map.empty\<rparr>"

lemma building_Portals: "Portals (building st1 st2) = [door_at 2 0 1 st1, door_at 4 1 2 st2]"
  by (simp add: building_def)

lemma door_fields: "RoomIndices (door_at x a b st) = (a, b)" "State (door_at x a b st) = st"
  by (simp_all add: door_at_def)

lemma building_incident:
  "build_incident (indexed (Portals (building st1 st2))) (replicate 3 []) =
     Some (incident building_graph)"
  by (simp add: building_Portals indexed_def door_fields append_view_def slice_at_def mk_view_def
    building_graph_def numeral_3_eq_3 numeral_2_eq_2)

lemma building_groups:
  "group_rooms (incident building_graph) (Portals (building PortalOpen PortalClosed))
     (map int [0..<3]) (replicate 3 NoGroup) [] = Some ([0, 0, 1], [[0, 1], [2]])"
proof -
  have u: "map int [0..<3] = [0, 1, 2]" by (simp add: upt_rec)
  have r: "replicate 3 NoGroup = [-1, -1, -1]" by (simp add: NoGroup_def numeral_3_eq_3)
  have p: "PortalClosed \<noteq> PortalOpen" by (simp add: PortalOpen_def PortalClosed_def)
  have sort: "slicesSortInts [0, 1] = [0, 1]" "slicesSortInts [2] = [2]"
    by (simp_all add: slicesSortInts_def)
  show ?thesis
    unfolding u r building_Portals
    by (simp add: building_graph_def slice_at_def NoGroup_def mk_view_def door_fields p sort)
qed

lemma building_graph_new:
  "NewAcousticSceneGraph pow rate building_names (Some (building PortalOpen PortalClosed)) =
     Some (Inr building_graph)"
proof -
  have n: "nat (RoomCount (building PortalOpen PortalClosed)) = 3" "RoomCount (building PortalOpen PortalClosed) \<noteq> 0"
    by (simp_all add: building_RoomAt)
  have l: "length (incident building_graph) = 3" by (simp add: building_graph_def)
  show ?thesis
    unfolding NewAcousticSceneGraph_def option.case n(1) building_incident UpdateRoomGroups_def graph.simps
      Let_def l building_groups
    using n(2) by (simp add: building_valid evictUnreachableGeometry_def building_graph_def)
qed

lemma building_graph_reachable: "graph_reachable pow rate building_names building_graph"
  by (rule graph_reachable.new [OF building_graph_new])

end
