(* ===== verification/Path_Properties.thy ===== *)
theory Path_Properties
  imports Path_Exploration Example_Building
begin

text \<open>
  The properties of the path search: it returns, enumerates the simple paths of the group
  graph, respects its limits, and accumulates transmission along each path; with the parent
  links of its trees. Each is instantiated at the example building.
\<close>

subsection \<open>Searches on reachable graphs\<close>

lemma SearchPaths_result:
  assumes "graph_reachable pow' rate names g" "SearchPaths log10 cosine pow g src cfg0 = Some (Inr t)"
  obtains cfg onPath where
    "withDefaults cosine cfg0 (BandCount (BandSpec (gScene g))) = Inr cfg" "0 < cBandCount cfg"
    "GroupRooms g src \<noteq> None" "Root t = 0"
    "path_inv log10 cosine pow g cfg (groupsHoldingReceivers g) src t onPath []"
    "tree_ok log10 cosine pow g cfg (groupsHoldingReceivers g) src t"
proof -
  note g = graph_reachable_ok [OF assms(1)] and s = reachable_incident_sorted [OF assms(1)]
  from assms(2) obtain rooms cfg where c: "GroupRooms g src = Some rooms"
    "withDefaults cosine cfg0 (BandCount (BandSpec (gScene g))) = Inr cfg" "0 < cBandCount cfg"
    by (auto simp: SearchPaths_def split: if_splits sum.splits)
  from SearchPaths_tree [OF g s c(2,3,1), of log10 pow] assms(2) obtain onPath where
    "Root t = 0" "path_inv log10 cosine pow g cfg (groupsHoldingReceivers g) src t onPath []" by auto
  with c that show thesis by (auto simp: path_inv_def)
qed

subsection \<open>Following parents\<close>

lemma path_up_ancestors:
  assumes t: "tree_ok log10 cosine pow g cfg rg src t"
  shows "i < length (Nodes t) \<Longrightarrow>
    path_up (Nodes t) (int i) acc = Some (map int (rev (ancestors (parents t) i)) @ acc)"
proof (induction i arbitrary: acc rule: less_induct)
  case (less i)
  note D = tree_okD [OF t]
  show ?case
  proof (cases "i = 0")
    case True
    have "path_up (Nodes t) (-1) (0 # acc) = Some (0 # acc)" by (subst path_up.simps) simp
    with True D(1,4) show ?thesis
      by (subst path_up.simps) (simp add: slice_at_def ancestors.simps [of _ 0])
  next
    case False
    then have i: "0 < i" by simp
    let ?p = "nat (nParent (Nodes t ! i))"
    have p: "0 \<le> nParent (Nodes t ! i)" "?p < i" using D(8) [OF i less.prems] by auto
    have "path_up (Nodes t) (int i) acc = path_up (Nodes t) (int ?p) (int i # acc)"
      using less.prems p by (subst path_up.simps) (simp add: slice_at_def)
    with less.IH [OF p(2)] less.prems p(2) ancestors_child [OF t i less.prems] show ?thesis by simp
  qed
qed

lemma PathTo_ancestors:
  assumes "tree_ok log10 cosine pow g cfg rg src t" "i < length (Nodes t)"
  shows "PathTo t (int i) = Some (map int (rev (ancestors (parents t) i)))"
  using path_up_ancestors [OF assms, of "[]"] assms(2) by (simp add: PathTo_def)

lemma PortalSequence_steps:
  assumes "tree_ok log10 cosine pow g cfg rg src t" "i < length (Nodes t)"
  shows "PortalSequence t (int i) = Some (map (\<lambda>e. PortalIndex (View e)) (steps t i))"
proof -
  have "List.map_filter (\<lambda>i. map_option (\<lambda>st. PortalIndex (View (stepPortal st))) (nStep (Nodes t ! nat i)))
      (map int js) = map (\<lambda>e. PortalIndex (View e)) (List.map_filter (edge_to t) js)" for js
  proof (induction js)
    case (Cons j js)
    then show ?case by (cases "nStep (Nodes t ! j)") (simp_all add: edge_to_def)
  qed simp
  then show ?thesis unfolding PortalSequence_def PathTo_ancestors [OF assms] steps_def by simp
qed

subsection \<open>Transmission along a path\<close>

definition portal_tau :: "(f64 \<Rightarrow> f64 \<Rightarrow> f64) \<Rightarrow> ('dir, 'h, 'g, 'b) graph \<Rightarrow> int \<Rightarrow> groupPortalView \<Rightarrow> f64" where
  "portal_tau pow g b e =
     portal_TransmissionAt pow (Portals (gScene g) ! nat (PortalIndex (View e))) (Materials (gScene g)) b"

lemma child_transmission:
  assumes t: "tree_ok log10 cosine pow g cfg rg src t" and i: "0 < i" "i < length (Nodes t)"
    and b: "0 \<le> cBandCount cfg" "int b < cBandCount cfg" and e: "edge_to t i = Some e"
  shows "nTransmission (Nodes t ! i) ! b =
    fmul (nTransmission (Nodes t ! nat (nParent (Nodes t ! i))) ! b) (portal_tau pow g (int b) e)"
proof -
  let ?p = "nat (nParent (Nodes t ! i))"
  from tree_okD(8) [OF t i] obtain e' where p: "?p < i"
    and c: "child_node log10 cosine pow g cfg rg (Nodes t ! ?p) e' (Nodes t ! i)" by auto
  with e have "e' = e" by (auto simp: child_node_def edge_to_def)
  with c obtain tr where a: "accumulate pow (gScene g) (Portals (gScene g) ! nat (PortalIndex (View e)))
        (nTransmission (Nodes t ! ?p)) (cBandCount cfg) = Some (tr, nTransmission (Nodes t ! i))"
    by (auto simp: child_node_def)
  have l: "int (length (nTransmission (Nodes t ! ?p))) = cBandCount cfg"
    using transmission_length [OF t b(1), of ?p] p i(2) by simp
  then have "b < length (nTransmission (Nodes t ! ?p))" using b(2) by linarith
  with accumulate_Some [OF l, of pow "gScene g" "Portals (gScene g) ! nat (PortalIndex (View e))"] a
  show ?thesis by (auto simp: portal_tau_def)
qed

lemma node_transmission:
  assumes t: "tree_ok log10 cosine pow g cfg rg src t"
    and b: "0 \<le> cBandCount cfg" "int b < cBandCount cfg"
  shows "i < length (Nodes t) \<Longrightarrow> nTransmission (Nodes t ! i) ! b =
    foldl fmul (round64 1) (map (portal_tau pow g (int b)) (steps t i))"
proof (induction i rule: less_induct)
  case (less i)
  show ?case
  proof (cases "i = 0")
    case True
    have "steps t 0 = []"
      by (rule steps_root) (use tree_okD(1,4,5) [OF t] in \<open>simp_all add: edge_to_def\<close>)
    with True tree_okD(6) [OF t] b show ?thesis by simp
  next
    case False
    then have i: "0 < i" by simp
    obtain e where e: "edge_to t i = Some e" "nat (nParent (Nodes t ! i)) < i"
      by (rule child_edge [OF t i less.prems])
    from less.IH [OF e(2)] e(2) less.prems child_transmission [OF t i less.prems b e(1)]
      steps_child [OF t i less.prems e(1)]
    show ?thesis by simp
  qed
qed

text \<open>Coefficients of validated materials are between zero and one, given that powers of ten
  with a non-positive exponent are.\<close>

definition pow_unit :: "(f64 \<Rightarrow> f64 \<Rightarrow> f64) \<Rightarrow> bool" where
  "pow_unit pow \<longleftrightarrow> (\<forall>x. fle x (Zero False) \<longrightarrow> funit (pow (round64 10) x))"

lemma reachable_materials:
  fixes g :: "('dir, 'h, 'g, 'b) graph"
  assumes "graph_reachable pow rate names g"
  shows "validateMaterials pow names (Materials (gScene g)) (BandCount (BandSpec (gScene g))) = []"
  using assms
proof (induction rule: graph_reachable.induct)
  case (new so g)
  with NewAcousticSceneGraph_ok [of pow rate names so, where ?'g = 'g and ?'b = 'b]
  have "Validate pow rate names (Some (gScene g)) = []" by auto
  then show ?case by (simp add: Validate_def)
next
  case (toggle g i st g')
  with SetPortalState_Inr(4) [OF graph_reachable_ok [OF toggle(1)] toggle(2)] show ?case by simp
qed simp_all

lemma fdiv_nonpos:
  assumes "fle (Zero False) r" "is_finite r"
  shows "fle (fdiv (fneg r) (round64 10)) (Zero False)"
proof (cases r)
  case (Num x)
  with assms(1) have "- x / 10 \<le> 0" by (simp add: fle_def)
  from round64_mono [OF this] Num show ?thesis by (simp add: fdiv_def f64_eval)
qed (use assms in \<open>simp_all add: fdiv_def f64_eval fle_def is_finite_def\<close>)

lemma coefficientAt_mem: "coefficientAt vs i = Some v \<Longrightarrow> 0 \<le> i \<Longrightarrow> v \<in> set vs"
  by (auto simp: coefficientAt_def split: if_splits intro!: nth_mem)

lemma validateUnitCoefficients_unit:
  assumes "validateUnitCoefficients name property vs = []" "v \<in> set vs"
  shows "funit v"
proof -
  from assms(2) obtain i where i: "i < length vs" "v = vs ! i" by (auto simp: in_set_conv_nth)
  with assms(1) have "is_finite v \<and> \<not> flt v (Zero False) \<and> \<not> flt (round64 1) v"
    unfolding validateUnitCoefficients_def concat_map_Nil by (auto simp: Let_def split: if_splits)
  then show ?thesis
    using not_flt_iff [of v "Zero False"] not_flt_iff [of "Num 1" v] by (simp add: is_finite_def)
qed

lemma material_TransmissionAt_unit:
  assumes "validateMaterial pow name m bandCount = []" "pow_unit pow"
  shows "funit (material_TransmissionAt pow m b)"
proof -
  have tr: "validateMaterialTransmission pow name m bandCount = []"
    using assms(1) by (simp add: validateMaterial_def)
  have c: "funit v" if "v \<in> set (TransmissionByBand m)" for v
    using tr that by (intro validateUnitCoefficients_unit) (auto simp: validateMaterialTransmission_def)
  have r: "funit (TransmissionFromSoundReductionIndex pow v)" if "v \<in> set (SoundReductionIndex m)" for v
  proof -
    from that obtain i where i: "i < length (SoundReductionIndex m)" "v = SoundReductionIndex m ! i"
      by (auto simp: in_set_conv_nth)
    have "concat (map (\<lambda>i. let r = SoundReductionIndex m ! i in
       err_if (\<not> is_finite r \<or> flt r (Zero False)) (ReductionRange name i))
       [0..<length (SoundReductionIndex m)]) = []"
      using tr by (simp only: validateMaterialTransmission_def append_is_Nil_conv)
    with i have "is_finite v" "\<not> flt v (Zero False)"
      unfolding concat_map_Nil by (auto simp: Let_def split: if_splits)
    then have "fle (Zero False) v" by (simp add: not_flt_iff is_finite_def)
    from fdiv_nonpos [OF this \<open>is_finite v\<close>] assms(2) show ?thesis
      by (simp add: TransmissionFromSoundReductionIndex_def pow_unit_def)
  qed
  have z: "funit (Zero False)" by (simp add: fle_def)
  show ?thesis
    unfolding material_TransmissionAt_def
    using c r z by (auto split: option.splits dest: coefficientAt_mem)
qed

lemma portal_tau_unit:
  assumes "graph_reachable pow rate names g" "dom (Materials (gScene g)) \<subseteq> set names" "pow_unit pow"
  shows "funit (portal_tau pow g b e)"
proof -
  have v: "validateMaterial pow name m (BandCount (BandSpec (gScene g))) = []"
    if "Materials (gScene g) name = Some m" for name m
  proof -
    have "name \<in> set names" using assms(2) that by auto
    with reachable_materials [OF assms(1)] that show ?thesis
      unfolding validateMaterials_def concat_map_Nil by fastforce
  qed
  have "funit (round64 1)" "funit (Zero False)" by (simp_all add: fle_def)
  then show ?thesis
    unfolding portal_tau_def portal_TransmissionAt_def
    using material_TransmissionAt_unit [OF v assms(3)] by (auto split: option.splits)
qed

lemma foldl_fmul_unit:
  assumes "\<And>x. x \<in> set xs \<Longrightarrow> funit x" "funit a" "f64_ok a"
  shows "funit (foldl fmul a xs) \<and> f64_ok (foldl fmul a xs)"
  using assms
proof (induction xs arbitrary: a)
  case (Cons x xs)
  have "funit (fmul a x)" using Cons.prems by (intro funit_fmul) auto
  with Cons show ?case by (simp add: arith_ok(2))
qed simp

subsection \<open>Properties\<close>


text \<open>C22: The nodes of the tree are simple paths of the group graph, each at most once, and
  the tree holds all simple paths from the source group exactly when it is not marked as
  truncated.\<close>

theorem search_enumerates_simple_paths:
  assumes "graph_reachable pow rate names g"
    "SearchPaths log10 cosine pow' g src cfg0 = Some (Inr t)"
  shows "inj_on (steps t) {..<length (Nodes t)} \<and>
    steps t ` {..<length (Nodes t)} \<subseteq> {es. simple_path g src es} \<and>
    (Truncated t \<longleftrightarrow> steps t ` {..<length (Nodes t)} \<noteq> {es. simple_path g src es})"
proof -
  obtain cfg onPath where t: "tree_ok log10 cosine pow' g cfg (groupsHoldingReceivers g) src t"
    and inv: "path_inv log10 cosine pow' g cfg (groupsHoldingReceivers g) src t onPath []"
    by (rule SearchPaths_result [OF assms])
  have c: "cover_ok g t []" "cut_ok g t []" using inv by (simp_all add: path_inv_def)
  have sub: "steps t ` {..<length (Nodes t)} \<subseteq> {es. simple_path g src es}"
    using node_path [OF t] by blast
  have "inj_on (steps t) {..<length (Nodes t)}"
    using steps_inj [OF t] by (auto simp: inj_on_def)
  moreover have "Truncated t \<longleftrightarrow> steps t ` {..<length (Nodes t)} \<noteq> {es. simple_path g src es}"
  proof (cases "Truncated t")
    case True
    from truncated_missing [OF t c(2) True] obtain es where "simple_path g src es"
      "es \<notin> steps t ` {..<length (Nodes t)}" by auto
    with True show ?thesis by blast
  next
    case False
    from exhaustive [OF t c(1) False] sub have "steps t ` {..<length (Nodes t)} = {es. simple_path g src es}"
      by fastforce
    with False show ?thesis by simp
  qed
  ultimately show ?thesis using sub by blast
qed

text \<open>C25: The tree respects the limits of the effective configuration: depth is the number of
  portals on the path and at most \<open>MaxDepth\<close>, and beyond the root there are at most
  \<open>MaxNodes\<close> nodes.\<close>

theorem search_limits:
  assumes "graph_reachable pow rate names g"
    "SearchPaths log10 cosine pow' g src cfg0 = Some (Inr t)" "i < length (Nodes t)"
    "withDefaults cosine cfg0 (BandCount (BandSpec (gScene g))) = Inr cfg"
  shows "nDepth (Nodes t ! i) = int (length (steps t i)) \<and> nDepth (Nodes t ! i) \<le> MaxDepth cfg \<and>
    int (length (Nodes t)) \<le> MaxNodes cfg"
proof -
  obtain cfg' where t: "tree_ok log10 cosine pow' g cfg' (groupsHoldingReceivers g) src t"
    and "withDefaults cosine cfg0 (BandCount (BandSpec (gScene g))) = Inr cfg'"
    by (rule SearchPaths_result [OF assms(1,2)])
  with assms(4) have [simp]: "cfg' = cfg" by simp
  note D = tree_okD [OF t] and L = withDefaults_limits [OF assms(4)]
  have "nDepth (Nodes t ! i) \<le> MaxDepth cfg"
  proof (cases "i = 0")
    case True
    with D(3) L(1) show ?thesis by simp
  next
    case False
    with D(8) [of i] assms(3) show ?thesis by (auto simp: child_node_def)
  qed
  moreover have "int (length (Nodes t)) \<le> MaxNodes cfg"
    using D(12) L(2) by (cases "length (Nodes t) \<le> 1") auto
  ultimately show ?thesis using node_path [OF t assms(3)] by simp
qed

text \<open>\<open>PathTo\<close> and \<open>PortalSequence\<close> return on every node of a search tree: the path
  starts at the root, ends at the node, steps from parent to child, and the portal sequence
  lists the portals of the node's path.\<close>

theorem paths_of_nodes:
  assumes "graph_reachable pow rate names g"
    "SearchPaths log10 cosine pow' g src cfg0 = Some (Inr t)" "i < length (Nodes t)"
  shows "\<exists>js. PathTo t (int i) = Some (map int js) \<and> js \<noteq> [] \<and> hd js = 0 \<and> last js = i \<and>
    (\<forall>k. 0 < k \<longrightarrow> k < length js \<longrightarrow> nParent (Nodes t ! (js ! k)) = int (js ! (k - 1))) \<and>
    PortalSequence t (int i) = Some (map (\<lambda>e. PortalIndex (View e)) (steps t i))"
proof -
  obtain cfg where t: "tree_ok log10 cosine pow' g cfg (groupsHoldingReceivers g) src t"
    by (rule SearchPaths_result [OF assms(1,2)])
  have "last (ancestors (parents t) i) = 0 \<and> (\<forall>k. Suc k < length (ancestors (parents t) i) \<longrightarrow>
    nParent (Nodes t ! (ancestors (parents t) i ! k)) = int (ancestors (parents t) i ! Suc k))"
    using assms(3)
  proof (induction i rule: less_induct)
    case (less i)
    show ?case
    proof (cases "i = 0")
      case True
      then show ?thesis by (simp add: ancestors.simps [of _ 0])
    next
      case False
      then have i: "0 < i" by simp
      let ?p = "nat (nParent (Nodes t ! i))" let ?a = "ancestors (parents t) ?p"
      obtain e where e: "?p < i" "nParent (Nodes t ! i) = int ?p"
        by (rule child_edge [OF t i less.prems])
      have ih: "last ?a = 0" "\<forall>k. Suc k < length ?a \<longrightarrow> nParent (Nodes t ! (?a ! k)) = int (?a ! Suc k)"
        using less.IH [OF e(1)] less.prems e(1) by auto
      have h: "?a ! 0 = ?p" using ancestors_ne(1,2) [of "parents t" ?p] by (metis hd_conv_nth)
      show ?thesis
        unfolding ancestors_child [OF t i less.prems]
        using ih e(2) h by (auto simp: nth_Cons split: nat.splits)
    qed
  qed
  then have a: "last (ancestors (parents t) i) = 0" "\<And>k. Suc k < length (ancestors (parents t) i) \<Longrightarrow>
    nParent (Nodes t ! (ancestors (parents t) i ! k)) = int (ancestors (parents t) i ! Suc k)" by auto
  let ?js = "rev (ancestors (parents t) i)"
  have "nParent (Nodes t ! (?js ! k)) = int (?js ! (k - 1))" if "0 < k" "k < length ?js" for k
  proof -
    let ?n = "length (ancestors (parents t) i)"
    have "?js ! k = ancestors (parents t) i ! (?n - Suc k)" "?js ! (k - 1) = ancestors (parents t) i ! (?n - k)"
      using that by (simp_all add: rev_nth)
    moreover have "Suc (?n - Suc k) = ?n - k" "Suc (?n - Suc k) < ?n" using that by auto
    ultimately show ?thesis using a(2) [of "?n - Suc k"] by simp
  qed
  moreover have "hd ?js = 0" "last ?js = i"
    using a(1) ancestors_ne(1,2) [of "parents t" i] by (simp_all add: hd_rev last_rev)
  ultimately show ?thesis
    using PathTo_ancestors [OF t assms(3)] PortalSequence_steps [OF t assms(3)]
    by (intro exI [of _ ?js]) auto
qed

text \<open>C24: The transmission of a node is, per band, the product of the coefficients of the
  portals on its path, in path order; it lies between zero and one and never exceeds the
  transmission of the node's parent.\<close>

theorem transmission_along_path:
  assumes "graph_reachable pow rate names g" "dom (Materials (gScene g)) \<subseteq> set names" "pow_unit pow"
    "SearchPaths log10 cosine pow g src cfg0 = Some (Inr t)"
    "withDefaults cosine cfg0 (BandCount (BandSpec (gScene g))) = Inr cfg"
    "i < length (Nodes t)" "int b < cBandCount cfg"
  shows "nTransmission (Nodes t ! i) ! b =
      foldl fmul (round64 1) (map (portal_tau pow g (int b)) (steps t i)) \<and>
    funit (nTransmission (Nodes t ! i) ! b) \<and>
    (0 < i \<longrightarrow> fle (nTransmission (Nodes t ! i) ! b)
       (nTransmission (Nodes t ! nat (nParent (Nodes t ! i))) ! b))"
proof -
  obtain cfg' where t: "tree_ok log10 cosine pow g cfg' (groupsHoldingReceivers g) src t"
    and c: "withDefaults cosine cfg0 (BandCount (BandSpec (gScene g))) = Inr cfg'" "0 < cBandCount cfg'"
    by (rule SearchPaths_result [OF assms(1,4)])
  with assms(5) have [simp]: "cfg' = cfg" by simp
  have b: "0 \<le> cBandCount cfg" using c by simp
  note tau = portal_tau_unit [OF assms(1-3)]
  have eq: "nTransmission (Nodes t ! k) ! b = foldl fmul (round64 1) (map (portal_tau pow g (int b)) (steps t k))"
    if "k < length (Nodes t)" for k
    using node_transmission [OF t, of b k] that assms(7) b by simp
  have u: "funit (nTransmission (Nodes t ! k) ! b) \<and> f64_ok (nTransmission (Nodes t ! k) ! b)"
    if "k < length (Nodes t)" for k
    unfolding eq [OF that]
    by (rule foldl_fmul_unit) (use tau round64_ok [of 1] in \<open>auto simp: fle_def\<close>)
  have "fle (nTransmission (Nodes t ! i) ! b) (nTransmission (Nodes t ! nat (nParent (Nodes t ! i))) ! b)"
    if i: "0 < i"
  proof -
    obtain e where e: "edge_to t i = Some e" "nat (nParent (Nodes t ! i)) < i"
      by (rule child_edge [OF t i assms(6)])
    then have "nat (nParent (Nodes t ! i)) < length (Nodes t)" using assms(6) by simp
    from u [OF this] child_transmission [OF t i assms(6) _ _ e(1), of b] b assms(7) tau
    show ?thesis by (auto intro!: fmul_unit_le simp: funit_finite)
  qed
  with eq u assms(6) show ?thesis by blast
qed

text \<open>C26: The child lists are exactly the inverse of the parent links, and the leaves are
  exactly the nodes whose group holds a receiver, in ascending order.\<close>

theorem children_and_leaves_exact:
  assumes "graph_reachable pow rate names g"
    "SearchPaths log10 cosine pow' g src cfg0 = Some (Inr t)" "i < length (Nodes t)"
  shows "nChildren (Nodes t ! i) =
      map int (filter (\<lambda>j. nParent (Nodes t ! j) = int i) [0..<length (Nodes t)]) \<and>
    (int i \<in> set (Leaves t) \<longleftrightarrow> nGroup (Nodes t ! i) \<in> set (groupsHoldingReceivers g)) \<and>
    sorted (Leaves t)"
proof -
  obtain cfg where t: "tree_ok log10 cosine pow' g cfg (groupsHoldingReceivers g) src t"
    by (rule SearchPaths_result [OF assms(1,2)])
  note D = tree_okD [OF t]
  have "nIsLeaf (Nodes t ! i) \<longleftrightarrow> nGroup (Nodes t ! i) \<in> set (groupsHoldingReceivers g)"
    using D(2,7) D(8) [of i] assms(3) by (cases "i = 0") (auto simp: child_node_def)
  moreover have "sorted (Leaves t)"
    unfolding D(11) by (simp add: sorted_map sorted_wrt_filter sorted_wrt_mono_rel [OF _ sorted_wrt_upt])
  ultimately show ?thesis using D(10) [OF assms(3)] assms(3) by (auto simp: D(11))
qed

subsection \<open>At the example building\<close>

definition plain_config :: PathSearchConfig where
  "plain_config = \<lparr>MaxDepth = 0, MaxNodes = 0, PruneFloorDB = Zero False, cBandCount = 0, ReductionWeights = []\<rparr>"

definition flat :: "f64 \<Rightarrow> f64" where "flat x = Zero False"

definition flat_pow :: "f64 \<Rightarrow> f64 \<Rightarrow> f64" where "flat_pow x y = Num 1"

lemma building_config:
  obtains cfg where "withDefaults flat plain_config (BandCount (BandSpec (gScene building_graph))) = Inr cfg"
    "cBandCount cfg = 1"
proof -
  have "BandCount (BandSpec (gScene building_graph)) = 1"
    by (simp add: building_graph_def building_def BandCount_def)
  moreover have "\<exists>cfg. withDefaults flat plain_config 1 = Inr cfg \<and> cBandCount cfg = 1"
    by (simp add: withDefaults_def plain_config_def Let_def feq_def)
  ultimately show thesis using that by auto
qed

lemma building_search:
  "\<exists>t. SearchPaths flat flat flat_pow building_graph 0 plain_config = Some (Inr t) \<and> Nodes t \<noteq> []"
proof -
  note g = building_graph_reachable [of flat_pow "\<lambda>_. 0"]
  obtain cfg where "withDefaults flat plain_config (BandCount (BandSpec (gScene building_graph))) = Inr cfg"
    "cBandCount cfg = 1" by (rule building_config)
  moreover have "GroupRooms building_graph 0 = Some [0, 1]"
    by (simp add: building_graph_def GroupRooms_def slice_at_def)
  ultimately obtain t onPath where
    "SearchPaths flat flat flat_pow building_graph 0 plain_config = Some (Inr t)"
    "path_inv flat flat flat_pow building_graph cfg (groupsHoldingReceivers building_graph) 0 t onPath []"
    using SearchPaths_tree [OF graph_reachable_ok [OF g] reachable_incident_sorted [OF g]] by fastforce
  then show ?thesis by (auto simp: path_inv_def tree_ok_def)
qed

lemma building_pow_unit: "pow_unit flat_pow" "dom (Materials (gScene building_graph)) \<subseteq> set building_names"
  by (auto simp: pow_unit_def flat_pow_def fle_def building_graph_def building_def building_materials_def building_names_def)


theorem search_enumerates_simple_paths_witness:
  "\<exists>t. SearchPaths flat flat flat_pow building_graph 0 plain_config = Some (Inr t) \<and>
     inj_on (steps t) {..<length (Nodes t)} \<and>
     (Truncated t \<longleftrightarrow> steps t ` {..<length (Nodes t)} \<noteq> {es. simple_path building_graph 0 es})"
  using building_search search_enumerates_simple_paths [OF building_graph_reachable] by blast

theorem search_limits_witness:
  "\<exists>t (cfg :: PathSearchConfig). SearchPaths flat flat flat_pow building_graph 0 plain_config = Some (Inr t) \<and>
     int (length (Nodes t)) \<le> MaxNodes cfg \<and> nDepth (Nodes t ! 0) \<le> MaxDepth cfg"
proof -
  obtain cfg where c: "withDefaults flat plain_config (BandCount (BandSpec (gScene building_graph))) = Inr cfg"
    by (rule building_config)
  from building_search obtain t where
    "SearchPaths flat flat flat_pow building_graph 0 plain_config = Some (Inr t)" "0 < length (Nodes t)" by auto
  with search_limits [OF building_graph_reachable this c] show ?thesis by blast
qed

theorem paths_of_nodes_witness:
  "\<exists>t js. SearchPaths flat flat flat_pow building_graph 0 plain_config = Some (Inr t) \<and>
     PathTo t 0 = Some (map int js) \<and> hd js = 0 \<and> last js = 0"
proof -
  from building_search obtain t where t:
    "SearchPaths flat flat flat_pow building_graph 0 plain_config = Some (Inr t)" "0 < length (Nodes t)" by auto
  from paths_of_nodes [OF building_graph_reachable t] t(1) show ?thesis by auto
qed

theorem transmission_along_path_witness:
  "\<exists>t. SearchPaths flat flat flat_pow building_graph 0 plain_config = Some (Inr t) \<and>
     funit (nTransmission (Nodes t ! 0) ! 0)"
proof -
  obtain cfg where c: "withDefaults flat plain_config (BandCount (BandSpec (gScene building_graph))) = Inr cfg"
    "cBandCount cfg = 1" by (rule building_config)
  from building_search obtain t where t:
    "SearchPaths flat flat flat_pow building_graph 0 plain_config = Some (Inr t)" "0 < length (Nodes t)" by auto
  from transmission_along_path [OF building_graph_reachable building_pow_unit(2,1) t(1) c(1) t(2), of 0] c(2) t(1)
  show ?thesis by auto
qed

theorem children_and_leaves_exact_witness:
  "\<exists>t. SearchPaths flat flat flat_pow building_graph 0 plain_config = Some (Inr t) \<and> sorted (Leaves t)"
proof -
  from building_search obtain t where t:
    "SearchPaths flat flat flat_pow building_graph 0 plain_config = Some (Inr t)" "0 < length (Nodes t)" by auto
  from children_and_leaves_exact [OF building_graph_reachable t] t(1) show ?thesis by blast
qed

end
