(* ===== verification/Plan_Laws.thy ===== *)
theory Plan_Laws
  imports Network_Plan Path_Properties
begin

text \<open>
  The factors of a render: a hop and the two halves its simulation has, what it means for a factor to
  be right for a hop, and that rendering hops through the memo and the response cache keeps every
  stored factor right, given that equal keys stand for hops that simulate alike. For the memo that
  is proved here: on paths of one graph the key of a hop determines its ports.
\<close>

subsection \<open>A hop and its two halves\<close>

text \<open>What a hop is simulated with: the group's scene, the ports and the real endpoints.\<close>

type_synonym ('dir, 'h) hop =
  "('dir, 'h) scene \<times> groupPort \<times> groupPort \<times> 'dir source option \<times> 'h receiver option"

definition hop_of ::
  "('dir, 'h, 'g, 'b, 'e) solvers \<Rightarrow> ('dir, 'h, 'g, 'b) pathPlan \<Rightarrow> networkPath \<Rightarrow> nat \<Rightarrow>
   ('e net_failure + ('dir, 'h) hop) option" where
  "hop_of sv plan path index =
     (case slice_at (npGroups path) (int index) of
        None \<Rightarrow> None
      | Some gid \<Rightarrow>
          (case GroupScene (group_mesh sv) (GroupMissing gid) (ppGraph plan) gid of
             None \<Rightarrow> None
           | Some (Inl e) \<Rightarrow> Some (Inl e)
           | Some (Inr gsc) \<Rightarrow>
               map_option (\<lambda>(from, to). Inr (gsc, from, to,
                   if index = 0 then Some (ppSource plan) else None,
                   if index = length (npGroups path) - 1 then Some (ppReceiver plan) else None))
                 (hopPorts plan path index (index = 0) (index = length (npGroups path) - 1))))"

lemma solveHop_hop_of:
  "solveHop sv plan path index cfg into needs =
    (case hop_of sv plan path index of
       None \<Rightarrow> None
     | Some (Inl e) \<Rightarrow> Some (Inl e)
     | Some (Inr (gsc, entry, exit, so, ro)) \<Rightarrow> solveFactor sv gsc entry exit cfg so ro into needs)"
proof (cases "slice_at (npGroups path) (int index)")
  case None
  then show ?thesis by (simp add: solveHop_def hop_of_def)
next
  case (Some gid)
  show ?thesis
  proof (cases "GroupScene (group_mesh sv) (GroupMissing gid) (ppGraph plan) gid")
    case None
    with Some show ?thesis by (simp add: solveHop_def hop_of_def)
  next
    case gs: (Some res)
    show ?thesis
    proof (cases res)
      case (Inl e)
      with Some gs show ?thesis by (simp add: solveHop_def hop_of_def)
    next
      case (Inr gsc)
      let ?in = "portal_port_at (gScene (ppGraph plan)) path (int index - 1) True"
      let ?out = "portal_port_at (gScene (ppGraph plan)) path (int index) False"
      show ?thesis
        unfolding solveHop_def hop_of_def hopPorts_def Let_def Some gs Inr option.case sum.case
        by (cases ?in; cases ?out; cases "index = 0"; cases "index = length (npGroups path) - 1") simp_all
    qed
  qed
qed

definition early_half where
  "early_half sv cfg hop = (case hop of (gsc, entry, exit, so, ro) \<Rightarrow> solveFactorEarly sv gsc entry exit cfg so ro)"

definition late_half where
  "late_half sv cfg hop = (case hop of (gsc, entry, exit, so, ro) \<Rightarrow> trace_late sv gsc entry exit cfg so ro)"

text \<open>A hop is solvable when the halves a caller needs can be simulated.\<close>

definition hop_solvable where
  "hop_solvable sv cfg needs hop \<longleftrightarrow>
     (needEarly needs \<longrightarrow> (\<exists>early events. early_half sv cfg hop = Some (Inr (early, events)))) \<and>
     (needLate needs \<longrightarrow> (\<exists>res. late_half sv cfg hop = Some (Inr res)))"

text \<open>A factor is right for a hop when each half it has is the one the simulation of that hop gives.\<close>

definition early_right where
  "early_right sv cfg hop f \<longleftrightarrow> (\<forall>r. Early f = Some r \<longrightarrow> early_half sv cfg hop = Some (Inr (r, gfEvents f)))"

definition late_right where
  "late_right sv cfg hop f \<longleftrightarrow>
     (case LateEnergy f of
        None \<Rightarrow> DGDirections f = [] \<and> DGHistograms f = []
      | Some h \<Rightarrow> (\<exists>dg. late_half sv cfg hop = Some (Inr (h, dg)) \<and>
          (DGDirections f, DGHistograms f) = (case dg of None \<Rightarrow> ([], []) | Some d \<Rightarrow> d)))"

definition factor_right where
  "factor_right sv cfg hop f \<longleftrightarrow> early_right sv cfg hop f \<and> late_right sv cfg hop f"

definition has_needs :: "factorNeeds \<Rightarrow> groupFactor \<Rightarrow> bool" where
  "has_needs n f \<longleftrightarrow> (needEarly n \<longrightarrow> Early f \<noteq> None) \<and> (needLate n \<longrightarrow> LateEnergy f \<noteq> None)"

lemma factor_right_empty: "factor_right sv cfg hop empty_factor"
  by (simp add: factor_right_def early_right_def late_right_def empty_factor_def)

text \<open>The early half, then the late half.\<close>

lemma fill_early:
  assumes "factor_right sv cfg (gsc, entry, exit, so, ro) f0"
    "(if needEarly n
      then map_option (\<lambda>res. res_bind res (\<lambda>(early, events). Inr (f0\<lparr>Early := Some early, gfEvents := events\<rparr>)))
             (solveFactorEarly sv gsc entry exit cfg so ro)
      else Some (Inr f0)) = Some (Inr f1)"
  shows "factor_right sv cfg (gsc, entry, exit, so, ro) f1"
    "Early f1 \<noteq> None \<longleftrightarrow> needEarly n \<or> Early f0 \<noteq> None" "LateEnergy f1 = LateEnergy f0"
    "DGDirections f1 = DGDirections f0" "DGHistograms f1 = DGHistograms f0"
proof -
  have "factor_right sv cfg (gsc, entry, exit, so, ro) f1 \<and> (Early f1 \<noteq> None \<longleftrightarrow> needEarly n \<or> Early f0 \<noteq> None) \<and>
    LateEnergy f1 = LateEnergy f0 \<and> DGDirections f1 = DGDirections f0 \<and> DGHistograms f1 = DGHistograms f0"
  proof (cases "needEarly n")
    case True
    with assms(2) obtain early events where e: "solveFactorEarly sv gsc entry exit cfg so ro = Some (Inr (early, events))"
      "f1 = f0\<lparr>Early := Some early, gfEvents := events\<rparr>"
      by (cases "solveFactorEarly sv gsc entry exit cfg so ro" rule: option.exhaust)
        (auto simp: res_bind_def split: sum.splits elim!: sumE)
    show ?thesis unfolding e(2) using True assms(1) e(1)
      by (auto simp: factor_right_def early_right_def late_right_def early_half_def split: option.splits)
  qed (use assms in auto)
  then show "factor_right sv cfg (gsc, entry, exit, so, ro) f1"
    "Early f1 \<noteq> None \<longleftrightarrow> needEarly n \<or> Early f0 \<noteq> None" "LateEnergy f1 = LateEnergy f0"
    "DGDirections f1 = DGDirections f0" "DGHistograms f1 = DGHistograms f0" by auto
qed

lemma fill_late:
  assumes "traceFactorLate sv f1 gsc entry exit cfg so ro = Some (Inr f2)"
    "factor_right sv cfg (gsc, entry, exit, so, ro) f1" "LateEnergy f1 = None"
  shows "factor_right sv cfg (gsc, entry, exit, so, ro) f2" "Early f2 = Early f1" "LateEnergy f2 \<noteq> None"
proof -
  have dg: "DGDirections f1 = [] \<and> DGHistograms f1 = []" and e1: "early_right sv cfg (gsc, entry, exit, so, ro) f1"
    using assms(2,3) by (auto simp: factor_right_def late_right_def)
  obtain h d where l: "late_half sv cfg (gsc, entry, exit, so, ro) = Some (Inr (h, d))"
    and f2: "f2 = (case d of None \<Rightarrow> f1\<lparr>LateEnergy := Some h\<rparr>
      | Some (ds, hs) \<Rightarrow> f1\<lparr>LateEnergy := Some h, DGDirections := ds, DGHistograms := hs\<rparr>)"
    using assms(1) by (auto simp: traceFactorLate_def late_half_def Let_def split: sum.splits prod.splits option.splits)
  show e: "Early f2 = Early f1" "LateEnergy f2 \<noteq> None" using f2 by (auto split: option.splits)
  have "gfEvents f2 = gfEvents f1" "LateEnergy f2 = Some h"
    "(DGDirections f2, DGHistograms f2) = (case d of None \<Rightarrow> ([], []) | Some x \<Rightarrow> x)"
    using f2 dg by (auto split: option.splits)
  then show "factor_right sv cfg (gsc, entry, exit, so, ro) f2"
    using e(1) e1 l unfolding factor_right_def early_right_def late_right_def by simp
qed

lemma solveFactor_correct:
  assumes "solveFactor sv gsc entry exit cfg so ro into missing = Some (Inr f)"
    "factor_right sv cfg (gsc, entry, exit, so, ro) (case into of None \<Rightarrow> empty_factor | Some f \<Rightarrow> f)"
    "needLate missing \<Longrightarrow> LateEnergy (case into of None \<Rightarrow> empty_factor | Some f \<Rightarrow> f) = None"
  shows "factor_right sv cfg (gsc, entry, exit, so, ro) f"
    "factorNeedsOf (Some f) = needs_union (factorNeedsOf into) missing"
proof -
  define f0 where "f0 = (case into of None \<Rightarrow> empty_factor | Some f \<Rightarrow> f)"
  have n0: "factorNeedsOf into = factorNeedsOf (Some f0)"
    by (cases into) (simp_all add: f0_def factorNeedsOf_def no_needs_def empty_factor_def)
  from assms(1) obtain f1 where f1: "(if needEarly missing
      then map_option (\<lambda>res. res_bind res (\<lambda>(early, events). Inr (f0\<lparr>Early := Some early, gfEvents := events\<rparr>)))
             (solveFactorEarly sv gsc entry exit cfg so ro)
      else Some (Inr f0)) = Some (Inr f1)"
    and fin: "(if \<not> needLate missing then Some (Inr f1) else traceFactorLate sv f1 gsc entry exit cfg so ro) = Some (Inr f)"
    unfolding solveFactor_def f0_def [symmetric] Let_def by (auto split: option.splits sum.splits simp del: not_None_eq)
  note E = fill_early [OF assms(2) [folded f0_def] f1]
  have "factor_right sv cfg (gsc, entry, exit, so, ro) f \<and>
    factorNeedsOf (Some f) = needs_union (factorNeedsOf (Some f0)) missing"
  proof (cases "needLate missing")
    case False
    with fin E show ?thesis by (auto simp: factorNeedsOf_def needs_union_def)
  next
    case True
    have "traceFactorLate sv f1 gsc entry exit cfg so ro = Some (Inr f)" "LateEnergy f1 = None"
      using True fin assms(3) E(3) by (simp_all add: f0_def)
    note L = fill_late [OF this(1) E(1) this(2)]
    show ?thesis using L(1) L(2,3) E(2) True by (simp add: factorNeedsOf_def needs_union_def) blast
  qed
  then show "factor_right sv cfg (gsc, entry, exit, so, ro) f"
    "factorNeedsOf (Some f) = needs_union (factorNeedsOf into) missing" by (simp_all add: n0)
qed

lemma solveFactor_total:
  assumes "hop_solvable sv cfg missing (gsc, entry, exit, so, ro)"
  shows "\<exists>f. solveFactor sv gsc entry exit cfg so ro into missing = Some (Inr f)"
proof -
  define f0 where "f0 = (case into of None \<Rightarrow> empty_factor | Some f \<Rightarrow> f)"
  have "\<exists>f1. (if needEarly missing
      then map_option (\<lambda>res. res_bind res (\<lambda>(early, events). Inr (f0\<lparr>Early := Some early, gfEvents := events\<rparr>)))
             (solveFactorEarly sv gsc entry exit cfg so ro)
      else Some (Inr f0)) = Some (Inr f1)"
    using assms by (auto simp: hop_solvable_def early_half_def)
  then obtain f1 where f1: "(if needEarly missing
      then map_option (\<lambda>res. res_bind res (\<lambda>(early, events). Inr (f0\<lparr>Early := Some early, gfEvents := events\<rparr>)))
             (solveFactorEarly sv gsc entry exit cfg so ro)
      else Some (Inr f0)) = Some (Inr f1)" by blast
  have "\<exists>f2. traceFactorLate sv f1 gsc entry exit cfg so ro = Some (Inr f2)" if "needLate missing"
    using assms that by (auto simp: hop_solvable_def late_half_def traceFactorLate_def Let_def split: option.splits)
  then show ?thesis unfolding solveFactor_def f0_def [symmetric] Let_def f1 by auto
qed


subsection \<open>States of a render\<close>

text \<open>A session works with several plans, one after the other, and one response cache. \<open>W\<close> is the set
  of the plans of a session as they were prepared, before their memo was filled.\<close>

definition response_key_at ::
  "hashw \<Rightarrow> ('dir, 'h, 'g, 'b) pathPlan \<Rightarrow> networkPath \<Rightarrow> nat \<Rightarrow> cacheKey option" where
  "response_key_at configHash plan path index =
     (case (slice_at (npGroups path) (int index),
            hopPorts plan path index (index = 0) (index = length (npGroups path) - 1)) of
        (Some gid, Some (from, to)) \<Rightarrow> groupResponseKey plan gid from to configHash
      | _ \<Rightarrow> None)"

definition fresh :: "('dir, 'h, 'g, 'b) pathPlan \<Rightarrow> ('dir, 'h, 'g, 'b) pathPlan" where
  "fresh plan = plan\<lparr>ppFactors := Map.empty\<rparr>"

definition right_for_hops where
  "right_for_hops sv cfg W key_at key f \<longleftrightarrow> storable f \<and>
     (\<forall>plan \<in> W. \<forall>p \<in> set (ppPaths plan). \<forall>i hop. key_at plan p i = Some key \<longrightarrow>
        hop_of sv plan p i = Some (Inr hop) \<longrightarrow> factor_right sv cfg hop f)"

abbreviation memo_key :: "('dir, 'h, 'g, 'b) pathPlan \<Rightarrow> networkPath \<Rightarrow> nat \<Rightarrow> hopKey option" where
  "memo_key plan \<equiv> hopKeyAt"

definition memo_right where
  "memo_right sv cfg plan \<longleftrightarrow> (\<forall>key cf. ppFactors plan key = Some cf \<longrightarrow>
     (\<exists>f. cfFactor cf = Some f \<and> cfNeeds cf = factorNeedsOf (Some f) \<and>
       right_for_hops sv cfg {fresh plan} memo_key key f))"

definition cache_right where
  "cache_right sv cfg configHash W c \<longleftrightarrow> cache.sound (right_for_hops sv cfg W (response_key_at configHash)) c"

definition render_right where
  "render_right sv cfg configHash W st \<longleftrightarrow>
     fresh (fst st) \<in> W \<and> memo_right sv cfg (fst st) \<and> cache_right sv cfg configHash W (snd st)"

text \<open>What the keys have to promise: hops with the same key are simulated alike. For the memo this is
  a fact about paths of one graph; for the response cache it says that the hashes in the key do not
  collide.\<close>

definition keys_faithful where
  "keys_faithful sv cfg W key_at \<longleftrightarrow>
     (\<forall>P \<in> W. \<forall>Q \<in> W. \<forall>p \<in> set (ppPaths P). \<forall>q \<in> set (ppPaths Q). \<forall>i j key hop hop'.
        key_at P p i = Some key \<longrightarrow> key_at Q q j = Some key \<longrightarrow>
        hop_of sv P p i = Some (Inr hop) \<longrightarrow> hop_of sv Q q j = Some (Inr hop') \<longrightarrow>
        early_half sv cfg hop = early_half sv cfg hop' \<and> late_half sv cfg hop = late_half sv cfg hop')"

definition traces_storable where
  "traces_storable sv cfg \<longleftrightarrow> (\<forall>hop h dg. late_half sv cfg hop = Some (Inr (h, dg)) \<longrightarrow> Bins h \<noteq> [] \<longrightarrow> 0 \<le> hBandCount h)"

text \<open>Every hop of every path of a plan can be cut out of the scene.\<close>

definition hops_extractable where
  "hops_extractable sv plan \<longleftrightarrow> (\<forall>p \<in> set (ppPaths plan). \<forall>i < length (npGroups p). \<exists>hop. hop_of sv plan p i = Some (Inr hop))"

lemma factor_right_cong:
  "early_half sv cfg hop = early_half sv cfg hop' \<Longrightarrow> late_half sv cfg hop = late_half sv cfg hop' \<Longrightarrow>
    factor_right sv cfg hop f = factor_right sv cfg hop' f"
  unfolding factor_right_def early_right_def late_right_def by (cases "LateEnergy f") simp_all

lemma factor_right_storable:
  assumes s: "traces_storable sv cfg" and r: "factor_right sv cfg hop f"
  shows "storable f"
proof (cases "LateEnergy f")
  case (Some h)
  with r obtain dg where "late_half sv cfg hop = Some (Inr (h, dg))" by (auto simp: factor_right_def late_right_def)
  with s have "Bins h \<noteq> [] \<longrightarrow> 0 \<le> hBandCount h" unfolding traces_storable_def by blast
  with Some show ?thesis by (simp add: storable_def)
qed (simp add: storable_def)

lemma right_for_hopsI:
  assumes "keys_faithful sv cfg W key_at" "traces_storable sv cfg" "P \<in> W"
    "p \<in> set (ppPaths P)" "key_at P p i = Some key" "hop_of sv P p i = Some (Inr hop)" "factor_right sv cfg hop f"
  shows "right_for_hops sv cfg W key_at key f"
  unfolding right_for_hops_def
proof (intro conjI ballI allI impI)
  show "storable f" using assms(2,7) by (rule factor_right_storable)
  fix Q q j hop' assume "Q \<in> W" "q \<in> set (ppPaths Q)" "key_at Q q j = Some key" "hop_of sv Q q j = Some (Inr hop')"
  with assms(1,3-6) have "early_half sv cfg hop = early_half sv cfg hop'" "late_half sv cfg hop = late_half sv cfg hop'"
    unfolding keys_faithful_def by blast+
  with assms(7) show "factor_right sv cfg hop' f" using factor_right_cong by metis
qed

lemma right_for_hopsD:
  "right_for_hops sv cfg W key_at key f \<Longrightarrow> P \<in> W \<Longrightarrow> p \<in> set (ppPaths P) \<Longrightarrow> key_at P p i = Some key \<Longrightarrow>
    hop_of sv P p i = Some (Inr hop) \<Longrightarrow> factor_right sv cfg hop f"
  unfolding right_for_hops_def by blast

text \<open>Filling the memo leaves the hops and their keys alone.\<close>

lemma fresh_fields [simp]:
  "ppPaths (fresh plan) = ppPaths plan" "ppGraph (fresh plan) = ppGraph plan"
  "ppSource (fresh plan) = ppSource plan" "ppReceiver (fresh plan) = ppReceiver plan"
  "ppEndpointHash (fresh plan) = ppEndpointHash plan" "ppFactors (fresh plan) = Map.empty"
  "fresh (storeFactor plan key f n) = fresh plan" "fresh (fresh plan) = fresh plan"
  by (simp_all add: fresh_def storeFactor_def)

lemma hopPorts_fresh [simp]: "hopPorts (fresh plan) = hopPorts plan"
  by (intro ext) (simp only: hopPorts_def fresh_fields)

lemma hop_of_fresh [simp]:
  "hop_of sv (fresh plan) = hop_of sv plan"
  "response_key_at ch (fresh plan) = response_key_at ch plan"
  by (intro ext; simp only: hop_of_def response_key_at_def groupResponseKey_def fresh_fields hopPorts_fresh)+

lemma store_fields [simp]:
  "ppFactors (storeFactor plan key f n) = (ppFactors plan)(key \<mapsto> \<lparr>cfFactor = Some f, cfNeeds = n\<rparr>)"
  "ppPaths (storeFactor plan key f n) = ppPaths plan"
  by (simp_all add: storeFactor_def)

lemma memo_right_store:
  assumes "memo_right sv cfg plan" "right_for_hops sv cfg {fresh plan} memo_key key f"
  shows "memo_right sv cfg (storeFactor plan key f (factorNeedsOf (Some f)))"
  using assms unfolding memo_right_def by simp

lemma recall_right:
  assumes "render_right sv cfg ch W (plan, c)" "p \<in> set (ppPaths plan)" "hopKeyAt p i = Some key"
    "response_key_at ch plan p i = rk" "hop_of sv plan p i = Some (Inr hop)"
    "recall (plan, c) key rk = (cached, c1)"
  shows "cache_right sv cfg ch W c1" "cfNeeds cached = factorNeedsOf (cfFactor cached)"
    "cfFactor cached = Some f \<Longrightarrow> factor_right sv cfg hop f"
proof -
  have W: "fresh plan \<in> W" and memo: "memo_right sv cfg plan" and cr: "cache_right sv cfg ch W c"
    using assms(1) by (auto simp: render_right_def)
  note here = right_for_hopsD [of sv cfg _ _ _ _ "fresh plan", unfolded fresh_fields hop_of_fresh, OF _ _ assms(2) _ assms(5)]
  have "cache_right sv cfg ch W c1 \<and> cfNeeds cached = factorNeedsOf (cfFactor cached) \<and>
    (\<forall>f. cfFactor cached = Some f \<longrightarrow> factor_right sv cfg hop f)"
  proof (cases "ppFactors plan key")
    case (Some cf)
    with memo obtain f where f: "cfFactor cf = Some f" "cfNeeds cf = factorNeedsOf (Some f)"
      "right_for_hops sv cfg {fresh plan} memo_key key f" unfolding memo_right_def by blast
    then have "cached = cf" "c1 = c" using assms(6) Some by (auto simp: recall_def Let_def)
    moreover have "factor_right sv cfg hop f" using here [OF f(3)] assms(3) by simp
    ultimately show ?thesis using f cr by simp
  next
    case None
    show ?thesis
    proof (cases "rk = None \<or> fst (cache_get c (the rk)) = None")
      case True
      then have "cached = \<lparr>cfFactor = None, cfNeeds = no_needs\<rparr> \<and> c1 = (if rk = None then c else snd (cache_get c (the rk)))"
        using None assms(6) by (cases rk; cases "cache_get c (the rk)") (simp_all add: recall_def Let_def)
      then show ?thesis using cr by (simp add: factorNeedsOf_def cache_right_def cache.sound_lookup)
    next
      case False
      then obtain k f where rk: "rk = Some k" and hit: "fst (cache_get c k) = Some f" by auto
      with None assms(6) have e: "cached = \<lparr>cfFactor = Some f, cfNeeds = factorNeedsOf (Some f)\<rparr> \<and> c1 = snd (cache_get c k)"
        by (cases "cache_get c k") (simp add: recall_def Let_def)
      have "right_for_hops sv cfg W (response_key_at ch) k f"
        using cr hit unfolding cache_right_def by (rule cache.sound_hit)
      then have "factor_right sv cfg hop f" by (rule here [OF _ W]) (use assms(4) rk in simp)
      with e cr show ?thesis by (simp add: cache_right_def cache.sound_lookup)
    qed
  qed
  then show "cache_right sv cfg ch W c1" "cfNeeds cached = factorNeedsOf (cfFactor cached)"
    "cfFactor cached = Some f \<Longrightarrow> factor_right sv cfg hop f" by auto
qed


lemma needs_facts:
  "needs_union (factorNeedsOf f) (needs_missing (factorNeedsOf f) want) = needs_union (factorNeedsOf f) want"
  "needs_empty (needs_missing n want) \<Longrightarrow> needs_union n want = n"
  by (cases want; auto simp: needs_union_def needs_missing_def needs_empty_def)+

lemma has_needs_union: "factorNeedsOf (Some f) = needs_union n want \<Longrightarrow> has_needs want f"
  by (auto simp: factorNeedsOf_def needs_union_def has_needs_def)

lemma hop_of_ports:
  assumes "hop_of sv plan p i = Some (Inr hop)"
  obtains gid fr to key where "slice_at (npGroups p) (int i) = Some gid"
    "hopPorts plan p i (i = 0) (i = length (npGroups p) - 1) = Some (fr, to)" "hopKeyAt p i = Some key"
    "response_key_at ch plan p i = groupResponseKey plan gid fr to ch"
proof -
  obtain gid where gid: "slice_at (npGroups p) (int i) = Some gid" using assms by (auto simp: hop_of_def split: option.splits)
  obtain fr to where ports: "hopPorts plan p i (i = 0) (i = length (npGroups p) - 1) = Some (fr, to)"
    using assms gid by (auto simp: hop_of_def split: option.splits sum.splits)
  have lt: "i < length (npGroups p)" using gid by (auto simp: slice_at_def split: if_splits)
  have "\<exists>v. slice_at (npPortals p) (int i - 1) = Some v" if "i \<noteq> 0"
    using ports that by (auto simp: hopPorts_def portal_port_at_def split: option.splits if_splits)
  moreover have "\<exists>v. slice_at (npPortals p) (int i) = Some v" if "i < length (npGroups p) - 1"
    using ports that by (auto simp: hopPorts_def portal_port_at_def split: option.splits if_splits)
  ultimately have "\<exists>key. hopKeyAt p i = Some key"
    using gid by (cases "i = 0"; cases "i < length (npGroups p) - 1") (auto simp: hopKeyAt_def)
  with that gid ports show thesis by (auto simp: response_key_at_def)
qed

lemma render_hop_body:
  assumes "slice_at (npGroups p) (int i) = Some gid"
    "hopPorts plan p i (i = 0) (i = length (npGroups p) - 1) = Some (fr, to)" "hopKeyAt p i = Some key"
    "response_key_at ch plan p i = groupResponseKey plan gid fr to ch"
    "recall (plan, c) key (groupResponseKey plan gid fr to ch) = (cached, c1)"
  shows "render_hop sv ch p cfg needs i (plan, c) =
    (let missing = needs_missing (cfNeeds cached) needs;
         solve = (\<lambda>into. case solveHop sv plan p i cfg into missing of
            None \<Rightarrow> None
          | Some (Inl e) \<Rightarrow> Some (Inl e, (plan, c1))
          | Some (Inr f) \<Rightarrow> Some (Inr f, (storeFactor plan key f (needs_union (cfNeeds cached) needs),
                (case groupResponseKey plan gid fr to ch of None \<Rightarrow> c1 | Some rk \<Rightarrow> cache_put c1 rk (Some f))))) in
     case cfFactor cached of
       Some f \<Rightarrow> if needs_empty missing then Some (Inr f, (storeFactor plan key f (cfNeeds cached), c1)) else solve (Some f)
     | None \<Rightarrow> solve None)"
  unfolding render_hop_def fst_conv assms Let_def option.case prod.case ..

text \<open>A hop that succeeds returns a right factor with the halves asked for; whatever the outcome, memo and
  cache stay right.\<close>

lemma render_hop_right:
  assumes st: "render_right sv cfg ch W (plan, c)" and p: "p \<in> set (ppPaths plan)"
    and hop: "hop_of sv plan p i = Some (Inr hop)"
    and keys: "keys_faithful sv cfg {fresh plan} memo_key" "keys_faithful sv cfg W (response_key_at ch)"
    and tr: "traces_storable sv cfg" and run: "render_hop sv ch p cfg needs i (plan, c) = Some (r, (plan', c'))"
  shows "render_right sv cfg ch W (plan', c') \<and> fresh plan' = fresh plan \<and>
    (\<forall>f. r = Inr f \<longrightarrow> factor_right sv cfg hop f \<and> has_needs needs f)"
proof -
  obtain gid fr to key where k: "slice_at (npGroups p) (int i) = Some gid"
    "hopPorts plan p i (i = 0) (i = length (npGroups p) - 1) = Some (fr, to)" "hopKeyAt p i = Some key"
    "response_key_at ch plan p i = groupResponseKey plan gid fr to ch"
    by (rule hop_of_ports [OF hop])
  let ?rk = "groupResponseKey plan gid fr to ch"
  obtain cached c1 where rec: "recall (plan, c) key ?rk = (cached, c1)" by (cases "recall (plan, c) key ?rk")
  note R = recall_right [OF st p k(3) k(4) hop rec]
  have W: "fresh plan \<in> W" and memo: "memo_right sv cfg plan" using st by (simp_all add: render_right_def)
  let ?missing = "needs_missing (cfNeeds cached) needs"
  let ?put = "\<lambda>f. case ?rk of None \<Rightarrow> c1 | Some rk \<Rightarrow> cache_put c1 rk (Some f)"
  have stored: "right_for_hops sv cfg {fresh plan} memo_key key f"
      "?rk = Some rk \<Longrightarrow> right_for_hops sv cfg W (response_key_at ch) rk f"
    if "factor_right sv cfg hop f" for f rk
    using right_for_hopsI [OF keys(1) tr _ _ _ _ that, of "fresh plan" p i key]
      right_for_hopsI [OF keys(2) tr W _ _ _ that, of p i rk] p k(3,4) hop by simp_all
  have put: "cache_right sv cfg ch W (?put f)" if f: "factor_right sv cfg hop f" for f
    using R(1) stored(2) [OF f] factor_right_storable [OF tr f] unfolding cache_right_def
    by (auto split: option.splits intro: cache.sound_store)
  have fin: "render_right sv cfg ch W (storeFactor plan key f (factorNeedsOf (Some f)), c2)"
    if "factor_right sv cfg hop f" "cache_right sv cfg ch W c2" for f c2
    using memo_right_store [OF memo stored(1) [OF that(1)]] that(2) W by (simp add: render_right_def)
  have solve: "factor_right sv cfg hop f" "factorNeedsOf (Some f) = needs_union (cfNeeds cached) needs"
    if "solveHop sv plan p i cfg (cfFactor cached) ?missing = Some (Inr f)" for f
  proof -
    obtain gsc entry exit so ro where h: "hop = (gsc, entry, exit, so, ro)" by (cases hop)
    have s: "solveFactor sv gsc entry exit cfg so ro (cfFactor cached) ?missing = Some (Inr f)"
      using that hop by (simp add: solveHop_hop_of h)
    have "factor_right sv cfg hop (case cfFactor cached of None \<Rightarrow> empty_factor | Some f \<Rightarrow> f)"
      using R(3) by (cases "cfFactor cached") (simp_all add: factor_right_empty)
    moreover have "LateEnergy (case cfFactor cached of None \<Rightarrow> empty_factor | Some f \<Rightarrow> f) = None" if "needLate ?missing"
      using that R(2) by (cases "cfFactor cached") (simp_all add: needs_missing_def factorNeedsOf_def empty_factor_def)
    ultimately show "factor_right sv cfg hop f" "factorNeedsOf (Some f) = needs_union (cfNeeds cached) needs"
      using solveFactor_correct [OF s] R(2) by (simp_all add: h needs_facts(1))
  qed
  show ?thesis
  proof (cases "cfFactor cached \<noteq> None \<and> needs_empty ?missing")
    case True
    then obtain f where f: "cfFactor cached = Some f" by auto
    have "r = Inr f" "plan' = storeFactor plan key f (cfNeeds cached)" "c' = c1"
      using run True f unfolding render_hop_body [OF k rec] by auto
    moreover have "has_needs needs f"
      using has_needs_union [of f "cfNeeds cached" needs] R(2) f needs_facts(2) [of "cfNeeds cached" needs] True by simp
    ultimately show ?thesis using fin [OF R(3) [OF f] R(1)] R(2) R(3) [OF f] f by simp
  next
    case False
    then have run': "(case solveHop sv plan p i cfg (cfFactor cached) ?missing of
        None \<Rightarrow> None
      | Some (Inl e) \<Rightarrow> Some (Inl e, (plan, c1))
      | Some (Inr f) \<Rightarrow> Some (Inr f, (storeFactor plan key f (needs_union (cfNeeds cached) needs), ?put f))) = Some (r, (plan', c'))"
      using run unfolding render_hop_body [OF k rec] by (cases "cfFactor cached") auto
    show ?thesis
    proof (cases "solveHop sv plan p i cfg (cfFactor cached) ?missing")
      case (Some res)
      show ?thesis
      proof (cases res)
        case (Inl e)
        with Some run' R(1) st show ?thesis by (auto simp: render_right_def)
      next
        case (Inr f)
        note S = solve [OF Some [unfolded Inr]]
        from Some Inr run' have "r = Inr f" "plan' = storeFactor plan key f (needs_union (cfNeeds cached) needs)" "c' = ?put f"
          by auto
        with fin [OF S(1) put [OF S(1)]] S has_needs_union [OF S(2)] show ?thesis by simp
      qed
    qed (use run' in simp)
  qed
qed

text \<open>A hop whose missing halves can be simulated succeeds.\<close>

lemma render_hop_total:
  assumes hop: "hop_of sv plan p i = Some (Inr hop)" and solv: "hop_solvable sv cfg needs hop"
  shows "\<exists>f st'. render_hop sv ch p cfg needs i (plan, c) = Some (Inr f, st')"
proof -
  obtain gid fr to key where k: "slice_at (npGroups p) (int i) = Some gid"
    "hopPorts plan p i (i = 0) (i = length (npGroups p) - 1) = Some (fr, to)" "hopKeyAt p i = Some key"
    "response_key_at ch plan p i = groupResponseKey plan gid fr to ch"
    by (rule hop_of_ports [OF hop])
  let ?rk = "groupResponseKey plan gid fr to ch"
  obtain cached c1 where rec: "recall (plan, c) key ?rk = (cached, c1)" by (cases "recall (plan, c) key ?rk")
  obtain gsc entry exit so ro where h: "hop = (gsc, entry, exit, so, ro)" by (cases hop)
  have "hop_solvable sv cfg (needs_missing (cfNeeds cached) needs) hop" using solv by (simp add: hop_solvable_def needs_missing_def)
  from solveFactor_total [OF this [unfolded h]]
  obtain f where "solveHop sv plan p i cfg (cfFactor cached) (needs_missing (cfNeeds cached) needs) = Some (Inr f)"
    using hop h by (auto simp: solveHop_hop_of)
  then show ?thesis unfolding render_hop_body [OF k rec] Let_def
    by (cases "cfFactor cached"; cases "needs_empty (needs_missing (cfNeeds cached) needs)") simp_all
qed

text \<open>The same for the hops of a path.\<close>

lemma render_hops_right:
  assumes "render_right sv cfg ch W (plan, c)" "p \<in> set (ppPaths plan)" "hops_extractable sv plan"
    "set is \<subseteq> {..<length (npGroups p)}"
    "keys_faithful sv cfg {fresh plan} memo_key" "keys_faithful sv cfg W (response_key_at ch)"
    "traces_storable sv cfg" "render_hops sv ch p cfg needs is (plan, c) = Some (r, (plan', c'))"
  shows "render_right sv cfg ch W (plan', c') \<and> fresh plan' = fresh plan \<and>
    (\<forall>fs. r = Inr fs \<longrightarrow> length fs = length is \<and> (\<forall>k < length is. \<forall>hop. hop_of sv plan p (is ! k) = Some (Inr hop) \<longrightarrow>
      factor_right sv cfg hop (fs ! k) \<and> has_needs needs (fs ! k)))"
  using assms(1-5,8)
proof (induction "is" arbitrary: plan c r)
  case (Cons i "is")
  have "i < length (npGroups p)" using Cons.prems(4) by simp
  with Cons.prems(2,3) obtain hop where hop: "hop_of sv plan p i = Some (Inr hop)" unfolding hops_extractable_def by blast
  from Cons.prems(6) obtain r1 plan1 c1 where run: "render_hop sv ch p cfg needs i (plan, c) = Some (r1, (plan1, c1))"
    by (cases "render_hop sv ch p cfg needs i (plan, c)") auto
  note H = render_hop_right [OF Cons.prems(1,2) hop Cons.prems(5) assms(6,7) run]
  show ?case
  proof (cases r1)
    case (Inl e)
    with Cons.prems(6) run H show ?thesis by auto
  next
    case (Inr f)
    from Cons.prems(6) run Inr obtain r2 where run2: "render_hops sv ch p cfg needs is (plan1, c1) = Some (r2, (plan', c'))"
      and r: "r = (case r2 of Inl e \<Rightarrow> Inl e | Inr fs \<Rightarrow> Inr (f # fs))"
      by (auto split: option.splits sum.splits)
    have fr: "fresh plan1 = fresh plan" using H by blast
    then have eq: "ppPaths plan1 = ppPaths plan" "hop_of sv plan1 = hop_of sv plan"
      using fresh_fields(1) hop_of_fresh(1) by metis+
    have ih: "render_right sv cfg ch W (plan', c') \<and> fresh plan' = fresh plan1 \<and>
      (\<forall>fs. r2 = Inr fs \<longrightarrow> length fs = length is \<and> (\<forall>k < length is. \<forall>hop. hop_of sv plan1 p (is ! k) = Some (Inr hop) \<longrightarrow>
        factor_right sv cfg hop (fs ! k) \<and> has_needs needs (fs ! k)))"
      using Cons.prems(2-5) H run2 fr eq by (intro Cons.IH) (auto simp: hops_extractable_def)
    show ?thesis
    proof (intro conjI allI impI)
      fix fs assume "r = Inr fs"
      then obtain gs where gs: "r2 = Inr gs" "fs = f # gs" using r by (cases r2) auto
      with ih have rest: "length gs = length is" "\<And>k hop. k < length is \<Longrightarrow> hop_of sv plan p (is ! k) = Some (Inr hop) \<Longrightarrow>
        factor_right sv cfg hop (gs ! k) \<and> has_needs needs (gs ! k)" by (auto simp: eq)
      then show "length fs = length (i # is)" using gs by simp
      fix k hop' assume "k < length (i # is)" "hop_of sv plan p ((i # is) ! k) = Some (Inr hop')"
      then show "factor_right sv cfg hop' (fs ! k)" "has_needs needs (fs ! k)"
        using rest(2) H Inr hop gs(2) by (cases k; simp)+
    qed (use ih fr in auto)
  qed
qed auto

lemma render_hop_fresh:
  "render_hop sv ch p cfg needs i (plan, c) = Some (r, (plan', c')) \<Longrightarrow> fresh plan' = fresh plan"
  unfolding render_hop_def by (auto simp: Let_def split: option.splits sum.splits prod.splits if_splits)

lemma render_hops_total:
  assumes "\<forall>i \<in> set is. \<exists>hop. hop_of sv plan p i = Some (Inr hop) \<and> hop_solvable sv cfg needs hop"
  shows "\<exists>fs st'. render_hops sv ch p cfg needs is (plan, c) = Some (Inr fs, st')"
  using assms
proof (induction "is" arbitrary: plan c)
  case (Cons i "is")
  then obtain hop where "hop_of sv plan p i = Some (Inr hop)" "hop_solvable sv cfg needs hop" by auto
  from render_hop_total [OF this] obtain f plan1 c1 where f: "render_hop sv ch p cfg needs i (plan, c) = Some (Inr f, (plan1, c1))"
    by (metis surj_pair)
  have "hop_of sv plan1 = hop_of sv plan" using render_hop_fresh [OF f] hop_of_fresh(1) by metis
  with Cons.IH [of plan1 c1] Cons.prems f show ?case by fastforce
qed simp

subsection \<open>Hop keys on paths of one graph\<close>

definition path_ok :: "('dir, 'h, 'g, 'b) graph \<Rightarrow> networkPath \<Rightarrow> bool" where
  "path_ok g p \<longleftrightarrow> length (npGroups p) = Suc (length (npPortals p)) \<and>
     (\<forall>k < length (npPortals p). npPortals p ! k \<in> set (group_out g (npGroups p ! k)) \<and>
        ToGroup (npPortals p ! k) = npGroups p ! Suc k)"


lemma same_view:
  assumes g: "graph_ok g" and e: "e \<in> set (group_out g a)" "e' \<in> set (group_out g a')"
    and i: "PortalIndex (View e) = PortalIndex (View e')" and t: "a = a' \<or> ToGroup e = ToGroup e'"
  shows "View e = View e'"
proof -
  note r = group_out_range [OF g e(1)] and r' = group_out_range [OF g e(2)]
  have m: "(if Reversed (View e) then (ToRoom (View e), FromRoom (View e)) else (FromRoom (View e), ToRoom (View e))) =
    (if Reversed (View e') then (ToRoom (View e'), FromRoom (View e')) else (FromRoom (View e'), ToRoom (View e')))"
    using r(7) r'(7) i by (simp add: view_matches_def)
  have rev: "Reversed (View e) = Reversed (View e')"
  proof (rule ccontr)
    assume "Reversed (View e) \<noteq> Reversed (View e')"
    with m have "FromRoom (View e) = ToRoom (View e')" "ToRoom (View e) = FromRoom (View e')"
      by (auto split: if_splits)
    with r(4,8,9) r'(4,8,9) t show False by auto
  qed
  with m have "FromRoom (View e) = FromRoom (View e')" "ToRoom (View e) = ToRoom (View e')" by (auto split: if_splits)
  with rev i show ?thesis by (cases "View e"; cases "View e'") simp
qed

lemma path_okD:
  assumes "path_ok g p" "k < length (npPortals p)"
  shows "npPortals p ! k \<in> set (group_out g (npGroups p ! k))" "ToGroup (npPortals p ! k) = npGroups p ! Suc k"
  using assms by (auto simp: path_ok_def)

lemma portal_port_at_view:
  "i < length (npPortals p) \<Longrightarrow> j < length (npPortals q) \<Longrightarrow> View (npPortals p ! i) = View (npPortals q ! j) \<Longrightarrow>
    portal_port_at s p (int i) b = portal_port_at s q (int j) b"
  by (simp add: portal_port_at_def slice_at_def portalPort_def)

lemma hopKeyAt_Some:
  assumes "path_ok g p" "hopKeyAt p i = Some key"
  shows "i < length (npGroups p)" "hkGroup key = npGroups p ! i"
    "hkEntry key = (if i = 0 then portalNone else PortalIndex (View (npPortals p ! (i - 1))))"
    "hkExit key = (if i < length (npPortals p) then PortalIndex (View (npPortals p ! i)) else portalNone)"
proof -
  have l: "length (npGroups p) = Suc (length (npPortals p))" using assms(1) by (simp add: path_ok_def)
  show i: "i < length (npGroups p)" using assms(2) by (auto simp: hopKeyAt_def slice_at_def split: option.splits if_splits)
  have n: "nat (int i - 1) = i - 1" by simp
  show "hkGroup key = npGroups p ! i"
    "hkEntry key = (if i = 0 then portalNone else PortalIndex (View (npPortals p ! (i - 1))))"
    "hkExit key = (if i < length (npPortals p) then PortalIndex (View (npPortals p ! i)) else portalNone)"
    using assms(2) i l by (auto simp: hopKeyAt_def slice_at_def n split: option.splits if_splits)
qed

lemma hop_key_determines_hop:
  assumes g: "graph_ok (ppGraph plan)" and p: "path_ok (ppGraph plan) p" and q: "path_ok (ppGraph plan) q"
    and k: "hopKeyAt p i = Some key" "hopKeyAt q j = Some key"
  shows "hop_of sv plan p i = hop_of sv plan q j"
proof -
  note P = hopKeyAt_Some [OF p k(1)] and Q = hopKeyAt_Some [OF q k(2)]
  have lp: "length (npGroups p) = Suc (length (npPortals p))" "length (npGroups q) = Suc (length (npPortals q))"
    using p q by (auto simp: path_ok_def)
  have idx: "PortalIndex (View (npPortals r ! m)) \<noteq> portalNone" if "path_ok (ppGraph plan) r" "m < length (npPortals r)" for r m
    using group_out_range(5) [OF g path_okD(1) [OF that]] by (simp add: portalNone_def)
  have z: "i = 0 \<longleftrightarrow> j = 0"
  proof -
    have "hkEntry key = portalNone \<longleftrightarrow> i = 0"
      using P(1,3) idx [OF p, of "i - 1"] lp(1) by (cases "i = 0") simp_all
    moreover have "hkEntry key = portalNone \<longleftrightarrow> j = 0"
      using Q(1,3) idx [OF q, of "j - 1"] lp(2) by (cases "j = 0") simp_all
    ultimately show ?thesis by simp
  qed
  have e: "i < length (npPortals p) \<longleftrightarrow> j < length (npPortals q)"
    using P(4) Q(4) idx [OF p, of i] idx [OF q, of j] by (auto split: if_splits)
  have grp: "npGroups p ! i = npGroups q ! j" using P(2) Q(2) by simp
  have entry: "portal_port_at (gScene (ppGraph plan)) p (int i - 1) True = portal_port_at (gScene (ppGraph plan)) q (int j - 1) True"
    if "i \<noteq> 0"
  proof -
    have l: "i - 1 < length (npPortals p)" "j - 1 < length (npPortals q)" using that z P(1) Q(1) lp by auto
    have "ToGroup (npPortals p ! (i - 1)) = ToGroup (npPortals q ! (j - 1))"
      using path_okD(2) [OF p l(1)] path_okD(2) [OF q l(2)] grp that z by simp
    then have "View (npPortals p ! (i - 1)) = View (npPortals q ! (j - 1))"
      using same_view [OF g path_okD(1) [OF p l(1)] path_okD(1) [OF q l(2)]] P(3) Q(3) that z by simp
    from portal_port_at_view [OF l this] that z show ?thesis by (simp add: of_nat_diff)
  qed
  have exit: "portal_port_at (gScene (ppGraph plan)) p (int i) False = portal_port_at (gScene (ppGraph plan)) q (int j) False"
    if l: "i < length (npPortals p)"
  proof -
    have l': "j < length (npPortals q)" using e l by simp
    have "View (npPortals p ! i) = View (npPortals q ! j)"
      using same_view [OF g path_okD(1) [OF p l] path_okD(1) [OF q l']] P(4) Q(4) l l' grp by simp
    from portal_port_at_view [OF l l' this] show ?thesis .
  qed
  have last: "i = length (npGroups p) - 1 \<longleftrightarrow> j = length (npGroups q) - 1" using e P(1) Q(1) lp by auto
  have ports: "hopPorts plan p i (i = 0) (i = length (npGroups p) - 1) = hopPorts plan q j (j = 0) (j = length (npGroups q) - 1)"
    unfolding hopPorts_def last z using entry exit z e P(1) Q(1) lp
    by (cases "j = 0"; cases "j = length (npGroups q) - 1") (auto simp: last)
  have s: "slice_at (npGroups p) (int i) = slice_at (npGroups q) (int j)" using P(1) Q(1) grp by simp
  show ?thesis unfolding hop_of_def last z s ports [unfolded last z] ..
qed

lemma hop_keys_faithful:
  assumes "graph_ok (ppGraph plan)" "\<forall>p \<in> set (ppPaths plan). path_ok (ppGraph plan) p"
  shows "keys_faithful sv cfg {fresh plan} memo_key"
  unfolding keys_faithful_def
proof (intro allI ballI impI)
  fix P Q p q i j key hop hop'
  assume "P \<in> {fresh plan}" "Q \<in> {fresh plan}" and p: "p \<in> set (ppPaths P)" "q \<in> set (ppPaths Q)"
    and k: "hopKeyAt p i = Some key" "hopKeyAt q j = Some key"
    and h: "hop_of sv P p i = Some (Inr hop)" "hop_of sv Q q j = Some (Inr hop')"
  then have e: "P = fresh plan" "Q = fresh plan" by auto
  have "hop_of sv plan p i = hop_of sv plan q j"
    by (rule hop_key_determines_hop [OF assms(1) _ _ k]) (use assms(2) p e in auto)
  with h e show "early_half sv cfg hop = early_half sv cfg hop' \<and> late_half sv cfg hop = late_half sv cfg hop'" by simp
qed

end
