(* ===== verification/Response_Rendering.thy ===== *)
theory Response_Rendering
  imports Responses
begin

text \<open>
  What the renderers of package ir compute: the shape of banded responses, the event loop of
  \<open>BandedFromEvents\<close> as a fold of in-range sample updates on every band, and the event loop of
  the band renderer as the same fold on one buffer.
\<close>

subsection \<open>Shapes\<close>

definition shaped :: "nat \<Rightarrow> nat \<Rightarrow> f64 list list \<Rightarrow> bool" where
  "shaped n len rows \<longleftrightarrow> length rows = n \<and> (\<forall>row \<in> set rows. length row = len)"

definition response_shaped :: "nat \<Rightarrow> nat \<Rightarrow> BandedResponse \<Rightarrow> bool" where
  "response_shaped n len r \<longleftrightarrow> shaped n len (Bands r) \<and> (Quadrature r = [] \<or> shaped n len (Quadrature r))"

lemma shapedD: "shaped n len rows \<Longrightarrow> length rows = n" "shaped n len rows \<Longrightarrow> i < n \<Longrightarrow> length (rows ! i) = len"
  by (auto simp: shaped_def)

lemma shaped_map: "(\<And>i. i < n \<Longrightarrow> length (f i) = len) \<Longrightarrow> shaped n len (map f [0..<n])"
  by (auto simp: shaped_def)

lemma fill_const_iff: "0 < n \<Longrightarrow> fill n (\<lambda>_. x) = Some ys \<longleftrightarrow> (\<exists>y. x = Some y \<and> ys = replicate n y)"
proof
  assume "0 < n" "fill n (\<lambda>_. x) = Some ys"
  then have l: "length ys = n" and f: "\<forall>i < n. x = Some (ys ! i)" by (auto simp: fill_Some_iff)
  with \<open>0 < n\<close> obtain y where x: "x = Some y" by blast
  with f have "\<forall>i < n. ys ! i = y" by simp
  with l have "ys = replicate n y" by (intro nth_equalityI) simp_all
  with x show "\<exists>y. x = Some y \<and> ys = replicate n y" by blast
next
  assume "\<exists>y. x = Some y \<and> ys = replicate n y"
  then show "fill n (\<lambda>_. x) = Some ys" by (auto simp: fill_Some_iff)
qed

lemma allocBands_Some_iff:
  "allocBands n len = Some rows \<longleftrightarrow>
     0 \<le> n \<and> 24 * n \<le> 2 ^ 48 \<and> (0 < n \<longrightarrow> 0 \<le> len \<and> len \<le> 2 ^ 45) \<and>
     rows = replicate (nat n) (replicate (nat len) (Zero False))"
proof (cases "0 \<le> n \<and> 24 * n \<le> 2 ^ 48")
  case True
  then have "allocBands n len = fill (nat n) (\<lambda>_. make_floats len)"
    by (simp add: allocBands_def make_slice_def)
  moreover have "fill (nat n) (\<lambda>_. make_floats len) = Some rows \<longleftrightarrow>
      (0 < n \<longrightarrow> 0 \<le> len \<and> len \<le> 2 ^ 45) \<and> rows = replicate (nat n) (replicate (nat len) (Zero False))"
  proof (cases "n = 0")
    case False
    with True have "0 < nat n" by simp
    then show ?thesis
      using True False by (simp add: fill_const_iff make_floats_Some_iff)
  qed (simp add: fill_Some_iff)
  ultimately show ?thesis using True by simp
next
  case False
  then have "make_slice 24 ([] :: f64 list) n = None" by (auto simp: make_slice_def)
  with False show ?thesis by (auto simp: allocBands_def)
qed

lemma shaped_alloc: "allocBands n len = Some rows \<Longrightarrow> shaped (nat n) (nat len) rows"
  by (auto simp: allocBands_Some_iff shaped_def)

subsection \<open>Adding events\<close>

definition event_fits :: "int \<Rightarrow> Event \<Rightarrow> bool" where
  "event_fits bandCount e \<longleftrightarrow>
     \<not> flt (TimeSeconds e) (Zero False) \<and> (BandGain e = [] \<or> int (length (BandGain e)) = bandCount)"

lemma validateBandedEvents_None_iff:
  "validateBandedEvents events bandCount k = None \<longleftrightarrow> (\<forall>e \<in> set events. event_fits bandCount e)"
  by (induction events arbitrary: k) (auto simp: event_fits_def)

definition weight_at :: "Event \<Rightarrow> nat \<Rightarrow> f64" where
  "weight_at e band = (if BandGain e = [] then round64 1 else BandGain e ! band)"

definition put_sample :: "int \<Rightarrow> int \<Rightarrow> f64 \<Rightarrow> f64 list \<Rightarrow> f64 list" where
  "put_sample len i v row = (if i < 0 \<or> len \<le> i then row else row[nat i := fadd (row ! nat i) v])"

lemma length_put_sample [simp]: "length (put_sample len i v row) = length row"
  by (simp add: put_sample_def)

lemma event_weight_fits: "event_fits (int n) e \<Longrightarrow> band < n \<Longrightarrow> event_weight e (int band) = Some (weight_at e band)"
  by (auto simp: event_weight_def weight_at_def event_fits_def)

lemma add_to_bands_fits:
  assumes "shaped n len rows" "event_fits (int n) e" "0 \<le> i" "i < int len"
  shows "add_to_bands rows n i v e =
    Some (map (\<lambda>band. put_sample (int len) i (fmul v (weight_at e band)) (rows ! band)) [0..<n])"
  unfolding add_to_bands_def
  using assms
  by (intro fill_SomeI) (auto simp: shapedD event_weight_fits add_at_Some_iff put_sample_def)

definition in_phase :: "(f64 \<Rightarrow> f64) \<Rightarrow> Event \<Rightarrow> nat \<Rightarrow> f64" where
  "in_phase cosine e band = fmul (fmul (Amplitude e) (cosine (PhaseRadians e))) (weight_at e band)"

definition put_event :: "(f64 \<Rightarrow> f64) \<Rightarrow> int \<Rightarrow> int \<Rightarrow> nat \<Rightarrow> f64 list \<Rightarrow> Event \<Rightarrow> f64 list" where
  "put_event trig sampleRate len band row e =
     put_sample len (sample_index e sampleRate) (in_phase trig e band) row"

lemma length_put_event [simp]: "length (put_event trig sr len band row e) = length row"
  by (simp add: put_event_def)

lemma length_foldl_put_event [simp]: "length (foldl (put_event trig sr len band) row es) = length row"
  by (induction es arbitrary: row) simp_all

definition put_rows :: "(f64 \<Rightarrow> f64) \<Rightarrow> int \<Rightarrow> int \<Rightarrow> f64 list list \<Rightarrow> Event \<Rightarrow> f64 list list" where
  "put_rows trig sr len rows e = map (\<lambda>band. put_event trig sr len band (rows ! band) e) [0..<length rows]"

lemma shaped_put_rows: "shaped n len rows \<Longrightarrow> shaped n len (put_rows trig sr l rows e)"
  by (auto simp: shaped_def put_rows_def)

lemma foldl_put_rows:
  "band < length rows \<Longrightarrow> foldl (put_rows trig sr len) rows es ! band = foldl (put_event trig sr len band) (rows ! band) es"
  by (induction es arbitrary: rows) (simp_all add: put_rows_def)

lemma length_foldl_put_rows [simp]: "length (foldl (put_rows trig sr len) rows es) = length rows"
  by (induction es arbitrary: rows) (simp_all add: put_rows_def)

lemma foldl_put_rows_Nil_iff [simp]: "foldl (put_rows trig sr len) rows es = [] \<longleftrightarrow> rows = []"
  by (metis length_0_conv length_foldl_put_rows)

definition put_response ::
  "(f64 \<Rightarrow> f64) \<Rightarrow> (f64 \<Rightarrow> f64) \<Rightarrow> int \<Rightarrow> int \<Rightarrow> BandedResponse \<Rightarrow> Event \<Rightarrow> BandedResponse" where
  "put_response cosine sine sr len r e =
     r\<lparr>Bands := put_rows cosine sr len (Bands r) e, Quadrature := put_rows sine sr len (Quadrature r) e\<rparr>"

lemma put_rows_outside:
  assumes "sample_index e sr < 0 \<or> len \<le> sample_index e sr"
  shows "put_rows trig sr len rows e = rows"
  using assms by (auto simp: put_rows_def put_event_def put_sample_def intro: nth_equalityI)

lemma add_event_fits:
  assumes "response_shaped n len r" "event_fits (int n) e" "BandCount (rcBandSpec cfg) = int n"
  shows "add_event cosine sine cfg (int len) r e = Some (put_response cosine sine (rcSampleRate cfg) (int len) r e)"
proof (cases "sample_index e (rcSampleRate cfg) < 0 \<or> int len \<le> sample_index e (rcSampleRate cfg)")
  case True
  then have "put_response cosine sine (rcSampleRate cfg) (int len) r e = r"
    by (simp add: put_response_def put_rows_outside)
  with True show ?thesis by (simp add: add_event_def Let_def)
next
  case False
  have s: "shaped n len (Bands r)" using assms(1) by (simp add: response_shaped_def)
  have rows: "add_to_bands rows n (sample_index e (rcSampleRate cfg)) (fmul (Amplitude e) (trig (PhaseRadians e))) e
      = Some (put_rows trig (rcSampleRate cfg) (int len) rows e)" if "shaped n len rows" for trig rows
    using add_to_bands_fits [OF that assms(2)] False that
    by (simp add: put_rows_def put_event_def in_phase_def shapedD)
  show ?thesis
  proof (cases "Quadrature r = []")
    case True
    with False s rows assms(3) show ?thesis
      by (simp add: add_event_def Let_def put_response_def HasQuadrature_def put_rows_def)
  next
    case q: False
    with assms(1) have "shaped n len (Quadrature r)" by (simp add: response_shaped_def)
    with q False s rows assms(3) show ?thesis
      by (simp add: add_event_def Let_def put_response_def HasQuadrature_def)
  qed
qed

lemma response_shaped_put:
  "response_shaped n len r \<Longrightarrow> response_shaped n len (put_response cosine sine sr l r e)"
  using shaped_put_rows by (auto simp: response_shaped_def put_response_def put_rows_def [of _ _ _ "[]"])

lemma add_events_fit:
  assumes "response_shaped n len r" "\<forall>e \<in> set events. event_fits (int n) e" "BandCount (rcBandSpec cfg) = int n"
  shows "opt_foldl (add_event cosine sine cfg (int len)) r events =
      Some (foldl (put_response cosine sine (rcSampleRate cfg) (int len)) r events) \<and>
    response_shaped n len (foldl (put_response cosine sine (rcSampleRate cfg) (int len)) r events)"
  using assms by (intro opt_foldl_pure) (auto simp: add_event_fits intro: response_shaped_put)

lemma foldl_put_response:
  "Bands (foldl (put_response cosine sine sr len) r es) = foldl (put_rows cosine sr len) (Bands r) es"
  "Quadrature (foldl (put_response cosine sine sr len) r es) = foldl (put_rows sine sr len) (Quadrature r) es"
  "brSampleRate (foldl (put_response cosine sine sr len) r es) = brSampleRate r"
  by (induction es arbitrary: r) (simp_all add: put_response_def)

subsection \<open>What the renderers compute\<close>

text \<open>The value of one sample: the contributions of the events that land on it, added in order.\<close>

definition sample_sum :: "(Event \<Rightarrow> f64) \<Rightarrow> int \<Rightarrow> Event list \<Rightarrow> nat \<Rightarrow> f64" where
  "sample_sum contribution sr events i =
     foldl fadd (Zero False) (map contribution (filter (\<lambda>e. sample_index e sr = int i) events))"

lemma foldl_put_event_nth:
  "i < length row \<Longrightarrow> len = int (length row) \<Longrightarrow>
   foldl (put_event trig sr len band) row es ! i =
     foldl fadd (row ! i) (map (\<lambda>e. in_phase trig e band) (filter (\<lambda>e. sample_index e sr = int i) es))"
proof (induction es arbitrary: row)
  case (Cons e es)
  let ?row = "put_event trig sr len band row e"
  have "foldl (put_event trig sr len band) ?row es ! i =
    foldl fadd (?row ! i) (map (\<lambda>e. in_phase trig e band) (filter (\<lambda>e. sample_index e sr = int i) es))"
    using Cons.prems by (intro Cons.IH) simp_all
  moreover have "?row ! i = (if sample_index e sr = int i then fadd (row ! i) (in_phase trig e band) else row ! i)"
    using Cons.prems by (auto simp: put_event_def put_sample_def nth_list_update)
  ultimately show ?case by simp
qed simp

lemma BandedFromEvents_Inr:
  fixes cfg :: RenderConfig
  defines "n \<equiv> BandCount (rcBandSpec cfg)" and "len \<equiv> buffer_length (rcSampleRate cfg) (DurationSeconds cfg)"
  assumes "0 < n" "n \<le> 2 ^ 40" "0 < rcSampleRate cfg" "0 \<le> len" "len \<le> 2 ^ 45"
    and "\<forall>e \<in> set events. event_fits n e"
  shows "BandedFromEvents cosine sine events cfg = Some (Inr (
      foldl (put_response cosine sine (rcSampleRate cfg) len)
        \<lparr>brSampleRate = rcSampleRate cfg, Bands = replicate (nat n) (replicate (nat len) (Zero False)),
         Quadrature = (if eventsCarryPhase sine events
           then replicate (nat n) (replicate (nat len) (Zero False)) else [])\<rparr> events))"
    and "response_shaped (nat n) (nat len) (
      foldl (put_response cosine sine (rcSampleRate cfg) len)
        \<lparr>brSampleRate = rcSampleRate cfg, Bands = replicate (nat n) (replicate (nat len) (Zero False)),
         Quadrature = (if eventsCarryPhase sine events
           then replicate (nat n) (replicate (nat len) (Zero False)) else [])\<rparr> events)"
proof -
  let ?rows = "replicate (nat n) (replicate (nat len) (Zero False))"
  let ?r = "\<lparr>brSampleRate = rcSampleRate cfg, Bands = ?rows,
         Quadrature = (if eventsCarryPhase sine events then ?rows else [])\<rparr>"
  have alloc: "allocBands n len = Some ?rows"
    using assms(3-7) by (auto simp: allocBands_Some_iff)
  have buf: "NewBuffer (rcSampleRate cfg) (DurationSeconds cfg) =
      Some \<lparr>bufSampleRate = rcSampleRate cfg, Samples = replicate (nat len) (Zero False)\<rparr>"
    using assms(6,7) by (auto simp: NewBuffer_def len_def [symmetric] make_floats_Some_iff)
  have bc: "BandCount (rcBandSpec cfg) = int (nat n)" by (simp add: n_def BandCount_def)
  have sh: "response_shaped (nat n) (nat len) ?r"
    by (simp add: response_shaped_def shaped_def)
  have f: "opt_foldl (add_event cosine sine cfg len) ?r events =
      Some (foldl (put_response cosine sine (rcSampleRate cfg) len) ?r events) \<and>
    response_shaped (nat n) (nat len) (foldl (put_response cosine sine (rcSampleRate cfg) len) ?r events)"
    using add_events_fit [OF sh _ bc, of events cosine sine] assms(3,6,8) by simp
  then show "response_shaped (nat n) (nat len) (foldl (put_response cosine sine (rcSampleRate cfg) len) ?r events)" by blast
  have v: "validateBandedEvents events n 0 = None" using assms(8) by (simp add: validateBandedEvents_None_iff)
  have "(if eventsCarryPhase sine events then NewComplexBandedResponse (rcSampleRate cfg) n len
     else NewBandedResponse (rcSampleRate cfg) n len) = Some ?r"
    by (simp add: NewComplexBandedResponse_def NewBandedResponse_def alloc)
  then show "BandedFromEvents cosine sine events cfg = Some (Inr (foldl (put_response cosine sine (rcSampleRate cfg) len) ?r events))"
    using assms(3,5,6) f v buf
    by (simp add: BandedFromEvents_def n_def [symmetric] Let_def buf_Len_def)
qed

lemma BandedFromEvents_Inl:
  "\<not> (0 < BandCount (rcBandSpec cfg) \<and> 0 < rcSampleRate cfg \<and>
    (\<forall>e \<in> set events. event_fits (BandCount (rcBandSpec cfg)) e)) \<Longrightarrow>
   \<exists>err. BandedFromEvents cosine sine events cfg = Some (Inl err)"
proof -
  have "0 \<le> BandCount (rcBandSpec cfg)" by (simp add: BandCount_def)
  moreover assume "\<not> (0 < BandCount (rcBandSpec cfg) \<and> 0 < rcSampleRate cfg \<and>
    (\<forall>e \<in> set events. event_fits (BandCount (rcBandSpec cfg)) e))"
  ultimately show ?thesis
    by (cases "validateBandedEvents events (BandCount (rcBandSpec cfg)) 0")
      (auto simp: BandedFromEvents_def Let_def validateBandedEvents_None_iff)
qed

subsection \<open>The band renderer\<close>

lemma fmul_one: "f64_ok x \<Longrightarrow> fmul x (Num 1) = x"
  by (cases x) (simp_all add: fmul_def round64_exact)

definition buffer_event :: "(Event \<Rightarrow> f64) \<Rightarrow> int \<Rightarrow> f64 list \<Rightarrow> Event \<Rightarrow> f64 list" where
  "buffer_event contribution sr row e = put_sample (int (length row)) (sample_index e sr) (contribution e) row"

lemma place_events_fits:
  assumes "\<forall>e \<in> set events. \<not> flt (TimeSeconds e) (Zero False) \<and> gain e = Inr (g e)"
  shows "place_events gain sr events k buf = Inr (buf\<lparr>Samples := foldl (buffer_event g sr) (Samples buf) events\<rparr>)"
  using assms
proof (induction events arbitrary: k buf)
  case (Cons e events)
  then show ?case by (auto simp: buffer_event_def put_sample_def buf_Len_def Let_def)
qed simp

lemma BandedFromEvents_band:
  fixes cfg :: RenderConfig
  defines "n \<equiv> BandCount (rcBandSpec cfg)" and "len \<equiv> buffer_length (rcSampleRate cfg) (DurationSeconds cfg)"
  assumes "BandedFromEvents cosine sine events cfg = Some (Inr r)" "band < nat n"
  shows "0 < rcSampleRate cfg" "\<forall>e \<in> set events. event_fits n e" "0 \<le> len" "len \<le> 2 ^ 45"
    "Bands r ! band = foldl (put_event cosine (rcSampleRate cfg) len band) (replicate (nat len) (Zero False)) events"
proof -
  have ok: "0 < n \<and> 0 < rcSampleRate cfg \<and> (\<forall>e \<in> set events. event_fits n e)"
    using BandedFromEvents_Inl [of cfg events cosine sine] assms(3) by (auto simp: n_def)
  then show "0 < rcSampleRate cfg" "\<forall>e \<in> set events. event_fits n e" by auto
  have nb: "NewBuffer (rcSampleRate cfg) (DurationSeconds cfg) \<noteq> None"
    using assms(3) by (auto simp: BandedFromEvents_def Let_def split: if_splits option.splits)
  then show len: "0 \<le> len" "len \<le> 2 ^ 45"
    by (auto simp: NewBuffer_def len_def make_floats_def make_slice_def split: if_splits)
  then have buf: "NewBuffer (rcSampleRate cfg) (DurationSeconds cfg) =
      Some \<lparr>bufSampleRate = rcSampleRate cfg, Samples = replicate (nat len) (Zero False)\<rparr>"
    by (auto simp: NewBuffer_def len_def [symmetric] make_floats_Some_iff)
  have bc: "BandCount (rcBandSpec cfg) = int (nat n)" by (simp add: n_def BandCount_def)
  have v: "validateBandedEvents events n 0 = None" using ok by (simp add: validateBandedEvents_None_iff)
  obtain r0 where r0: "(if eventsCarryPhase sine events then NewComplexBandedResponse (rcSampleRate cfg) n len
     else NewBandedResponse (rcSampleRate cfg) n len) = Some r0"
    and r: "opt_foldl (add_event cosine sine cfg len) r0 events = Some r"
    using assms(3) ok v buf len(1)
    by (auto simp: BandedFromEvents_def n_def [symmetric] Let_def buf_Len_def split: option.splits)
  obtain rows where rows: "allocBands n len = Some rows" "Bands r0 = rows" "Quadrature r0 = [] \<or> Quadrature r0 = rows"
    using r0 by (auto simp: NewComplexBandedResponse_def NewBandedResponse_def split: if_splits)
  have "response_shaped (nat n) (nat len) r0"
    using shaped_alloc [OF rows(1)] rows(2,3) by (auto simp: response_shaped_def)
  from add_events_fit [OF this _ bc, of events cosine sine] ok len r
  have "r = foldl (put_response cosine sine (rcSampleRate cfg) len) r0 events" by simp
  then show "Bands r ! band = foldl (put_event cosine (rcSampleRate cfg) len band) (replicate (nat len) (Zero False)) events"
    using rows assms(4) by (simp add: foldl_put_response foldl_put_rows allocBands_Some_iff)
qed

lemma buffer_event_eq:
  assumes "\<forall>e \<in> set events. contribution e = in_phase cosine e band" "length row = nat len" "0 \<le> len"
  shows "foldl (buffer_event contribution sr) row events = foldl (put_event cosine sr len band) row events"
  using assms
proof (induction events arbitrary: row)
  case (Cons e events)
  then have "buffer_event contribution sr row e = put_event cosine sr len band row e"
    by (simp add: buffer_event_def put_event_def)
  with Cons show ?case by simp
qed simp

end
