(* ===== verification/Network_Laws.thy ===== *)
theory Network_Laws
  imports Filter_Network Response_Rendering
begin

text \<open>
  Lemmas on histograms and the filter network: sums of nonnegative float64 values, slot
  probabilities, histogram convolution as a fold over pairs of bins, transmission filtering, the
  chain loop under a convolution that returns full products, and sums of responses.
\<close>

subsection \<open>Sums of nonnegative values\<close>

lemma fadd_commute: "fadd a b = fadd b a"
  by (cases a; cases b) (auto simp: fadd_def add.commute)

lemma fadd_ge_right: "fnonneg a \<Longrightarrow> fnonneg b \<Longrightarrow> f64_ok b \<Longrightarrow> fle b (fadd a b)"
  using fadd_ge_left [of b a] by (simp add: fadd_commute)

definition energies_ok :: "f64 list \<Rightarrow> bool" where
  "energies_ok xs \<longleftrightarrow> (\<forall>x \<in> set xs. fnonneg x \<and> f64_ok x)"

lemma foldl_fadd_nonneg:
  assumes "energies_ok xs" "fnonneg a" "f64_ok a"
  shows "fnonneg (foldl fadd a xs)" "f64_ok (foldl fadd a xs)" "fle a (foldl fadd a xs)"
proof -
  have "fnonneg (foldl fadd a xs) \<and> f64_ok (foldl fadd a xs) \<and> fle a (foldl fadd a xs)"
    using assms
  proof (induction xs arbitrary: a)
    case Nil
    then show ?case by (auto simp: fle_def)
  next
    case (Cons x xs)
    then have x: "fnonneg x" "f64_ok x" and xs: "energies_ok xs" by (auto simp: energies_ok_def)
    have "fnonneg (fadd a x)" "f64_ok (fadd a x)" "fle a (fadd a x)"
      using Cons.prems x by (auto intro: fnonneg_fadd arith_ok fadd_ge_left)
    with Cons.IH [of "fadd a x"] xs show ?case by (auto intro: fle_trans)
  qed
  then show "fnonneg (foldl fadd a xs)" "f64_ok (foldl fadd a xs)" "fle a (foldl fadd a xs)" by auto
qed

lemma foldl_fadd_member:
  assumes "energies_ok xs" "fnonneg a" "f64_ok a" "x \<in> set xs"
  shows "fle x (foldl fadd a xs)"
  using assms
proof (induction xs arbitrary: a)
  case (Cons y xs)
  then have y: "fnonneg y" "f64_ok y" and xs: "energies_ok xs" by (auto simp: energies_ok_def)
  have a: "fnonneg (fadd a y)" "f64_ok (fadd a y)" "fle y (fadd a y)"
    using Cons.prems y by (auto intro: fnonneg_fadd arith_ok fadd_ge_right)
  show ?case
  proof (cases "x = y")
    case True
    with a foldl_fadd_nonneg [OF xs a(1,2)] show ?thesis by (auto intro: fle_trans)
  next
    case False
    with Cons.IH [OF xs a(1,2)] Cons.prems(4) show ?thesis by simp
  qed
qed simp

definition hist_shaped :: "EnergyHistogram \<Rightarrow> bool" where
  "hist_shaped h \<longleftrightarrow> (\<forall>bin \<in> set (Bins h). int (length (BandEnergy bin)) = hBandCount h)"

definition hist_nonneg :: "EnergyHistogram \<Rightarrow> bool" where
  "hist_nonneg h \<longleftrightarrow> (\<forall>bin \<in> set (Bins h). energies_ok (BandEnergy bin))"

lemma slotEnergy_ok:
  assumes "hist_nonneg h"
  shows "fnonneg (slotEnergy h k)" "f64_ok (slotEnergy h k)"
proof -
  have "fnonneg (slotEnergy h k) \<and> f64_ok (slotEnergy h k)"
  proof (cases "length (Bins h) \<le> k")
    case False
    with assms have "energies_ok (BandEnergy (Bins h ! k))" by (simp add: hist_nonneg_def)
    with False foldl_fadd_nonneg [OF this, of "Zero False"] show ?thesis by (auto simp: slotEnergy_def fle_def)
  qed (auto simp: slotEnergy_def fle_def)
  then show "fnonneg (slotEnergy h k)" "f64_ok (slotEnergy h k)" by auto
qed

definition slot_total :: "EnergyHistogram list \<Rightarrow> nat \<Rightarrow> f64" where
  "slot_total hs k = foldl fadd (Zero False) (map (\<lambda>h. slotEnergy h k) hs)"

lemma slot_probabilities_unit:
  assumes "\<forall>h \<in> set hs. hist_nonneg h" "is_finite (slot_total hs k)" "d < length hs"
    "int (length hs) < 2 ^ 53"
  shows "funit (slot_probabilities hs k ! d)"
proof -
  have ok: "energies_ok (map (\<lambda>h. slotEnergy h k) hs)"
    using assms(1) slotEnergy_ok by (auto simp: energies_ok_def)
  show ?thesis
  proof (cases "fle (slot_total hs k) (Zero False)")
    case True
    have n: "f64_of_int (int (length hs)) = Num (real (length hs))"
      using assms(3,4) by (auto simp: f64_of_int_exact fof_def)
    have "fle (round64 (1 / real (length hs))) (fof 1)"
      using assms(3) representable_of_int [of 1] by (intro round64_le_representable) (simp_all add: divide_le_eq)
    moreover have "fle (Zero False) (round64 (1 / real (length hs)))" by simp
    ultimately show ?thesis
      using True assms(3) by (simp add: slot_probabilities_def slot_total_def [symmetric] Let_def n fdiv_def)
  next
    case False
    have t: "fnonneg (slot_total hs k)"
      using foldl_fadd_nonneg [OF ok, of "Zero False"] by (auto simp: slot_total_def fle_def)
    then have pos: "flt (Zero False) (slot_total hs k)"
      using False not_flt_iff [of "Zero False" "slot_total hs k"] by (auto dest: fle_not_nan)
    have "fle (slotEnergy (hs ! d) k) (slot_total hs k)"
      unfolding slot_total_def using assms(3) by (intro foldl_fadd_member [OF ok]) (auto simp: fle_def)
    moreover have "fnonneg (slotEnergy (hs ! d) k)" using assms(1,3) slotEnergy_ok by simp
    ultimately have "funit (fdiv (slotEnergy (hs ! d) k) (slot_total hs k))"
      using assms(2) pos by (intro funit_fdiv)
    then show ?thesis
      using False assms(3) by (simp add: slot_probabilities_def slot_total_def [symmetric] Let_def)
  qed
qed

subsection \<open>Allocated histograms\<close>

definition bin_count :: "f64 \<Rightarrow> f64 \<Rightarrow> int" where
  "bin_count duration binDuration = f64_to_int (fceil (fdiv duration binDuration))"

lemma NewEnergyHistogram_cases:
  assumes "NewEnergyHistogram dur bd n = Some h"
  shows "hDuration h = dur" "BinDuration h = bd" "hBandCount h = n"
    "\<forall>bin \<in> set (Bins h). BandEnergy bin = replicate (nat n) (Zero False)"
    "Bins h \<noteq> [] \<Longrightarrow> 0 < n"
proof -
  have "hDuration h = dur \<and> BinDuration h = bd \<and> hBandCount h = n \<and>
    (\<forall>bin \<in> set (Bins h). BandEnergy bin = replicate (nat n) (Zero False)) \<and> (Bins h \<noteq> [] \<longrightarrow> 0 < n)"
  proof (cases "fle dur (Zero False) \<or> fle bd (Zero False) \<or> n \<le> 0")
    case True
    with assms show ?thesis by (auto simp: NewEnergyHistogram_def)
  next
    case False
    then obtain slots bins where b: "fill (length (slots :: unit list)) (\<lambda>i. map_option
        (\<lambda>energy. \<lparr>binTime = fmul (f64_of_int (int i)) bd, BandEnergy = energy\<rparr>) (make_floats n)) = Some bins"
      and h: "h = \<lparr>Bins = bins, hDuration = dur, BinDuration = bd, hBandCount = n\<rparr>"
      using assms by (auto simp: NewEnergyHistogram_def split: option.splits)
    have "BandEnergy (bins ! i) = replicate (nat n) (Zero False)" if "i < length bins" for i
    proof -
      have "map_option (\<lambda>energy. \<lparr>binTime = fmul (f64_of_int (int i)) bd, BandEnergy = energy\<rparr>) (make_floats n) = Some (bins ! i)"
        using b that by (simp add: fill_Some_iff)
      then obtain energy where "make_floats n = Some energy" "bins ! i = \<lparr>binTime = fmul (f64_of_int (int i)) bd, BandEnergy = energy\<rparr>"
        by (cases "make_floats n") simp_all
      then show ?thesis by (simp add: make_floats_Some_iff)
    qed
    then have "\<forall>bin \<in> set bins. BandEnergy bin = replicate (nat n) (Zero False)" by (auto simp: in_set_conv_nth)
    with h False show ?thesis by simp
  qed
  then show "hDuration h = dur" "BinDuration h = bd" "hBandCount h = n"
    "\<forall>bin \<in> set (Bins h). BandEnergy bin = replicate (nat n) (Zero False)"
    "Bins h \<noteq> [] \<Longrightarrow> 0 < n" by auto
qed

subsection \<open>Histogram convolution\<close>

definition pair_energy :: "EnergyHistogram \<Rightarrow> EnergyHistogram \<Rightarrow> nat \<Rightarrow> nat \<times> nat \<Rightarrow> f64" where
  "pair_energy a b band ij = fmul (BandEnergy (Bins a ! fst ij) ! band) (BandEnergy (Bins b ! snd ij) ! band)"

definition add_pair ::
  "EnergyHistogram \<Rightarrow> EnergyHistogram \<Rightarrow> f64 list list \<Rightarrow> nat \<times> nat \<Rightarrow> f64 list list" where
  "add_pair a b rows ij =
     (let t = fst ij + snd ij in
      if length rows \<le> t then rows
      else rows[t := map (\<lambda>band. fadd (rows ! t ! band) (pair_energy a b band ij)) [0..<nat (hBandCount a)]])"

lemma convolve_bins_shaped:
  assumes "hist_shaped a" "hist_shaped b" "hBandCount a = hBandCount b" "shaped m (nat (hBandCount a)) rows"
    "fst ij < length (Bins a)" "snd ij < length (Bins b)"
  shows "convolve_bins a b rows ij = Some (add_pair a b rows ij)" "shaped m (nat (hBandCount a)) (add_pair a b rows ij)"
proof -
  have la: "length (BandEnergy (Bins a ! fst ij)) = nat (hBandCount a)"
    and lb: "length (BandEnergy (Bins b ! snd ij)) = nat (hBandCount a)"
    using assms by (auto simp: hist_shaped_def dest!: nth_mem)
  show "convolve_bins a b rows ij = Some (add_pair a b rows ij)"
  proof (cases "length rows \<le> fst ij + snd ij")
    case False
    have "fill (nat (hBandCount a)) (\<lambda>band.
          case (slice_at (rows ! (fst ij + snd ij)) (int band), slice_at (BandEnergy (Bins a ! fst ij)) (int band),
                slice_at (BandEnergy (Bins b ! snd ij)) (int band)) of
            (Some o', Some x, Some y) \<Rightarrow> Some (fadd o' (fmul x y))
          | _ \<Rightarrow> None) = Some (map (\<lambda>band. fadd (rows ! (fst ij + snd ij) ! band) (pair_energy a b band ij)) [0..<nat (hBandCount a)])"
      using False la lb assms(4) by (intro fill_SomeI) (simp add: shapedD pair_energy_def)
    with False show ?thesis by (simp add: convolve_bins_def add_pair_def Let_def)
  qed (simp add: convolve_bins_def add_pair_def Let_def)
  show "shaped m (nat (hBandCount a)) (add_pair a b rows ij)"
    using assms(4) unfolding add_pair_def Let_def shaped_def by (auto dest: set_update_subset_insert [THEN subsetD])
qed

lemma foldl_add_pair:
  assumes "shaped m (nat (hBandCount a)) rows" "t < m" "band < nat (hBandCount a)"
  shows "foldl (add_pair a b) rows ps ! t ! band =
    foldl fadd (rows ! t ! band) (map (pair_energy a b band) (filter (\<lambda>ij. fst ij + snd ij = t) ps))"
  using assms(1)
proof (induction ps arbitrary: rows)
  case (Cons ij ps)
  have "shaped m (nat (hBandCount a)) (add_pair a b rows ij)"
    using Cons.prems unfolding add_pair_def Let_def shaped_def by (auto dest: set_update_subset_insert [THEN subsetD])
  moreover have "add_pair a b rows ij ! t ! band =
    (if fst ij + snd ij = t then fadd (rows ! t ! band) (pair_energy a b band ij) else rows ! t ! band)"
    using Cons.prems assms(2,3) by (auto simp: add_pair_def Let_def shapedD nth_list_update)
  ultimately show ?case using Cons.IH by simp
qed simp

lemma ConvolveHistograms_rows:
  assumes "hist_shaped a" "hist_shaped b" "hBandCount a = hBandCount b"
    "\<not> flt (round64 (1 / 10 ^ 12)) (fabs (fsub (BinDuration a) (BinDuration b)))"
    "NewEnergyHistogram (hDuration a) (BinDuration a) (hBandCount a) = Some fresh"
  defines "ps \<equiv> List.product [0..<length (Bins a)] [0..<length (Bins b)]"
  defines "rows \<equiv> foldl (add_pair a b) (map BandEnergy (Bins fresh)) ps"
  shows "ConvolveHistograms (Some a) (Some b) =
      Some (Inr (fresh\<lparr>Bins := map2 (\<lambda>bin row. bin\<lparr>BandEnergy := row\<rparr>) (Bins fresh) rows\<rparr>))"
    "shaped (length (Bins fresh)) (nat (hBandCount a)) rows"
proof -
  note fresh = NewEnergyHistogram_cases [OF assms(5)]
  have s: "shaped (length (Bins fresh)) (nat (hBandCount a)) (map BandEnergy (Bins fresh))"
    using fresh(4) by (auto simp: shaped_def)
  have "opt_foldl (convolve_bins a b) (map BandEnergy (Bins fresh)) ps = Some rows \<and>
    shaped (length (Bins fresh)) (nat (hBandCount a)) rows"
    unfolding rows_def
  proof (rule opt_foldl_pure [where J = "shaped (length (Bins fresh)) (nat (hBandCount a))"])
    show "shaped (length (Bins fresh)) (nat (hBandCount a)) (map BandEnergy (Bins fresh))" by (rule s)
  next
    fix rs ij assume "ij \<in> set ps" "shaped (length (Bins fresh)) (nat (hBandCount a)) rs"
    then show "convolve_bins a b rs ij = Some (add_pair a b rs ij) \<and>
        shaped (length (Bins fresh)) (nat (hBandCount a)) (add_pair a b rs ij)"
      using convolve_bins_shaped [OF assms(1-3), of "length (Bins fresh)" rs ij] by (auto simp: ps_def)
  qed
  then show "ConvolveHistograms (Some a) (Some b) =
      Some (Inr (fresh\<lparr>Bins := map2 (\<lambda>bin row. bin\<lparr>BandEnergy := row\<rparr>) (Bins fresh) rows\<rparr>))"
    "shaped (length (Bins fresh)) (nat (hBandCount a)) rows"
    using assms(3-5) by (simp_all add: ConvolveHistograms_def ps_def)
qed

subsection \<open>Transmission filtering\<close>

lemma check_transmission_None_iff: "check_transmission cs k = None \<longleftrightarrow> (\<forall>c \<in> set cs. funit c)"
proof (induction cs arbitrary: k)
  case (Cons c cs)
  have "is_nan c \<or> is_inf c \<or> flt c (Zero False) \<or> flt (round64 1) c \<longleftrightarrow> \<not> funit c"
    by (cases c) (auto simp: flt_def fle_def)
  with Cons show ?case by auto
qed simp

definition coefficient_at :: "f64 list \<Rightarrow> nat \<Rightarrow> f64" where
  "coefficient_at transmission band = (if 1 < length transmission then transmission ! band else hd transmission)"

lemma FilterTransmission_Inr:
  assumes "FilterTransmission (Some h) tr = Some (Inr f)"
  shows "0 < hBandCount h" "\<forall>c \<in> set tr. funit c" "length tr = 1 \<or> int (length tr) = hBandCount h"
    "hBandCount f = hBandCount h" "hDuration f = hDuration h" "BinDuration f = BinDuration h"
    "\<And>i. i < length (Bins f) \<Longrightarrow> i < length (Bins h) \<Longrightarrow> binTime (Bins f ! i) = binTime (Bins h ! i)"
    "\<And>i. i < length (Bins f) \<Longrightarrow> length (BandEnergy (Bins f ! i)) = nat (hBandCount h)"
    "\<And>i band. i < length (Bins f) \<Longrightarrow> i < length (Bins h) \<Longrightarrow> band < nat (hBandCount h) \<Longrightarrow>
       BandEnergy (Bins f ! i) ! band =
         (if band < length (BandEnergy (Bins h ! i)) then fmul (BandEnergy (Bins h ! i) ! band) (coefficient_at tr band)
          else Zero False)"
proof -
  have pos: "0 < hBandCount h" and len: "length tr = 1 \<or> int (length tr) = hBandCount h"
    and chk: "check_transmission tr 0 = None"
    using assms by (auto simp: FilterTransmission_def split: if_splits option.splits)
  then show "0 < hBandCount h" "\<forall>c \<in> set tr. funit c" "length tr = 1 \<or> int (length tr) = hBandCount h"
    by (auto simp: check_transmission_None_iff)
  obtain fresh energies where fr: "NewEnergyHistogram (hDuration h) (BinDuration h) (hBandCount h) = Some fresh"
    and en: "fill (length (Bins h)) (\<lambda>i. filter_bin (hBandCount h) tr (Bins h ! i)) = Some energies"
    and f: "f = fresh\<lparr>Bins := map (\<lambda>i. if i < length energies
        then \<lparr>binTime = binTime (Bins h ! i), BandEnergy = energies ! i\<rparr>
        else Bins fresh ! i) [0..<length (Bins fresh)]\<rparr>"
    using assms pos len chk by (auto simp: FilterTransmission_def split: if_splits option.splits)
  note fresh = NewEnergyHistogram_cases [OF fr]
  have l: "length energies = length (Bins h)" using en by (simp add: fill_Some_iff)
  have e: "energies ! i = map (\<lambda>band. if band < length (BandEnergy (Bins h ! i))
        then fmul (BandEnergy (Bins h ! i) ! band) (coefficient_at tr band) else Zero False) [0..<nat (hBandCount h)]"
    if "i < length (Bins h)" for i
  proof -
    have "filter_bin (hBandCount h) tr (Bins h ! i) = Some (energies ! i)" using en that by (simp add: fill_Some_iff)
    then obtain zeros where "make_floats (hBandCount h) = Some zeros" "energies ! i = map (\<lambda>band. if band < length (BandEnergy (Bins h ! i))
        then fmul (BandEnergy (Bins h ! i) ! band) (coefficient_at tr band) else Zero False) [0..<length zeros]"
      unfolding filter_bin_def coefficient_at_def by (cases "make_floats (hBandCount h)") simp_all
    then show ?thesis by (simp add: make_floats_Some_iff)
  qed
  show "hBandCount f = hBandCount h" "hDuration f = hDuration h" "BinDuration f = BinDuration h"
    using fresh f by simp_all
  have lf: "length (Bins f) = length (Bins fresh)" by (simp add: f)
  show "binTime (Bins f ! i) = binTime (Bins h ! i)" if "i < length (Bins f)" "i < length (Bins h)" for i
    using that by (simp add: lf) (simp add: f l)
  show "length (BandEnergy (Bins f ! i)) = nat (hBandCount h)" if "i < length (Bins f)" for i
    using that fresh(4) e l by (simp add: lf) (simp add: f)
  show "BandEnergy (Bins f ! i) ! band =
         (if band < length (BandEnergy (Bins h ! i)) then fmul (BandEnergy (Bins h ! i) ! band) (coefficient_at tr band)
          else Zero False)" if "i < length (Bins f)" "i < length (Bins h)" "band < nat (hBandCount h)" for i band
    using that e l by (simp add: lf) (simp add: f)
qed

lemma coefficient_unit:
  assumes "\<forall>c \<in> set tr. funit c" "length tr = 1 \<or> length tr = n" "band < n"
  shows "funit (coefficient_at tr band)"
proof (cases "1 < length tr")
  case True
  with assms have "coefficient_at tr band \<in> set tr" by (auto simp: coefficient_at_def)
  with assms(1) show ?thesis by blast
next
  case False
  with assms have "coefficient_at tr band \<in> set tr" by (cases tr) (auto simp: coefficient_at_def)
  with assms(1) show ?thesis by blast
qed

subsection \<open>Chains\<close>

text \<open>What the chain relies on of \<open>conv.Convolve\<close>: on non-empty operands it returns the full
  convolution, of length \<open>n + m - 1\<close>.\<close>

definition full_convolution :: "convolution \<Rightarrow> bool" where
  "full_convolution convolve \<longleftrightarrow> (\<forall>xs ys. xs \<noteq> [] \<longrightarrow> ys \<noteq> [] \<longrightarrow>
     (\<exists>zs. convolve xs ys = Inr zs \<and> length zs = length xs + length ys - 1))"

lemma full_convolutionD:
  "full_convolution convolve \<Longrightarrow> 0 < length xs \<Longrightarrow> 0 < length ys \<Longrightarrow>
    \<exists>zs. run_convolve convolve band xs ys = Inr zs \<and> length zs = length xs + length ys - 1"
  unfolding full_convolution_def run_convolve_def by (metis length_greater_0_conv sum.simps(6))

lemma copyBandProduct_length:
  "int (length target) = len \<Longrightarrow> \<exists>row. copyBandProduct target product len gain = Some row \<and> length row = length target"
  by (auto simp: copyBandProduct_def Let_def)

lemma band_loop_total:
  assumes "\<And>b. b \<in> set bs \<Longrightarrow> \<exists>r. f b = Some (Inr r) \<and> P b r"
  shows "\<exists>rs. band_loop f bs = Some (Inr rs) \<and> length rs = length bs \<and> (\<forall>i < length bs. P (bs ! i) (rs ! i))"
  using assms
proof (induction bs)
  case (Cons b bs)
  then obtain r where r: "f b = Some (Inr r)" "P b r" by (meson list.set_intros(1))
  obtain rs where "band_loop f bs = Some (Inr rs)" "length rs = length bs" "\<forall>i < length bs. P (bs ! i) (rs ! i)"
    using Cons by (meson list.set_intros(2))
  with r show ?case by (intro exI [of _ "r # rs"]) (auto simp: nth_Cons split: nat.splits)
qed simp

lemma quadratureBand_shaped:
  assumes "response_shaped n len r" "band < n"
  shows "\<exists>q. quadratureBand r band = Some q \<and> length q = len"
  using assms by (auto simp: quadratureBand_def response_shaped_def HasQuadrature_def shapedD)

lemma convolveBand_total:
  assumes "full_convolution convolve" "response_shaped n p running" "response_shaped n q next"
    "0 < p" "0 < q" "band < n" "int (length zeros) = len"
  shows "\<exists>re im. convolveBand convolve running next band len gain complexChain zeros = Some (Inr (re, im)) \<and>
    length re = length zeros \<and> length im = length zeros"
proof -
  have rows: "slice_at (Bands running) (int band) = Some (Bands running ! band)" "slice_at (Bands next) (int band) = Some (Bands next ! band)"
    "length (Bands running ! band) = p" "length (Bands next ! band) = q"
    using assms(2,3,6) by (auto simp: response_shaped_def shapedD)
  obtain b d where bd: "quadratureBand running band = Some b" "length b = p"
      "quadratureBand next band = Some d" "length d = q"
    using quadratureBand_shaped [OF assms(2,6)] quadratureBand_shaped [OF assms(3,6)] by blast
  have conv: "\<exists>zs. run_convolve convolve band xs ys = Inr zs" if "length xs = p" "length ys = q" for xs ys
    using full_convolutionD [OF assms(1), of xs ys] that assms(4,5) by blast
  obtain r1 r2 r3 r4 where cv: "run_convolve convolve band (Bands running ! band) (Bands next ! band) = Inr r1"
    "run_convolve convolve band b d = Inr r2" "run_convolve convolve band (Bands running ! band) d = Inr r3"
    "run_convolve convolve band b (Bands next ! band) = Inr r4"
    using conv rows bd by metis
  obtain x where x: "copyBandProduct zeros r1 len gain = Some x" "length x = length zeros"
    using copyBandProduct_length [OF assms(7)] by blast
  obtain y where y: "copyBandProduct zeros (sub_prefix r1 r2) len gain = Some y" "length y = length zeros"
    using copyBandProduct_length [OF assms(7)] by blast
  obtain z where z: "copyBandProduct zeros (add_prefix r3 r4) len gain = Some z" "length z = length zeros"
    using copyBandProduct_length [OF assms(7)] by blast
  show ?thesis
    by (cases complexChain) (simp_all add: convolveBand_def rows bd cv x y z)
qed

lemma shaped_all_nth: "shaped n len rows \<longleftrightarrow> length rows = n \<and> (\<forall>i < n. length (rows ! i) = len)"
  by (auto simp: shaped_def all_set_conv_all_nth)

definition silent :: "f64 list \<Rightarrow> bool" where
  "silent row \<longleftrightarrow> (\<forall>x \<in> set row. x = Zero False)"

lemma br_simps [simp]:
  "response_shaped n len r \<Longrightarrow> br_BandCount (Some r) = int n"
  "response_shaped n len r \<Longrightarrow> 0 < n \<Longrightarrow> br_Len (Some r) = int len"
  by (auto simp: response_shaped_def shaped_def br_BandCount_def br_Len_def hd_conv_nth)

definition capped :: "int \<Rightarrow> int \<Rightarrow> int" where
  "capped maxLength n = (if 0 < maxLength \<and> maxLength < n then maxLength else n)"

lemma convolveActive_total:
  assumes "full_convolution convolve" "response_shaped n p running" "response_shaped n q next"
    "0 < n" "0 < p" "0 < q" "length gains = n" "int n \<le> 2 ^ 40" "capped maxLength (int (p + q - 1)) \<le> 2 ^ 45"
  shows "\<exists>r. convolveActive convolve c (Some running) (Some next) gains maxLength = Some (Inr r) \<and>
    response_shaped n (nat (capped maxLength (int (p + q - 1)))) r \<and> brSampleRate r = brSampleRate running \<and>
    (HasQuadrature (Some r) \<longleftrightarrow> HasQuadrature (Some running) \<or> HasQuadrature (Some next)) \<and>
    (\<forall>band < n. \<not> bandActive c band \<longrightarrow> silent (Bands r ! band) \<and>
       (HasQuadrature (Some r) \<longrightarrow> silent (Quadrature r ! band)))"
proof -
  define len where "len = capped maxLength (int (p + q - 1))"
  have len: "0 < len" using assms(5,6) by (auto simp: len_def capped_def)
  have pl: "product_length (Some running) (Some next) maxLength = len"
    using assms(2-6) by (simp add: product_length_def len_def capped_def Let_def of_nat_diff)
  have nrows: "length (Bands running) = n" using assms(2) by (simp add: response_shaped_def shaped_def)
  let ?zeros = "replicate (nat len) (Zero False)"
  have alloc: "allocBands (int n) len = Some (replicate n ?zeros)"
    using assms(4,8,9) len by (auto simp: allocBands_Some_iff len_def)
  let ?complex = "HasQuadrature (Some running) \<or> HasQuadrature (Some next)"
  define f where "f = (\<lambda>band. case slice_at gains (int band) of
       None \<Rightarrow> if bandActive c band then None else Some (Inr (replicate n ?zeros ! band, replicate n ?zeros ! band))
     | Some gain \<Rightarrow>
         if \<not> bandActive c band \<or> feq gain (Zero False) then Some (Inr (replicate n ?zeros ! band, replicate n ?zeros ! band))
         else convolveBand convolve running next band len gain ?complex (replicate n ?zeros ! band))"
  let ?P = "\<lambda>band pr. length (fst pr) = nat len \<and> length (snd pr) = nat len \<and>
     (\<not> bandActive c band \<longrightarrow> silent (fst pr) \<and> silent (snd pr))"
  have "\<exists>pr. f band = Some (Inr pr) \<and> ?P band pr" if "band \<in> set [0..<n]" for band
  proof (cases "\<not> bandActive c band \<or> feq (gains ! band) (Zero False)")
    case True
    with that assms(7) show ?thesis by (auto simp: silent_def f_def)
  next
    case False
    with that assms(7) convolveBand_total [OF assms(1-3,5,6), of band ?zeros len "gains ! band" ?complex] len
    show ?thesis by (auto simp: f_def)
  qed
  from band_loop_total [where P = ?P and bs = "[0..<n]", OF this]
  obtain pairs where pairs: "band_loop f [0..<n] = Some (Inr pairs)" "length pairs = n" "\<forall>i < n. ?P i (pairs ! i)" by auto
  let ?r = "\<lparr>brSampleRate = brSampleRate running, Bands = map fst pairs, Quadrature = (if ?complex then map snd pairs else [])\<rparr>"
  have "convolveActive convolve c (Some running) (Some next) gains maxLength = Some (Inr ?r)"
    using assms(2,3) pairs(1) unfolding convolveActive_def f_def by (simp add: pl alloc nrows)
  moreover have "response_shaped n (nat len) ?r"
    using pairs(2,3) by (simp add: response_shaped_def shaped_all_nth)
  moreover have "HasQuadrature (Some ?r) \<longleftrightarrow> ?complex" using pairs(2) assms(4) by (auto simp: HasQuadrature_def)
  moreover have "\<forall>band < n. \<not> bandActive c band \<longrightarrow> silent (Bands ?r ! band) \<and>
      (HasQuadrature (Some ?r) \<longrightarrow> silent (Quadrature ?r ! band))"
    using pairs(2,3) by (auto simp: HasQuadrature_def)
  ultimately show ?thesis unfolding len_def [symmetric] by (intro exI [of _ ?r]) simp
qed


text \<open>The length of a resolved chain: full convolutions, cut at \<open>maxLength\<close> after every fold.\<close>

fun chain_length :: "int \<Rightarrow> nat \<Rightarrow> nat list \<Rightarrow> nat" where
  "chain_length maxLength p [] = p"
| "chain_length maxLength p (q # qs) = chain_length maxLength (nat (capped maxLength (int (p + q - 1)))) qs"

lemma capped_pos: "0 < p \<Longrightarrow> 0 < q \<Longrightarrow> 0 < nat (capped maxLength (int (p + q - 1)))"
  by (auto simp: capped_def)

lemma capped_le: "capped maxLength n \<le> n"
  by (auto simp: capped_def)

definition factor_shaped :: "nat \<Rightarrow> nat \<Rightarrow> BandedResponse option \<Rightarrow> bool" where
  "factor_shaped n len ro \<longleftrightarrow> (\<exists>r. ro = Some r \<and> response_shaped n len r)"

lemma resolve_loop_total:
  assumes "full_convolution convolve" "0 < n" "int n \<le> 2 ^ 40" "response_shaped n p running" "0 < p"
    "list_all2 (factor_shaped n) qs factors" "\<forall>q \<in> set qs. 0 < q" "length gains = length factors"
    "\<forall>g \<in> set gains. length g = n" "int p + int (sum_list qs) \<le> 2 ^ 45"
  shows "\<exists>r. resolve_loop convolve c maxLength factors gains k (Some running) = Some (Inr (Some r)) \<and>
    response_shaped n (chain_length maxLength p qs) r \<and> brSampleRate r = brSampleRate running \<and>
    (HasQuadrature (Some r) \<longleftrightarrow> HasQuadrature (Some running) \<or> list_ex HasQuadrature factors) \<and>
    (factors \<noteq> [] \<longrightarrow> (\<forall>band < n. \<not> bandActive c band \<longrightarrow> silent (Bands r ! band) \<and>
       (HasQuadrature (Some r) \<longrightarrow> silent (Quadrature r ! band))))"
  using assms(4-10)
proof (induction qs arbitrary: p running factors gains k)
  case Nil
  then show ?case by simp
next
  case (Cons q qs)
  from Cons.prems(3) obtain fo rest where fo: "factors = fo # rest" "factor_shaped n q fo"
    "list_all2 (factor_shaped n) qs rest"
    unfolding list_all2_Cons1 by blast
  then obtain fac where f: "factors = Some fac # rest" "response_shaped n q fac" "list_all2 (factor_shaped n) qs rest"
    by (auto simp: factor_shaped_def)
  from Cons.prems(5) f obtain g gs where g: "gains = g # gs" by (cases gains) auto
  let ?p = "nat (capped maxLength (int (p + q - 1)))"
  have q: "0 < q" using Cons.prems(4) by simp
  have bound: "capped maxLength (int (p + q - 1)) \<le> 2 ^ 45"
    using Cons.prems(2,7) q capped_le [of maxLength "int (p + q - 1)"] by simp
  obtain r where r: "convolveActive convolve c (Some running) (Some fac) g maxLength = Some (Inr r)"
    "response_shaped n ?p r" "brSampleRate r = brSampleRate running"
    "HasQuadrature (Some r) \<longleftrightarrow> HasQuadrature (Some running) \<or> HasQuadrature (Some fac)"
    "\<forall>band < n. \<not> bandActive c band \<longrightarrow> silent (Bands r ! band) \<and> (HasQuadrature (Some r) \<longrightarrow> silent (Quadrature r ! band))"
    using convolveActive_total [OF assms(1) Cons.prems(1) f(2) assms(2) Cons.prems(2) q, of g maxLength c]
      assms(3) bound Cons.prems(6) g by auto
  have p': "int ?p + int (sum_list qs) \<le> 2 ^ 45"
    using Cons.prems(2,7) q capped_le [of maxLength "int (p + q - 1)"] capped_pos [OF Cons.prems(2) q, of maxLength] by simp
  have step: "resolve_loop convolve c maxLength factors gains k (Some running) =
      resolve_loop convolve c maxLength rest gs (Suc k) (Some r)"
    using Cons.prems(1,6) r(1) by (simp add: f(1) g)
  show ?case
  proof (cases "qs = []")
    case True
    with f(3) have "rest = []" by simp
    with True step r f(1) show ?thesis by (intro exI [of _ r]) simp
  next
    case False
    then have "rest \<noteq> []" using f(3) by auto
    then show ?thesis
      using Cons.IH [OF r(2) capped_pos [OF Cons.prems(2) q] f(3) _ _ _ p', of gs "Suc k"] Cons.prems(4-6) g step r(3,4) f(1)
      by auto
  qed
qed

subsection \<open>Sums of responses\<close>

text \<open>A response whose bands all have the length of the first, with a quadrature row for every band
  or none.\<close>

definition well_shaped :: "BandedResponse \<Rightarrow> bool" where
  "well_shaped r \<longleftrightarrow> response_shaped (length (Bands r)) (nat (br_Len (Some r))) r"

definition sum_samples :: "BandedResponse list \<Rightarrow> (BandedResponse \<Rightarrow> f64 list list) \<Rightarrow> nat \<Rightarrow> nat \<Rightarrow> f64" where
  "sum_samples rs part band i =
     foldl fadd (Zero False)
       (map (\<lambda>r. part r ! band ! i) (filter (\<lambda>r. part r \<noteq> [] \<and> i < length (part r ! band)) rs))"

lemma sum_lengths_Inr:
  "sum_lengths rs n len = Inr len' \<longleftrightarrow>
     (\<forall>r \<in> set rs. br_BandCount (Some r) = n) \<and> len' = fold (\<lambda>r m. max m (br_Len (Some r))) rs len"
  by (induction rs arbitrary: len) auto

lemma fold_max_start: "len \<le> fold (\<lambda>r m. max m (f r)) rs (len :: int)"
proof (induction rs arbitrary: len)
  case (Cons r rs)
  show ?case using Cons [of "max len (f r)"] by simp
qed simp

lemma fold_max_member: "r \<in> set rs \<Longrightarrow> f r \<le> fold (\<lambda>r m. max m (f r)) rs (len :: int)"
proof (induction rs arbitrary: len)
  case (Cons a rs)
  then show ?case using fold_max_start [of "max len (f a)" f rs] by auto
qed simp

lemma fold_max_bound: "len \<le> b \<Longrightarrow> \<forall>r \<in> set rs. f r \<le> b \<Longrightarrow> fold (\<lambda>r m. max m (f r)) rs (len :: int) \<le> b"
  by (induction rs arbitrary: len) auto

definition sum_rows :: "f64 list list \<Rightarrow> f64 list list \<Rightarrow> f64 list list" where
  "sum_rows targets rows = map (\<lambda>band. add_prefix (targets ! band) (rows ! band)) [0..<length targets]"

lemma length_add_prefix [simp]: "length (add_prefix xs ys) = length xs"
  by (simp add: add_prefix_def)

lemma add_rows_shaped:
  assumes "shaped n len targets" "shaped n m rows" "m \<le> len"
  shows "add_rows n targets rows = Some (sum_rows targets rows)" "shaped n len (sum_rows targets rows)"
proof -
  have "add_rows n targets rows = Some (map (\<lambda>band. add_prefix (targets ! band) (rows ! band)) [0..<n])"
    unfolding add_rows_def using assms by (intro fill_SomeI) (simp add: shapedD add_row_def)
  then show "add_rows n targets rows = Some (sum_rows targets rows)" using assms(1) by (simp add: sum_rows_def shapedD)
  show "shaped n len (sum_rows targets rows)" using assms(1) by (simp add: shaped_all_nth sum_rows_def)
qed

definition plus_response :: "nat \<Rightarrow> nat \<Rightarrow> BandedResponse \<Rightarrow> BandedResponse \<Rightarrow> BandedResponse" where
  "plus_response n len out r =
     out\<lparr>Bands := sum_rows (Bands out) (Bands r),
       Quadrature := (if Quadrature r = [] then Quadrature out
         else sum_rows (if Quadrature out = [] then replicate n (replicate len (Zero False)) else Quadrature out) (Quadrature r))\<rparr>"

lemma add_response_shaped:
  assumes "response_shaped n len out" "response_shaped n m r" "m \<le> len"
  shows "add_response n len out r = Some (plus_response n len out r)" "response_shaped n len (plus_response n len out r)"
proof -
  have z: "shaped n len (replicate n (replicate len (Zero False)))" by (simp add: shaped_def)
  have b: "shaped n len (Bands out)" "shaped n m (Bands r)"
    and q: "Quadrature out = [] \<or> shaped n len (Quadrature out)" "Quadrature r = [] \<or> shaped n m (Quadrature r)"
    using assms by (auto simp: response_shaped_def)
  let ?q = "if Quadrature out = [] then replicate n (replicate len (Zero False)) else Quadrature out"
  have sq: "shaped n len ?q" using q(1) z by auto
  show "add_response n len out r = Some (plus_response n len out r)"
  proof (cases "Quadrature r = []")
    case True
    then show ?thesis
      using add_rows_shaped [OF b assms(3)] by (simp add: add_response_def plus_response_def HasQuadrature_def)
  next
    case False
    with q(2) have "shaped n m (Quadrature r)" by simp
    from add_rows_shaped [OF sq this assms(3)] add_rows_shaped [OF b assms(3)] False
    show ?thesis by (simp add: add_response_def plus_response_def HasQuadrature_def)
  qed
  show "response_shaped n len (plus_response n len out r)"
    using add_rows_shaped [OF b assms(3)] add_rows_shaped [OF sq _ assms(3), of "Quadrature r"] q
    by (auto simp: response_shaped_def plus_response_def)
qed

lemma sum_rows_nth:
  assumes "shaped n len targets" "band < n" "i < len"
  shows "sum_rows targets rows ! band ! i =
    (if i < length (rows ! band) then fadd (targets ! band ! i) (rows ! band ! i) else targets ! band ! i)"
  using assms by (simp add: sum_rows_def shapedD add_prefix_def)

lemma foldl_plus_response_Bands:
  assumes "response_shaped n len out" "\<forall>r \<in> set rs. \<exists>m \<le> len. response_shaped n m r" "band < n" "i < len"
    "\<forall>r \<in> set rs. Bands r \<noteq> []"
  shows "Bands (foldl (plus_response n len) out rs) ! band ! i =
    foldl fadd (Bands out ! band ! i) (map (\<lambda>r. Bands r ! band ! i) (filter (\<lambda>r. Bands r \<noteq> [] \<and> i < length (Bands r ! band)) rs))"
  using assms(1,2,5)
proof (induction rs arbitrary: out)
  case (Cons r rs)
  then obtain m where m: "m \<le> len" "response_shaped n m r" by auto
  have s: "response_shaped n len (plus_response n len out r)" using add_response_shaped [OF Cons.prems(1) m(2,1)] by simp
  have b: "shaped n len (Bands out)" using Cons.prems(1) by (simp add: response_shaped_def)
  have "Bands (plus_response n len out r) ! band ! i =
    (if i < length (Bands r ! band) then fadd (Bands out ! band ! i) (Bands r ! band ! i) else Bands out ! band ! i)"
    using sum_rows_nth [OF b assms(3,4)] by (simp add: plus_response_def)
  then show ?case using Cons.IH [OF s] Cons.prems(2,3) by simp
qed simp


definition quadrature_at :: "BandedResponse \<Rightarrow> nat \<Rightarrow> nat \<Rightarrow> f64" where
  "quadrature_at r band i = (if Quadrature r = [] then Zero False else Quadrature r ! band ! i)"

lemma foldl_plus_response_Quadrature:
  assumes "response_shaped n len out" "\<forall>r \<in> set rs. \<exists>m \<le> len. response_shaped n m r" "band < n" "i < len"
  shows "quadrature_at (foldl (plus_response n len) out rs) band i =
    foldl fadd (quadrature_at out band i)
      (map (\<lambda>r. Quadrature r ! band ! i) (filter (\<lambda>r. Quadrature r \<noteq> [] \<and> i < length (Quadrature r ! band)) rs))"
  using assms(1,2)
proof (induction rs arbitrary: out)
  case (Cons r rs)
  then obtain m where m: "m \<le> len" "response_shaped n m r" by auto
  have s: "response_shaped n len (plus_response n len out r)" using add_response_shaped [OF Cons.prems(1) m(2,1)] by simp
  let ?q = "if Quadrature out = [] then replicate n (replicate len (Zero False)) else Quadrature out"
  have q: "shaped n len ?q" using Cons.prems(1) by (auto simp: response_shaped_def shaped_def)
  have "?q ! band ! i = quadrature_at out band i" using assms(3,4) by (simp add: quadrature_at_def)
  then have "quadrature_at (plus_response n len out r) band i =
    (if Quadrature r \<noteq> [] \<and> i < length (Quadrature r ! band)
     then fadd (quadrature_at out band i) (Quadrature r ! band ! i) else quadrature_at out band i)"
    using sum_rows_nth [OF q assms(3,4)] q assms(3)
    by (auto simp: plus_response_def quadrature_at_def sum_rows_def shaped_def)
  then show ?case using Cons.IH [OF s] Cons.prems(2) by simp
qed simp

lemma present_responses_iff: "r \<in> set (present_responses rs) \<longleftrightarrow> Some r \<in> set rs \<and> Bands r \<noteq> []"
  unfolding present_responses_def br_BandCount_def
  by (induction rs) (auto simp: map_filter_simps split: option.splits)

definition longest :: "BandedResponse list \<Rightarrow> int" where
  "longest rs = fold (\<lambda>r m. max m (br_Len (Some r))) rs 0"

lemma SumBandedResponses_total:
  assumes ps: "present_responses responses = ps" "ps \<noteq> []"
    and "\<forall>r \<in> set ps. well_shaped r \<and> length (Bands r) = n \<and> br_Len (Some r) \<le> 2 ^ 45" "int n \<le> 2 ^ 40"
  defines "out \<equiv> \<lparr>brSampleRate = brSampleRate (hd ps),
      Bands = replicate n (replicate (nat (longest ps)) (Zero False)), Quadrature = []\<rparr>"
  shows "SumBandedResponses responses = Some (Inr (foldl (plus_response n (nat (longest ps))) out ps))"
    "response_shaped n (nat (longest ps)) (foldl (plus_response n (nat (longest ps))) out ps)"
    "\<forall>r \<in> set ps. \<exists>m \<le> nat (longest ps). response_shaped n m r" "response_shaped n (nat (longest ps)) out"
proof -
  have n: "0 < n" using ps assms(3) present_responses_iff [of "hd ps" responses] by (metis hd_in_set length_greater_0_conv)
  have L: "0 \<le> longest ps" "longest ps \<le> 2 ^ 45"
    unfolding longest_def using assms(3) by (auto intro: fold_max_start fold_max_bound)
  show each: "\<forall>r \<in> set ps. \<exists>m \<le> nat (longest ps). response_shaped n m r"
  proof
    fix r assume r: "r \<in> set ps"
    then have "br_Len (Some r) \<le> longest ps"
      unfolding longest_def by (rule fold_max_member [of _ ps "\<lambda>r. br_Len (Some r)"])
    with r assms(3) show "\<exists>m \<le> nat (longest ps). response_shaped n m r"
      by (intro exI [of _ "nat (br_Len (Some r))"]) (auto simp: well_shaped_def)
  qed
  show out: "response_shaped n (nat (longest ps)) out" by (simp add: out_def response_shaped_def shaped_def)
  have f: "opt_foldl (add_response n (nat (longest ps))) out ps = Some (foldl (plus_response n (nat (longest ps))) out ps) \<and>
     response_shaped n (nat (longest ps)) (foldl (plus_response n (nat (longest ps))) out ps)"
    using each out add_response_shaped by (intro opt_foldl_pure) blast+
  then show "response_shaped n (nat (longest ps)) (foldl (plus_response n (nat (longest ps))) out ps)" by blast
  have bc: "br_BandCount (Some r) = int n" if "r \<in> set ps" for r using assms(3) that by (simp add: br_BandCount_def)
  have len: "sum_lengths ps (int n) 0 = Inr (longest ps)" by (simp add: sum_lengths_Inr bc longest_def)
  have new: "NewBandedResponse (brSampleRate (hd ps)) (int n) (longest ps) = Some out"
    using L n assms(4) by (auto simp: NewBandedResponse_def allocBands_Some_iff out_def)
  obtain x xs where x: "ps = x # xs" using ps(2) by (cases ps) auto
  then have "br_BandCount (Some x) = int n" using bc by simp
  then show "SumBandedResponses responses = Some (Inr (foldl (plus_response n (nat (longest ps))) out ps))"
    using f len new unfolding SumBandedResponses_def ps(1) x by (simp del: sum_lengths.simps opt_foldl.simps foldl.simps)
qed

end
