(* ===== verification/Plan_Preparation.thy ===== *)
theory Plan_Preparation
  imports Plan_Laws Network_Laws
begin

text \<open>
  Prepared plans: the paths of a plan as nodes of the search tree, what ranking keeps, and that
  preparing never panics.
\<close>

subsection \<open>The paths of a search tree\<close>

definition tree_path :: "int \<Rightarrow> PathSearchTree \<Rightarrow> nat \<Rightarrow> networkPath" where
  "tree_path src t i = \<lparr>npGroups = src # map ToGroup (steps t i), npPortals = steps t i,
     npTransmission = nTransmission (Nodes t ! i), npActiveBands = nActiveBands (Nodes t ! i)\<rparr>"

lemma those_map_Some: "(\<And>x. x \<in> set xs \<Longrightarrow> f x = Some (g x)) \<Longrightarrow> those (map f xs) = Some (map g xs)"
  by (induction xs) auto

lemma leaf_path_node:
  assumes t: "tree_ok log10 cosine pow g cfg rg src t" and i: "i < length (Nodes t)"
  shows "leaf_path t (int i) = Some (tree_path src t i)"
proof -
  let ?a = "ancestors (parents t) i"
  have lt: "j < length (Nodes t)" if "j \<in> set ?a" for j using ancestors_le [OF that] i by simp
  have ns: "those (map (slice_at (Nodes t)) (map int (rev ?a))) = Some (map (\<lambda>j. Nodes t ! j) (rev ?a))"
    unfolding map_map by (rule those_map_Some) (use lt in auto)
  have grp: "map (\<lambda>j. nGroup (Nodes t ! j)) (rev ?a) = src # map ToGroup (steps t i)"
    using node_path [OF t i] unfolding group_path_def rev_map [symmetric] by simp
  have st: "List.map_filter (\<lambda>n. map_option stepPortal (nStep n)) (map (\<lambda>j. Nodes t ! j) js) = List.map_filter (edge_to t) js" for js
    by (induction js) (simp_all add: List.map_filter_def edge_to_def)
  have sl: "slice_at (Nodes t) (int i) = Some (Nodes t ! i)" using i by simp
  have "map nGroup (map (\<lambda>j. Nodes t ! j) (rev ?a)) = src # map ToGroup (steps t i)" using grp by (simp add: comp_def)
  then show ?thesis
    unfolding leaf_path_def PathTo_ancestors [OF t i] sl option.case prod.case ns option.map st [of "rev ?a"] steps_def [symmetric]
    by (simp add: tree_path_def)
qed

lemma receiver_paths_nodes:
  assumes t: "tree_ok log10 cosine pow g cfg rg src t"
  shows "set is \<subseteq> {..<length (Nodes t)} \<Longrightarrow>
    receiver_paths t dst (map int is) = Some (map (tree_path src t) (filter (\<lambda>i. nGroup (Nodes t ! i) = dst) is))"
proof (induction "is")
  case (Cons i "is")
  with leaf_path_node [OF t, of i] show ?case by simp
qed simp

text \<open>The nodes of the tree that end at a group.\<close>

definition nodes_at :: "PathSearchTree \<Rightarrow> int \<Rightarrow> nat list" where
  "nodes_at t dst = filter (\<lambda>i. nGroup (Nodes t ! i) = dst) [0..<length (Nodes t)]"

lemma leaf_iff_receiver:
  assumes t: "tree_ok log10 cosine pow g cfg rg src t" and i: "i < length (Nodes t)"
  shows "nIsLeaf (Nodes t ! i) \<longleftrightarrow> nGroup (Nodes t ! i) \<in> set rg"
  using tree_okD(2,7) [OF t] tree_okD(8) [OF t, of i] i by (cases "i = 0") (auto simp: child_node_def)

lemma leaf_paths:
  assumes t: "tree_ok log10 cosine pow g cfg rg src t" and dst: "dst \<in> set rg"
  shows "receiver_paths t dst (Leaves t) = Some (map (tree_path src t) (nodes_at t dst))"
proof -
  have "filter (\<lambda>i. nGroup (Nodes t ! i) = dst) (filter (\<lambda>j. nIsLeaf (Nodes t ! j)) [0..<length (Nodes t)]) = nodes_at t dst"
    unfolding nodes_at_def filter_filter using leaf_iff_receiver [OF t] dst by (intro filter_cong) auto
  then show ?thesis unfolding tree_okD(11) [OF t] by (subst receiver_paths_nodes [OF t]) auto
qed

lemma path_ok_tree:
  assumes "tree_ok log10 cosine pow g cfg rg src t" "i < length (Nodes t)"
  shows "path_ok g (tree_path src t i)"
proof -
  have s: "simple_path g src (steps t i)" using node_path [OF assms] by blast
  then have "steps t i ! k \<in> set (group_out g ((src # map ToGroup (steps t i)) ! k))" if "k < length (steps t i)" for k
    using that unfolding simple_path_def by (cases k) fastforce+
  then show ?thesis by (simp add: path_ok_def tree_path_def)
qed

subsection \<open>Prepared plans\<close>

lemma prepare_Inr:
  fixes plan :: "('dir, 'h, 'g, 'b) pathPlan"
  assumes "prepare env (Some cfg) (Some sc) = Some (Inr plan)"
  obtains src dst found where "Sources sc = [ppSource plan]" "Receivers sc = [ppReceiver plan]"
    "graph_reachable (e_pow env) (e_rate env) (e_names env) (ppGraph plan)" "gScene (ppGraph plan) = sc"
    "GroupOfPosition (ppGraph plan) (sPosition (ppSource plan)) = Some src"
    "GroupOfPosition (ppGraph plan) (rPosition (ppReceiver plan)) = Some dst"
    "SearchPaths (e_log10 env) (e_cos env) (e_pow env) (ppGraph plan) src (search_config cfg sc) = Some (Inr (ppTree plan))"
    "rankPaths cfg (ppTree plan) dst = Some (ppPaths plan, found)" "ppPaths plan \<noteq> []"
    "ppTruncation plan = \<lparr>PathSearch = Truncated (ppTree plan), PathsFound = found,
       PathsRendered = int (length (ppPaths plan)), EventsDropped = 0\<rparr>"
    "ppFactors plan = Map.empty" "ppEndpointHash plan = endpointHash (e_dir_bytes env) (e_hrtf_bytes env) sc"
    "NewAcousticSceneGraph (e_pow env) (e_rate env) (e_names env) (Some sc) = Some (Inr (ppGraph plan))"
proof -
  obtain source receiver where sr: "Sources sc = [source]" "Receivers sc = [receiver]"
    using assms unfolding prepare_def by (auto split: list.splits)
  obtain graph :: "('dir, 'h, 'g, 'b) graph" where g: "NewAcousticSceneGraph (e_pow env) (e_rate env) (e_names env) (Some sc) = Some (Inr graph)"
    using assms sr unfolding prepare_def by (auto split: option.splits sum.splits)
  obtain src where src: "GroupOfPosition graph (sPosition source) = Some src"
    using assms sr g unfolding prepare_def by (auto split: option.splits)
  obtain dst where dst: "GroupOfPosition graph (rPosition receiver) = Some dst"
    using assms sr g src unfolding prepare_def by (auto split: option.splits)
  obtain tree where tree: "SearchPaths (e_log10 env) (e_cos env) (e_pow env) graph src (search_config cfg sc) = Some (Inr tree)"
    using assms sr g src dst unfolding prepare_def by (auto split: option.splits sum.splits)
  obtain paths found where r: "rankPaths cfg tree dst = Some (paths, found)" "paths \<noteq> []"
    using assms sr g src dst tree unfolding prepare_def by (auto split: option.splits if_splits)
  have plan: "plan = \<lparr>ppGraph = graph, ppTree = tree, ppPaths = paths, ppSource = source, ppReceiver = receiver,
       ppTruncation = \<lparr>PathSearch = Truncated tree, PathsFound = found, PathsRendered = int (length paths), EventsDropped = 0\<rparr>,
       ppFactors = Map.empty, ppEndpointHash = endpointHash (e_dir_bytes env) (e_hrtf_bytes env) sc\<rparr>"
    using assms sr g src dst tree r unfolding prepare_def by simp
  have "graph_reachable (e_pow env) (e_rate env) (e_names env) graph" by (rule graph_reachable.new [OF g])
  moreover have "gScene graph = sc" using NewAcousticSceneGraph_ok [of "e_pow env" "e_rate env" "e_names env" "Some sc", where ?'g = 'g and ?'b = 'b] g by auto
  ultimately show thesis using that sr src dst tree r g unfolding plan by simp
qed

text \<open>What ranking keeps and reports.\<close>

lemma rankPaths_tree:
  assumes "tree_ok log10 cosine pow g c rg src t" "dst \<in> set rg" "rankPaths cfg t dst = Some (paths, found)"
  shows "paths = take (nat (maxPaths cfg)) (SliceStable stronger (map (tree_path src t) (nodes_at t dst)))"
    "found = int (length (nodes_at t dst))" "int (length paths) \<le> maxPaths cfg"
    "\<not> int (length paths) < found \<Longrightarrow> mset paths = mset (map (tree_path src t) (nodes_at t dst))"
proof -
  let ?r = "SliceStable stronger (map (tree_path src t) (nodes_at t dst))"
  have m: "0 < maxPaths cfg" by (simp add: maxPaths_def)
  from assms(3) have p: "found = int (length ?r)" "paths = (if maxPaths cfg < found then take (nat (maxPaths cfg)) ?r else ?r)"
    unfolding rankPaths_def leaf_paths [OF assms(1,2)] by (auto simp: Let_def)
  then show f: "found = int (length (nodes_at t dst))" "int (length paths) \<le> maxPaths cfg" using m by auto
  show tk: "paths = take (nat (maxPaths cfg)) ?r" using p m by auto
  assume "\<not> int (length paths) < found"
  then have "paths = ?r" using p m by (auto split: if_splits)
  then show "mset paths = mset (map (tree_path src t) (nodes_at t dst))" by simp
qed

text \<open>A prepared plan with the tree it was ranked from.\<close>

lemma prepared_tree:
  fixes plan :: "('dir, 'h, 'g, 'b) pathPlan"
  assumes "prepare env (Some cfg) (Some sc) = Some (Inr plan)"
  obtains src dst c where
    "GroupOfPosition (ppGraph plan) (sPosition (ppSource plan)) = Some src"
    "GroupOfPosition (ppGraph plan) (rPosition (ppReceiver plan)) = Some dst"
    "graph_reachable (e_pow env) (e_rate env) (e_names env) (ppGraph plan)" "gScene (ppGraph plan) = sc"
    "SearchPaths (e_log10 env) (e_cos env) (e_pow env) (ppGraph plan) src (search_config cfg sc) = Some (Inr (ppTree plan))"
    "withDefaults (e_cos env) (search_config cfg sc) (BandCount (BandSpec sc)) = Inr c" "0 < cBandCount c"
    "tree_ok (e_log10 env) (e_cos env) (e_pow env) (ppGraph plan) c (groupsHoldingReceivers (ppGraph plan)) src (ppTree plan)"
    "cover_ok (ppGraph plan) (ppTree plan) []"
    "dst \<in> set (groupsHoldingReceivers (ppGraph plan))"
    "rankPaths cfg (ppTree plan) dst = Some (ppPaths plan, PathsFound (ppTruncation plan))"
proof -
  obtain src dst found where P: "Sources sc = [ppSource plan]" "Receivers sc = [ppReceiver plan]"
    "graph_reachable (e_pow env) (e_rate env) (e_names env) (ppGraph plan)" "gScene (ppGraph plan) = sc"
    "GroupOfPosition (ppGraph plan) (sPosition (ppSource plan)) = Some src"
    "GroupOfPosition (ppGraph plan) (rPosition (ppReceiver plan)) = Some dst"
    "SearchPaths (e_log10 env) (e_cos env) (e_pow env) (ppGraph plan) src (search_config cfg sc) = Some (Inr (ppTree plan))"
    "rankPaths cfg (ppTree plan) dst = Some (ppPaths plan, found)"
    "ppTruncation plan = \<lparr>PathSearch = Truncated (ppTree plan), PathsFound = found,
       PathsRendered = int (length (ppPaths plan)), EventsDropped = 0\<rparr>"
    by (rule prepare_Inr [OF assms])
  obtain c onPath where C: "withDefaults (e_cos env) (search_config cfg sc) (BandCount (BandSpec (gScene (ppGraph plan)))) = Inr c"
    "0 < cBandCount c"
    "path_inv (e_log10 env) (e_cos env) (e_pow env) (ppGraph plan) c (groupsHoldingReceivers (ppGraph plan)) src (ppTree plan) onPath []"
    "tree_ok (e_log10 env) (e_cos env) (e_pow env) (ppGraph plan) c (groupsHoldingReceivers (ppGraph plan)) src (ppTree plan)"
    by (rule SearchPaths_result [OF P(3,7)])
  have "dst \<in> set (groupsHoldingReceivers (ppGraph plan))"
    using P(2,4,6) by (simp add: groupsHoldingReceivers_def List.map_filter_def)
  with that P C show thesis by (simp add: path_inv_def)
qed

lemma nodes_at_iff:
  assumes "tree_ok log10 cosine pow g c rg src t"
  shows "i \<in> set (nodes_at t dst) \<longleftrightarrow> i < length (Nodes t) \<and> end_group src (steps t i) = dst"
  using node_path [OF assms, of i] by (auto simp: nodes_at_def)

lemma prepared_path_nodes:
  assumes "prepare env (Some cfg) (Some sc) = Some (Inr plan)" "p \<in> set (ppPaths plan)"
  obtains src dst i c where "GroupOfPosition (ppGraph plan) (sPosition (ppSource plan)) = Some src"
    "GroupOfPosition (ppGraph plan) (rPosition (ppReceiver plan)) = Some dst"
    "tree_ok (e_log10 env) (e_cos env) (e_pow env) (ppGraph plan) c (groupsHoldingReceivers (ppGraph plan)) src (ppTree plan)"
    "i < length (Nodes (ppTree plan))" "end_group src (steps (ppTree plan) i) = dst" "p = tree_path src (ppTree plan) i"
proof -
  obtain src dst c where P: "GroupOfPosition (ppGraph plan) (sPosition (ppSource plan)) = Some src"
    "GroupOfPosition (ppGraph plan) (rPosition (ppReceiver plan)) = Some dst"
    "tree_ok (e_log10 env) (e_cos env) (e_pow env) (ppGraph plan) c (groupsHoldingReceivers (ppGraph plan)) src (ppTree plan)"
    "dst \<in> set (groupsHoldingReceivers (ppGraph plan))"
    "rankPaths cfg (ppTree plan) dst = Some (ppPaths plan, PathsFound (ppTruncation plan))"
    by (rule prepared_tree [OF assms(1)])
  from assms(2) have "p \<in> set (map (tree_path src (ppTree plan)) (nodes_at (ppTree plan) dst))"
    unfolding rankPaths_tree(1) [OF P(3-5)] by (metis in_set_takeD set_SliceStable)
  with that P(1-3) nodes_at_iff [OF P(3)] show thesis by auto
qed

lemma prepared_path_ok:
  assumes "prepare env (Some cfg) (Some sc) = Some (Inr plan)" "p \<in> set (ppPaths plan)"
  shows "path_ok (ppGraph plan) p" "graph_ok (ppGraph plan)"
proof -
  obtain src i c where P:
    "tree_ok (e_log10 env) (e_cos env) (e_pow env) (ppGraph plan) c (groupsHoldingReceivers (ppGraph plan)) src (ppTree plan)"
    "i < length (Nodes (ppTree plan))" "p = tree_path src (ppTree plan) i"
    by (rule prepared_path_nodes [OF assms])
  show "path_ok (ppGraph plan) p" unfolding P(3) by (rule path_ok_tree [OF P(1,2)])
  show "graph_ok (ppGraph plan)" by (rule prepared_tree [OF assms(1)]) (rule graph_reachable_ok)
qed

subsection \<open>Ranking\<close>

lemma node_energies:
  assumes "graph_reachable pow rate names g" "dom (Materials (gScene g)) \<subseteq> set names" "pow_unit pow"
    "tree_ok log10 cosine pow g c rg src t" "0 < cBandCount c" "i < length (Nodes t)"
  shows "energies_ok (nTransmission (Nodes t ! i))"
  unfolding energies_ok_def all_set_conv_all_nth
proof (intro allI impI)
  fix b assume "b < length (nTransmission (Nodes t ! i))"
  then have b: "int b < cBandCount c" using transmission_length [OF assms(4) _ assms(6)] assms(5) by simp
  have "nTransmission (Nodes t ! i) ! b = foldl fmul (round64 1) (map (portal_tau pow g (int b)) (steps t i))"
    using node_transmission [OF assms(4) _ b assms(6)] assms(5) by simp
  moreover have "funit (foldl fmul (round64 1) (map (portal_tau pow g (int b)) (steps t i))) \<and>
      f64_ok (foldl fmul (round64 1) (map (portal_tau pow g (int b)) (steps t i)))"
    by (rule foldl_fmul_unit) (use portal_tau_unit [OF assms(1-3)] round64_ok [of 1] in \<open>auto simp: fle_def\<close>)
  ultimately show "fnonneg (nTransmission (Nodes t ! i) ! b) \<and> f64_ok (nTransmission (Nodes t ! i) ! b)" by simp
qed

lemma stronger_weak_order:
  assumes "\<forall>p \<in> S. \<not> is_nan (pathEnergy p)"
  shows "weak_order_on S stronger" "p \<in> S \<Longrightarrow> q \<in> S \<Longrightarrow> \<not> stronger q p \<longleftrightarrow> fle (pathEnergy q) (pathEnergy p)"
proof -
  show iff: "\<not> stronger q p \<longleftrightarrow> fle (pathEnergy q) (pathEnergy p)" if "p \<in> S" "q \<in> S" for p q
    using assms that not_flt_iff [of "pathEnergy p" "pathEnergy q"] by (simp add: stronger_def)
  show "weak_order_on S stronger"
    unfolding weak_order_on_def
  proof (intro conjI ballI impI)
    fix p q assume "p \<in> S" "q \<in> S" "stronger p q"
    then show "\<not> stronger q p" unfolding stronger_def using flt_trans flt_irrefl by blast
  next
    fix p q r assume "p \<in> S" "q \<in> S" "r \<in> S" "\<not> stronger q p" "\<not> stronger r q"
    then show "\<not> stronger r p" using iff fle_trans by blast
  qed
qed

lemma sorted_wrt_take_drop:
  assumes "sorted_wrt R xs" "x \<in> set (take n xs)" "y \<in> set (drop n xs)"
  shows "R x y"
  using assms sorted_wrt_append [of R "take n xs" "drop n xs"] by simp

subsection \<open>Preparing never panics\<close>



lemma search_total:
  assumes "graph_reachable pow rate names g"
  shows "\<exists>res. SearchPaths log10 cosine pow' g src cfg0 = Some res"
proof (cases "GroupRooms g src \<noteq> None \<and>
    (\<exists>cfg. withDefaults cosine cfg0 (BandCount (BandSpec (gScene g))) = Inr cfg \<and> 0 < cBandCount cfg)")
  case True
  then obtain rs cfg where "GroupRooms g src = Some rs" "0 < cBandCount cfg"
    "withDefaults cosine cfg0 (BandCount (BandSpec (gScene g))) = Inr cfg" by auto
  from SearchPaths_tree [OF graph_reachable_ok [OF assms] reachable_incident_sorted [OF assms] this(3,2,1), of log10 pow']
  show ?thesis by blast
qed (auto simp: SearchPaths_def split: sum.splits)

lemma prepare_total:
  fixes env :: "('dir, 'h) environment"
  shows "\<exists>r :: 'e net_failure + ('dir, 'h, 'g, 'b) pathPlan. prepare env cfgo so = Some r"
proof (cases cfgo; cases so)
  fix cfg sc assume a: "cfgo = Some cfg" "so = Some sc"
  show ?thesis
  proof (cases "\<exists>source receiver. Sources sc = [source] \<and> Receivers sc = [receiver]")
    case False
    then show ?thesis unfolding prepare_def a by (auto split: list.splits)
  next
    case True
    then obtain source receiver where sr: "Sources sc = [source]" "Receivers sc = [receiver]" by blast
    obtain gr where gr: "NewAcousticSceneGraph (e_pow env) (e_rate env) (e_names env) (Some sc) = Some (gr :: graph_error + ('dir, 'h, 'g, 'b) graph)"
      "\<And>g. gr = Inr g \<Longrightarrow> gScene g = sc"
      using NewAcousticSceneGraph_ok [of "e_pow env" "e_rate env" "e_names env" "Some sc", where ?'g = 'g and ?'b = 'b] by auto
    show ?thesis
    proof (cases gr)
      case (Inl e)
      with a sr gr show ?thesis by (simp add: prepare_def)
    next
      case (Inr g)
      note reach = graph_reachable.new [OF gr(1) [unfolded Inr]]
      have search: "\<exists>res. SearchPaths (e_log10 env) (e_cos env) (e_pow env) g src (search_config cfg sc) = Some res" for src
        by (rule search_total [OF reach])
      have ranks: "\<exists>r. rankPaths cfg t dst = Some r"
        if tr: "SearchPaths (e_log10 env) (e_cos env) (e_pow env) g src (search_config cfg sc) = Some (Inr t)"
          and pos: "GroupOfPosition g (rPosition receiver) = Some dst" for src dst t
      proof -
        obtain c where t: "tree_ok (e_log10 env) (e_cos env) (e_pow env) g c (groupsHoldingReceivers g) src t"
          by (rule SearchPaths_result [OF reach tr])
        have "dst \<in> set (groupsHoldingReceivers g)"
          using sr(2) gr(2) [OF Inr] pos by (simp add: groupsHoldingReceivers_def List.map_filter_def)
        from leaf_paths [OF t this] show ?thesis by (simp add: rankPaths_def)
      qed
      have pair: "r = (fst r, snd r)" for r :: "networkPath list \<times> int" by simp
      show ?thesis
        unfolding prepare_def a sr option.case prod.case list.case gr(1) Inr sum.case gr(2) [OF Inr]
        using search ranks
        by (auto split: option.split sum.split) (metis option.distinct(1))+
    qed
  qed
qed (simp_all add: prepare_def)

end
