(* ===== verification/Plan_Sessions.thy ===== *)
theory Plan_Sessions
  imports Plan_Preparation
begin

text \<open>
  Plans over time: portal changes and their change sets, the plans a sequence of renders and toggles
  reaches, and sessions in which several plans share one response cache.
\<close>

subsection \<open>Change sets\<close>

definition lists_values :: "((int \<rightharpoonup> hashw) \<Rightarrow> hashw list) \<Rightarrow> bool" where
  "lists_values iter \<longleftrightarrow> (\<forall>m. finite (dom m) \<longrightarrow> mset (iter m) = image_mset (the \<circ> m) (mset_set (dom m)))"

lemma lists_values_facts:
  assumes "lists_values iter" "finite (dom m)"
  shows "set (iter m) = ran m" "length (iter m) = card (dom m)"
proof -
  have m: "mset (iter m) = image_mset (the \<circ> m) (mset_set (dom m))" using assms by (simp add: lists_values_def)
  then have "set (iter m) = (the \<circ> m) ` dom m" using assms(2) by (metis finite_set_mset_mset_set set_image_mset set_mset_mset)
  also have "\<dots> = ran m" by (force simp: ran_def)
  finally show "set (iter m) = ran m" .
  show "length (iter m) = card (dom m)" using m by (metis size_image_mset size_mset size_mset_set)
qed

lemma GroupSignatures_dom: "dom (GroupSignatures g) = {0..<GroupCount g}"
  by (auto simp: GroupSignatures_def GroupSignature_def GroupRooms_def slice_at_def GroupCount_def split: if_splits)

lemma GroupSignatures_listed:
  assumes "lists_values iter"
  shows "set (iter (GroupSignatures g)) = ran (GroupSignatures g)" "int (length (iter (GroupSignatures g))) = GroupCount g"
  using lists_values_facts [OF assms, of "GroupSignatures g"] by (simp_all add: GroupSignatures_dom GroupCount_def)

lemma sort_signatures_spec:
  "AddedSignatures (sort_signatures prev sigs acc) = AddedSignatures acc @ filter (\<lambda>s. \<not> prev s) sigs"
  "AddedGroups (sort_signatures prev sigs acc) = AddedGroups acc + int (length (filter (\<lambda>s. \<not> prev s) sigs))"
  "ReusedGroups (sort_signatures prev sigs acc) = ReusedGroups acc + int (length (filter prev sigs))"
  by (induction sigs arbitrary: acc) auto

lemma change_set_spec:
  "set (AddedSignatures (change_set previous current)) = set current - set previous"
  "AddedGroups (change_set previous current) = int (length (AddedSignatures (change_set previous current)))"
  "AddedGroups (change_set previous current) + ReusedGroups (change_set previous current) = int (length current)"
  "set (RemovedSignatures (change_set previous current)) = set previous - set current"
  using sum_length_filter_compl [of "\<lambda>s. s \<in> set previous" current]
  by (auto simp: change_set_def sort_signatures_spec no_changes_def)

lemma with_state_restore:
  "with_state (with_state s i st) i (State (Portals s ! nat i)) = s"
proof (cases "nat i < length (Portals s)")
  case True
  then show ?thesis by (simp add: with_state_def)
qed (simp add: with_state_def list_update_beyond)

subsection \<open>Plans under portal toggles\<close>

text \<open>The plans a session reaches: prepared, then toggled (with or without success) and rendered.\<close>

inductive plan_reachable ::
  "((int \<rightharpoonup> hashw) \<Rightarrow> hashw list) \<Rightarrow> ('dir, 'h) environment \<Rightarrow> ('dir, 'h, 'g, 'b, 'e) solvers \<Rightarrow>
   ('dir, 'h, 'g, 'b) Plan \<Rightarrow> bool"
  for iter env and sv :: "('dir, 'h, 'g, 'b, 'e) solvers" where
  prepared: "Prepare env r so = Some (Inr p :: 'e net_failure + ('dir, 'h, 'g, 'b) Plan) \<Longrightarrow> plan_reachable iter env sv p"
| applied: "plan_reachable iter env sv p \<Longrightarrow>
    Apply iter env (Some p) change = Some (res :: 'e net_failure + ChangeSet, Some p') \<Longrightarrow> plan_reachable iter env sv p'"
| rendered: "plan_reachable iter env sv p \<Longrightarrow>
    renderPathFactors sv configHash pathIndex cfg needs (plPlan p, c) = Some (factors, (inner, c')) \<Longrightarrow>
    plan_reachable iter env sv (p\<lparr>plPlan := inner\<rparr>)"

definition in_sync :: "('dir, 'h) environment \<Rightarrow> ('dir, 'h, 'g, 'b, 'e) solvers \<Rightarrow> ('dir, 'h, 'g, 'b) Plan \<Rightarrow> bool" where
  "in_sync env sv p \<longleftrightarrow>
     prepare env (plRenderer p) (Some (plScene p)) =
       Some (Inr (fresh (plPlan p)) :: 'e net_failure + ('dir, 'h, 'g, 'b) pathPlan) \<and>
     plSignatures p = GroupSignatures (ppGraph (plPlan p))"

lemma prepare_renderer: "prepare env r (Some sc) = Some (Inr plan) \<Longrightarrow> \<exists>cfg. r = Some cfg"
  by (cases r) (simp_all add: prepare_def)

lemma fresh_id: "ppFactors plan = Map.empty \<Longrightarrow> fresh plan = plan"
  by (simp add: fresh_def)

lemma prepare_fresh:
  fixes plan :: "('dir, 'h, 'g, 'b) pathPlan"
  assumes "prepare env r (Some sc) = Some (Inr plan)"
  shows "fresh plan = plan"
proof -
  obtain cfg where "r = Some cfg" using prepare_renderer [OF assms] by blast
  with assms have "ppFactors plan = Map.empty" using prepare_Inr by metis
  then show ?thesis by (rule fresh_id)
qed

lemma apply_change_cases:
  assumes "apply_change iter env p change = Some (res :: 'e net_failure + ChangeSet, p')"
  shows "(\<exists>e. res = Inl e \<and> p' = p) \<or>
    (\<exists>inner. prepare env (plRenderer p) (Some (with_state (plScene p) (chPortalIndex change) (EffectiveState change))) =
         Some (Inr inner :: 'e net_failure + _) \<and>
       0 \<le> chPortalIndex change \<and> chPortalIndex change < int (length (Portals (plScene p))) \<and>
       res = Inr (change_set (iter (plSignatures p)) (iter (GroupSignatures (ppGraph inner)))) \<and>
       p' = p\<lparr>plScene := with_state (plScene p) (chPortalIndex change) (EffectiveState change), plPlan := inner,
         plSignatures := GroupSignatures (ppGraph inner)\<rparr>)"
  using assms unfolding apply_change_def
  by (auto simp: Let_def with_state_restore split: if_splits option.splits sum.splits)

lemma render_hops_fresh:
  "render_hops sv ch p cfg needs is (plan, c) = Some (r, (plan', c')) \<Longrightarrow> fresh plan' = fresh plan"
proof (induction "is" arbitrary: plan c r)
  case (Cons i "is")
  then obtain r1 plan1 c1 where run: "render_hop sv ch p cfg needs i (plan, c) = Some (r1, (plan1, c1))"
    by (cases "render_hop sv ch p cfg needs i (plan, c)") auto
  note f = render_hop_fresh [OF run]
  show ?case
  proof (cases r1)
    case (Inl e)
    with Cons.prems run f show ?thesis by simp
  next
    case (Inr x)
    with Cons.prems run obtain r2 where "render_hops sv ch p cfg needs is (plan1, c1) = Some (r2, (plan', c'))"
      by (auto split: option.splits sum.splits)
    with Cons.IH f show ?thesis by metis
  qed
qed simp

lemma renderPathFactors_fresh:
  "renderPathFactors sv ch i cfg needs (plan, c) = Some (r, (plan', c')) \<Longrightarrow> fresh plan' = fresh plan"
  by (auto simp: renderPathFactors_def Let_def split: if_splits intro: render_hops_fresh)

lemma Prepare_in_sync:
  assumes "Prepare env r so = Some (Inr p :: 'e net_failure + ('dir, 'h, 'g, 'b) Plan)"
  shows "in_sync env (sv :: ('dir, 'h, 'g, 'b, 'e) solvers) p"
proof -
  from assms obtain sc inner where i: "prepare env r (Some sc) = Some (Inr inner :: 'e net_failure + ('dir, 'h, 'g, 'b) pathPlan)"
    "p = \<lparr>plRenderer = r, plScene = sc, plPlan = inner, plSignatures = GroupSignatures (ppGraph inner)\<rparr>"
    by (auto simp: Prepare_def res_bind_Inr_iff split: option.splits)
  with prepare_fresh [OF i(1)] show ?thesis by (simp add: in_sync_def)
qed

subsection \<open>Sessions\<close>

text \<open>What a renderer does with plans and its cache: it takes up a plan with a new cache, renders paths,
  changes to another plan with the same cache, and drops cached entries by signature.\<close>

inductive session ::
  "('dir, 'h, 'g, 'b, 'e) solvers \<Rightarrow> RenderConfig \<Rightarrow> hashw \<Rightarrow> ('dir, 'h, 'g, 'b) pathPlan set \<Rightarrow>
   ('dir, 'h, 'g, 'b) render_state \<Rightarrow> bool"
  for sv cfg configHash W where
  start: "plan \<in> W \<Longrightarrow> session sv cfg configHash W (plan, NewResponseCache budget)"
| render: "session sv cfg configHash W st \<Longrightarrow>
    renderPathFactors sv configHash pathIndex cfg needs st = Some (factors, st') \<Longrightarrow> session sv cfg configHash W st'"
| replan: "session sv cfg configHash W (plan, c) \<Longrightarrow> plan' \<in> W \<Longrightarrow> session sv cfg configHash W (plan', c)"
| invalidate: "session sv cfg configHash W (plan, c) \<Longrightarrow>
    session sv cfg configHash W (plan, snd (invalidateSignature c signature))"

lemma fresh_memo_right: "ppFactors plan = Map.empty \<Longrightarrow> memo_right sv cfg plan"
  by (simp add: memo_right_def)

lemma new_cache_right: "cache_right sv cfg ch W (NewResponseCache budget)"
  using NewResponseCache_ok [of budget] by (simp add: cache_right_def cache.sound_def cache_holds_def)

lemma invalidate_right: "cache_right sv cfg ch W c \<Longrightarrow> cache_right sv cfg ch W (snd (invalidateSignature c signature))"
  unfolding cache_right_def cache.sound_def
  by (auto simp: invalidateSignature_refines cache_holds_def)

definition plans_ok :: "('dir, 'h, 'g, 'b) pathPlan set \<Rightarrow> bool" where
  "plans_ok W \<longleftrightarrow> (\<forall>plan \<in> W. graph_ok (ppGraph plan) \<and> (\<forall>p \<in> set (ppPaths plan). path_ok (ppGraph plan) p) \<and>
     ppFactors plan = Map.empty)"

lemma set_upt_sub: "set [0..<n] \<subseteq> {..<n}"
  by auto

lemma session_right:
  assumes "session sv cfg ch W st" "plans_ok W" "\<forall>plan \<in> W. hops_extractable sv plan"
    "keys_faithful sv cfg W (response_key_at ch)" "traces_storable sv cfg"
  shows "render_right sv cfg ch W st"
  using assms(1)
proof (induction rule: session.induct)
  case (start plan budget)
  then have "ppFactors plan = Map.empty" using assms(2) by (auto simp: plans_ok_def)
  with start show ?case by (simp add: render_right_def fresh_memo_right new_cache_right fresh_id)
next
  case (render st pathIndex needs factors st')
  obtain plan c plan' c' where st: "st = (plan, c)" "st' = (plan', c')" by (cases st; cases st')
  have W: "fresh plan \<in> W" using render.IH by (simp add: st render_right_def)
  then have ok: "graph_ok (ppGraph plan)" "\<forall>p \<in> set (ppPaths plan). path_ok (ppGraph plan) p"
    and x: "hops_extractable sv plan"
    using assms(2,3) unfolding plans_ok_def hops_extractable_def by (metis fresh_fields(1,2) hop_of_fresh(1))+
  from render(2) have i: "pathIndex < length (ppPaths plan)"
    and run: "render_hops sv ch (ppPaths plan ! pathIndex) cfg needs [0..<length (npGroups (ppPaths plan ! pathIndex))] (plan, c) =
      Some (factors, (plan', c'))"
    by (auto simp: renderPathFactors_def st Let_def split: if_splits)
  from render_hops_right [OF render.IH [unfolded st] nth_mem [OF i] x set_upt_sub hop_keys_faithful [OF ok] assms(4,5) run]
  show ?case by (auto simp: st)
next
  case (replan plan c plan')
  then have "ppFactors plan' = Map.empty" using assms(2) by (auto simp: plans_ok_def)
  with replan show ?case by (simp add: render_right_def fresh_memo_right fresh_id)
next
  case (invalidate plan c signature)
  then show ?case by (auto simp: render_right_def invalidate_right)
qed

lemma prepared_plans_ok:
  assumes "\<forall>plan \<in> W. \<exists>env ncfg sc. prepare env (Some ncfg) (Some sc) = Some (Inr plan :: 'e net_failure + ('dir, 'h, 'g, 'b) pathPlan)"
  shows "plans_ok W"
  unfolding plans_ok_def
proof (intro ballI)
  fix plan assume "plan \<in> W"
  then obtain env ncfg sc where p: "prepare env (Some ncfg) (Some sc) = Some (Inr plan :: 'e net_failure + ('dir, 'h, 'g, 'b) pathPlan)"
    using assms by blast
  have "graph_ok (ppGraph plan)" by (rule prepared_tree [OF p]) (rule graph_reachable_ok)
  moreover have "ppFactors plan = Map.empty" using prepare_Inr [OF p] by metis
  ultimately show "graph_ok (ppGraph plan) \<and> (\<forall>p \<in> set (ppPaths plan). path_ok (ppGraph plan) p) \<and> ppFactors plan = Map.empty"
    using prepared_path_ok(1) [OF p] by blast
qed

lemma right_early:
  assumes "factor_right sv cfg hop f" "has_needs needs f" "needEarly needs"
  shows "\<exists>early. Early f = Some early \<and> early_half sv cfg hop = Some (Inr (early, gfEvents f))"
  using assms unfolding factor_right_def early_right_def has_needs_def by blast

lemma right_late:
  assumes "factor_right sv cfg hop f" "has_needs needs f" "needLate needs"
  shows "\<exists>histogram dg. LateEnergy f = Some histogram \<and> late_half sv cfg hop = Some (Inr (histogram, dg)) \<and>
    (DGDirections f, DGHistograms f) = (case dg of None \<Rightarrow> ([], []) | Some d \<Rightarrow> d)"
proof -
  from assms(2,3) obtain h where h: "LateEnergy f = Some h" unfolding has_needs_def by blast
  with assms(1) show ?thesis unfolding factor_right_def late_right_def by simp
qed

end
