(* ===== verification/Network_Properties.thy ===== *)
theory Network_Properties
  imports Network_Laws
begin

text \<open>
  The properties of energy histograms and of the filter network, with their witnesses.
\<close>




definition click :: "f64 \<Rightarrow> BandedResponse" where
  "click a = \<lparr>brSampleRate = 4, Bands = [[a, Zero False]], Quadrature = []\<rparr>"



text \<open>\<open>SumBandedResponses\<close> over well-shaped responses with the same band count (nil and
  band-less ones are skipped) returns rows of the greatest length, and every sample is the sum in
  order of the samples of the responses that reach it, in phase and in quadrature alike.\<close>

theorem sum_of_responses:
  assumes "present_responses responses = ps" "ps \<noteq> []"
    "\<forall>r \<in> set ps. well_shaped r \<and> length (Bands r) = n \<and> br_Len (Some r) \<le> 2 ^ 45" "int n \<le> 2 ^ 40"
  shows "\<exists>out. SumBandedResponses responses = Some (Inr out) \<and>
    response_shaped n (nat (longest ps)) out \<and>
    (\<forall>band < n. \<forall>i < nat (longest ps). Bands out ! band ! i = sum_samples ps Bands band i \<and>
       quadrature_at out band i = sum_samples ps Quadrature band i)"
proof -
  let ?z = "\<lparr>brSampleRate = brSampleRate (hd ps),
      Bands = replicate n (replicate (nat (longest ps)) (Zero False)), Quadrature = []\<rparr>"
  note total = SumBandedResponses_total [OF assms]
  have ne: "\<forall>r \<in> set ps. Bands r \<noteq> []" using assms(1) present_responses_iff by blast
  have "Bands (foldl (plus_response n (nat (longest ps))) ?z ps) ! band ! i = sum_samples ps Bands band i \<and>
      quadrature_at (foldl (plus_response n (nat (longest ps))) ?z ps) band i = sum_samples ps Quadrature band i"
    if "band < n" "i < nat (longest ps)" for band i
    using foldl_plus_response_Bands [OF total(4,3) that ne] foldl_plus_response_Quadrature [OF total(4,3) that] that
    by (simp add: sum_samples_def quadrature_at_def)
  with total(1,2) show ?thesis by blast
qed

theorem sum_of_responses_witness:
  "\<exists>out. SumBandedResponses [Some (click (round64 1)), None, Some (click (round64 2))] = Some (Inr out) \<and>
     Bands out ! 0 ! 0 = round64 3"
proof -
  let ?rs = "[Some (click (round64 1)), None, Some (click (round64 2))]"
  let ?ps = "[click (round64 1), click (round64 2)]"
  have ps: "present_responses ?rs = ?ps" by (simp add: present_responses_def map_filter_simps br_BandCount_def click_def)
  have "longest ?ps = 2" by (simp add: longest_def br_Len_def click_def)
  moreover have "sum_samples ?ps Bands 0 0 = round64 3"
    by (simp add: sum_samples_def click_def) (simp add: float_eval)
  moreover have "\<forall>r \<in> set ?ps. well_shaped r \<and> length (Bands r) = 1 \<and> br_Len (Some r) \<le> 2 ^ 45"
    by (simp add: well_shaped_def br_Len_def click_def response_shaped_def shaped_def)
  ultimately show ?thesis using sum_of_responses [OF ps, of 1] by auto
qed

text \<open>C31: convolving two histograms with full bins, the same band count and matching bin durations
  gives, in every bin and band of a histogram of the first one's duration, the sum over the pairs of
  bins whose indices add up to it of the products of their energies; with finite nonnegative
  energies no result is negative or NaN.\<close>

theorem histogram_convolution:
  assumes "hist_shaped a" "hist_shaped b" "hBandCount a = hBandCount b"
    "\<not> flt (round64 (1 / 10 ^ 12)) (fabs (fsub (BinDuration a) (BinDuration b)))"
    "NewEnergyHistogram (hDuration a) (BinDuration a) (hBandCount a) = Some fresh"
  shows "\<exists>out. ConvolveHistograms (Some a) (Some b) = Some (Inr out) \<and>
    length (Bins out) = length (Bins fresh) \<and> hist_shaped out \<and>
    (\<forall>t < length (Bins out). \<forall>band < nat (hBandCount a).
      BandEnergy (Bins out ! t) ! band =
        foldl fadd (Zero False) (map (pair_energy a b band)
          (filter (\<lambda>ij. fst ij + snd ij = t) (List.product [0..<length (Bins a)] [0..<length (Bins b)]))) \<and>
      (hist_nonneg a \<and> hist_nonneg b \<and> (\<forall>h \<in> {a, b}. \<forall>bin \<in> set (Bins h). \<forall>x \<in> set (BandEnergy bin). is_finite x)
        \<longrightarrow> fnonneg (BandEnergy (Bins out ! t) ! band)))"
proof -
  let ?ps = "List.product [0..<length (Bins a)] [0..<length (Bins b)]"
  let ?rows = "foldl (add_pair a b) (map BandEnergy (Bins fresh)) ?ps"
  let ?out = "fresh\<lparr>Bins := map2 (\<lambda>bin row. bin\<lparr>BandEnergy := row\<rparr>) (Bins fresh) ?rows\<rparr>"
  note rows = ConvolveHistograms_rows [OF assms]
  note fresh = NewEnergyHistogram_cases [OF assms(5)]
  have lr: "length ?rows = length (Bins fresh)" using rows(2) by (simp add: shaped_def)
  have nth: "BandEnergy (Bins ?out ! t) = ?rows ! t" if "t < length (Bins fresh)" for t
    using that lr by simp
  have sh: "hist_shaped ?out"
    using rows(2) fresh(3,5) unfolding hist_shaped_def all_set_conv_all_nth
    by (cases "Bins fresh = []") (auto simp: nth shaped_all_nth lr)
  have s: "shaped (length (Bins fresh)) (nat (hBandCount a)) (map BandEnergy (Bins fresh))"
    using fresh(4) by (auto simp: shaped_def)
  have val: "BandEnergy (Bins ?out ! t) ! band = foldl fadd (Zero False) (map (pair_energy a b band)
      (filter (\<lambda>ij. fst ij + snd ij = t) ?ps))" if "t < length (Bins fresh)" "band < nat (hBandCount a)" for t band
    using nth [OF that(1)] foldl_add_pair [OF s that, of b ?ps] fresh(4) that by (simp add: all_set_conv_all_nth)
  have "fnonneg (BandEnergy (Bins ?out ! t) ! band)"
    if t: "t < length (Bins fresh)" "band < nat (hBandCount a)" and nn: "hist_nonneg a" "hist_nonneg b"
      and fin: "\<forall>h \<in> {a, b}. \<forall>bin \<in> set (Bins h). \<forall>x \<in> set (BandEnergy bin). is_finite x" for t band
  proof -
    have el: "fnonneg x \<and> is_finite x" if "h \<in> {a, b}" "i < length (Bins h)" "x = BandEnergy (Bins h ! i) ! band" for h i x
    proof -
      have "length (BandEnergy (Bins h ! i)) = nat (hBandCount a)"
        using that(1,2) assms(1-3) by (auto simp: hist_shaped_def all_set_conv_all_nth)
      then have "x \<in> set (BandEnergy (Bins h ! i))" using that(3) t(2) by simp
      moreover have "Bins h ! i \<in> set (Bins h)" using that(2) by simp
      ultimately show ?thesis using that(1) nn fin by (auto simp: hist_nonneg_def energies_ok_def)
    qed
    have "energies_ok (map (pair_energy a b band) (filter (\<lambda>ij. fst ij + snd ij = t) ?ps))"
      using el by (auto simp: energies_ok_def pair_energy_def arith_ok intro!: fnonneg_fmul)
    from foldl_fadd_nonneg(1) [OF this, of "Zero False"] show ?thesis using val [OF t] by (simp add: fle_def)
  qed
  with rows(1) sh val lr show ?thesis by (intro exI [of _ ?out]) auto
qed


subsection \<open>A concrete histogram\<close>

definition one_bin :: "f64 \<Rightarrow> EnergyHistogram" where
  "one_bin x = \<lparr>Bins = [\<lparr>binTime = Zero False, BandEnergy = [x]\<rparr>], hDuration = round64 1, BinDuration = round64 1,
     hBandCount = 1\<rparr>"

lemma one_bin_fresh: "NewEnergyHistogram (round64 1) (round64 1) 1 = Some (one_bin (Zero False))"
proof -
  have b: "f64_to_int (fceil (fdiv (round64 1) (round64 1))) = 1"
    by (simp add: float_eval fceil_of_real f64_to_int_def truncate_real_def)
  have f: "fill (Suc 0) g = map_option (\<lambda>x. [x]) (g 0)" for g :: "nat \<Rightarrow> HistogramBin option"
    by (cases "g 0") (simp_all add: fill_def)
  show ?thesis
    unfolding NewEnergyHistogram_def b
    by (simp add: f make_slice_def make_floats_def one_bin_def f64_of_int_def float_eval)
qed

theorem histogram_convolution_witness:
  "\<exists>out. ConvolveHistograms (Some (one_bin (round64 2))) (Some (one_bin (round64 3))) = Some (Inr out) \<and>
     BandEnergy (Bins out ! 0) ! 0 = round64 6"
proof -
  let ?a = "one_bin (round64 2)" and ?b = "one_bin (round64 3)"
  have "hist_shaped ?a" "hist_shaped ?b" "hBandCount ?a = 1" "hBandCount ?b = 1" "hDuration ?a = round64 1"
    "BinDuration ?a = round64 1" "BinDuration ?b = round64 1"
    by (simp_all add: hist_shaped_def one_bin_def)
  moreover have "\<not> flt (round64 (1 / 10 ^ 12)) (fabs (fsub (round64 1) (round64 1)))"
  proof -
    have "fsub (Num 1) (Num 1) = Zero False" by (simp add: float_eval)
    moreover have "fle (Zero False) (round64 (1 / 10 ^ 12))" by simp
    ultimately show ?thesis by (auto simp: flt_def fle_def)
  qed
  moreover have "pair_energy ?a ?b 0 (0, 0) = Num 6" by (simp add: pair_energy_def one_bin_def float_eval)
  moreover have "List.product [0..<length (Bins ?a)] [0..<length (Bins ?b)] = [(0, 0)]" "length (Bins (one_bin (Zero False))) = 1"
    by (simp_all add: one_bin_def)
  moreover have "fadd (Zero False) (Num 6) = round64 6" by (simp add: float_eval)
  ultimately show ?thesis
    using histogram_convolution [of ?a ?b "one_bin (Zero False)"] one_bin_fresh by auto
qed

text \<open>\<open>FilterTransmission\<close> succeeds only with one coefficient or one per band, all finite and
  within [0, 1]; it keeps the times of the bins, and on finite nonnegative energies it never
  raises the energy of a bin and band nor makes it negative.\<close>

theorem transmission_only_removes_energy:
  assumes "FilterTransmission (Some h) transmission = Some (Inr filtered)"
    "hist_nonneg h" "\<forall>bin \<in> set (Bins h). \<forall>x \<in> set (BandEnergy bin). is_finite x"
    "i < length (Bins filtered)" "i < length (Bins h)"
  shows "(\<forall>c \<in> set transmission. funit c) \<and>
    (length transmission = 1 \<or> int (length transmission) = hBandCount h) \<and>
    binTime (Bins filtered ! i) = binTime (Bins h ! i) \<and>
    length (BandEnergy (Bins filtered ! i)) = nat (hBandCount h) \<and>
    (\<forall>band < nat (hBandCount h). fnonneg (BandEnergy (Bins filtered ! i) ! band) \<and>
      (band < length (BandEnergy (Bins h ! i)) \<longrightarrow>
        fle (BandEnergy (Bins filtered ! i) ! band) (BandEnergy (Bins h ! i) ! band)))"
proof -
  note f = FilterTransmission_Inr [OF assms(1)]
  have "fnonneg (BandEnergy (Bins filtered ! i) ! band) \<and> (band < length (BandEnergy (Bins h ! i)) \<longrightarrow>
      fle (BandEnergy (Bins filtered ! i) ! band) (BandEnergy (Bins h ! i) ! band))"
    if b: "band < nat (hBandCount h)" for band
  proof (cases "band < length (BandEnergy (Bins h ! i))")
    case True
    let ?x = "BandEnergy (Bins h ! i) ! band"
    have x: "fnonneg ?x" "f64_ok ?x" "is_finite ?x"
      using assms(2,3) nth_mem [OF assms(5)] nth_mem [OF True] by (auto simp: hist_nonneg_def energies_ok_def)
    have c: "funit (coefficient_at transmission band)"
    proof (rule coefficient_unit [OF f(2) _ b])
      show "length transmission = 1 \<or> length transmission = nat (hBandCount h)" using f(3) by force
    qed
    show ?thesis
      using fmul_unit_le [OF x(1) c x(3,2)] fnonneg_fmul [OF x(1) _ x(3), of "coefficient_at transmission band"]
        c funit_finite [OF c] True f(9) [OF assms(4,5) b] by auto
  next
    case False
    with f(9) [OF assms(4,5) b] show ?thesis by (simp add: fle_def)
  qed
  with f assms(4,5) show ?thesis by auto
qed

lemma one_bin_filtered:
  "FilterTransmission (Some (one_bin (round64 2))) [round64 (1 / 2)] = Some (Inr (one_bin (round64 1)))"
proof -
  have "check_transmission [round64 (1 / 2)] 0 = None" by (simp add: float_eval)
  moreover have "filter_bin 1 [round64 (1 / 2)] \<lparr>binTime = Zero False, BandEnergy = [round64 2]\<rparr> = Some [round64 1]"
    by (simp add: filter_bin_def make_floats_def make_slice_def float_eval)
  moreover have "fill (Suc 0) g = map_option (\<lambda>x. [x]) (g 0)" for g :: "nat \<Rightarrow> f64 list option"
    by (cases "g 0") (simp_all add: fill_def)
  ultimately show ?thesis
    using one_bin_fresh by (simp add: FilterTransmission_def one_bin_def del: check_transmission.simps)
qed

theorem transmission_only_removes_energy_witness:
  "FilterTransmission (Some (one_bin (round64 2))) [round64 (1 / 2)] = Some (Inr (one_bin (round64 1))) \<and>
   fle (BandEnergy (Bins (one_bin (round64 1)) ! 0) ! 0) (BandEnergy (Bins (one_bin (round64 2)) ! 0) ! 0)"
proof -
  have "hist_nonneg (one_bin (round64 2))" by (simp add: hist_nonneg_def energies_ok_def one_bin_def)
  moreover have "is_finite (round64 2)" by (simp add: float_eval)
  ultimately show ?thesis
    using transmission_only_removes_energy [OF one_bin_filtered, of 0] one_bin_filtered
    by (auto simp: one_bin_def)
qed

text \<open>with nonnegative energies and a finite total in a time slot, the probability of every
  direction in that slot is within [0, 1]; the table has one row per histogram and one column per
  slot of the longest.\<close>

theorem direction_probabilities_unit:
  assumes "hs \<noteq> []" "\<forall>h \<in> set hs. hist_nonneg h" "int (length hs) < 2 ^ 53"
    "slots = fold (\<lambda>h n. max n (length (Bins h))) hs 0" "k < slots" "is_finite (slot_total hs k)" "d < length hs"
  shows "length (DGProbabilitiesFromHistograms (map Some hs)) = length hs \<and>
    length (DGProbabilitiesFromHistograms (map Some hs) ! d) = slots \<and>
    funit (DGProbabilitiesFromHistograms (map Some hs) ! d ! k)"
proof -
  have "those (map Some hs) = Some hs" by (simp add: those_Some_iff)
  then have "DGProbabilitiesFromHistograms (map Some hs) =
      map (\<lambda>d. map (\<lambda>k. slot_probabilities hs k ! d) [0..<slots]) [0..<length hs]"
    using assms(1,4,5) by (simp add: DGProbabilitiesFromHistograms_def)
  then show ?thesis using slot_probabilities_unit [OF assms(2,6,7,3)] assms(5,7) by simp
qed

theorem direction_probabilities_unit_witness:
  "funit (DGProbabilitiesFromHistograms (map Some [one_bin (round64 1), one_bin (round64 1)]) ! 0 ! 0)"
proof -
  have "slot_total [one_bin (round64 1), one_bin (round64 1)] 0 = Num 2"
    by (simp add: slot_total_def slotEnergy_def one_bin_def float_eval)
  moreover have "hist_nonneg (one_bin (round64 1))"
    unfolding hist_nonneg_def energies_ok_def one_bin_def by (simp del: round64_one)
  ultimately show ?thesis
    using direction_probabilities_unit [of "[one_bin (round64 1), one_bin (round64 1)]" 1 0 0]
    by (simp add: one_bin_def is_finite_def)
qed

end
