(* ===== verification/Example_Plan.thy ===== *)
theory Example_Plan
  imports Plan_Sessions Network_Properties
begin

text \<open>
  The example building with a source and a receiver in the joined rooms, the plan prepared for it,
  and solvers that return fixed results.
\<close>

subsection \<open>The example building with a source and a receiver\<close>

definition seat :: "real \<Rightarrow> vec3" where
  "seat x = mk_vec3 (Num x) (Num 1) (Num 1)"

definition furnished :: "(unit, unit) scene" where
  "furnished = (building PortalOpen PortalClosed)
     \<lparr>Sources := [\<lparr>sPosition = seat 1, sOrientation = quat_identity, GainDB = Zero False, Directivity = None\<rparr>],
      Receivers := [\<lparr>rPosition = seat 3, rOrientation = quat_identity, rType = ''omni'', HRTF = None\<rparr>]\<rparr>"

lemma endpoint_fields [simp]:
  "RoomCount (s\<lparr>Sources := ss, Receivers := rs\<rparr>) = RoomCount s"
  "RoomAt (s\<lparr>Sources := ss, Receivers := rs\<rparr>) = RoomAt s"
  "room_contains (s\<lparr>Sources := ss, Receivers := rs\<rparr>) = room_contains s"
  by (simp_all add: fun_eq_iff RoomCount_def RoomAt_def room_contains_def)

lemma endpoints_elsewhere:
  "validateBandSpec (s\<lparr>Sources := ss, Receivers := rs\<rparr>) = validateBandSpec s"
  "validateSceneRooms (s\<lparr>Sources := ss, Receivers := rs\<rparr>) = validateSceneRooms s"
  "validateMaterialReferences (s\<lparr>Sources := ss, Receivers := rs\<rparr>) = validateMaterialReferences s"
  "validatePortals (s\<lparr>Sources := ss, Receivers := rs\<rparr>) = validatePortals s"
proof -
  let ?s = "s\<lparr>Sources := ss, Receivers := rs\<rparr>"
  have f: "Materials ?s = Materials s" "SampleRate ?s = SampleRate s" "BandSpec ?s = BandSpec s" "Rooms ?s = Rooms s"
    "Room ?s = Room s" "Portals ?s = Portals s" by simp_all
  have "validatePortal ?s = validatePortal s"
    by (intro ext) (simp only: validatePortal_def validatePortalReferences_def endpoint_fields f)
  then show "validatePortals ?s = validatePortals s" by (simp only: validatePortals_def f)
  show "validateBandSpec ?s = validateBandSpec s" "validateSceneRooms ?s = validateSceneRooms s"
    "validateMaterialReferences ?s = validateMaterialReferences s"
    by (simp_all only: validateBandSpec_def validateSceneRooms_def validateMaterialReferences_def undefined_names_def endpoint_fields f)
qed

lemma seat_rooms:
  "room_contains (building st1 st2) (seat 1) 0" "\<not> room_contains (building st1 st2) (seat 1) 1"
  "\<not> room_contains (building st1 st2) (seat 1) 2" "\<not> room_contains (building st1 st2) (seat 3) 0"
  "room_contains (building st1 st2) (seat 3) 1" "\<not> room_contains (building st1 st2) (seat 3) 2"
proof -
  have b: "room_Bounds (box_room x) = Some (shoebox_Bounds (the (Shoebox (box_room x))))" for x
    by (simp add: room_Bounds_def box_room_def)
  show "room_contains (building st1 st2) (seat 1) 0" "\<not> room_contains (building st1 st2) (seat 1) 1"
    "\<not> room_contains (building st1 st2) (seat 1) 2" "\<not> room_contains (building st1 st2) (seat 3) 0"
    "room_contains (building st1 st2) (seat 3) 1" "\<not> room_contains (building st1 st2) (seat 3) 2"
    unfolding room_contains_def building_RoomAt option.case b boxes
    by (simp_all add: box_Contains_def seat_def fle_def)
qed

lemma furnished_valid: "Validate pow rate building_names (Some furnished) = []"
proof -
  have idx: "RoomIndexAt furnished (seat 1) = Some 0" "RoomIndexAt furnished (seat 3) = Some 1"
    unfolding RoomIndexAt_def furnished_def endpoint_fields building_RoomAt(1) upto_3
    by (simp_all add: seat_rooms)
  have "isFiniteVec3 (seat 1)" "isFiniteVec3 (seat 3)" by (simp_all add: seat_def isFiniteVec3_def is_finite_def)
  then have pos: "validatePositions furnished = []"
    using idx by (simp add: validatePositions_def furnished_def)
  have "validateReceivers rate furnished = []" by (simp add: validateReceivers_def furnished_def)
  with pos building_valid [of PortalOpen PortalClosed pow rate] show ?thesis
    by (simp add: Validate_def furnished_def endpoints_elsewhere)
qed

definition furnished_graph :: "(unit, unit, unit, unit) graph" where
  "furnished_graph = building_graph\<lparr>gScene := furnished\<rparr>"

lemma furnished_graph_new: "NewAcousticSceneGraph pow rate building_names (Some furnished) = Some (Inr furnished_graph)"
proof -
  have n: "nat (RoomCount furnished) = 3" "RoomCount furnished \<noteq> 0" "Portals furnished = Portals (building PortalOpen PortalClosed)"
    by (simp_all add: building_RoomAt furnished_def)
  have l: "length (incident building_graph) = 3" by (simp add: building_graph_def)
  show ?thesis
    unfolding NewAcousticSceneGraph_def option.case n(1,3) building_incident UpdateRoomGroups_def graph.simps Let_def l building_groups
    using n(2) by (simp add: furnished_valid evictUnreachableGeometry_def building_graph_def furnished_graph_def)
qed

lemma furnished_groups:
  "GroupOfPosition furnished_graph (seat 1) = Some 0" "GroupOfPosition furnished_graph (seat 3) = Some 0"
proof -
  have r: "GroupOf furnished_graph 0 = Some 0" "GroupOf furnished_graph 1 = Some 0"
    by (simp_all add: furnished_graph_def building_graph_def GroupOf_def slice_at_def NoGroup_def)
  have c: "room_contains (gScene furnished_graph) = room_contains (building PortalOpen PortalClosed)" "RoomCount (gScene furnished_graph) = 3"
    by (simp_all add: furnished_graph_def furnished_def building_RoomAt)
  show "GroupOfPosition furnished_graph (seat 1) = Some 0" "GroupOfPosition furnished_graph (seat 3) = Some 0"
    unfolding GroupOfPosition_def c upto_3 by (simp_all add: c seat_rooms r NoGroup_def)
qed

definition quiet_env :: "(unit, unit) environment" where
  "quiet_env = \<lparr>e_pow = flat_pow, e_log10 = flat, e_cos = flat, e_rate = (\<lambda>_. 48000), e_names = building_names,
     e_dir_bytes = (\<lambda>_. []), e_hrtf_bytes = (\<lambda>_. [])\<rparr>"

definition default_network :: NetworkConfig where
  "default_network = \<lparr>ncMaxPathHops = 0, ncMaxPaths = 0, ncMaxComposedEventsPerPath = 0, ncBandFloorDB = Zero False\<rparr>"

text \<open>Preparing the furnished building succeeds: the source and the receiver share a group, so the root
  of the search tree is already a path.\<close>

lemma furnished_prepare:
  "\<exists>plan :: (unit, unit, unit, unit) pathPlan. prepare quiet_env (Some default_network) (Some furnished) = Some (Inr plan :: unit net_failure + _)"
proof -
  let ?g = furnished_graph and ?cfg = "search_config default_network furnished"
  have g: "graph_reachable (e_pow quiet_env) (e_rate quiet_env) (e_names quiet_env) ?g"
    unfolding quiet_env_def environment.simps by (rule graph_reachable.new [OF furnished_graph_new])
  have b: "BandCount (BandSpec (gScene ?g)) = 1"
    by (simp add: furnished_graph_def furnished_def building_def BandCount_def)
  have "\<exists>c. withDefaults flat \<lparr>MaxDepth = 4, MaxNodes = 0, PruneFloorDB = x, cBandCount = 1, ReductionWeights = []\<rparr> 1 = Inr c \<and> 0 < cBandCount c" for x
    by (cases "feq x (Zero False)") (simp_all add: withDefaults_def Let_def)
  moreover have "?cfg = \<lparr>MaxDepth = 4, MaxNodes = 0, PruneFloorDB = bandFloorDB default_network, cBandCount = 1, ReductionWeights = []\<rparr>"
    using b by (simp add: search_config_def furnished_graph_def default_network_def maxPathHops_def)
  ultimately obtain c where "withDefaults (e_cos quiet_env) ?cfg (BandCount (BandSpec (gScene ?g))) = Inr c" "0 < cBandCount c"
    using b by (auto simp: quiet_env_def)
  moreover have "GroupRooms ?g 0 = Some [0, 1]"
    by (simp add: furnished_graph_def building_graph_def GroupRooms_def slice_at_def)
  ultimately obtain t onPath where t: "SearchPaths (e_log10 quiet_env) (e_cos quiet_env) (e_pow quiet_env) ?g 0 ?cfg = Some (Inr t)"
    "tree_ok (e_log10 quiet_env) (e_cos quiet_env) (e_pow quiet_env) ?g c (groupsHoldingReceivers ?g) 0 t"
    using SearchPaths_tree [OF graph_reachable_ok [OF g] reachable_incident_sorted [OF g]] by (metis path_inv_def)
  have rg: "0 \<in> set (groupsHoldingReceivers ?g)"
    using furnished_groups(2) by (simp add: groupsHoldingReceivers_def List.map_filter_def furnished_graph_def furnished_def)
  have "0 \<in> set (nodes_at t 0)" using tree_okD(1,2) [OF t(2)] by (simp add: nodes_at_def)
  then have ne: "SliceStable stronger (map (tree_path 0 t) (nodes_at t 0)) \<noteq> []"
    by (metis empty_iff image_is_empty list.set(1) list.set_map set_SliceStable)
  have "\<exists>paths found. rankPaths default_network t 0 = Some (paths, found) \<and> paths \<noteq> []"
    unfolding rankPaths_def leaf_paths [OF t(2) rg] using ne by (simp add: Let_def maxPaths_def default_network_def)
  then obtain paths found where r: "rankPaths default_network t 0 = Some (paths, found)" "paths \<noteq> []" by blast
  have sr: "Sources furnished = [\<lparr>sPosition = seat 1, sOrientation = quat_identity, GainDB = Zero False, Directivity = None\<rparr>]"
    "Receivers furnished = [\<lparr>rPosition = seat 3, rOrientation = quat_identity, rType = ''omni'', HRTF = None\<rparr>]"
    by (simp_all add: furnished_def)
  have n: "NewAcousticSceneGraph (e_pow quiet_env) (e_rate quiet_env) (e_names quiet_env) (Some furnished) = Some (Inr ?g)"
    unfolding quiet_env_def environment.simps by (rule furnished_graph_new)
  show ?thesis
    unfolding prepare_def option.case prod.case sr list.case n sum.case source.simps receiver.simps furnished_groups t(1) r(1)
    using r(2) by simp
qed

definition plain_launch :: LaunchConfig where
  "plain_launch = \<lparr>NumRays = 1, MaxBounces = 0, MaxTimeSeconds = Num 1, SpeedOfSound = Num 343,
     lcReflectionStrategy = ReflectionStrategyProbabilistic, EnergyTerminationThreshold = Zero False,
     lcDiffractionMode = DiffractionDisabled, MaxDiffractionDepth = 0, DiffractionAngularThreshold = Zero False,
     DiffractionConeSamples = 0, DiffuseRain = False,
     HybridDetection = \<lparr>Enabled = False, MaxISOrder = 0, MaxPreEDISOrder = 0, MaxEDISOrder = 0, MaxEDOrder = 0\<rparr>\<rparr>"

definition dull_solvers :: "(unit, unit, unit, unit, unit) solvers" where
  "dull_solvers = \<lparr>ism_solve = (\<lambda>_ _ _. Inr []), trace_surface = (\<lambda>_ _ _ _. Inr (one_bin (round64 1))),
     trace_receiver = (\<lambda>_ _ _ groups _ _. Inr (one_bin (round64 1), groups)),
     group_mesh = (\<lambda>_ _. Inr (\<lparr>Triangles = []\<rparr>, [])), cos_fn = flat, sin_fn = flat,
     ismBandSpec = \<lparr>CenterFreqs = [], LowerEdges = [], UpperEdges = []\<rparr>, ismSpeedOfSound = Zero False,
     raytraceConfig = \<lparr>ecLaunch = plain_launch, ecReceiverRadius = Num 1, BinDurationSeconds = Num 1,
       DirectionGroupAzimuth = 0, DirectionGroupElevation = 0\<rparr>, DynamicRays = 0\<rparr>"

definition plain_render :: RenderConfig where
  "plain_render = \<lparr>rcSampleRate = 48000, DurationSeconds = Num 1, rcBandSpec = \<lparr>CenterFreqs = [], LowerEdges = [], UpperEdges = []\<rparr>\<rparr>"

definition in_key_order :: "(int \<rightharpoonup> hashw) \<Rightarrow> hashw list" where
  "in_key_order m = map (the \<circ> m) (sorted_list_of_set (dom m))"

lemma in_key_order_lists: "lists_values in_key_order"
proof -
  have "mset (sorted_list_of_set (dom m)) = mset_set (dom m)" if "finite (dom m)" for m :: "int \<rightharpoonup> hashw"
    using that by (metis distinct_sorted_list_of_set mset_set_set set_sorted_list_of_set)
  then show ?thesis by (simp add: lists_values_def in_key_order_def)
qed

lemma simple_path_closed: "simple_path g src es \<Longrightarrow> end_group src es = src \<Longrightarrow> es = []"
  by (cases es rule: rev_cases) (auto simp: simple_path_def end_group_def split: if_splits)

definition furnished_plan :: "(unit, unit, unit, unit) pathPlan" where
  "furnished_plan = projr (the (prepare quiet_env (Some default_network) (Some furnished) :: (unit net_failure + _) option))"

lemma furnished_plan:
  "prepare quiet_env (Some default_network) (Some furnished) = Some (Inr furnished_plan :: unit net_failure + _)"
  using furnished_prepare unfolding furnished_plan_def by auto

lemma furnished_plan_graph: "ppGraph furnished_plan = furnished_graph"
proof -
  have "NewAcousticSceneGraph (e_pow quiet_env) (e_rate quiet_env) (e_names quiet_env) (Some furnished) = Some (Inr (ppGraph furnished_plan))"
    using prepare_Inr [OF furnished_plan] by metis
  then show ?thesis unfolding quiet_env_def environment.simps furnished_graph_new by simp
qed

lemma furnished_endpoints:
  "sPosition (ppSource furnished_plan) = seat 1" "rPosition (ppReceiver furnished_plan) = seat 3"
proof -
  have "Sources furnished = [ppSource furnished_plan]" "Receivers furnished = [ppReceiver furnished_plan]"
    using prepare_Inr [OF furnished_plan] by metis+
  then show "sPosition (ppSource furnished_plan) = seat 1" "rPosition (ppReceiver furnished_plan) = seat 3"
    unfolding furnished_def by (simp_all, metis source.select_convs(1), metis receiver.select_convs(1))
qed

lemma furnished_path:
  assumes "p \<in> set (ppPaths furnished_plan)"
  shows "p = tree_path 0 (ppTree furnished_plan) 0" "npGroups p = [0]"
proof -
  obtain src dst i c where P: "GroupOfPosition (ppGraph furnished_plan) (sPosition (ppSource furnished_plan)) = Some src"
    "GroupOfPosition (ppGraph furnished_plan) (rPosition (ppReceiver furnished_plan)) = Some dst"
    "tree_ok (e_log10 quiet_env) (e_cos quiet_env) (e_pow quiet_env) (ppGraph furnished_plan) c
       (groupsHoldingReceivers (ppGraph furnished_plan)) src (ppTree furnished_plan)"
    "i < length (Nodes (ppTree furnished_plan))" "end_group src (steps (ppTree furnished_plan) i) = dst"
    "p = tree_path src (ppTree furnished_plan) i"
    by (rule prepared_path_nodes [OF furnished_plan assms])
  have e: "src = 0" "dst = 0" using P(1,2) by (simp_all add: furnished_plan_graph furnished_endpoints furnished_groups)
  have "steps (ppTree furnished_plan) i = []"
    using simple_path_closed node_path [OF P(3,4)] P(5) e by metis
  moreover have "steps (ppTree furnished_plan) 0 = []"
    by (rule steps_root) (use tree_okD(1,4,5) [OF P(3)] in \<open>simp_all add: edge_to_def\<close>)
  ultimately have "i = 0" using steps_inj [OF P(3)] P(4) tree_okD(1) [OF P(3)] by (metis length_greater_0_conv)
  with P(6) e show "p = tree_path 0 (ppTree furnished_plan) 0" by simp
  then show "npGroups p = [0]" using \<open>steps (ppTree furnished_plan) 0 = []\<close> by (simp add: tree_path_def)
qed

lemma furnished_hops: "hops_extractable dull_solvers furnished_plan"
  unfolding hops_extractable_def
proof (intro ballI allI impI)
  fix p i assume p: "p \<in> set (ppPaths furnished_plan)" and i: "i < length (npGroups p)"
  have "i = 0" "slice_at (npGroups p) (int i) = Some 0" using i furnished_path(2) [OF p] by (simp_all add: slice_at_def)
  moreover have "\<exists>gsc. GroupScene (group_mesh dull_solvers) (GroupMissing 0) (ppGraph furnished_plan) 0 = Some (Inr gsc)"
    by (simp add: GroupScene_def GroupRooms_def furnished_plan_graph furnished_graph_def building_graph_def slice_at_def
      soleShoeboxRoom_def dull_solvers_def Let_def)
  moreover have "\<exists>ports. hopPorts furnished_plan p 0 True True = Some ports" by (simp add: hopPorts_def)
  ultimately show "\<exists>hop. hop_of dull_solvers furnished_plan p i = Some (Inr hop)"
    using furnished_path(2) [OF p] unfolding hop_of_def by auto
qed

lemma furnished_keys: "keys_faithful dull_solvers cfg {furnished_plan} (response_key_at ch)"
  unfolding keys_faithful_def
proof (intro ballI allI impI)
  fix P Q p q i j key hop hop'
  assume a: "P \<in> {furnished_plan}" "Q \<in> {furnished_plan}" "p \<in> set (ppPaths P)" "q \<in> set (ppPaths Q)"
    "response_key_at ch P p i = Some key" "response_key_at ch Q q j = Some key"
    "hop_of dull_solvers P p i = Some (Inr hop)" "hop_of dull_solvers Q q j = Some (Inr hop')"
  then have "p = q" "npGroups p = [0]" using furnished_path by auto
  moreover have "i < length (npGroups p)" "j < length (npGroups q)"
    using a(5,6) by (auto simp: response_key_at_def slice_at_def split: option.splits if_splits)
  ultimately show "early_half dull_solvers cfg hop = early_half dull_solvers cfg hop' \<and>
      late_half dull_solvers cfg hop = late_half dull_solvers cfg hop'" using a by auto
qed

lemma furnished_hop:
  assumes "p \<in> set (ppPaths furnished_plan)" "hop_of dull_solvers furnished_plan p k = Some (Inr hop)"
  shows "late_half dull_solvers cfg hop = Some (Inr (one_bin (round64 1), None))"
proof -
  have "k < length (npGroups p)" using assms(2) by (auto simp: hop_of_def slice_at_def split: option.splits if_splits)
  then have k: "k = 0" "length (npGroups p) = 1" using furnished_path(2) [OF assms(1)] by simp_all
  have "HRTF (ppReceiver furnished_plan) = None"
  proof -
    have "Receivers furnished = [ppReceiver furnished_plan]" using prepare_Inr [OF furnished_plan] by metis
    then show ?thesis unfolding furnished_def by (simp, metis receiver.select_convs(4))
  qed
  moreover obtain gsc where "hop = (gsc, point_port portKindSource (sPosition (ppSource furnished_plan)),
      point_port portKindReceiver (rPosition (ppReceiver furnished_plan)), Some (ppSource furnished_plan), Some (ppReceiver furnished_plan))"
    using assms(2) k unfolding hop_of_def by (auto simp: hopPorts_def split: option.splits sum.splits)
  ultimately show ?thesis
    by (simp add: late_half_def trace_late_def traceFactorLateToReceiver_def Let_def point_port_def factorReceiver_def dull_solvers_def)
qed

lemma dull_traces: "traces_storable dull_solvers cfg"
proof -
  have "hBandCount h = 1" if "late_half dull_solvers cfg hop = Some (Inr (h, dg))" for hop h dg
    using that by (cases hop) (auto simp: late_half_def trace_late_def traceFactorLateToReceiver_def Let_def dull_solvers_def one_bin_def
      split: option.splits if_splits)
  then show ?thesis unfolding traces_storable_def by fastforce
qed

definition furnished_prepared :: "(unit, unit, unit, unit) Plan" where
  "furnished_prepared = \<lparr>plRenderer = Some default_network, plScene = furnished, plPlan = furnished_plan,
     plSignatures = GroupSignatures (ppGraph furnished_plan)\<rparr>"

lemma furnished_Prepare:
  "Prepare quiet_env (Some default_network) (Some furnished) = Some (Inr furnished_prepared :: unit net_failure + _)"
  by (simp add: Prepare_def furnished_plan furnished_prepared_def)

definition late_only :: factorNeeds where
  "late_only = \<lparr>needEarly = False, needLate = True\<rparr>"

end
