(* ===== verification/Plan_Properties.thy ===== *)
theory Plan_Properties
  imports Example_Plan
begin

text \<open>
  The properties of prepared plans, portal changes and cached renders, with their witnesses.
\<close>

subsection \<open>Properties\<close>

text \<open>C10: the paths of a prepared plan are distinct simple paths of the group graph, from the group of
  the source to the group of the receiver, at most \<open>MaxPaths\<close> of them; and a plan that does not
  report truncation has all of them.\<close>

theorem prepared_paths:
  fixes plan :: "('dir, 'h, 'g, 'b) pathPlan"
  assumes "prepare env (Some cfg) (Some sc) = Some (Inr plan)"
  shows "\<exists>src dst. GroupOfPosition (ppGraph plan) (sPosition (ppSource plan)) = Some src \<and>
    GroupOfPosition (ppGraph plan) (rPosition (ppReceiver plan)) = Some dst \<and>
    (\<forall>p \<in> set (ppPaths plan). simple_path (ppGraph plan) src (npPortals p) \<and> end_group src (npPortals p) = dst \<and>
       npGroups p = src # map ToGroup (npPortals p)) \<and>
    distinct (map npPortals (ppPaths plan)) \<and> int (length (ppPaths plan)) \<le> maxPaths cfg \<and>
    (\<not> trTruncated (ppTruncation plan) \<longrightarrow>
       npPortals ` set (ppPaths plan) = {es. simple_path (ppGraph plan) src es \<and> end_group src es = dst})"
proof -
  obtain src dst c where P: "GroupOfPosition (ppGraph plan) (sPosition (ppSource plan)) = Some src"
    "GroupOfPosition (ppGraph plan) (rPosition (ppReceiver plan)) = Some dst"
    "tree_ok (e_log10 env) (e_cos env) (e_pow env) (ppGraph plan) c (groupsHoldingReceivers (ppGraph plan)) src (ppTree plan)"
    "cover_ok (ppGraph plan) (ppTree plan) []" "dst \<in> set (groupsHoldingReceivers (ppGraph plan))"
    "rankPaths cfg (ppTree plan) dst = Some (ppPaths plan, PathsFound (ppTruncation plan))"
    by (rule prepared_tree [OF assms])
  obtain found where tr: "ppTruncation plan = \<lparr>PathSearch = Truncated (ppTree plan), PathsFound = found,
       PathsRendered = int (length (ppPaths plan)), EventsDropped = 0\<rparr>"
    by (rule prepare_Inr [OF assms])
  note R = rankPaths_tree [OF P(3,5,6)] and N = nodes_at_iff [OF P(3), of _ dst]
  let ?t = "ppTree plan" let ?all = "map (tree_path src ?t) (nodes_at ?t dst)"
  have path: "npPortals (tree_path src ?t i) = steps ?t i" "npGroups (tree_path src ?t i) = src # map ToGroup (steps ?t i)" for i
    by (simp_all add: tree_path_def)
  have sub: "set (ppPaths plan) \<subseteq> set ?all" unfolding R(1) using set_take_subset set_SliceStable by metis
  have each: "\<forall>p \<in> set (ppPaths plan). simple_path (ppGraph plan) src (npPortals p) \<and> end_group src (npPortals p) = dst \<and>
       npGroups p = src # map ToGroup (npPortals p)"
  proof
    fix p assume "p \<in> set (ppPaths plan)"
    with sub obtain i where "i \<in> set (nodes_at ?t dst)" "p = tree_path src ?t i" by auto
    with N node_path [OF P(3), of i] show "simple_path (ppGraph plan) src (npPortals p) \<and> end_group src (npPortals p) = dst \<and>
       npGroups p = src # map ToGroup (npPortals p)" by (simp add: path)
  qed
  have "distinct (map npPortals ?all)"
    using steps_inj [OF P(3)] by (auto simp: distinct_map inj_on_def path nodes_at_def)
  then have "distinct (map npPortals (SliceStable stronger ?all))"
    by (metis mset_SliceStable mset_map mset_eq_imp_distinct_iff)
  then have d: "distinct (map npPortals (ppPaths plan))" unfolding R(1) by (simp flip: take_map)
  have "npPortals ` set (ppPaths plan) = {es. simple_path (ppGraph plan) src es \<and> end_group src es = dst}"
    if nt: "\<not> trTruncated (ppTruncation plan)"
  proof -
    have "\<not> Truncated ?t" "\<not> int (length (ppPaths plan)) < PathsFound (ppTruncation plan)"
      using nt tr by (auto simp: trTruncated_def)
    then have "set (ppPaths plan) = set ?all" "\<not> Truncated ?t" using R(4) mset_eq_setD by blast+
    moreover have "\<exists>i \<in> set (nodes_at ?t dst). steps ?t i = es" if "simple_path (ppGraph plan) src es" "end_group src es = dst" for es
      using exhaustive [OF P(3,4) calculation(2) that(1)] that(2) N by auto
    ultimately show ?thesis using each by (fastforce simp: path image_iff)
  qed
  with P(1,2) each d R(3) show ?thesis by blast
qed

theorem prepared_paths_witness:
  "distinct (map npPortals (ppPaths furnished_plan)) \<and> int (length (ppPaths furnished_plan)) \<le> 32 \<and>
   (\<exists>src. GroupOfPosition (ppGraph furnished_plan) (sPosition (ppSource furnished_plan)) = Some src)"
  using prepared_paths [OF furnished_plan] by (auto simp: maxPaths_def default_network_def)

text \<open>C13: a prepared plan lists its paths strongest first, by the energy they transmit, and every
  path to the receiver that the cap left out transmits no more than any path kept.\<close>

theorem prepared_paths_ranked:
  fixes plan :: "('dir, 'h, 'g, 'b) pathPlan"
  assumes "prepare env (Some cfg) (Some sc) = Some (Inr plan)" "dom (Materials sc) \<subseteq> set (e_names env)" "pow_unit (e_pow env)"
  shows "sorted_wrt (\<lambda>p q. fle (pathEnergy q) (pathEnergy p)) (ppPaths plan) \<and>
    (\<forall>leaf \<in> set (Leaves (ppTree plan)). \<forall>q. leaf_path (ppTree plan) leaf = Some q \<longrightarrow>
       GroupOfPosition (ppGraph plan) (rPosition (ppReceiver plan)) = Some (last (npGroups q)) \<longrightarrow> q \<notin> set (ppPaths plan) \<longrightarrow>
       (\<forall>p \<in> set (ppPaths plan). fle (pathEnergy q) (pathEnergy p)))"
proof -
  obtain src dst c where P: "GroupOfPosition (ppGraph plan) (rPosition (ppReceiver plan)) = Some dst"
    "graph_reachable (e_pow env) (e_rate env) (e_names env) (ppGraph plan)" "gScene (ppGraph plan) = sc" "0 < cBandCount c"
    "tree_ok (e_log10 env) (e_cos env) (e_pow env) (ppGraph plan) c (groupsHoldingReceivers (ppGraph plan)) src (ppTree plan)"
    "dst \<in> set (groupsHoldingReceivers (ppGraph plan))"
    "rankPaths cfg (ppTree plan) dst = Some (ppPaths plan, PathsFound (ppTruncation plan))"
    by (rule prepared_tree [OF assms(1)])
  let ?t = "ppTree plan" let ?all = "map (tree_path src ?t) (nodes_at ?t dst)"
  note N = nodes_at_iff [OF P(5), of _ dst]
  have nan: "\<forall>p \<in> set ?all. \<not> is_nan (pathEnergy p)"
  proof
    fix p assume "p \<in> set ?all"
    then obtain i where i: "i < length (Nodes ?t)" "p = tree_path src ?t i" using N by auto
    have e: "energies_ok (nTransmission (Nodes ?t ! i))"
      using node_energies [OF P(2) _ assms(3) P(5,4) i(1)] assms(2) P(3) by simp
    have "fnonneg (Zero False)" "f64_ok (Zero False)" by (simp_all add: fle_def)
    with foldl_fadd_nonneg(1) [OF e] have "fnonneg (pathEnergy p)" by (simp add: i(2) pathEnergy_def tree_path_def)
    then show "\<not> is_nan (pathEnergy p)" by (auto simp: fle_def)
  qed
  let ?r = "SliceStable stronger ?all"
  have "sorted_wrt (\<lambda>p q. \<not> stronger q p) ?r"
    using SliceStable_sorted [OF stronger_weak_order(1) [OF nan]] by blast
  then have s: "sorted_wrt (\<lambda>p q. fle (pathEnergy q) (pathEnergy p)) ?r"
    by (rule sorted_wrt_mono_rel [rotated]) (use stronger_weak_order(2) [OF nan] in auto)
  have paths: "ppPaths plan = take (nat (maxPaths cfg)) ?r" by (rule rankPaths_tree(1) [OF P(5-7)])
  have kept: "fle (pathEnergy q) (pathEnergy p)"
    if "leaf \<in> set (Leaves ?t)" "leaf_path ?t leaf = Some q" "last (npGroups q) = dst" "q \<notin> set (ppPaths plan)" "p \<in> set (ppPaths plan)" for leaf p q
  proof -
    from that(1) obtain i where i: "leaf = int i" "i < length (Nodes ?t)" unfolding tree_okD(11) [OF P(5)] by auto
    with that(2) leaf_path_node [OF P(5) i(2)] have q: "q = tree_path src ?t i" by simp
    then have "end_group src (steps ?t i) = dst" using that(3) by (auto simp: tree_path_def end_group_def last_map split: if_splits)
    then have "q \<in> set ?r" using i(2) N q by simp
    then have "q \<in> set (drop (nat (maxPaths cfg)) ?r)" using that(4) unfolding paths
      by (metis Un_iff append_take_drop_id set_append)
    with sorted_wrt_take_drop [OF s] that(5) show ?thesis unfolding paths by blast
  qed
  have "sorted_wrt (\<lambda>p q. fle (pathEnergy q) (pathEnergy p)) (ppPaths plan)" unfolding paths by (rule sorted_wrt_take [OF s])
  with kept P(1) show ?thesis by auto
qed

theorem prepared_paths_ranked_witness:
  "sorted_wrt (\<lambda>p q. fle (pathEnergy q) (pathEnergy p)) (ppPaths furnished_plan)"
  using prepared_paths_ranked [OF furnished_plan]
  by (simp add: quiet_env_def building_pow_unit(1) furnished_def building_def building_materials_def building_names_def subset_iff)

text \<open>C11: a plan always agrees with its scene: after any sequence of renders and portal toggles, failed
  ones included, its graph, paths and endpoints are those preparing the scene with its present
  portal states gives, and its signatures are those of the graph.\<close>

theorem plan_in_sync:
  assumes "plan_reachable iter env (sv :: ('dir, 'h, 'g, 'b, 'e) solvers) p"
  shows "in_sync env sv p"
  using assms
proof (induction rule: plan_reachable.induct)
  case (prepared r so p)
  then show ?case by (rule Prepare_in_sync)
next
  case (applied p change res p')
  then have run: "plRenderer p = None \<and> p' = p \<or> apply_change iter env p change = Some (res, p')"
    by (auto simp: Apply_def split: if_splits)
  show ?case
  proof (cases "p' = p")
    case False
    with run have "apply_change iter env p change = Some (res, p')" by auto
    from apply_change_cases [OF this] False obtain inner where i:
      "prepare env (plRenderer p) (Some (with_state (plScene p) (chPortalIndex change) (EffectiveState change))) =
         Some (Inr inner :: 'e net_failure + _)"
      "p' = p\<lparr>plScene := with_state (plScene p) (chPortalIndex change) (EffectiveState change), plPlan := inner,
         plSignatures := GroupSignatures (ppGraph inner)\<rparr>" by auto
    with prepare_fresh [OF i(1)] show ?thesis by (simp add: in_sync_def)
  qed (use applied.IH in simp)
next
  case (rendered p configHash pathIndex cfg needs c factors inner c')
  note f = renderPathFactors_fresh [OF rendered(2)]
  then have "ppGraph inner = ppGraph (plPlan p)" using fresh_fields(2) by metis
  with rendered.IH f show ?case by (simp add: in_sync_def)
qed

theorem plan_in_sync_witness: "in_sync quiet_env dull_solvers furnished_prepared"
  by (rule plan_in_sync [OF plan_reachable.prepared [OF furnished_Prepare, of in_key_order]])

text \<open>C12: applying a portal change to a plan in sync returns. On an error the plan is unchanged. On success
  the scene has the new state, the plan is the one prepared from it, every group of the new graph is
  counted once as added or reused, the added signatures are exactly the new ones and the removed
  signatures exactly those that are gone.\<close>

theorem apply_reports_changes:
  fixes p :: "('dir, 'h, 'g, 'b) Plan" and sv :: "('dir, 'h, 'g, 'b, 'e) solvers"
  assumes "lists_values iter" "in_sync env sv p"
  shows "\<exists>res p'. Apply iter env (Some p) change = Some (res :: 'e net_failure + ChangeSet, Some p') \<and>
    (case res of
       Inl e \<Rightarrow> p' = p
     | Inr cs \<Rightarrow>
         plScene p' = with_state (plScene p) (chPortalIndex change) (EffectiveState change) \<and> in_sync env sv p' \<and>
         AddedGroups cs + ReusedGroups cs = GroupCount (ppGraph (plPlan p')) \<and>
         AddedGroups cs = int (length (AddedSignatures cs)) \<and>
         set (AddedSignatures cs) = ran (GroupSignatures (ppGraph (plPlan p'))) - ran (GroupSignatures (ppGraph (plPlan p))) \<and>
         set (RemovedSignatures cs) = ran (GroupSignatures (ppGraph (plPlan p))) - ran (GroupSignatures (ppGraph (plPlan p'))))"
proof -
  have sync: "plSignatures p = GroupSignatures (ppGraph (plPlan p))" using assms(2) by (simp add: in_sync_def)
  obtain cfg where r: "plRenderer p = Some cfg"
    using prepare_renderer [OF conjunct1 [OF assms(2) [unfolded in_sync_def]]] by blast
  have "\<exists>res p'. apply_change iter env p change = Some (res :: 'e net_failure + ChangeSet, p')"
    using prepare_total [of env "plRenderer p" "Some (with_state (plScene p) (chPortalIndex change) (EffectiveState change))",
      where ?'e = 'e and ?'g = 'g and ?'b = 'b]
    by (auto simp: apply_change_def Let_def split: sum.split)
  then obtain res p' where run: "apply_change iter env p change = Some (res :: 'e net_failure + ChangeSet, p')" by blast
  then have app: "Apply iter env (Some p) change = Some (res, Some p')" using r by (simp add: Apply_def)
  from apply_change_cases [OF run] show ?thesis
  proof (elim disjE exE conjE)
    fix e assume "res = Inl e" "p' = p"
    with app show ?thesis by auto
  next
    fix inner
    assume i: "prepare env (plRenderer p) (Some (with_state (plScene p) (chPortalIndex change) (EffectiveState change))) =
         Some (Inr inner :: 'e net_failure + _)"
      "res = Inr (change_set (iter (plSignatures p)) (iter (GroupSignatures (ppGraph inner))))"
      "p' = p\<lparr>plScene := with_state (plScene p) (chPortalIndex change) (EffectiveState change), plPlan := inner,
         plSignatures := GroupSignatures (ppGraph inner)\<rparr>"
    have "in_sync env sv p'" using i(1) prepare_fresh [OF i(1)] by (simp add: in_sync_def i(3))
    moreover have "plScene p' = with_state (plScene p) (chPortalIndex change) (EffectiveState change)" "plPlan p' = inner"
      by (simp_all add: i(3))
    ultimately show ?thesis
      using app change_set_spec [of "iter (GroupSignatures (ppGraph (plPlan p)))" "iter (GroupSignatures (ppGraph inner))"]
      by (intro exI [of _ res] exI [of _ p']) (simp add: i(2) sync GroupSignatures_listed [OF assms(1)])
  qed
qed

theorem apply_reports_changes_witness:
  "\<exists>res :: unit net_failure + ChangeSet.
     Apply in_key_order quiet_env (Some furnished_prepared) \<lparr>chPortalIndex = 7, chState = PortalOpen, chAperture = Num 1\<rparr> =
       Some (res, Some furnished_prepared)"
proof -
  have "in_sync quiet_env dull_solvers furnished_prepared" by (rule Prepare_in_sync [OF furnished_Prepare])
  from apply_reports_changes [OF in_key_order_lists this, of "\<lparr>chPortalIndex = 7, chState = PortalOpen, chAperture = Num 1\<rparr>"]
  show ?thesis by (auto simp: Apply_def apply_change_def furnished_prepared_def furnished_def building_def)
qed

text \<open>C9: whatever a session rendered, toggled, evicted or dropped before, rendering a path returns one
  factor per hop, and each half asked for is the one a direct simulation of that hop gives: the
  memo and the response cache change what is computed again, never the result. The plans are
  prepared ones, their hops can be cut out and simulated, and equal cache keys stand for hops that
  simulate alike.\<close>

theorem cached_render_is_simulation:
  fixes W :: "('dir, 'h, 'g, 'b) pathPlan set" and sv :: "('dir, 'h, 'g, 'b, 'e) solvers"
  assumes "session sv cfg ch W (plan, c)"
    "\<forall>plan \<in> W. \<exists>env ncfg sc. prepare env (Some ncfg) (Some sc) = Some (Inr plan :: 'e net_failure + ('dir, 'h, 'g, 'b) pathPlan)"
    "\<forall>plan \<in> W. hops_extractable sv plan" "keys_faithful sv cfg W (response_key_at ch)" "traces_storable sv cfg"
    "i < length (ppPaths plan)"
    "\<forall>k hop. hop_of sv plan (ppPaths plan ! i) k = Some (Inr hop) \<longrightarrow> hop_solvable sv cfg needs hop"
  shows "\<exists>fs st'. renderPathFactors sv ch i cfg needs (plan, c) = Some (Inr fs, st') \<and>
    length fs = length (npGroups (ppPaths plan ! i)) \<and>
    (\<forall>k < length fs. \<exists>hop. hop_of sv plan (ppPaths plan ! i) k = Some (Inr hop) \<and>
       (needEarly needs \<longrightarrow> (\<exists>early. Early (fs ! k) = Some early \<and>
          early_half sv cfg hop = Some (Inr (early, gfEvents (fs ! k))))) \<and>
       (needLate needs \<longrightarrow> (\<exists>histogram dg. LateEnergy (fs ! k) = Some histogram \<and>
          late_half sv cfg hop = Some (Inr (histogram, dg)) \<and>
          (DGDirections (fs ! k), DGHistograms (fs ! k)) = (case dg of None \<Rightarrow> ([], []) | Some d \<Rightarrow> d))))"
proof -
  let ?p = "ppPaths plan ! i" let ?is = "[0..<length (npGroups ?p)]"
  note right = session_right [OF assms(1) prepared_plans_ok [OF assms(2)] assms(3-5)]
  have W: "fresh plan \<in> W" using right by (simp add: render_right_def)
  have ok: "graph_ok (ppGraph plan)" "\<forall>p \<in> set (ppPaths plan). path_ok (ppGraph plan) p" and x: "hops_extractable sv plan"
    using W prepared_plans_ok [OF assms(2)] assms(3) unfolding plans_ok_def hops_extractable_def
    by (metis fresh_fields(1,2) hop_of_fresh(1))+
  have p: "?p \<in> set (ppPaths plan)" using assms(6) by simp
  have hops: "\<exists>hop. hop_of sv plan ?p k = Some (Inr hop)" if "k < length (npGroups ?p)" for k
    using x p that unfolding hops_extractable_def by blast
  have "\<exists>fs st'. render_hops sv ch ?p cfg needs ?is (plan, c) = Some (Inr fs, st')"
    by (rule render_hops_total) (use hops assms(7) in fastforce)
  then obtain fs plan' c' where run: "render_hops sv ch ?p cfg needs ?is (plan, c) = Some (Inr fs, (plan', c'))" by auto
  from render_hops_right [OF right p x set_upt_sub hop_keys_faithful [OF ok] assms(4,5) run]
  have l: "length fs = length (npGroups ?p)"
    and each: "\<And>k hop. k < length (npGroups ?p) \<Longrightarrow> hop_of sv plan ?p k = Some (Inr hop) \<Longrightarrow>
      factor_right sv cfg hop (fs ! k) \<and> has_needs needs (fs ! k)" by auto
  have run': "renderPathFactors sv ch i cfg needs (plan, c) = Some (Inr fs, (plan', c'))"
    using run assms(6) by (simp add: renderPathFactors_def Let_def)
  have "\<exists>hop. hop_of sv plan ?p k = Some (Inr hop) \<and>
       (needEarly needs \<longrightarrow> (\<exists>early. Early (fs ! k) = Some early \<and> early_half sv cfg hop = Some (Inr (early, gfEvents (fs ! k))))) \<and>
       (needLate needs \<longrightarrow> (\<exists>histogram dg. LateEnergy (fs ! k) = Some histogram \<and> late_half sv cfg hop = Some (Inr (histogram, dg)) \<and>
          (DGDirections (fs ! k), DGHistograms (fs ! k)) = (case dg of None \<Rightarrow> ([], []) | Some d \<Rightarrow> d)))"
    if k: "k < length fs" for k
  proof -
    obtain hop where hop: "hop_of sv plan ?p k = Some (Inr hop)" using hops [of k] k l by metis
    have "factor_right sv cfg hop (fs ! k) \<and> has_needs needs (fs ! k)" by (rule each [OF _ hop]) (use k l in simp)
    then have "factor_right sv cfg hop (fs ! k)" "has_needs needs (fs ! k)" by blast+
    note halves = right_early [OF this] right_late [OF this]
    show ?thesis using hop halves by blast
  qed
  with run' l show ?thesis by blast
qed

theorem cached_render_is_simulation_witness:
  "\<exists>fs st'. renderPathFactors dull_solvers 5 0 plain_render late_only (furnished_plan, NewResponseCache 1000) = Some (Inr fs, st') \<and>
     length fs = 1 \<and> LateEnergy (fs ! 0) = Some (one_bin (round64 1))"
proof -
  have i: "0 < length (ppPaths furnished_plan)" using prepare_Inr [OF furnished_plan] by (metis length_greater_0_conv)
  have p: "ppPaths furnished_plan ! 0 \<in> set (ppPaths furnished_plan)" using i by simp
  note late = furnished_hop [OF p, where cfg = plain_render]
  have s: "\<forall>k hop. hop_of dull_solvers furnished_plan (ppPaths furnished_plan ! 0) k = Some (Inr hop) \<longrightarrow>
      hop_solvable dull_solvers plain_render late_only hop"
    using late by (simp add: hop_solvable_def late_only_def)
  have W: "\<forall>plan \<in> {furnished_plan}. \<exists>env ncfg sc. prepare env (Some ncfg) (Some sc) =
      Some (Inr plan :: unit net_failure + (unit, unit, unit, unit) pathPlan)" using furnished_plan by blast
  have x: "\<forall>plan \<in> {furnished_plan}. hops_extractable dull_solvers plan" using furnished_hops by simp
  have g: "length (npGroups (ppPaths furnished_plan ! 0)) = 1" using furnished_path(2) [OF nth_mem [OF i]] by simp
  from cached_render_is_simulation [OF session.start [of furnished_plan "{furnished_plan}" _ _ 5 1000] W x furnished_keys dull_traces i s]
  obtain fs st' hop where r: "renderPathFactors dull_solvers 5 0 plain_render late_only (furnished_plan, NewResponseCache 1000) = Some (Inr fs, st')"
    "length fs = 1" "hop_of dull_solvers furnished_plan (ppPaths furnished_plan ! 0) 0 = Some (Inr hop)"
    "\<exists>histogram dg. LateEnergy (fs ! 0) = Some histogram \<and> late_half dull_solvers plain_render hop = Some (Inr (histogram, dg))"
    by (auto simp: g late_only_def)
  with late [OF r(3)] show ?thesis by auto
qed

text \<open>The key under which a factor is cached does not depend on the receiver the plan is set to:
  replacing the plan's receiver, as the binaural renders do, changes the ports and the simulation of
  the last hop, but not its key.\<close>

theorem response_key_ignores_receiver:
  "response_key_at ch (plan\<lparr>ppReceiver := r\<rparr>) p i = response_key_at ch plan p i"
  by (auto simp: response_key_at_def hopPorts_def groupResponseKey_def point_port_def split: option.splits)

end
