(* ===== verification/Graph_Properties.thy ===== *)
theory Graph_Properties
  imports Example_Building
begin

text \<open>
  The properties of the room graph: its groups are the connected components of the open
  portals, its edges are the closed portals between different groups, and a door toggle
  leaves every group it does not touch, its signature and its cached geometry alone. Each
  is instantiated at the example building.
\<close>

lemma building_graph_RoomCount: "RoomCount (gScene building_graph) = 3"
  by (simp add: building_graph_def building_RoomAt)

text \<open>C1: In every graph the program can hold (built by \<open>NewAcousticSceneGraph\<close>, then
  changed by \<open>SetPortalState\<close> and filled caches) every room has a group, and two rooms have
  the same group exactly when a chain of open portals joins them.\<close>

theorem groups_are_components:
  assumes "graph_reachable pow rate names g"
    and "0 \<le> a" "a < RoomCount (gScene g)" "0 \<le> b" "b < RoomCount (gScene g)"
  shows "GroupOf g a \<noteq> None \<and>
    (GroupOf g a = GroupOf g b \<longleftrightarrow> open_connected (Portals (gScene g)) a b)"
proof -
  note g = graph_reachable_ok [OF assms(1)]
  obtain k where k: "GroupOf g a = Some (int k)" using GroupOf_total [OF g assms(2,3)] by blast
  with GroupOf_connected [OF g k, of b] show ?thesis by auto
qed

theorem groups_are_components_witness:
  "GroupOf building_graph 0 \<noteq> None \<and>
   (GroupOf building_graph 0 = GroupOf building_graph 1 \<longleftrightarrow>
      open_connected (Portals (gScene building_graph)) 0 1) \<and>
   GroupOf building_graph 0 = GroupOf building_graph 1"
proof -
  have "RoomCount (gScene building_graph) = 3" by (simp add: building_graph_def building_RoomAt)
  with groups_are_components [OF building_graph_reachable, of 0 1] show ?thesis
    by (simp add: building_graph_def GroupOf_def slice_at_def)
qed

text \<open>C5: \<open>GroupRooms\<close> lists a group without repetition in ascending order, holds exactly the
  rooms \<open>GroupOf\<close> maps to the group, and groups are numbered by their lowest room.\<close>

theorem group_rooms_listing:
  assumes "graph_reachable pow rate names g" "GroupRooms g k = Some rs"
  shows "sorted rs \<and> distinct rs \<and> rs \<noteq> [] \<and> set rs = {r. GroupOf g r = Some k} \<and>
    (\<forall>j js. k < j \<longrightarrow> GroupRooms g j = Some js \<longrightarrow> hd rs < hd js)"
proof -
  note g = graph_reachable_ok [OF assms(1)]
  have "hd rs < hd js" if "k < j" "GroupRooms g j = Some js" for j js
    using groups_invD(7) [OF graph_okD(2) [OF g], of "nat k" "nat j"] assms(2) that
    by (auto simp: GroupRooms_def slice_at_Some_iff)
  with GroupRooms_members [OF g assms(2)] show ?thesis by blast
qed

theorem group_rooms_listing_witness:
  "set [0, 1] = {r. GroupOf building_graph r = Some 0} \<and>
   GroupRooms building_graph 1 = Some [2] \<and> hd [0, 1] < hd [2::int]"
proof -
  have r: "GroupRooms building_graph 0 = Some [0, 1]" "GroupRooms building_graph 1 = Some [2]"
    by (simp_all add: building_graph_def GroupRooms_def slice_at_def)
  note l = group_rooms_listing [OF building_graph_reachable r(1)]
  then have "hd [0, 1] < hd [2::int]" using r(2) by (metis zero_less_one)
  with l r(2) show ?thesis by blast
qed

text \<open>C3: No operation on a graph the program can hold indexes out of range, whatever portal
  index, state or group identifier it is called with.\<close>

theorem graph_never_panics:
  assumes "graph_reachable pow rate names g"
  shows "(\<exists>r. SetPortalState g i st = Some r) \<and> (\<exists>views. GroupPortalViews g k = Some views) \<and>
    (\<exists>g'. UpdateRoomGroups g = Some g')"
proof -
  note g = graph_reachable_ok [OF assms]
  from UpdateRoomGroups_ok [OF graph_okD(5,1) [OF g]] SetPortalState_ok [OF g, of i st]
    GroupPortalViews_spec [OF g, of k]
  show ?thesis by blast
qed

text \<open>C4: \<open>NewAcousticSceneGraph\<close> never panics, and it returns a graph of the given scene
  exactly when the scene passes \<open>Validate\<close>.\<close>

theorem new_graph_iff_valid:
  "\<exists>r :: graph_error + ('dir, 'h, 'g, 'b) graph.
     NewAcousticSceneGraph pow rate names so = Some r \<and>
     ((\<exists>g. r = Inr g \<and> so = Some (gScene g)) \<longleftrightarrow> Validate pow rate names so = [])"
proof (cases so)
  case None
  then show ?thesis by (simp add: NewAcousticSceneGraph_def Validate_def)
next
  case (Some s)
  obtain r :: "graph_error + ('dir, 'h, 'g, 'b) graph"
    where r: "NewAcousticSceneGraph pow rate names so = Some r"
    using NewAcousticSceneGraph_ok [of pow rate names so, where ?'g = 'g and ?'b = 'b] by blast
  have "\<exists>g. r = Inr g \<and> so = Some (gScene g)" if "Validate pow rate names so = []"
  proof (cases r)
    case (Inl e)
    have "RoomCount s \<noteq> 0" using that Some by (auto simp: Validate_def validateSceneRooms_def Let_def)
    with Inl r that Some show ?thesis
      by (auto simp: NewAcousticSceneGraph_def split: option.splits)
  next
    case (Inr g)
    with r NewAcousticSceneGraph_ok [of pow rate names so, where ?'g = 'g and ?'b = 'b]
    show ?thesis by auto
  qed
  moreover have "Validate pow rate names so = []" if "r = Inr g" for g
    using NewAcousticSceneGraph_ok [of pow rate names so, where ?'g = 'g and ?'b = 'b] r that by auto
  ultimately show ?thesis using r by auto
qed

text \<open>C6: \<open>SetPortalState\<close> reports an index out of range, then an unsupported state, and
  otherwise returns a graph whose scene differs from the old one in that portal's state.\<close>

theorem set_portal_state_outcome:
  assumes "graph_reachable pow rate names g"
  shows "(i < 0 \<or> int (length (Portals (gScene g))) \<le> i \<longrightarrow>
      SetPortalState g i st = Some (Inl (PortalIndexOutOfRange i))) \<and>
    (0 \<le> i \<and> i < int (length (Portals (gScene g))) \<and> st \<noteq> PortalOpen \<and> st \<noteq> PortalClosed \<longrightarrow>
      SetPortalState g i st = Some (Inl (UnsupportedPortalState st))) \<and>
    (0 \<le> i \<and> i < int (length (Portals (gScene g))) \<and> (st = PortalOpen \<or> st = PortalClosed) \<longrightarrow>
      (\<exists>g'. SetPortalState g i st = Some (Inr g') \<and> graph_reachable pow rate names g' \<and>
         gScene g' = (gScene g)\<lparr>Portals :=
           (Portals (gScene g))[nat i := (Portals (gScene g) ! nat i)\<lparr>State := st\<rparr>]\<rparr> \<and>
         incident g' = incident g))"
proof -
  note g = graph_reachable_ok [OF assms]
  have "\<exists>g'. SetPortalState g i st = Some (Inr g') \<and> graph_reachable pow rate names g' \<and>
         gScene g' = set_state (gScene g) (nat i) st \<and> incident g' = incident g"
    if r: "0 \<le> i" "i < int (length (Portals (gScene g)))" "st = PortalOpen \<or> st = PortalClosed"
  proof -
    obtain g' where t: "SetPortalState g i st = Some (Inr g')"
      using SetPortalState_success [OF g r] by blast
    from graph_reachable.toggle [OF assms t] SetPortalState_Inr(4,5) [OF g t] t show ?thesis by blast
  qed
  then show ?thesis
    using SetPortalState_error_iff [of g i st] unfolding set_state_def by auto
qed


text \<open>\<open>GroupOfPosition\<close> returns a group exactly when some room contains the position and
  all the rooms that contain it are in that group.\<close>

theorem position_group:
  assumes "graph_reachable pow rate names g"
  shows "GroupOfPosition g p = Some k \<longleftrightarrow>
    (\<exists>r. room_contains (gScene g) p r) \<and>
    (\<forall>r. room_contains (gScene g) p r \<longrightarrow> GroupOf g r = Some k)"
  using GroupOfPosition_iff [OF graph_reachable_ok [OF assms]] .

text \<open>The edges \<open>GroupPortalViews\<close> returns are exactly the closed portals with one side in
  the group and the other side in another group, oriented outward.\<close>

theorem group_edges_exact:
  assumes "graph_reachable pow rate names g" "GroupPortalViews g a = Some views"
  shows "x \<in> set views \<longleftrightarrow>
    view_matches (Portals (gScene g)) (View x) \<and>
    State (Portals (gScene g) ! nat (PortalIndex (View x))) = PortalClosed \<and>
    FromGroup x = a \<and> GroupOf g (FromRoom (View x)) = Some a \<and>
    GroupOf g (ToRoom (View x)) = Some (ToGroup x) \<and> ToGroup x \<noteq> a"
  by (rule GroupPortalViews_iff [OF assms])

text \<open>The group graph is undirected: the counter view of an edge out of a group is an edge
  of the group it leads to.\<close>

theorem group_graph_undirected:
  assumes "graph_reachable pow rate names g" "GroupPortalViews g a = Some va"
    "GroupPortalViews g b = Some vb" "x \<in> set va" "ToGroup x = b"
  shows "\<lparr>View = Counter (View x), FromGroup = b, ToGroup = a\<rparr> \<in> set vb"
  using GroupPortalViews_iff [OF assms(1,2), of x] assms(4,5)
  unfolding GroupPortalViews_iff [OF assms(1,3)]
  by (auto simp: Counter_def view_matches_def)

text \<open>C2: A toggle of a portal that does not touch a group leaves the group's rooms, its
  signature and its cached geometry and BVH as they were, though the group may be renumbered.\<close>

theorem toggle_elsewhere_keeps_group:
  assumes "graph_reachable pow rate names g" "SetPortalState g i st = Some (Inr g')"
    "GroupRooms g k = Some rs"
    "fst (RoomIndices (Portals (gScene g) ! nat i)) \<notin> set rs"
    "snd (RoomIndices (Portals (gScene g) ! nat i)) \<notin> set rs"
  shows "\<exists>k'. GroupRooms g' k' = Some rs \<and> GroupSignature g' k' = GroupSignature g k \<and>
    geomCache g' (RoomGroupHash (gScene g') rs) = geomCache g (RoomGroupHash (gScene g) rs) \<and>
    bvhCache g' (RoomGroupHash (gScene g') rs) = bvhCache g (RoomGroupHash (gScene g) rs)"
  by (rule toggle_keeps_group [OF graph_reachable_ok [OF assms(1)] assms(2-5)])

text \<open>C7: The caches of derived geometry hold entries for current groups only.\<close>

theorem caches_stay_live:
  assumes "graph_reachable pow rate names g"
  shows "dom (geomCache g) \<union> dom (bvhCache g) \<subseteq> {RoomGroupHash (gScene g) rs | k rs. GroupRooms g k = Some rs}"
proof -
  have "live_keys g \<subseteq> {RoomGroupHash (gScene g) rs | k rs. GroupRooms g k = Some rs}"
  proof
    fix h assume "h \<in> live_keys g"
    then obtain k where "k < length (roomsOfGroup g)" "h = RoomGroupHash (gScene g) (roomsOfGroup g ! k)"
      by (auto simp: live_keys_def in_set_conv_nth)
    then show "h \<in> {RoomGroupHash (gScene g) rs | k rs. GroupRooms g k = Some rs}"
      by (auto simp: GroupRooms_def slice_at_def intro!: exI [of _ "roomsOfGroup g ! k"] exI [of _ "int k"])
  qed
  with graph_okD(3,4) [OF graph_reachable_ok [OF assms]] show ?thesis by blast
qed

theorem graph_never_panics_witness:
  "(\<exists>r. SetPortalState building_graph 7 ''ajar'' = Some r) \<and>
   (\<exists>views. GroupPortalViews building_graph (-3) = Some views) \<and>
   (\<exists>g'. UpdateRoomGroups building_graph = Some g')"
  by (rule graph_never_panics [OF building_graph_reachable])

theorem set_portal_state_outcome_witness:
  "SetPortalState building_graph 2 PortalOpen = Some (Inl (PortalIndexOutOfRange 2)) \<and>
   SetPortalState building_graph 1 ''ajar'' = Some (Inl (UnsupportedPortalState ''ajar'')) \<and>
   (\<exists>g'. SetPortalState building_graph 1 PortalOpen = Some (Inr g') \<and>
      gScene g' = building PortalOpen PortalOpen)"
proof -
  have l: "length (Portals (gScene building_graph)) = 2"
    by (simp add: building_graph_def building_Portals)
  have s: "(gScene building_graph)\<lparr>Portals := (Portals (gScene building_graph))[nat 1 :=
      (Portals (gScene building_graph) ! nat 1)\<lparr>State := PortalOpen\<rparr>]\<rparr> = building PortalOpen PortalOpen"
    by (simp add: building_graph_def building_def door_at_def)
  have n: "''ajar'' \<noteq> PortalOpen" "''ajar'' \<noteq> PortalClosed" by (simp_all add: PortalOpen_def PortalClosed_def)
  note o = set_portal_state_outcome [OF building_graph_reachable]
  from o [of 2 PortalOpen] o [of 1 "''ajar''"] o [of 1 PortalOpen] show ?thesis
    unfolding s l using n by auto
qed

lemma building_point:
  "room_contains (building st1 st2) (mk_vec3 (Num 1) (Num 1) (Num 1)) r \<longleftrightarrow> r = 0"
proof -
  have b: "room_Bounds (box_room x) = Some (shoebox_Bounds (the (Shoebox (box_room x))))" for x
    by (simp add: room_Bounds_def box_room_def)
  have "RoomAt (building st1 st2) r = None" if "r \<noteq> 0" "r \<noteq> 1" "r \<noteq> 2"
  proof -
    have "\<not> (0 \<le> r \<and> r < 3)" using that by linarith
    with RoomAt_Some_iff_index [of "building st1 st2" r] show ?thesis by (simp add: building_RoomAt(1))
  qed
  then show ?thesis
    by (cases "r = 0"; cases "r = 1"; cases "r = 2")
      (simp_all add: room_contains_def building_RoomAt b boxes box_Contains_def fle_def)
qed

theorem position_group_witness:
  "GroupOfPosition building_graph (mk_vec3 (Num 1) (Num 1) (Num 1)) = Some 0"
proof -
  have "room_contains (gScene building_graph) (mk_vec3 (Num 1) (Num 1) (Num 1)) r \<longleftrightarrow> r = 0" for r
    using building_point by (simp add: building_graph_def)
  moreover have "GroupOf building_graph 0 = Some 0" by (simp add: building_graph_def GroupOf_def slice_at_def)
  ultimately show ?thesis unfolding position_group [OF building_graph_reachable] by auto
qed

lemma building_views:
  "GroupPortalViews building_graph 0 = Some [\<lparr>View = mk_view 1 1 2 False, FromGroup = 0, ToGroup = 1\<rparr>]"
  "GroupPortalViews building_graph 1 = Some [\<lparr>View = mk_view 1 2 1 True, FromGroup = 1, ToGroup = 0\<rparr>]"
  by (simp_all add: GroupPortalViews_def GroupRooms_def GroupOf_def building_graph_def slice_at_def
    building_Portals mk_view_def door_fields PortalOpen_def PortalClosed_def)

theorem group_edges_exact_witness:
  "view_matches (Portals (gScene building_graph)) (mk_view 1 1 2 False) \<and>
   GroupOf building_graph 2 = Some 1"
  using group_edges_exact [OF building_graph_reachable building_views(1),
    of "\<lparr>View = mk_view 1 1 2 False, FromGroup = 0, ToGroup = 1\<rparr>"]
  by (simp add: mk_view_def)

theorem group_graph_undirected_witness:
  "\<lparr>View = Counter (mk_view 1 1 2 False), FromGroup = 1, ToGroup = 0\<rparr>
     \<in> set [\<lparr>View = mk_view 1 2 1 True, FromGroup = 1, ToGroup = 0\<rparr>]"
  using group_graph_undirected [OF building_graph_reachable building_views,
    of "\<lparr>View = mk_view 1 1 2 False, FromGroup = 0, ToGroup = 1\<rparr>"]
  by simp

theorem toggle_elsewhere_keeps_group_witness:
  "\<exists>g'. SetPortalState building_graph 0 PortalClosed = Some (Inr g') \<and>
     (\<exists>k'. GroupRooms g' k' = Some [2] \<and> GroupSignature g' k' = GroupSignature building_graph 1)"
proof -
  have l: "length (Portals (gScene building_graph)) = 2"
    by (simp add: building_graph_def building_Portals)
  obtain g' where g': "SetPortalState building_graph 0 PortalClosed = Some (Inr g')"
    using SetPortalState_success [OF graph_reachable_ok [OF building_graph_reachable], of 0 PortalClosed] l
    by auto
  have rs: "GroupRooms building_graph 1 = Some [2]" by (simp add: building_graph_def GroupRooms_def slice_at_def)
  have "RoomIndices (Portals (gScene building_graph) ! nat 0) = (0, 1)"
    by (simp add: building_graph_def building_Portals door_fields)
  with toggle_elsewhere_keeps_group [OF building_graph_reachable g' rs] g' show ?thesis by auto
qed

theorem caches_stay_live_witness:
  "RoomGroupHash (building PortalOpen PortalClosed) [0, 1] \<in>
     {RoomGroupHash (gScene building_graph) rs | k rs. GroupRooms building_graph k = Some rs}"
proof -
  let ?h = "RoomGroupHash (gScene building_graph) [0, 1]"
  let ?g = "building_graph\<lparr>geomCache := (geomCache building_graph)(?h \<mapsto> ())\<rparr>"
  have "GroupRooms building_graph 0 = Some [0, 1]"
    by (simp add: building_graph_def GroupRooms_def slice_at_def)
  from graph_reachable.fill_geom [OF building_graph_reachable this, of "\<lambda>_ _. NaN" "\<lambda>_. 0" "()"]
  have "?h \<in> {RoomGroupHash (gScene ?g) rs | k rs. GroupRooms ?g k = Some rs}"
    by (intro caches_stay_live [THEN subsetD]) auto
  then show ?thesis by (simp add: GroupRooms_def building_graph_def)
qed

subsection \<open>The hashes\<close>

text \<open>C8: \<open>GeometryHash\<close> and \<open>RoomHash\<close> do not depend on materials: scenes whose rooms have the
  same geometry and whose portals differ in their material only have the same hashes.\<close>

theorem geometry_hash_ignores_materials:
  assumes "RoomCount s = RoomCount s'" "\<And>i. rel_option same_room_geometry (RoomAt s i) (RoomAt s' i)"
    "map portal_key (Portals s) = map portal_key (Portals s')"
    "map sPosition (Sources s) = map sPosition (Sources s')"
    "map rPosition (Receivers s) = map rPosition (Receivers s')"
  shows "GeometryHash s = GeometryHash s' \<and> RoomHash s = RoomHash s'"
proof -
  have s: "fold (\<lambda>x. writeVec3 (sPosition x)) xs h = fold writeVec3 (map sPosition xs) h" for xs h
    by (simp add: fold_map comp_def)
  have r: "fold (\<lambda>x. writeVec3 (rPosition x)) xs h = fold writeVec3 (map rPosition xs) h" for xs h
    by (simp add: fold_map comp_def)
  show ?thesis
    unfolding GeometryHash_def RoomHash_def s r assms(4,5)
      writeRoomsAndPortals_same_geometry [OF assms(1-3)] by simp
qed

theorem geometry_hash_ignores_materials_witness:
  "GeometryHash ((building PortalOpen PortalClosed)\<lparr>Materials := Map.empty\<rparr>) =
     GeometryHash (building PortalOpen PortalClosed)"
proof -
  let ?s = "building PortalOpen PortalClosed" let ?s' = "?s\<lparr>Materials := Map.empty\<rparr>"
  have "rel_option same_room_geometry (RoomAt ?s' i) (RoomAt ?s i)" for i
    using RoomAt_cong [of ?s' ?s]
    by (cases "RoomAt ?s i") (simp_all add: same_room_geometry_def)
  moreover have "RoomCount ?s' = RoomCount ?s" by (rule RoomCount_cong) simp_all
  ultimately show ?thesis
    using geometry_hash_ignores_materials [of ?s' ?s] by simp
qed

text \<open>The group signature does not separate the coefficient arrays of a material: moving
  scattering coefficients to the front of the transmission coefficients leaves every group
  signature as it was, although the two materials are different.\<close>

theorem signature_misses_moved_coefficients:
  "GroupSignature (g\<lparr>gScene := (gScene g)\<lparr>Materials := (Materials (gScene g))(name \<mapsto>
       m\<lparr>ScatteringByBand := xs @ ys, TransmissionByBand := zs\<rparr>)\<rparr>\<rparr>) k =
   GroupSignature (g\<lparr>gScene := (gScene g)\<lparr>Materials := (Materials (gScene g))(name \<mapsto>
       m\<lparr>ScatteringByBand := xs, TransmissionByBand := ys @ zs\<rparr>)\<rparr>\<rparr>) k"
proof -
  have "RoomsSignature ((gScene g)\<lparr>Materials := (Materials (gScene g))(name \<mapsto>
       m\<lparr>ScatteringByBand := xs @ ys, TransmissionByBand := zs\<rparr>)\<rparr>) =
    RoomsSignature ((gScene g)\<lparr>Materials := (Materials (gScene g))(name \<mapsto>
       m\<lparr>ScatteringByBand := xs, TransmissionByBand := ys @ zs\<rparr>)\<rparr>)"
    by (rule RoomsSignature_cong) (simp_all add: material_bytes_def)
  then show ?thesis by (simp add: GroupSignature_def GroupRooms_def)
qed

end
