(* ===== verification/Rendering_Properties.thy ===== *)
theory Rendering_Properties
  imports Response_Rendering
begin

text \<open>
  The properties of the renderers of package ir, with their witnesses.
\<close>

subsection \<open>A concrete configuration\<close>

definition one_band :: band_spec where
  "one_band = \<lparr>CenterFreqs = [round64 1000], LowerEdges = [round64 707], UpperEdges = [round64 1414]\<rparr>"

definition short_render :: RenderConfig where
  "short_render = \<lparr>rcSampleRate = 4, DurationSeconds = round64 1, rcBandSpec = one_band\<rparr>"

definition plain_event :: "f64 \<Rightarrow> f64 \<Rightarrow> Event" where
  "plain_event t a = \<lparr>TimeSeconds = t, Amplitude = a, evDirection = Vec3Zero, DistanceMeters = Zero False,
     BandGain = [], PhaseRadians = Zero False, evKind = EventDirect\<rparr>"

definition two_events :: "Event list" where
  "two_events = [plain_event (round64 (1 / 2)) (round64 1), plain_event (round64 (1 / 2)) (round64 2)]"

lemma short_render_facts:
  "BandCount (rcBandSpec short_render) = 1" "rcSampleRate short_render = 4"
  "buffer_length (rcSampleRate short_render) (DurationSeconds short_render) = 4"
  "validateRenderConfig short_render = None"
  "\<forall>e \<in> set two_events. event_fits 1 e"
  by (simp_all add: short_render_def one_band_def BandCount_def buffer_length_def f64_of_int_def float_eval
    fceil_of_real f64_to_int_def truncate_real_def validateRenderConfig_def two_events_def plain_event_def event_fits_def Let_def)

lemma short_render_length: "buffer_length 4 (DurationSeconds short_render) = 4"
  using short_render_facts(3) by (simp add: short_render_facts(2))

lemma half_second_sample: "sample_index (plain_event (round64 (1 / 2)) a) 4 = 2"
proof -
  have "fmul (Num (1 / 2)) (Num 4) = Num 2" by (simp add: float_eval)
  then show ?thesis
    by (simp add: sample_index_def plain_event_def f64_of_int_def float_eval fround_def fcompose_def round_away_def
      f64_to_int_def truncate_real_def Let_def)
qed

text \<open>C32: \<open>BandedFromEvents\<close> does not panic on a duration whose sample count fits an allocation,
  and succeeds exactly when there is a band, a positive sample rate and every event has a
  non-negative time and no band gains or one per band. Each band then has one sample per buffer
  slot, and a sample is the sum, in event order, of the in-phase contributions of the events whose
  rounded time is that sample; the quadrature rows are the same sums with the sine and exist
  exactly when some event carries phase.\<close>

theorem banded_from_events_exact:
  fixes cfg :: RenderConfig
  defines "n \<equiv> BandCount (rcBandSpec cfg)" and "len \<equiv> buffer_length (rcSampleRate cfg) (DurationSeconds cfg)"
  assumes "n \<le> 2 ^ 40" "0 \<le> len" "len \<le> 2 ^ 45"
  shows "case BandedFromEvents cosine sine events cfg of
      None \<Rightarrow> False
    | Some (Inl err) \<Rightarrow> n = 0 \<or> rcSampleRate cfg \<le> 0 \<or> (\<exists>e \<in> set events. \<not> event_fits n e)
    | Some (Inr r) \<Rightarrow>
        0 < n \<and> 0 < rcSampleRate cfg \<and> (\<forall>e \<in> set events. event_fits n e) \<and>
        brSampleRate r = rcSampleRate cfg \<and> response_shaped (nat n) (nat len) r \<and>
        HasQuadrature (Some r) = eventsCarryPhase sine events \<and>
        (\<forall>band < nat n. \<forall>i < nat len. Bands r ! band ! i =
          sample_sum (\<lambda>e. in_phase cosine e band) (rcSampleRate cfg) events i) \<and>
        (eventsCarryPhase sine events \<longrightarrow> (\<forall>band < nat n. \<forall>i < nat len. Quadrature r ! band ! i =
          sample_sum (\<lambda>e. in_phase sine e band) (rcSampleRate cfg) events i))"
proof (cases "0 < n \<and> 0 < rcSampleRate cfg \<and> (\<forall>e \<in> set events. event_fits n e)")
  case False
  then obtain err where "BandedFromEvents cosine sine events cfg = Some (Inl err)"
    using BandedFromEvents_Inl [of cfg events cosine sine] by (auto simp: n_def)
  moreover have "0 \<le> n" by (simp add: n_def BandCount_def)
  ultimately show ?thesis using False by force
next
  case True
  let ?rows = "replicate (nat n) (replicate (nat len) (Zero False))"
  let ?r0 = "\<lparr>brSampleRate = rcSampleRate cfg, Bands = ?rows,
         Quadrature = (if eventsCarryPhase sine events then ?rows else [])\<rparr>"
  let ?r = "foldl (put_response cosine sine (rcSampleRate cfg) len) ?r0 events"
  have res: "BandedFromEvents cosine sine events cfg = Some (Inr ?r)"
    and sh: "response_shaped (nat n) (nat len) ?r"
    using BandedFromEvents_Inr [of cfg events cosine sine] True assms(3-5) unfolding n_def len_def by blast+
  have rows: "foldl (put_rows trig (rcSampleRate cfg) len) ?rows events ! band ! i =
      sample_sum (\<lambda>e. in_phase trig e band) (rcSampleRate cfg) events i" if "band < nat n" "i < nat len" for trig band i
    using that by (simp add: foldl_put_rows foldl_put_event_nth sample_sum_def)
  have "HasQuadrature (Some ?r) = eventsCarryPhase sine events"
    using True by (auto simp: HasQuadrature_def foldl_put_response)
  then show ?thesis
    using True sh unfolding res by (simp add: foldl_put_response rows)
qed


lemma two_events_rendered:
  "sample_sum (\<lambda>e. in_phase (\<lambda>_. round64 1) e 0) 4 two_events 2 = Num 3"
  by (simp add: sample_sum_def two_events_def half_second_sample in_phase_def weight_at_def)
    (simp add: plain_event_def float_eval)

theorem banded_from_events_exact_witness:
  "\<exists>r. BandedFromEvents (\<lambda>_. round64 1) (\<lambda>_. Zero False) two_events short_render = Some (Inr r) \<and>
     response_shaped 1 4 r \<and> Bands r ! 0 ! 2 = Num 3"
proof -
  obtain r where r: "BandedFromEvents (\<lambda>_. round64 1) (\<lambda>_. Zero False) two_events short_render = Some (Inr r)"
    using BandedFromEvents_Inr(1) [of short_render two_events "\<lambda>_. round64 1" "\<lambda>_. Zero False"]
    by (simp add: short_render_facts short_render_length)
  have "response_shaped 1 4 r \<and> Bands r ! 0 ! 2 = Num 3"
    using banded_from_events_exact [where cfg = short_render and cosine = "\<lambda>_. round64 1"
        and sine = "\<lambda>_. Zero False" and events = two_events] two_events_rendered
    unfolding r by (simp add: short_render_facts short_render_length)
  with r show ?thesis by blast
qed

text \<open>C33: on events without phase (the cosine of the phase is one) the two renderers agree bit for
  bit: whenever \<open>BandedFromEvents\<close> succeeds on a configuration that passes the check of
  \<open>RenderBand\<close>, \<open>RenderBand\<close> succeeds on every band and its samples are that band of the banded
  response.\<close>

theorem render_band_agrees:
  assumes "BandedFromEvents cosine sine events cfg = Some (Inr r)"
    and "validateRenderConfig cfg = None"
    and "\<forall>e \<in> set events. cosine (PhaseRadians e) = round64 1 \<and> f64_ok (Amplitude e)"
    and "0 \<le> band" "band < BandCount (rcBandSpec cfg)"
  shows "RenderBand cosine events band cfg =
    Some (Inr \<lparr>bufSampleRate = rcSampleRate cfg, Samples = Bands r ! nat band\<rparr>)"
proof -
  let ?n = "BandCount (rcBandSpec cfg)" and ?len = "buffer_length (rcSampleRate cfg) (DurationSeconds cfg)"
  have b: "nat band < nat ?n" using assms(4,5) by simp
  note facts = BandedFromEvents_band [OF assms(1) b]
  define g where "g e = in_phase cosine e (nat band)" for e
  have gain: "bandEventGain cosine e band ?n = Inr (g e)" if "e \<in> set events" for e
  proof -
    have c: "cosine (PhaseRadians e) = Num 1" "f64_ok (Amplitude e)" using assms(3) that by simp_all
    have "bandGainAt (BandGain e) band ?n = Inr (weight_at e (nat band))"
      using facts(2) that assms(4,5) by (auto simp: bandGainAt_def weight_at_def event_fits_def)
    then show ?thesis by (simp add: bandEventGain_def g_def in_phase_def c fmul_one arith_ok)
  qed
  have buf: "NewBuffer (rcSampleRate cfg) (DurationSeconds cfg) =
      Some \<lparr>bufSampleRate = rcSampleRate cfg, Samples = replicate (nat ?len) (Zero False)\<rparr>"
    using facts(3,4) by (auto simp: NewBuffer_def make_floats_Some_iff)
  have "place_events (\<lambda>e. bandEventGain cosine e band ?n) (rcSampleRate cfg) events 0
      \<lparr>bufSampleRate = rcSampleRate cfg, Samples = replicate (nat ?len) (Zero False)\<rparr> =
    Inr \<lparr>bufSampleRate = rcSampleRate cfg, Samples = Bands r ! nat band\<rparr>"
    using gain facts(2) buffer_event_eq [of events g cosine "nat band" "replicate (nat ?len) (Zero False)" ?len] facts(3,5)
    by (subst place_events_fits [where g = g]) (auto simp: g_def event_fits_def)
  then show ?thesis using assms(2,4,5) by (simp add: RenderBand_def buf Let_def)
qed

theorem render_band_agrees_witness:
  "\<exists>r. BandedFromEvents (\<lambda>_. round64 1) (\<lambda>_. Zero False) two_events short_render = Some (Inr r) \<and>
     RenderBand (\<lambda>_. round64 1) two_events 0 short_render =
       Some (Inr \<lparr>bufSampleRate = 4, Samples = Bands r ! 0\<rparr>)"
proof -
  obtain r where r: "BandedFromEvents (\<lambda>_. round64 1) (\<lambda>_. Zero False) two_events short_render = Some (Inr r)"
    using BandedFromEvents_Inr(1) [of short_render two_events "\<lambda>_. round64 1" "\<lambda>_. Zero False"]
    by (simp add: short_render_facts short_render_length)
  have ok: "\<forall>e \<in> set two_events. f64_ok (Amplitude e)"
    unfolding two_events_def plain_event_def by (simp del: round64_one)
  show ?thesis
    using render_band_agrees [OF r short_render_facts(4), of 0] ok r by (simp add: short_render_facts)
qed

end
