(* ===== verification/Cache_Properties.thy ===== *)
theory Cache_Properties
  imports Response_Cache Network_Properties
begin

text \<open>
  The properties of the response cache, with their witnesses.
\<close>

lemma lru_find_put:
  assumes "distinct (map eKey es)" "\<forall>e \<in> set es. 0 \<le> eBytes e" "0 \<le> sz"
  shows "lru_find key (lru_put budget key f sz es) =
    (if sz \<le> budget then Some \<lparr>eKey = key, eFactor = f, eBytes = sz\<rparr> else None)"
  by (simp add: lru_put_def lru_find_def)

lemma lru_put_oversized: "budget < sz \<Longrightarrow> lru_put budget key f sz es = []"
  by (simp add: lru_put_def)

text \<open>C27: every cache reached from a new one by any sequence of calls behaves as a list of entries
  with the most recently used in front: a get returns the entry of the key and moves it to the
  front, a put replaces the key's entry by a new one in front and keeps the longest prefix within
  the byte budget, and invalidation removes exactly the entries of the signature and counts them.\<close>

theorem cache_refines_lru:
  assumes "cache_reachable c"
  shows "fst (cache_get c key) = map_option eFactor (lru_find key (entry_list c)) \<and>
    entry_list (snd (cache_get c key)) = lru_get key (entry_list c) \<and>
    (storable f \<longrightarrow> entry_list (cache_put c key (Some f)) =
      lru_put (maxBytes c) key f (groupFactorBytes f) (entry_list c)) \<and>
    entry_list (snd (invalidateSignature c sig)) = filter (\<lambda>e. kGroupSignature (eKey e) \<noteq> sig) (entry_list c) \<and>
    fst (invalidateSignature c sig) = int (length (filter (\<lambda>e. kGroupSignature (eKey e) = sig) (entry_list c)))"
  using cache_reachable_ok [OF assms]
  by (simp add: cache_get_refines cache_put_refines storable_bytes invalidateSignature_refines)

definition key_a :: cacheKey where
  "key_a = \<lparr>kGroupSignature = 1, kEndpointHash = 2, kConfigHash = 3, kFromKind = 0, kToKind = 2, kFromIndex = 0, kToIndex = 0\<rparr>"

definition small_factor :: groupFactor where
  "small_factor = \<lparr>Early = Some (click (round64 1)), LateEnergy = None, gfEvents = [], DGDirections = [], DGHistograms = []\<rparr>"

lemma small_factor_facts: "storable small_factor" "groupFactorBytes small_factor = 16"
  by (simp_all add: storable_def small_factor_def groupFactorBytes_def br_BandCount_def br_Len_def click_def)

theorem cache_refines_lru_witness:
  "entry_list (cache_put (NewResponseCache 100) key_a (Some small_factor)) =
     [\<lparr>eKey = key_a, eFactor = small_factor, eBytes = 16\<rparr>]"
  using cache_refines_lru [OF cache_reachable.new [of 100], of key_a small_factor 0] small_factor_facts NewResponseCache_ok(2) [of 100]
  by (simp add: lru_put_def lru_without_def NewResponseCache_def)

text \<open>C28: in every reachable cache the byte counter is the sum of the sizes of the entries and never
  exceeds the budget, which is positive; the keys are distinct and the index map has exactly the
  keys of the list, each pointing at its entry; Stats reports the counter.\<close>

theorem cache_within_budget:
  assumes "cache_reachable c"
  shows "cbytes c = total_bytes (entry_list c) \<and> cbytes c \<le> maxBytes c \<and> 0 < maxBytes c \<and> 0 \<le> cbytes c \<and>
    distinct (map eKey (entry_list c)) \<and>
    (\<forall>key. map_option (entry_of c) (entries c key) = lru_find key (entry_list c)) \<and>
    StatBytes (Stats c) = total_bytes (entry_list c)"
proof -
  have ok: "index_ok c" "bytes_ok c" "cbytes c \<le> maxBytes c"
    using cache_reachable_ok [OF assms] by (auto simp: cache_ok_def)
  then have "0 \<le> total_bytes (entry_list c)" by (auto simp: bytes_ok_def intro: total_bytes_nonneg)
  with ok show ?thesis using index_ok_keys entries_find by (auto simp: bytes_ok_def Stats_def)
qed

theorem cache_within_budget_witness:
  "cbytes (cache_put (NewResponseCache 10) key_a (Some small_factor)) \<le> 10"
proof -
  have "cache_reachable (cache_put (NewResponseCache 10) key_a (Some small_factor))"
    by (intro cache_reachable.intros small_factor_facts)
  moreover have "maxBytes (cache_put (NewResponseCache 10) key_a (Some small_factor)) = 10"
    using cache_put_refines(3) [OF NewResponseCache_ok(1) storable_bytes [OF small_factor_facts(1)], of 10 key_a]
    by (simp add: NewResponseCache_def)
  ultimately show ?thesis using cache_within_budget by fastforce
qed

text \<open>After a put, a get of the same key returns the factor exactly when its size is within the
  budget; a factor larger than the whole budget is not stored and empties the cache. A get of
  another key returns what the cache held for it before or nothing.\<close>

theorem get_after_put:
  assumes "cache_reachable c" "storable f"
  shows "fst (cache_get (cache_put c key (Some f)) key) =
      (if groupFactorBytes f \<le> maxBytes c then Some f else None) \<and>
    (maxBytes c < groupFactorBytes f \<longrightarrow> entry_list (cache_put c key (Some f)) = []) \<and>
    (k \<noteq> key \<longrightarrow> fst (cache_get (cache_put c key (Some f)) k) \<in> {None, fst (cache_get c k)})"
proof -
  let ?c = "cache_put c key (Some f)"
  have ok: "cache_ok c" by (rule cache_reachable_ok [OF assms(1)])
  note put = cache_put_refines [OF ok storable_bytes [OF assms(2)], of key]
  have es: "distinct (map eKey (entry_list c))" "\<forall>e \<in> set (entry_list c). 0 \<le> eBytes e"
    using ok index_ok_keys by (auto simp: cache_ok_def bytes_ok_def)
  have "fst (cache_get ?c key) = (if groupFactorBytes f \<le> maxBytes c then Some f else None)"
    using lru_find_put [OF es storable_bytes [OF assms(2)]] by (simp add: cache_get_refines put)
  moreover have "maxBytes c < groupFactorBytes f \<longrightarrow> entry_list ?c = []" by (simp add: put lru_put_oversized)
  moreover have "fst (cache_get ?c k) \<in> {None, fst (cache_get c k)}" if "k \<noteq> key"
  proof (cases "fst (cache_get ?c k)")
    case (Some g)
    then have "cache_holds ?c k g" using cache_get_hit [OF put(2)] by simp
    with cache_put_holds [OF ok assms(2)] that have "cache_holds c k g" by metis
    then have "fst (cache_get c k) = Some g" using cache_get_hit [OF ok] by simp
    with Some show ?thesis by simp
  qed simp
  ultimately show ?thesis by blast
qed

theorem get_after_put_witness:
  "fst (cache_get (cache_put (NewResponseCache 16) key_a (Some small_factor)) key_a) = Some small_factor \<and>
   entry_list (cache_put (NewResponseCache 15) key_a (Some small_factor)) = []"
proof -
  have m: "maxBytes (NewResponseCache 16) = 16" "maxBytes (NewResponseCache 15) = 15" by (simp_all add: NewResponseCache_def)
  show ?thesis
    using get_after_put [OF cache_reachable.new [of 16] small_factor_facts(1), of key_a key_a]
      get_after_put [OF cache_reachable.new [of 15] small_factor_facts(1), of key_a key_a]
    by (simp add: m small_factor_facts)
qed

end
