(* ===== verification/Debounce.thy ===== *)
theory Debounce
  imports Prelude "HOL-Library.Word"
begin

text \<open>
  The debouncer of the preview renderer (internal/preview/debounce.go). A call of \<open>Trigger\<close> creates a
  context, a timer and, when the timer fires, a goroutine that runs \<open>invoke\<close>; the three are one
  job here, numbered in the order of the calls. The mutex makes \<open>Trigger\<close>, \<open>Cancel\<close> and the two
  critical sections of \<open>invoke\<close> one step each, and the steps of different goroutines interleave
  freely. The generation counter is a 64-bit word that wraps.
\<close>

datatype phase =
    Waiting \<comment> \<open>the timer runs\<close>
  | Stopped \<comment> \<open>the timer was stopped before it fired\<close>
  | Fired \<comment> \<open>\<open>invoke\<close> has been started and waits for the lock\<close>
  | Running \<comment> \<open>inside \<open>renderFn\<close>\<close>
  | Returned \<comment> \<open>\<open>renderFn\<close> has returned and \<open>cancel\<close> was called\<close>
  | Finished \<comment> \<open>\<open>invoke\<close> has returned\<close>

record job =
  jGeneration :: "64 word"
  jPhase :: phase
  jCancelled :: bool
  jRan :: bool

record debouncer =
  generation :: "64 word"
  timer :: "nat option"
  cancelFn :: "nat option"
  jobs :: "job list"

definition NewDebouncer :: debouncer where
  "NewDebouncer = \<lparr>generation = 0, timer = None, cancelFn = None, jobs = []\<rparr>"

definition cancel_context :: "nat option \<Rightarrow> job list \<Rightarrow> job list" where
  "cancel_context c js = (case c of None \<Rightarrow> js | Some k \<Rightarrow> js[k := (js ! k)\<lparr>jCancelled := True\<rparr>])"

text \<open>\<open>Stop\<close> has no effect on a timer that has fired.\<close>

definition stop_timer :: "nat option \<Rightarrow> job list \<Rightarrow> job list" where
  "stop_timer t js = (case t of None \<Rightarrow> js
   | Some k \<Rightarrow> if jPhase (js ! k) = Waiting then js[k := (js ! k)\<lparr>jPhase := Stopped\<rparr>] else js)"

definition Trigger :: "debouncer \<Rightarrow> debouncer" where
  "Trigger d =
     (let js = stop_timer (timer d) (cancel_context (cancelFn d) (jobs d)); g = generation d + 1 in
      \<lparr>generation = g, timer = Some (length js), cancelFn = Some (length js),
       jobs = js @ [\<lparr>jGeneration = g, jPhase = Waiting, jCancelled = False, jRan = False\<rparr>]\<rparr>)"

definition Cancel :: "debouncer \<Rightarrow> debouncer" where
  "Cancel d = \<lparr>generation = generation d + 1, timer = None, cancelFn = None,
     jobs = cancel_context (cancelFn d) (stop_timer (timer d) (jobs d))\<rparr>"

definition fire :: "nat \<Rightarrow> debouncer \<Rightarrow> debouncer" where
  "fire k d = d\<lparr>jobs := (jobs d)[k := (jobs d ! k)\<lparr>jPhase := Fired\<rparr>]\<rparr>"

definition invoke_enter :: "nat \<Rightarrow> debouncer \<Rightarrow> debouncer" where
  "invoke_enter k d =
     (if jGeneration (jobs d ! k) \<noteq> generation d
      then d\<lparr>jobs := (jobs d)[k := (jobs d ! k)\<lparr>jPhase := Finished\<rparr>]\<rparr>
      else d\<lparr>timer := None, jobs := (jobs d)[k := (jobs d ! k)\<lparr>jPhase := Running, jRan := True\<rparr>]\<rparr>)"

definition invoke_return :: "nat \<Rightarrow> debouncer \<Rightarrow> debouncer" where
  "invoke_return k d = d\<lparr>jobs := (jobs d)[k := (jobs d ! k)\<lparr>jPhase := Returned, jCancelled := True\<rparr>]\<rparr>"

definition invoke_leave :: "nat \<Rightarrow> debouncer \<Rightarrow> debouncer" where
  "invoke_leave k d =
     (let d' = d\<lparr>jobs := (jobs d)[k := (jobs d ! k)\<lparr>jPhase := Finished\<rparr>]\<rparr> in
      if jGeneration (jobs d ! k) = generation d then d'\<lparr>cancelFn := None\<rparr> else d')"

text \<open>The steps of the timers and goroutines.\<close>

inductive timer_step :: "debouncer \<Rightarrow> debouncer \<Rightarrow> bool" where
  fire: "k < length (jobs d) \<Longrightarrow> jPhase (jobs d ! k) = Waiting \<Longrightarrow> timer_step d (fire k d)"
| enter: "k < length (jobs d) \<Longrightarrow> jPhase (jobs d ! k) = Fired \<Longrightarrow> timer_step d (invoke_enter k d)"
| return: "k < length (jobs d) \<Longrightarrow> jPhase (jobs d ! k) = Running \<Longrightarrow> timer_step d (invoke_return k d)"
| leave: "k < length (jobs d) \<Longrightarrow> jPhase (jobs d ! k) = Returned \<Longrightarrow> timer_step d (invoke_leave k d)"

text \<open>\<open>debounced n d\<close>: the state \<open>d\<close> is reached with \<open>n\<close> calls of \<open>Trigger\<close> and \<open>Cancel\<close>.\<close>

inductive debounced :: "nat \<Rightarrow> debouncer \<Rightarrow> bool" where
  new: "debounced 0 NewDebouncer"
| trigger: "debounced n d \<Longrightarrow> debounced (Suc n) (Trigger d)"
| cancel: "debounced n d \<Longrightarrow> debounced (Suc n) (Cancel d)"
| step: "debounced n d \<Longrightarrow> timer_step d d' \<Longrightarrow> debounced n d'"

inductive_cases timer_stepE: "timer_step d d'"

subsection \<open>The invariant\<close>

text \<open>The job of the current generation, if there is one, is the last, and its phase determines what
  the two fields of the debouncer hold; every other job has lost its timer, and if it still renders,
  its context is cancelled.\<close>

definition current :: "debouncer \<Rightarrow> nat \<Rightarrow> bool" where
  "current d k \<longleftrightarrow> k < length (jobs d) \<and> jGeneration (jobs d ! k) = generation d"

definition stale_ok :: "job \<Rightarrow> bool" where
  "stale_ok j \<longleftrightarrow> jPhase j \<noteq> Waiting \<and> (jPhase j = Running \<longrightarrow> jCancelled j)"

definition current_ok :: "debouncer \<Rightarrow> nat \<Rightarrow> bool" where
  "current_ok d k \<longleftrightarrow>
     (case jPhase (jobs d ! k) of
        Waiting \<Rightarrow> timer d = Some k \<and> cancelFn d = Some k \<and> \<not> jCancelled (jobs d ! k) \<and> \<not> jRan (jobs d ! k)
      | Stopped \<Rightarrow> False
      | Fired \<Rightarrow> timer d = Some k \<and> cancelFn d = Some k \<and> \<not> jCancelled (jobs d ! k) \<and> \<not> jRan (jobs d ! k)
      | Running \<Rightarrow> timer d = None \<and> cancelFn d = Some k \<and> \<not> jCancelled (jobs d ! k) \<and> jRan (jobs d ! k)
      | Returned \<Rightarrow> timer d = None \<and> cancelFn d = Some k \<and> jRan (jobs d ! k)
      | Finished \<Rightarrow> timer d = None \<and> cancelFn d = None \<and> jRan (jobs d ! k))"

definition debounce_ok :: "nat \<Rightarrow> debouncer \<Rightarrow> bool" where
  "debounce_ok n d \<longleftrightarrow> unat (generation d) = n \<and> (\<forall>j \<in> set (jobs d). unat (jGeneration j) \<le> n) \<and>
     (\<forall>k < length (jobs d). if current d k then Suc k = length (jobs d) \<and> current_ok d k else stale_ok (jobs d ! k)) \<and>
     ((\<forall>k. \<not> current d k) \<longrightarrow> timer d = None \<and> cancelFn d = None)"

lemma debounce_okD:
  assumes "debounce_ok n d"
  shows "unat (generation d) = n" "k < length (jobs d) \<Longrightarrow> unat (jGeneration (jobs d ! k)) \<le> n"
    "current d k \<Longrightarrow> Suc k = length (jobs d)" "current d k \<Longrightarrow> current_ok d k"
    "k < length (jobs d) \<Longrightarrow> \<not> current d k \<Longrightarrow> stale_ok (jobs d ! k)"
    "\<forall>k. \<not> current d k \<Longrightarrow> timer d = None \<and> cancelFn d = None"
  using assms by (auto simp: debounce_ok_def current_def split: if_splits)

lemma update_at: "k < length xs \<Longrightarrow> xs[i := x] ! k = (if i = k then x else xs ! k)"
  by auto

text \<open>What a call leaves of the earlier jobs: none of them waits, and one that renders is cancelled.\<close>

lemma retired:
  assumes "debounce_ok n d" "k < length (jobs d)"
  defines "js \<equiv> stop_timer (timer d) (cancel_context (cancelFn d) (jobs d))"
    and "js' \<equiv> cancel_context (cancelFn d) (stop_timer (timer d) (jobs d))"
  shows "stale_ok (js ! k)" "stale_ok (js' ! k)" "length js = length (jobs d)" "length js' = length (jobs d)"
    "jGeneration (js ! k) = jGeneration (jobs d ! k)" "jGeneration (js' ! k) = jGeneration (jobs d ! k)"
proof -
  note D = debounce_okD [OF assms(1)]
  show "length js = length (jobs d)" "length js' = length (jobs d)"
    by (auto simp: js_def js'_def stop_timer_def cancel_context_def split: option.splits)
  show "jGeneration (js ! k) = jGeneration (jobs d ! k)" "jGeneration (js' ! k) = jGeneration (jobs d ! k)"
    using assms(2) by (auto simp: js_def js'_def stop_timer_def cancel_context_def update_at split: option.splits)
  have "stale_ok (js ! k) \<and> stale_ok (js' ! k)"
  proof (cases "current d k")
    case True
    with D(4) [OF True] assms(2) show ?thesis
      unfolding js_def js'_def current_ok_def stale_ok_def stop_timer_def cancel_context_def
      by (auto split: phase.splits)
  next
    case False
    note st = D(5) [OF assms(2) False]
    show ?thesis
    proof (cases "\<exists>c. current d c")
      case True
      then obtain c where c: "current d c" ..
      with False have "c \<noteq> k" by auto
      with D(4) [OF c] st assms(2) show ?thesis
        unfolding js_def js'_def current_ok_def stale_ok_def stop_timer_def cancel_context_def
        by (auto split: phase.splits)
    next
      case no: False
      with D(6) st show ?thesis by (simp add: js_def js'_def stop_timer_def cancel_context_def)
    qed
  qed
  then show "stale_ok (js ! k)" "stale_ok (js' ! k)" by auto
qed

lemma next_generation:
  assumes "Suc n < 2 ^ 64" "unat (g :: 64 word) = n"
  shows "unat (g + 1) = Suc n"
proof -
  have "unat (g + 1) = (unat g + 1) mod 2 ^ 64" by (simp add: unat_word_ariths)
  then show ?thesis using assms by simp
qed

lemma Trigger_ok:
  assumes "debounce_ok n d" "Suc n < 2 ^ 64"
  shows "debounce_ok (Suc n) (Trigger d)"
proof -
  note D = debounce_okD [OF assms(1)]
  let ?js = "stop_timer (timer d) (cancel_context (cancelFn d) (jobs d))"
  let ?new = "\<lparr>jGeneration = generation d + 1, jPhase = Waiting, jCancelled = False, jRan = False\<rparr>"
  have g: "unat (generation d + 1) = Suc n" by (rule next_generation [OF assms(2) D(1)])
  have l: "length ?js = length (jobs d)" by (auto simp: stop_timer_def cancel_context_def split: option.splits)
  have old: "stale_ok (?js ! k)" "unat (jGeneration (?js ! k)) \<le> n" if "k < length (jobs d)" for k
    using retired [OF assms(1) that] D(2) [OF that] by simp_all
  have d': "Trigger d = \<lparr>generation = generation d + 1, timer = Some (length (jobs d)), cancelFn = Some (length (jobs d)), jobs = ?js @ [?new]\<rparr>"
    by (simp add: Trigger_def Let_def l)
  have cur: "current (Trigger d) k \<longleftrightarrow> k = length (jobs d)" for k
  proof (cases "k < length (jobs d)")
    case True
    with old(2) [OF True] g have "jGeneration (?js ! k) \<noteq> generation d + 1" by auto
    with True l show ?thesis by (simp add: current_def d' nth_append)
  next
    case False
    with l show ?thesis by (auto simp: current_def d' nth_append)
  qed
  have "unat (jGeneration j) \<le> Suc n" if "j \<in> set (?js @ [?new])" for j
    using that old(2) g l by (auto simp: in_set_conv_nth le_Suc_eq)
  moreover have "stale_ok ((?js @ [?new]) ! k)" if "k < length (jobs d)" for k using old(1) [OF that] that l by (simp add: nth_append)
  moreover have "current_ok (Trigger d) (length (jobs d))" using l by (simp add: current_ok_def d' nth_append)
  ultimately show ?thesis
    unfolding debounce_ok_def cur using g l by (auto simp: d' less_Suc_eq)
qed

lemma Cancel_ok:
  assumes "debounce_ok n d" "Suc n < 2 ^ 64"
  shows "debounce_ok (Suc n) (Cancel d)"
proof -
  note D = debounce_okD [OF assms(1)]
  let ?js = "cancel_context (cancelFn d) (stop_timer (timer d) (jobs d))"
  have g: "unat (generation d + 1) = Suc n" by (rule next_generation [OF assms(2) D(1)])
  have l: "length ?js = length (jobs d)" by (auto simp: stop_timer_def cancel_context_def split: option.splits)
  have old: "stale_ok (?js ! k)" "unat (jGeneration (?js ! k)) \<le> n" if "k < length (jobs d)" for k
    using retired [OF assms(1) that] D(2) [OF that] by simp_all
  have cur: "\<not> current (Cancel d) k" for k
    using old(2) [of k] g l by (auto simp: current_def Cancel_def)
  have "unat (jGeneration j) \<le> Suc n" if "j \<in> set ?js" for j
    using that old(2) l by (auto simp: in_set_conv_nth le_Suc_eq)
  then show ?thesis unfolding debounce_ok_def using cur g l old(1) by (auto simp: Cancel_def)
qed

text \<open>A step of one goroutine changes its own job and, when the job is current, the two fields.\<close>

lemma step_ok:
  assumes "debounce_ok n d" "k < length (jobs d)" "jGeneration j' = jGeneration (jobs d ! k)"
    and d': "generation d' = generation d" "jobs d' = (jobs d)[k := j']"
    and cur: "current d k \<Longrightarrow> current_ok d' k"
    and stale: "\<not> current d k \<Longrightarrow> stale_ok j' \<and> timer d' = timer d \<and> cancelFn d' = cancelFn d"
  shows "debounce_ok n d'"
proof -
  note D = debounce_okD [OF assms(1)]
  have c: "current d' i \<longleftrightarrow> current d i" for i using assms(2,3) d' by (auto simp: current_def nth_list_update)
  have gens: "\<forall>j \<in> set (jobs d'). unat (jGeneration j) \<le> n"
    using D(2) assms(2,3) d'(2) by (auto simp: in_set_conv_nth nth_list_update split: if_splits)
  have each: "if current d' i then Suc i = length (jobs d') \<and> current_ok d' i else stale_ok (jobs d' ! i)"
    if i: "i < length (jobs d')" for i
  proof (cases "current d i")
    case True
    have "current_ok d' i"
    proof (cases "i = k")
      case False
      with True D(3) assms(2) have "\<not> current d k" by (metis Suc_inject)
      then have "timer d' = timer d" "cancelFn d' = cancelFn d" "jobs d' ! i = jobs d ! i" using stale False d'(2) by auto
      with D(4) [OF True] show ?thesis by (simp only: current_ok_def)
    qed (use True cur in simp)
    with True D(3) [OF True] c d'(2) show ?thesis by simp
  next
    case False
    with i D(5) [of i] stale d'(2) c assms(2) show ?thesis by (cases "i = k") auto
  qed
  have "timer d' = None \<and> cancelFn d' = None" if "\<forall>i. \<not> current d' i"
    using that c D(6) stale by auto
  with gens each D(1) d'(1) show ?thesis unfolding debounce_ok_def by simp
qed

lemma timer_step_ok:
  assumes "debounce_ok n d" "timer_step d d'"
  shows "debounce_ok n d'"
  using assms(2)
proof (cases rule: timer_step.cases)
  case (fire k)
  have "current d k" using debounce_okD(5) [OF assms(1) fire(2)] fire(3) by (auto simp: stale_ok_def)
  note c = debounce_okD(4) [OF assms(1) this]
  show ?thesis
    by (rule step_ok [OF assms(1) fire(2), of "(jobs d ! k)\<lparr>jPhase := Fired\<rparr>"])
      (use fire c \<open>current d k\<close> in \<open>simp_all add: fire_def current_ok_def\<close>)
next
  case (enter k)
  show ?thesis
  proof (cases "current d k")
    case True
    note c = debounce_okD(4) [OF assms(1) True]
    show ?thesis
      by (rule step_ok [OF assms(1) enter(2), of "(jobs d ! k)\<lparr>jPhase := Running, jRan := True\<rparr>"])
        (use enter c True in \<open>simp_all add: invoke_enter_def current_ok_def current_def\<close>)
  next
    case False
    show ?thesis
      by (rule step_ok [OF assms(1) enter(2), of "(jobs d ! k)\<lparr>jPhase := Finished\<rparr>"])
        (use enter False in \<open>auto simp: invoke_enter_def current_def stale_ok_def\<close>)
  qed
next
  case (return k)
  show ?thesis
    by (rule step_ok [OF assms(1) return(2), of "(jobs d ! k)\<lparr>jPhase := Returned, jCancelled := True\<rparr>"])
      (use return debounce_okD(4) [OF assms(1), of k] in \<open>auto simp: invoke_return_def current_ok_def stale_ok_def\<close>)
next
  case (leave k)
  show ?thesis
    by (rule step_ok [OF assms(1) leave(2), of "(jobs d ! k)\<lparr>jPhase := Finished\<rparr>"])
      (use leave debounce_okD(4) [OF assms(1), of k] in
        \<open>auto simp: invoke_leave_def current_ok_def stale_ok_def current_def Let_def\<close>)
qed

lemma debounced_ok: "debounced n d \<Longrightarrow> n < 2 ^ 64 \<Longrightarrow> debounce_ok n d"
proof (induction rule: debounced.induct)
  case new
  show ?case by (simp add: debounce_ok_def NewDebouncer_def current_def)
next
  case (trigger n d)
  from Trigger_ok [OF trigger.IH trigger.prems] trigger.prems show ?case by simp
next
  case (cancel n d)
  from Cancel_ok [OF cancel.IH cancel.prems] cancel.prems show ?case by simp
next
  case (step n d d')
  from timer_step_ok [OF step.IH [OF step.prems] step.hyps(2)] show ?case .
qed

subsection \<open>Settling\<close>

text \<open>Every step of a timer or goroutine brings its job one phase further.\<close>

fun phases_left :: "phase \<Rightarrow> nat" where
  "phases_left Waiting = 4"
| "phases_left Fired = 3"
| "phases_left Running = 2"
| "phases_left Returned = 1"
| "phases_left Stopped = 0"
| "phases_left Finished = 0"

definition steps_left :: "debouncer \<Rightarrow> nat" where
  "steps_left d = (\<Sum>j \<leftarrow> jobs d. phases_left (jPhase j))"

lemma sum_list_decrease:
  assumes "k < length xs" "f y < f (xs ! k)"
  shows "(\<Sum>x \<leftarrow> xs[k := y]. f x) < (\<Sum>x \<leftarrow> xs. (f x :: nat))"
  using assms
proof (induction xs arbitrary: k)
  case (Cons x xs)
  then show ?case by (cases k) auto
qed simp

lemma timer_step_decreases: "timer_step d d' \<Longrightarrow> steps_left d' < steps_left d"
  by (erule timer_stepE)
    (auto simp: steps_left_def fire_def invoke_enter_def invoke_return_def invoke_leave_def Let_def intro!: sum_list_decrease)

lemma timer_steps_bounded: "(timer_step ^^ m) d d' \<Longrightarrow> m + steps_left d' \<le> steps_left d"
proof (induction m arbitrary: d')
  case (Suc m)
  then obtain e where "(timer_step ^^ m) d e" "timer_step e d'" by auto
  with Suc.IH [of e] timer_step_decreases [of e d'] show ?case by simp
qed simp

text \<open>As long as nobody calls, the job of the current generation stays current.\<close>

lemma timer_step_current: "timer_step d d' \<Longrightarrow> current d k \<Longrightarrow> current d' k"
  by (erule timer_stepE)
    (auto simp: current_def fire_def invoke_enter_def invoke_return_def invoke_leave_def Let_def update_at)

lemma timer_steps_keep:
  assumes "(timer_step ^^ m) d d'" "debounce_ok n d" "current d k"
  shows "debounce_ok n d' \<and> current d' k"
  using assms(1)
proof (induction m arbitrary: d')
  case (Suc m)
  then obtain e where "(timer_step ^^ m) d e" "timer_step e d'" by auto
  with Suc.IH [of e] timer_step_ok [of n e d'] timer_step_current [of e d' k] show ?case by blast
qed (use assms in simp)

definition settled :: "debouncer \<Rightarrow> bool" where
  "settled d \<longleftrightarrow> (\<forall>d'. \<not> timer_step d d')"

lemma settled_phase: "settled d \<Longrightarrow> k < length (jobs d) \<Longrightarrow> jPhase (jobs d ! k) \<in> {Stopped, Finished}"
  unfolding settled_def using timer_step.intros by (cases "jPhase (jobs d ! k)") blast+

end
