(* ===== verification/Debounce_Properties.thy ===== *)
theory Debounce_Properties
  imports Debounce
begin

text \<open>
  What the debouncer promises its callers: at most one live render, and the render of the last call
  always comes to its end.
\<close>

text \<open>C36: with fewer than two to the 64 calls, a render that is running with a live context is the one of the
  last call, and it is the one that the next call cancels: there is never more than one live
  render, and a render of an earlier generation never starts.\<close>

theorem one_live_render:
  assumes "debounced n d" "n < 2 ^ 64"
  shows "(\<forall>k < length (jobs d). jPhase (jobs d ! k) = Running \<longrightarrow> \<not> jCancelled (jobs d ! k) \<longrightarrow>
       Suc k = length (jobs d) \<and> cancelFn d = Some k \<and> timer d = None) \<and>
    (\<forall>k < length (jobs d). jPhase (jobs d ! k) = Waiting \<longrightarrow> Suc k = length (jobs d) \<and> timer d = Some k) \<and>
    (\<forall>k < length (jobs d). jPhase (jobs d ! k) = Fired \<longrightarrow> jGeneration (jobs d ! k) \<noteq> generation d \<longrightarrow>
       jobs (invoke_enter k d) ! k = (jobs d ! k)\<lparr>jPhase := Finished\<rparr>)"
proof -
  note D = debounce_okD [OF debounced_ok [OF assms]]
  have c: "current d k" if "k < length (jobs d)" "jPhase (jobs d ! k) = Waiting \<or> jPhase (jobs d ! k) = Running \<and> \<not> jCancelled (jobs d ! k)" for k
    using D(5) [OF that(1)] that(2) by (auto simp: stale_ok_def)
  show ?thesis
    using c D(3) D(4) by (fastforce simp: current_ok_def invoke_enter_def)
qed

text \<open>C37: when the last call was \<open>Trigger\<close> and no further call comes, every run of the timers and
  goroutines ends, after a number of steps fixed by the state, and at its end the render of that
  call has run and returned, the fields are cleared, and nothing is left to run.\<close>

theorem last_trigger_renders:
  assumes "debounced n d" "Suc n < 2 ^ 64" "(timer_step ^^ m) (Trigger d) d'"
  shows "m \<le> steps_left (Trigger d) \<and>
    (settled d' \<longrightarrow> timer d' = None \<and> cancelFn d' = None \<and> length (jobs d') = Suc (length (jobs d)) \<and>
       jRan (jobs d' ! length (jobs d)) \<and> jPhase (jobs d' ! length (jobs d)) = Finished) \<and>
    (\<not> settled d' \<longrightarrow> (\<exists>d''. (timer_step ^^ Suc m) (Trigger d) d''))"
proof -
  have ok: "debounce_ok (Suc n) (Trigger d)" using debounced_ok [OF assms(1)] assms(2) by (intro Trigger_ok) simp_all
  have l: "length (jobs (Trigger d)) = Suc (length (jobs d))"
    by (auto simp: Trigger_def Let_def stop_timer_def cancel_context_def split: option.splits)
  have cur: "current (Trigger d) (length (jobs d))"
    using l by (auto simp: current_def Trigger_def Let_def nth_append)
  from timer_steps_keep [OF assms(3) ok cur] have ok': "debounce_ok (Suc n) d'" and cur': "current d' (length (jobs d))" by auto
  note D = debounce_okD(3,4) [OF ok' cur']
  have "timer d' = None \<and> cancelFn d' = None \<and> jRan (jobs d' ! length (jobs d)) \<and> jPhase (jobs d' ! length (jobs d)) = Finished"
    if "settled d'"
    using settled_phase [OF that, of "length (jobs d)"] D by (auto simp: current_ok_def)
  with timer_steps_bounded [OF assms(3)] D(1) assms(3) show ?thesis by (auto simp: settled_def)
qed

definition rendering_once :: debouncer where
  "rendering_once = invoke_enter 0 (fire 0 (Trigger NewDebouncer))"

theorem one_live_render_witness:
  "jPhase (jobs rendering_once ! 0) = Running \<and> \<not> jCancelled (jobs rendering_once ! 0) \<and>
   cancelFn rendering_once = Some 0 \<and> timer rendering_once = None"
proof -
  let ?d = "Trigger NewDebouncer"
  have d: "?d = \<lparr>generation = 1, timer = Some 0, cancelFn = Some 0,
      jobs = [\<lparr>jGeneration = 1, jPhase = Waiting, jCancelled = False, jRan = False\<rparr>]\<rparr>"
    by (simp add: Trigger_def NewDebouncer_def stop_timer_def cancel_context_def)
  have "timer_step ?d (fire 0 ?d)" "timer_step (fire 0 ?d) rendering_once"
    unfolding rendering_once_def by (rule timer_step.intros; simp add: d fire_def)+
  then have db: "debounced (Suc 0) rendering_once"
    using debounced.step [OF debounced.step [OF debounced.trigger [OF debounced.new]]] by blast
  have j: "jobs rendering_once = [\<lparr>jGeneration = 1, jPhase = Running, jCancelled = False, jRan = True\<rparr>]"
    by (simp add: rendering_once_def d fire_def invoke_enter_def)
  show ?thesis
    using conjunct1 [OF one_live_render [OF db], THEN spec [of _ 0]] by (simp add: j)
qed

definition run_once :: debouncer where
  "run_once = invoke_leave 0 (invoke_return 0 (invoke_enter 0 (fire 0 (Trigger NewDebouncer))))"

theorem last_trigger_renders_witness:
  "(timer_step ^^ 4) (Trigger NewDebouncer) run_once \<and> settled run_once \<and> jRan (jobs run_once ! 0) \<and>
   steps_left (Trigger NewDebouncer) \<ge> 4"
proof -
  let ?d = "Trigger NewDebouncer"
  have d: "?d = \<lparr>generation = 1, timer = Some 0, cancelFn = Some 0,
      jobs = [\<lparr>jGeneration = 1, jPhase = Waiting, jCancelled = False, jRan = False\<rparr>]\<rparr>"
    by (simp add: Trigger_def NewDebouncer_def stop_timer_def cancel_context_def)
  have s: "timer_step ?d (fire 0 ?d)" "timer_step (fire 0 ?d) (invoke_enter 0 (fire 0 ?d))"
    "timer_step (invoke_enter 0 (fire 0 ?d)) (invoke_return 0 (invoke_enter 0 (fire 0 ?d)))"
    "timer_step (invoke_return 0 (invoke_enter 0 (fire 0 ?d))) run_once"
    unfolding run_once_def
    by (rule timer_step.intros; simp add: d fire_def invoke_enter_def invoke_return_def)+
  have four: "(4 :: nat) = Suc (Suc (Suc (Suc 0)))" by simp
  have run: "(timer_step ^^ 4) ?d run_once"
    unfolding four relpowp.simps using s by (blast intro: relcomppI)
  moreover have set: "settled run_once"
    unfolding settled_def by (auto elim!: timer_stepE simp: run_once_def d fire_def invoke_enter_def invoke_return_def invoke_leave_def)
  ultimately show ?thesis
    using last_trigger_renders [OF debounced.new _ run] by (simp add: NewDebouncer_def)
qed

end
