(* ===== verification/Gpu_Worker.thy ===== *)
theory Gpu_Worker
  imports Prelude "HOL-Library.Word"
begin

text \<open>
  The client of the GPU server (gpu/worker): the wire protocol (protocol.go), the exchange of one
  request and one response (worker.go) and the calls of the grid and ray interfaces (fdtd.go,
  raytrace.go). \<open>binary.Write\<close> and \<open>binary.Read\<close> with little-endian order are concatenations of
  field encodings; a \<open>float32\<close> is its 32 bits. A shared memory segment is the list of bytes it
  holds; its name and what the server leaves in it are arguments. The connection is the bytes sent
  and the bytes the server sends.
\<close>

subsection \<open>Little-endian words\<close>

definition le :: "nat \<Rightarrow> nat \<Rightarrow> byte list" where
  "le n v = map (\<lambda>i. of_nat (v div 256 ^ i)) [0..<n]"

fun unle :: "byte list \<Rightarrow> nat" where
  "unle [] = 0"
| "unle (b # bs) = unat b + 256 * unle bs"

definition put16 :: "16 word \<Rightarrow> byte list" where "put16 w = le 2 (unat w)"
definition put32 :: "32 word \<Rightarrow> byte list" where "put32 w = le 4 (unat w)"
definition put64 :: "64 word \<Rightarrow> byte list" where "put64 w = le 8 (unat w)"

subsection \<open>Frames (protocol.go)\<close>

definition shmNameOf :: "byte list \<Rightarrow> byte list" where
  "shmNameOf s = take 63 s @ replicate (64 - length (take 63 s)) 0"

definition shm_String :: "byte list \<Rightarrow> byte list" where
  "shm_String n = takeWhile (\<lambda>b. b \<noteq> 0) n"

record reqHeader =
  rqType :: "16 word"
  Flags :: "16 word"
  PayloadLen :: "32 word"

definition reqHeader_bytes :: "reqHeader \<Rightarrow> byte list" where
  "reqHeader_bytes h = put16 (rqType h) @ put16 (Flags h) @ put32 (PayloadLen h)"

record respHeader =
  Status :: "32 word"
  ResponseLen :: "32 word"

record conn =
  sent :: "byte list"
  incoming :: "byte list"
  broken :: bool

datatype gpu_error =
    SendFailed "16 word" | ReadHeaderFailed | ReadBodyFailed | ServerError "32 word" "16 word"
  | DecodeFailed | LengthMismatch nat nat | ShmFailed

text \<open>\<open>io.ReadFull\<close>: what there is gets consumed, even when it is not enough.\<close>

definition read_full :: "nat \<Rightarrow> conn \<Rightarrow> byte list option \<times> conn" where
  "read_full n c = (if length (incoming c) < n then None else Some (take n (incoming c)), c\<lparr>incoming := drop n (incoming c)\<rparr>)"

definition readRespHeader :: "conn \<Rightarrow> respHeader option \<times> conn" where
  "readRespHeader c =
     (let (bs, c') = read_full 8 c in
      (map_option (\<lambda>bs. \<lparr>Status = of_nat (unle (take 4 bs)), ResponseLen = of_nat (unle (drop 4 bs))\<rparr>) bs, c'))"

record allocGridReq =
  Nx :: "32 word"
  Ny :: "32 word"
  Nz :: "32 word"

record uploadFieldsReq =
  ufHandle :: "64 word"
  ufShmName :: "byte list"

record runFDTDReq =
  rfHandle :: "64 word"
  rfSteps :: "32 word"
  rfSrcIdx :: "32 word"
  rfRcvIdx :: "32 word"
  rfSpeedOfSound :: "32 word"
  rfDt :: "32 word"
  rfDs :: "32 word"
  ResultSHM :: "byte list"

record allocBVHReq =
  NodeCount :: "32 word"
  TriCount :: "32 word"
  abShmName :: "byte list"

record traceRaysReq =
  trHandle :: "64 word"
  RayCount :: "32 word"
  RaysSHM :: "byte list"
  HitsSHM :: "byte list"

definition allocGrid_bytes :: "allocGridReq \<Rightarrow> byte list" where
  "allocGrid_bytes r = put32 (Nx r) @ put32 (Ny r) @ put32 (Nz r)"

definition handle_bytes :: "64 word \<Rightarrow> byte list" where
  "handle_bytes h = put64 h"

definition uploadFields_bytes :: "uploadFieldsReq \<Rightarrow> byte list" where
  "uploadFields_bytes r = put64 (ufHandle r) @ ufShmName r"

definition runFDTD_bytes :: "runFDTDReq \<Rightarrow> byte list" where
  "runFDTD_bytes r = put64 (rfHandle r) @ put32 (rfSteps r) @ put32 (rfSrcIdx r) @ put32 (rfRcvIdx r) @
     put32 (rfSpeedOfSound r) @ put32 (rfDt r) @ put32 (rfDs r) @ ResultSHM r"

definition allocBVH_bytes :: "allocBVHReq \<Rightarrow> byte list" where
  "allocBVH_bytes r = put32 (NodeCount r) @ put32 (TriCount r) @ abShmName r"

definition traceRays_bytes :: "traceRaysReq \<Rightarrow> byte list" where
  "traceRays_bytes r = put64 (trHandle r) @ put32 (RayCount r) @ RaysSHM r @ HitsSHM r"

text \<open>\<open>binary.Read\<close> of a handle from a response body: eight bytes, more are ignored.\<close>

definition read_handle :: "byte list \<Rightarrow> 64 word option" where
  "read_handle bs = (if length bs < 8 then None else Some (of_nat (unle (take 8 bs))))"

definition MsgPing :: "16 word" where "MsgPing = 0x0001"
definition MsgShutdown :: "16 word" where "MsgShutdown = 0x0002"
definition MsgAllocGrid :: "16 word" where "MsgAllocGrid = 0x1001"
definition MsgFreeGrid :: "16 word" where "MsgFreeGrid = 0x1002"
definition MsgUploadFields :: "16 word" where "MsgUploadFields = 0x1003"
definition MsgRunFDTD :: "16 word" where "MsgRunFDTD = 0x1004"
definition MsgAllocBVH :: "16 word" where "MsgAllocBVH = 0x2001"
definition MsgFreeBVH :: "16 word" where "MsgFreeBVH = 0x2002"
definition MsgTraceRays :: "16 word" where "MsgTraceRays = 0x2003"

definition StatusOK :: "32 word" where "StatusOK = 0"

subsection \<open>One exchange (worker.go)\<close>

definition request_frame :: "16 word \<Rightarrow> byte list \<Rightarrow> byte list" where
  "request_frame msgType payload =
     reqHeader_bytes \<lparr>rqType = msgType, Flags = 0, PayloadLen = of_nat (length payload)\<rparr> @ payload"

definition roundTrip :: "16 word \<Rightarrow> byte list \<Rightarrow> conn \<Rightarrow> (gpu_error + byte list) \<times> conn" where
  "roundTrip msgType payload c =
     (if broken c then (Inl (SendFailed msgType), c)
      else
        (let c1 = c\<lparr>sent := sent c @ request_frame msgType payload\<rparr>; (h, c2) = readRespHeader c1 in
         case h of
           None \<Rightarrow> (Inl ReadHeaderFailed, c2)
         | Some rh \<Rightarrow>
             if Status rh \<noteq> StatusOK then (Inl (ServerError (Status rh) msgType), c2)
             else if ResponseLen rh = 0 then (Inr [], c2)
             else
               (let (body, c3) = read_full (unat (ResponseLen rh)) c2 in
                (case body of None \<Rightarrow> Inl ReadBodyFailed | Some bs \<Rightarrow> Inr bs, c3))))"

text \<open>\<open>loop\<close>: the goroutine that owns the connection takes the calls off the queue in order.\<close>

fun serve :: "(16 word \<times> byte list) list \<Rightarrow> conn \<Rightarrow> (gpu_error + byte list) list \<times> conn" where
  "serve [] c = ([], c)"
| "serve ((msgType, payload) # calls) c =
     (let (r, c1) = roundTrip msgType payload c; (rs, c2) = serve calls c1 in (r # rs, c2))"

subsection \<open>The calls (fdtd.go, raytrace.go)\<close>

definition AllocGrid :: "int \<Rightarrow> int \<Rightarrow> int \<Rightarrow> conn \<Rightarrow> (gpu_error + 64 word) \<times> conn" where
  "AllocGrid nx ny nz c =
     (let req = \<lparr>Nx = word_of_int nx, Ny = word_of_int ny, Nz = word_of_int nz\<rparr>;
          (resp, c') = roundTrip MsgAllocGrid (allocGrid_bytes req) c in
      (res_bind resp (\<lambda>bs. case read_handle bs of None \<Rightarrow> Inl DecodeFailed | Some h \<Rightarrow> Inr h), c'))"

definition FreeGrid :: "64 word \<Rightarrow> conn \<Rightarrow> gpu_error option \<times> conn" where
  "FreeGrid h c = (let (resp, c') = roundTrip MsgFreeGrid (handle_bytes h) c in
     (case resp of Inl e \<Rightarrow> Some e | Inr _ \<Rightarrow> None, c'))"

text \<open>The bytes of a slice of \<open>float32\<close> values, given by their bits.\<close>

definition float32sToBytes :: "32 word list \<Rightarrow> byte list" where
  "float32sToBytes xs = concat (map put32 xs)"

fun floats_of :: "byte list \<Rightarrow> 32 word list" where
  "floats_of (a # b # c # d # bs) = of_nat (unle [a, b, c, d]) # floats_of bs"
| "floats_of bs = []"

text \<open>\<open>createShm\<close> asks the operating system for a segment of the given size: its name, or nothing when
  that fails. \<open>UploadFields\<close> and \<open>AllocBVH\<close> also return the segment they filled.\<close>

type_synonym segments = "nat \<Rightarrow> byte list option"

definition UploadFields ::
  "segments \<Rightarrow> 64 word \<Rightarrow> 32 word list \<Rightarrow> 32 word list \<Rightarrow> conn \<Rightarrow> gpu_error option \<times> byte list \<times> conn" where
  "UploadFields createShm h cur prev c =
     (if length cur \<noteq> length prev then (Some (LengthMismatch (length cur) (length prev)), [], c)
      else
        (case createShm ((length cur + length prev) * 4) of
           None \<Rightarrow> (Some ShmFailed, [], c)
         | Some shmName \<Rightarrow>
             (let segment = float32sToBytes cur @ float32sToBytes prev;
                  (resp, c') = roundTrip MsgUploadFields (uploadFields_bytes \<lparr>ufHandle = h, ufShmName = shmNameOf shmName\<rparr>) c in
              (case resp of Inl e \<Rightarrow> Some e | Inr _ \<Rightarrow> None, segment, c'))))"

record FDTDParams =
  Steps :: "32 word"
  SrcIdx :: "32 word"
  RcvIdx :: "32 word"
  fdSpeedOfSound :: "32 word"
  Dt :: "32 word"
  Ds :: "32 word"

text \<open>\<open>resultData\<close> is the result segment, of \<open>int(p.Steps) * 4\<close> bytes, as the server leaves it. The
  bound of the slice that is copied is computed in \<open>uint32\<close>.\<close>

definition RunFDTD ::
  "segments \<Rightarrow> byte list \<Rightarrow> 64 word \<Rightarrow> FDTDParams \<Rightarrow> conn \<Rightarrow> (gpu_error + 32 word list) \<times> conn" where
  "RunFDTD createShm resultData h p c =
     (case createShm (unat (Steps p) * 4) of
        None \<Rightarrow> (Inl ShmFailed, c)
      | Some resultName \<Rightarrow>
          (let req = \<lparr>rfHandle = h, rfSteps = Steps p, rfSrcIdx = SrcIdx p, rfRcvIdx = RcvIdx p,
                      rfSpeedOfSound = fdSpeedOfSound p, rfDt = Dt p, rfDs = Ds p, ResultSHM = shmNameOf resultName\<rparr>;
               (resp, c') = roundTrip MsgRunFDTD (runFDTD_bytes req) c in
           (res_bind resp (\<lambda>_.
              (let copied = take (unat (Steps p * 4)) resultData in
               Inr (floats_of (copied @ replicate (unat (Steps p) * 4 - length copied) 0)))), c')))"

text \<open>The images of a node and a triangle in memory, 32 and 40 bytes.\<close>

record BVHNode =
  Lo :: "32 word \<times> 32 word \<times> 32 word"
  Hi :: "32 word \<times> 32 word \<times> 32 word"
  LeftOrFirst :: "32 word"
  Count :: "32 word"

record gpu_Triangle =
  V0 :: "32 word \<times> 32 word \<times> 32 word"
  V1 :: "32 word \<times> 32 word \<times> 32 word"
  V2 :: "32 word \<times> 32 word \<times> 32 word"
  triID :: "32 word"

record gpu_Ray =
  rOrigin :: "32 word \<times> 32 word \<times> 32 word"
  rDir :: "32 word \<times> 32 word \<times> 32 word"
  Tmin :: "32 word"
  Tmax :: "32 word"

record HitRecord =
  hitT :: "32 word"
  TriID :: "32 word"

fun put_vec :: "32 word \<times> 32 word \<times> 32 word \<Rightarrow> byte list" where
  "put_vec (x, y, z) = put32 x @ put32 y @ put32 z"

definition node_bytes :: "BVHNode \<Rightarrow> byte list" where
  "node_bytes n = put_vec (Lo n) @ put_vec (Hi n) @ put32 (LeftOrFirst n) @ put32 (Count n)"

definition triangle_bytes :: "gpu_Triangle \<Rightarrow> byte list" where
  "triangle_bytes t = put_vec (V0 t) @ put_vec (V1 t) @ put_vec (V2 t) @ put32 (triID t)"

definition ray_bytes :: "gpu_Ray \<Rightarrow> byte list" where
  "ray_bytes r = put_vec (rOrigin r) @ put_vec (rDir r) @ put32 (Tmin r) @ put32 (Tmax r)"

definition hit_bytes :: "HitRecord \<Rightarrow> byte list" where
  "hit_bytes h = put32 (hitT h) @ put32 (TriID h)"

fun hits_of :: "byte list \<Rightarrow> HitRecord list" where
  "hits_of (a # b # c # d # e # f # g # h # bs) =
     \<lparr>hitT = of_nat (unle [a, b, c, d]), TriID = of_nat (unle [e, f, g, h])\<rparr> # hits_of bs"
| "hits_of bs = []"

definition AllocBVH ::
  "segments \<Rightarrow> BVHNode list \<Rightarrow> gpu_Triangle list \<Rightarrow> conn \<Rightarrow> (gpu_error + 64 word) \<times> byte list \<times> conn" where
  "AllocBVH createShm nodes tris c =
     (case createShm (length nodes * 32 + length tris * 40) of
        None \<Rightarrow> (Inl ShmFailed, [], c)
      | Some shmName \<Rightarrow>
          (let segment = concat (map node_bytes nodes) @ concat (map triangle_bytes tris);
               req = \<lparr>NodeCount = of_nat (length nodes), TriCount = of_nat (length tris), abShmName = shmNameOf shmName\<rparr>;
               (resp, c') = roundTrip MsgAllocBVH (allocBVH_bytes req) c in
           (res_bind resp (\<lambda>bs. case read_handle bs of None \<Rightarrow> Inl DecodeFailed | Some h \<Rightarrow> Inr h), segment, c')))"

definition FreeBVH :: "64 word \<Rightarrow> conn \<Rightarrow> gpu_error option \<times> conn" where
  "FreeBVH h c = (let (resp, c') = roundTrip MsgFreeBVH (handle_bytes h) c in
     (case resp of Inl e \<Rightarrow> Some e | Inr _ \<Rightarrow> None, c'))"

text \<open>\<open>TraceRays\<close> creates the segment of the rays and then the one of the hits; \<open>hitsData\<close> is what the
  server leaves in the latter. The segment of the rays is returned too.\<close>

definition TraceRays ::
  "segments \<Rightarrow> segments \<Rightarrow> byte list \<Rightarrow> 64 word \<Rightarrow> gpu_Ray list \<Rightarrow> conn \<Rightarrow>
     (gpu_error + HitRecord list) \<times> byte list \<times> conn" where
  "TraceRays createRays createHits hitsData h rays c =
     (if rays = [] then (Inr [], [], c)
      else
        (case createRays (length rays * 32) of
           None \<Rightarrow> (Inl ShmFailed, [], c)
         | Some raysName \<Rightarrow>
             (let raysData = concat (map ray_bytes rays) in
              case createHits (length rays * 8) of
                None \<Rightarrow> (Inl ShmFailed, raysData, c)
              | Some hitsName \<Rightarrow>
                  (let req = \<lparr>trHandle = h, RayCount = of_nat (length rays), RaysSHM = shmNameOf raysName, HitsSHM = shmNameOf hitsName\<rparr>;
                       (resp, c') = roundTrip MsgTraceRays (traceRays_bytes req) c in
                   (res_bind resp (\<lambda>_. Inr (hits_of (take (length rays * 8) hitsData))), raysData, c')))))"

subsection \<open>Decoding words\<close>

lemma length_le [simp]: "length (le n v) = n"
  by (simp add: le_def)

lemma unle_le: "unle (le n v) = v mod 256 ^ n"
proof (induction n arbitrary: v)
  case (Suc n)
  have "le (Suc n) v = of_nat v # le n (v div 256)"
    unfolding le_def by (simp add: upt_conv_Cons map_Suc_upt [symmetric] div_mult2_eq del: upt_Suc)
  then have "unle (le (Suc n) v) = v mod 256 + 256 * (v div 256 mod 256 ^ n)"
    by (simp add: Suc.IH unat_of_nat)
  also have "\<dots> = v mod 256 ^ Suc n" by (simp add: mod_mult2_eq)
  finally show ?case .
qed (simp add: le_def)

lemma put_lengths [simp]: "length (put16 w) = 2" "length (put32 v) = 4" "length (put64 u) = 8"
  by (simp_all add: put16_def put32_def put64_def)

lemma word_unle_le:
  fixes w :: "'a :: len word"
  assumes "LENGTH('a) \<le> 8 * n"
  shows "of_nat (unle (le n (unat w))) = w"
proof -
  have "unat w < 2 ^ LENGTH('a)" by (rule unsigned_less)
  also have "(2 :: nat) ^ LENGTH('a) \<le> 256 ^ n"
    using power_increasing [OF assms, of "2 :: nat"] by (simp add: power_mult)
  finally show ?thesis by (simp add: unle_le)
qed

lemma unle_put [simp]:
  "of_nat (unle (put16 w)) = w" "of_nat (unle (put32 v)) = v" "of_nat (unle (put64 u)) = u"
  by (simp_all add: put16_def put32_def put64_def word_unle_le)

lemma shmNameOf_length [simp]: "length (shmNameOf s) = 64"
  by (simp add: shmNameOf_def)

lemma shm_name_back: "length s \<le> 63 \<Longrightarrow> 0 \<notin> set s \<Longrightarrow> shm_String (shmNameOf s) = s"
  by (auto simp: shm_String_def shmNameOf_def takeWhile_append takeWhile_eq_all_conv)

subsection \<open>The frames on the wire\<close>

text \<open>The peer reads a header of eight bytes, whose second field is zero, and as many bytes as its third
  field says.\<close>

function frames_of :: "byte list \<Rightarrow> (16 word \<times> byte list) list option" where
  "frames_of bs =
     (if bs = [] then Some []
      else if length bs < 8 \<or> unle (take 2 (drop 2 bs)) \<noteq> 0 then None
      else
        (let n = unle (take 4 (drop 4 bs)) in
         if length bs < 8 + n then None
         else map_option (\<lambda>fs. (of_nat (unle (take 2 bs)), take n (drop 8 bs)) # fs) (frames_of (drop (8 + n) bs))))"
  by auto
termination by (relation "measure length") auto

declare frames_of.simps [simp del]

text \<open>The response of the peer: a status and a body.\<close>

definition response_bytes :: "32 word \<times> byte list \<Rightarrow> byte list" where
  "response_bytes r = put32 (fst r) @ put32 (of_nat (length (snd r))) @ snd r"

definition response_ok :: "32 word \<times> byte list \<Rightarrow> bool" where
  "response_ok r \<longleftrightarrow> length (snd r) < 2 ^ 32 \<and> (fst r \<noteq> StatusOK \<longrightarrow> snd r = [])"

definition outcome :: "16 word \<Rightarrow> 32 word \<times> byte list \<Rightarrow> gpu_error + byte list" where
  "outcome msgType r = (if fst r = StatusOK then Inr (snd r) else Inl (ServerError (fst r) msgType))"

lemma frames_of_Nil [simp]: "frames_of [] = Some []"
  by (simp add: frames_of.simps)

lemma unat_length: "n < 2 ^ 32 \<Longrightarrow> unat (of_nat n :: 32 word) = n"
  by (simp add: unat_of_nat)

lemma unle_put32: "unle (put32 v) = unat v"
proof -
  have "unat v < 256 ^ 4" using unsigned_less [of v, where ?'a = nat] by simp
  then show ?thesis by (simp add: put32_def unle_le)
qed

lemma frames_of_frame:
  assumes "length payload < 2 ^ 32"
  shows "frames_of (request_frame m payload @ bs) = map_option (\<lambda>fs. (m, payload) # fs) (frames_of bs)"
proof -
  let ?f = "request_frame m payload @ bs"
  have f: "?f = put16 m @ put16 0 @ put32 (of_nat (length payload)) @ payload @ bs"
    by (simp add: request_frame_def reqHeader_bytes_def)
  have "take 2 ?f = put16 m" "take 2 (drop 2 ?f) = put16 0" "take 4 (drop 4 ?f) = put32 (of_nat (length payload))"
    "take (length payload) (drop 8 ?f) = payload" "drop (8 + length payload) ?f = bs"
    unfolding f by simp_all
  moreover have "unle (put16 0) = 0" by (simp add: put16_def unle_le)
  moreover have "unle (put32 (of_nat (length payload))) = length payload"
    using assms by (simp add: unle_put32 unat_length)
  moreover have "?f \<noteq> []" "length ?f \<ge> 8 + length payload" unfolding f by (auto simp flip: length_0_conv)
  ultimately show ?thesis by (subst frames_of.simps) (simp add: Let_def)
qed

lemma readRespHeader_bytes:
  assumes "incoming c = put32 s @ put32 n @ bs"
  shows "readRespHeader c = (Some \<lparr>Status = s, ResponseLen = n\<rparr>, c\<lparr>incoming := bs\<rparr>)"
  using assms by (simp add: readRespHeader_def read_full_def Let_def)

text \<open>One exchange with a peer that answers: the request goes out as one frame, the answer is consumed
  exactly and is what the call returns.\<close>

lemma roundTrip_answered:
  assumes "\<not> broken c" "incoming c = response_bytes r @ bs" "response_ok r"
  shows "roundTrip m payload c = (outcome m r, c\<lparr>sent := sent c @ request_frame m payload, incoming := bs\<rparr>)"
proof -
  obtain s body where r: "r = (s, body)" by (cases r)
  let ?c = "c\<lparr>sent := sent c @ request_frame m payload\<rparr>"
  have h: "readRespHeader ?c = (Some \<lparr>Status = s, ResponseLen = of_nat (length body)\<rparr>, ?c\<lparr>incoming := body @ bs\<rparr>)"
    by (rule readRespHeader_bytes) (simp add: assms(2) r response_bytes_def)
  have n: "unat (of_nat (length body) :: 32 word) = length body"
    using assms(3) by (intro unat_length) (simp add: response_ok_def r)
  have z: "(of_nat (length body) :: 32 word) = 0 \<longleftrightarrow> body = []"
  proof
    assume a: "(of_nat (length body) :: 32 word) = 0"
    from n [unfolded a] show "body = []" by simp
  qed simp
  show ?thesis
  proof (cases "s = StatusOK")
    case True
    then show ?thesis using assms(1) h n z
      by (auto simp: roundTrip_def Let_def read_full_def outcome_def r)
  next
    case False
    then show ?thesis using assms(1,3) h
      by (simp add: roundTrip_def outcome_def r response_ok_def Let_def)
  qed
qed

lemma serve_answered:
  assumes "\<not> broken c" "list_all response_ok rs" "length rs = length calls"
    "incoming c = concat (map response_bytes rs) @ bs"
  shows "serve calls c = (map2 (\<lambda>(m, p) r. outcome m r) calls rs,
    c\<lparr>sent := sent c @ concat (map (\<lambda>(m, p). request_frame m p) calls), incoming := bs\<rparr>)"
  using assms
proof (induction calls arbitrary: c rs)
  case Nil
  then show ?case by simp
next
  case (Cons call calls)
  then obtain r rs' where rs: "rs = r # rs'" by (cases rs) auto
  obtain m p where call: "call = (m, p)" by (cases call)
  let ?c = "c\<lparr>sent := sent c @ request_frame m p, incoming := concat (map response_bytes rs') @ bs\<rparr>"
  have one: "roundTrip m p c = (outcome m r, ?c)"
    using Cons.prems rs by (intro roundTrip_answered) simp_all
  have rest: "serve calls ?c = (map2 (\<lambda>(m, p) r. outcome m r) calls rs',
      ?c\<lparr>sent := sent ?c @ concat (map (\<lambda>(m, p). request_frame m p) calls), incoming := bs\<rparr>)"
    using Cons.prems rs by (intro Cons.IH) simp_all
  show ?case by (simp add: call rs one rest)
qed

lemma frames_of_frames:
  "list_all (\<lambda>(m, p). length p < 2 ^ 32) calls \<Longrightarrow>
   frames_of (concat (map (\<lambda>(m, p). request_frame m p) calls)) = Some calls"
  by (induction calls) (auto simp: frames_of_frame)

subsection \<open>Arrays in shared memory\<close>

lemma four_bytes:
  assumes "length bs = 4 + n"
  obtains a b c d bs' where "bs = a # b # c # d # bs'" "length bs' = n"
proof -
  have "length bs = Suc (Suc (Suc (Suc n)))" using assms by simp
  then show ?thesis by (auto simp: length_Suc_conv intro: that)
qed

lemma put32_bytes: obtains a b c d where "put32 w = [a, b, c, d]"
  by (rule four_bytes [of "put32 w" 0]) (auto intro: that)

lemma floats_of_append: "length bs = 4 * n \<Longrightarrow> floats_of (bs @ cs) = floats_of bs @ floats_of cs"
proof (induction n arbitrary: bs)
  case (Suc n)
  then obtain a b c d bs' where "bs = a # b # c # d # bs'" "length bs' = 4 * n"
    by (auto elim: four_bytes [of bs "4 * n"])
  with Suc.IH [of bs'] show ?case by simp
qed simp

lemma floats_of_put [simp]: "floats_of (put32 w @ bs) = w # floats_of bs"
proof -
  obtain a b c d where p: "put32 w = [a, b, c, d]" by (rule put32_bytes)
  then show ?thesis using unle_put(2) [of w] by simp
qed

lemma floats_of_bytes [simp]: "floats_of (float32sToBytes xs) = xs"
  by (induction xs) (simp_all add: float32sToBytes_def)

lemma length_float32sToBytes [simp]: "length (float32sToBytes xs) = 4 * length xs"
  by (induction xs) (simp_all add: float32sToBytes_def)

lemma floats_of_two [simp]: "floats_of (float32sToBytes xs @ float32sToBytes ys) = xs @ ys"
  by (simp add: floats_of_append [of _ "length xs"])

lemma hits_of_hit [simp]: "hits_of (hit_bytes h @ bs) = h # hits_of bs"
proof -
  obtain a b c d where p: "put32 (hitT h) = [a, b, c, d]" by (rule put32_bytes)
  obtain e f g k where q: "put32 (TriID h) = [e, f, g, k]" by (rule put32_bytes)
  show ?thesis using unle_put(2) [of "hitT h"] unle_put(2) [of "TriID h"] by (simp add: hit_bytes_def p q)
qed

lemma hits_of_bytes [simp]: "hits_of (concat (map hit_bytes hs)) = hs"
  by (induction hs) simp_all

lemma length_hits [simp]: "length (concat (map hit_bytes hs)) = 8 * length hs"
  by (induction hs) (simp_all add: hit_bytes_def)

lemma floats_of_zeros: "floats_of (replicate (4 * n) 0) = replicate n 0"
  by (induction n) (simp_all add: numeral_eq_Suc)

subsection \<open>What the server reads\<close>

text \<open>The requests, and how the packed structures of gpu/server/protocol.h read them from a payload of
  the given message type. A payload that is too short is refused.\<close>

datatype request =
    Ping | Shutdown
  | GridAlloc "32 word" "32 word" "32 word" | GridFree "64 word" | FieldsUpload "64 word" "byte list"
  | FdtdRun "64 word" "32 word list" "byte list"
  | BvhAlloc "32 word" "32 word" "byte list" | BvhFree "64 word"
  | RaysTrace "64 word" "32 word" "byte list" "byte list"

definition word32_at :: "byte list \<Rightarrow> nat \<Rightarrow> 32 word" where
  "word32_at bs i = of_nat (unle (take 4 (drop i bs)))"

definition word64_at :: "byte list \<Rightarrow> nat \<Rightarrow> 64 word" where
  "word64_at bs i = of_nat (unle (take 8 (drop i bs)))"

definition name_at :: "byte list \<Rightarrow> nat \<Rightarrow> byte list" where
  "name_at bs i = shm_String (take 64 (drop i bs))"

definition server_reads :: "16 word \<Rightarrow> byte list \<Rightarrow> request option" where
  "server_reads m p =
     (if m = 0x0001 then Some Ping
      else if m = 0x0002 then Some Shutdown
      else if m = 0x1001 \<and> 12 \<le> length p then Some (GridAlloc (word32_at p 0) (word32_at p 4) (word32_at p 8))
      else if m = 0x1002 \<and> 8 \<le> length p then Some (GridFree (word64_at p 0))
      else if m = 0x1003 \<and> 72 \<le> length p then Some (FieldsUpload (word64_at p 0) (name_at p 8))
      else if m = 0x1004 \<and> 96 \<le> length p
      then Some (FdtdRun (word64_at p 0) (map (\<lambda>i. word32_at p (8 + 4 * i)) [0..<6]) (name_at p 32))
      else if m = 0x2001 \<and> 72 \<le> length p then Some (BvhAlloc (word32_at p 0) (word32_at p 4) (name_at p 8))
      else if m = 0x2002 \<and> 8 \<le> length p then Some (BvhFree (word64_at p 0))
      else if m = 0x2003 \<and> 140 \<le> length p
      then Some (RaysTrace (word64_at p 0) (word32_at p 8) (name_at p 12) (name_at p 76))
      else None)"

text \<open>The requests on the connection, as the server reads them.\<close>

definition peer_reads :: "conn \<Rightarrow> request option list option" where
  "peer_reads c = map_option (map (\<lambda>(m, p). server_reads m p)) (frames_of (sent c))"

text \<open>A new connection whose peer will answer the next request with \<open>r\<close>, and names as \<open>createShm\<close>
  makes them: the prefix and sixteen hexadecimal digits.\<close>

definition answering :: "32 word \<times> byte list \<Rightarrow> conn \<Rightarrow> bool" where
  "answering r c \<longleftrightarrow> \<not> broken c \<and> sent c = [] \<and> incoming c = response_bytes r \<and> response_ok r"

definition shm_name_ok :: "byte list \<Rightarrow> bool" where
  "shm_name_ok s \<longleftrightarrow> length s \<le> 63 \<and> 0 \<notin> set s"

lemma put_at:
  "word32_at (put32 v @ bs) 0 = v" "word64_at (put64 u @ bs) 0 = u"
  "8 \<le> i \<Longrightarrow> word32_at (put64 u @ bs) i = word32_at bs (i - 8)" "8 \<le> i \<Longrightarrow> name_at (put64 u @ bs) i = name_at bs (i - 8)"
  "4 \<le> i \<Longrightarrow> word32_at (put32 v @ bs) i = word32_at bs (i - 4)" "4 \<le> i \<Longrightarrow> name_at (put32 v @ bs) i = name_at bs (i - 4)"
  by (simp_all add: word32_at_def word64_at_def name_at_def)

lemma put_at_end: "word64_at (put64 u) 0 = u" "word32_at (put32 v) 0 = v"
  using put_at(2) [of u "[]"] put_at(1) [of v "[]"] by simp_all

lemma name_at_name:
  "shm_name_ok s \<Longrightarrow> name_at (shmNameOf s) 0 = s"
  "shm_name_ok s \<Longrightarrow> name_at (shmNameOf s @ bs) 0 = s"
  "64 \<le> i \<Longrightarrow> name_at (shmNameOf s @ bs) i = name_at bs (i - 64)"
  by (simp_all add: name_at_def shm_name_ok_def shm_name_back)

lemmas payload_bytes = allocGrid_bytes_def handle_bytes_def uploadFields_bytes_def runFDTD_bytes_def
  allocBVH_bytes_def traceRays_bytes_def

lemmas payload_fields = put_at put_at_end name_at_name

lemma answered:
  assumes "answering r c" "length p < 2 ^ 32"
  obtains c' where "roundTrip m p c = (outcome m r, c')" "peer_reads c' = Some [server_reads m p]"
proof -
  let ?c = "c\<lparr>sent := sent c @ request_frame m p, incoming := []\<rparr>"
  have "roundTrip m p c = (outcome m r, ?c)"
    using assms(1) by (intro roundTrip_answered) (simp_all add: answering_def)
  moreover have "peer_reads ?c = Some [server_reads m p]"
    using assms frames_of_frame [OF assms(2), of m "[]"] by (simp add: peer_reads_def answering_def)
  ultimately show thesis by (rule that)
qed

end
