(* ===== verification/Gpu_Properties.thy ===== *)
theory Gpu_Properties
  imports Gpu_Worker
begin

text \<open>
  What the GPU client promises: the exchange of requests and answers, the round trip of the requests
  to the server's structures, and the samples of a run.
\<close>

lemma msg_numbers [simp]:
  "MsgAllocGrid = 0x1001" "MsgFreeGrid = 0x1002" "MsgUploadFields = 0x1003" "MsgRunFDTD = 0x1004"
  "MsgAllocBVH = 0x2001" "MsgFreeBVH = 0x2002" "MsgTraceRays = 0x2003"
  by (simp_all add: MsgAllocGrid_def MsgFreeGrid_def MsgUploadFields_def MsgRunFDTD_def MsgAllocBVH_def MsgFreeBVH_def MsgTraceRays_def)

text \<open>What a call that returns a handle, and one that returns only an error, make of an answer.\<close>

definition handle_answer :: "16 word \<Rightarrow> 32 word \<times> byte list \<Rightarrow> gpu_error + 64 word" where
  "handle_answer m r =
     (if fst r \<noteq> StatusOK then Inl (ServerError (fst r) m)
      else if length (snd r) < 8 then Inl DecodeFailed else Inr (word64_at (snd r) 0))"

definition error_answer :: "16 word \<Rightarrow> 32 word \<times> byte list \<Rightarrow> gpu_error option" where
  "error_answer m r = (if fst r \<noteq> StatusOK then Some (ServerError (fst r) m) else None)"

lemma handle_answer_eq:
  "res_bind (outcome m r) (\<lambda>bs. case read_handle bs of None \<Rightarrow> Inl DecodeFailed | Some h \<Rightarrow> Inr h) = handle_answer m r"
  by (simp add: handle_answer_def outcome_def read_handle_def word64_at_def)

lemma error_answer_eq: "(case outcome m r of Inl e \<Rightarrow> Some e | Inr _ \<Rightarrow> None) = error_answer m r"
  by (simp add: error_answer_def outcome_def)

lemmas answer_simps = server_reads_def payload_bytes payload_fields handle_answer_eq error_answer_eq







lemma RunFDTD_read:
  assumes "answering r c" "createShm (unat (Steps p) * 4) = Some s" "shm_name_ok s"
  shows "\<exists>c'. RunFDTD createShm resultData h p c =
      (res_bind (outcome MsgRunFDTD r) (\<lambda>_.
         (let copied = take (unat (Steps p * 4)) resultData in
          Inr (floats_of (copied @ replicate (unat (Steps p) * 4 - length copied) 0)))), c') \<and>
    peer_reads c' = Some [Some (FdtdRun h [Steps p, SrcIdx p, RcvIdx p, fdSpeedOfSound p, Dt p, Ds p] s)]"
  by (rule answered [OF assms(1),
        of "runFDTD_bytes \<lparr>rfHandle = h, rfSteps = Steps p, rfSrcIdx = SrcIdx p, rfRcvIdx = RcvIdx p,
              rfSpeedOfSound = fdSpeedOfSound p, rfDt = Dt p, rfDs = Ds p, ResultSHM = shmNameOf s\<rparr>" MsgRunFDTD])
    (use assms in \<open>simp_all add: RunFDTD_def answer_simps upt_rec Let_def\<close>)

lemma take_floats: "take (4 * k) (float32sToBytes xs) = float32sToBytes (take k xs)"
proof (induction xs arbitrary: k)
  case (Cons x xs)
  then show ?case by (cases k) (simp_all add: float32sToBytes_def)
qed (simp add: float32sToBytes_def)

lemma times_four: "unat (w * 4 :: 32 word) = 4 * (unat w mod 2 ^ 30)"
proof -
  have "unat (w * 4) = (4 * unat w) mod (4 * 2 ^ 30)" by (simp add: unat_word_ariths mult.commute)
  then show ?thesis by (simp only: mult_mod_right)
qed

definition two_calls :: "(16 word \<times> byte list) list" where
  "two_calls = [(MsgPing, []), (MsgFreeGrid, handle_bytes 7)]"

definition two_answers :: "(32 word \<times> byte list) list" where
  "two_answers = [(StatusOK, []), (2, [])]"

definition new_conn :: "(32 word \<times> byte list) list \<Rightarrow> conn" where
  "new_conn rs = \<lparr>sent = [], incoming = concat (map response_bytes rs), broken = False\<rparr>"

text \<open>C38: while the connection stands and the server answers each request with one response, whose body is
  empty when it reports an error, the goroutine that owns the socket gives every call the outcome of
  its own response, in the order of the calls; the bytes it has written read back as exactly these
  calls, and no byte of a response is left over or taken from the next one.\<close>

theorem calls_answered_in_order:
  assumes "\<not> broken c" "list_all (\<lambda>(m, p). length p < 2 ^ 32) calls"
    and "length rs = length calls" "list_all response_ok rs"
    and "incoming c = concat (map response_bytes rs) @ later"
  shows "\<exists>c' frames. serve calls c = (map2 (\<lambda>(m, p) r. outcome m r) calls rs, c') \<and>
    sent c' = sent c @ frames \<and> frames_of frames = Some calls \<and> incoming c' = later"
  using serve_answered [OF assms(1,4,3,5)] frames_of_frames [OF assms(2)] by auto

theorem calls_answered_in_order_witness:
  "\<exists>c' frames. serve two_calls (new_conn two_answers) = ([Inr [], Inl (ServerError 2 MsgFreeGrid)], c') \<and>
    sent c' = [] @ frames \<and> frames_of frames = Some two_calls \<and> incoming c' = []"
  using calls_answered_in_order [of "new_conn two_answers" two_calls two_answers "[]"]
  by (simp add: new_conn_def two_calls_def two_answers_def response_ok_def handle_bytes_def outcome_def StatusOK_def)



text \<open>C40: the samples of a run are what the server left in the segment up to the number of steps reduced
  modulo two to the 30, and zeros from there on: the bound of the copied slice is computed in 32
  bits. A run of fewer steps returns exactly the samples of the server.\<close>

theorem run_fdtd_samples:
  assumes "answering (StatusOK, []) c" "createShm (unat (Steps p) * 4) = Some s" "shm_name_ok s"
    and "length stored = unat (Steps p)"
  shows "\<exists>c'. RunFDTD createShm (float32sToBytes stored) h p c =
      (Inr (take (unat (Steps p) mod 2 ^ 30) stored @ replicate (unat (Steps p) - unat (Steps p) mod 2 ^ 30) 0), c') \<and>
    peer_reads c' = Some [Some (FdtdRun h [Steps p, SrcIdx p, RcvIdx p, fdSpeedOfSound p, Dt p, Ds p] s)]"
proof -
  let ?n = "unat (Steps p)"
  let ?k = "?n mod 2 ^ 30"
  have k: "?k \<le> ?n" by (rule mod_less_eq_dividend)
  have bytes: "take (unat (Steps p * 4)) (float32sToBytes stored) = float32sToBytes (take ?k stored)"
    by (simp only: times_four take_floats)
  have len: "?n * 4 - length (float32sToBytes (take ?k stored)) = 4 * (?n - ?k)"
    using k assms(4) by simp
  have "floats_of (float32sToBytes (take ?k stored) @ replicate (4 * (?n - ?k)) 0) = take ?k stored @ replicate (?n - ?k) 0"
    by (subst floats_of_append [OF length_float32sToBytes]) (simp only: floats_of_bytes floats_of_zeros)
  then show ?thesis
    using RunFDTD_read [of _ _ createShm p s "float32sToBytes stored" h, OF assms(1-3)]
    unfolding Let_def bytes len by (simp add: outcome_def)
qed

definition two_steps :: FDTDParams where
  "two_steps = \<lparr>Steps = 2, SrcIdx = 0, RcvIdx = 1, fdSpeedOfSound = 0x43AB8000, Dt = 0, Ds = 0\<rparr>"

theorem run_fdtd_samples_witness:
  "\<exists>c'. RunFDTD (\<lambda>_. Some [97]) (float32sToBytes [1, 2]) 3 two_steps (new_conn [(StatusOK, [])]) = (Inr [1, 2], c') \<and>
    peer_reads c' = Some [Some (FdtdRun 3 [2, 0, 1, 0x43AB8000, 0, 0] [97])]"
proof -
  have a: "answering (StatusOK, []) (new_conn [(StatusOK, [])])"
    by (simp add: answering_def new_conn_def response_ok_def)
  show ?thesis
    using run_fdtd_samples [OF a, of "\<lambda>_. Some [97]" two_steps "[97]" "[1, 2]" 3]
    by (simp add: shm_name_ok_def two_steps_def)
qed

end
