(* ===== verification/Bvh.thy ===== *)
theory Bvh
  imports Geometry Stable_Sort
begin

text \<open>
  Rays and the bounding volume hierarchy of a mesh: ray.go, intersect.go, RayTriangle of triangle.go
  and bvh.go. \<open>NilNode\<close> is the nil pointer. A node whose mesh is set comes from \<open>buildBVHNode\<close>, since the
  field is private to the package; the indices in it are those of \<open>BuildBVH\<close>, in the range of the
  triangle slice, as the lemmas below show. \<open>sort.Slice\<close> is given by the list that every sorting
  algorithm returns when the comparison is a strict total order on the elements, as it is here on
  distinct indices with centroids that are numbers.
\<close>

subsection \<open>Rays (ray.go, intersect.go, triangle.go)\<close>

record ray =
  rayOrigin :: vec3
  rayDirection :: vec3

definition NewRay :: "vec3 \<Rightarrow> vec3 \<Rightarrow> ray" where
  "NewRay origin direction = \<lparr>rayOrigin = origin, rayDirection = vec3_Normalize direction\<rparr>"

definition ray_At :: "ray \<Rightarrow> f64 \<Rightarrow> vec3" where
  "ray_At r t = vec3_Add (rayOrigin r) (vec3_Scale (rayDirection r) t)"

definition RayPlane :: "ray \<Rightarrow> plane \<Rightarrow> f64 \<times> bool" where
  "RayPlane r p =
     (let denom = vec3_Dot (rayDirection r) (pNormal p) in
      if flt (fabs denom) (round64 (1 / 10 ^ 12)) then (Zero False, False)
      else (fdiv (fsub (pDistance p) (vec3_Dot (rayOrigin r) (pNormal p))) denom, True))"

text \<open>The loop of \<open>RayBox\<close> over the axes; an axis is the direction, the origin and the two slab bounds.\<close>

fun ray_slabs :: "(f64 \<times> f64 \<times> f64 \<times> f64) list \<Rightarrow> f64 \<Rightarrow> f64 \<Rightarrow> f64 \<times> f64 \<times> bool" where
  "ray_slabs [] tMin tMax = (tMin, tMax, flt (Zero False) tMax)"
| "ray_slabs ((dir, orig, mn, mx) # axes) tMin tMax =
     (if flt (fabs dir) (round64 (1 / 10 ^ 12))
      then (if flt orig mn \<or> flt mx orig then (Zero False, Zero False, False) else ray_slabs axes tMin tMax)
      else
        (let invD = fdiv (round64 1) dir; a = fmul (fsub mn orig) invD; b = fmul (fsub mx orig) invD;
             (t0, t1) = (if flt b a then (b, a) else (a, b));
             tMin' = (if flt tMin t0 then t0 else tMin);
             tMax' = (if flt t1 tMax then t1 else tMax) in
         if flt tMax' tMin' then (Zero False, Zero False, False) else ray_slabs axes tMin' tMax'))"

definition RayBox :: "ray \<Rightarrow> box \<Rightarrow> f64 \<times> f64 \<times> bool" where
  "RayBox r b =
     ray_slabs
       [(vX (rayDirection r), vX (rayOrigin r), vX (Min b), vX (Max b)),
        (vY (rayDirection r), vY (rayOrigin r), vY (Min b), vY (Max b)),
        (vZ (rayDirection r), vZ (rayOrigin r), vZ (Min b), vZ (Max b))] (Inf True) (Inf False)"

definition RayTriangle :: "ray \<Rightarrow> triangle \<Rightarrow> f64 \<times> bool" where
  "RayTriangle r tri =
     (let eps = round64 (1 / 10 ^ 9); e1 = vec3_Sub (V1 tri) (V0 tri); e2 = vec3_Sub (V2 tri) (V0 tri);
          h = vec3_Cross (rayDirection r) e2; det = vec3_Dot e1 h in
      if flt (fabs det) eps then (Zero False, False)
      else
        (let invDet = fdiv (round64 1) det; s = vec3_Sub (rayOrigin r) (V0 tri); u = fmul (vec3_Dot s h) invDet in
         if flt u (Zero False) \<or> flt (round64 1) u then (Zero False, False)
         else
           (let q = vec3_Cross s e1; v = fmul (vec3_Dot (rayDirection r) q) invDet in
            if flt v (Zero False) \<or> flt (round64 1) (fadd u v) then (Zero False, False)
            else
              (let t = fmul (vec3_Dot e2 q) invDet in
               if flt t eps then (Zero False, False) else (t, True)))))"

subsection \<open>The hierarchy (bvh.go)\<close>

datatype bvh = NilNode | BVHNode (AABB: box) (Left: bvh) (Right: bvh) (leafTriangles: "nat list") (bvhMesh: "mesh option")

definition bvhLeafTriangleCount :: nat where
  "bvhLeafTriangleCount = 4"

definition bvhTriangleBounds :: "triangle \<Rightarrow> box" where
  "bvhTriangleBounds tri =
     foldl (\<lambda>b v. mk_box
         (mk_vec3 (min64 (vX (Min b)) (vX v)) (min64 (vY (Min b)) (vY v)) (min64 (vZ (Min b)) (vZ v)))
         (mk_vec3 (max64 (vX (Max b)) (vX v)) (max64 (vY (Max b)) (vY v)) (max64 (vZ (Max b)) (vZ v))))
       (mk_box (V0 tri) (V0 tri)) [V1 tri, V2 tri]"

definition bvhUnionBox :: "box \<Rightarrow> box \<Rightarrow> box" where
  "bvhUnionBox a b = mk_box
     (mk_vec3 (min64 (vX (Min a)) (vX (Min b))) (min64 (vY (Min a)) (vY (Min b))) (min64 (vZ (Min a)) (vZ (Min b))))
     (mk_vec3 (max64 (vX (Max a)) (vX (Max b))) (max64 (vY (Max a)) (vY (Max b))) (max64 (vZ (Max a)) (vZ (Max b))))"

definition bvhBoundsForTriangles :: "mesh \<Rightarrow> nat list \<Rightarrow> box" where
  "bvhBoundsForTriangles m indices =
     foldl (\<lambda>bounds i. bvhUnionBox bounds (bvhTriangleBounds (Triangles m ! i)))
       (bvhTriangleBounds (Triangles m ! hd indices)) (tl indices)"

definition bvhCentroidBounds :: "mesh \<Rightarrow> nat list \<Rightarrow> box" where
  "bvhCentroidBounds m indices =
     (let centroid = triangle_Centroid (Triangles m ! hd indices) in
      foldl (\<lambda>bounds i.
          let c = triangle_Centroid (Triangles m ! i) in
          mk_box
            (mk_vec3 (min64 (vX (Min bounds)) (vX c)) (min64 (vY (Min bounds)) (vY c)) (min64 (vZ (Min bounds)) (vZ c)))
            (mk_vec3 (max64 (vX (Max bounds)) (vX c)) (max64 (vY (Max bounds)) (vY c)) (max64 (vZ (Max bounds)) (vZ c))))
        (mk_box centroid centroid) (tl indices))"

definition bvhLongestAxis :: "vec3 \<Rightarrow> nat" where
  "bvhLongestAxis v =
     (if flt (vX v) (vY v) \<and> fle (vZ v) (vY v) then 1
      else if flt (vX v) (vZ v) \<and> flt (vY v) (vZ v) then 2 else 0)"

definition bvhAxisValue :: "vec3 \<Rightarrow> nat \<Rightarrow> f64" where
  "bvhAxisValue v axis = (if axis = 1 then vY v else if axis = 2 then vZ v else vX v)"

definition centroid_less :: "mesh \<Rightarrow> nat \<Rightarrow> nat \<Rightarrow> nat \<Rightarrow> bool" where
  "centroid_less m axis i j =
     (let left = bvhAxisValue (triangle_Centroid (Triangles m ! i)) axis;
          right = bvhAxisValue (triangle_Centroid (Triangles m ! j)) axis in
      if feq left right then i < j else flt left right)"

text \<open>The two halves of the sorted indices, and the two sides of a node.\<close>

definition bvh_halves :: "mesh \<Rightarrow> nat \<Rightarrow> nat list \<Rightarrow> nat list \<times> nat list" where
  "bvh_halves m axis indices =
     (let sorted = SliceStable (centroid_less m axis) indices; mid = length sorted div 2 in
      (take mid sorted, drop mid sorted))"

definition bvh_split :: "mesh \<Rightarrow> nat list \<Rightarrow> nat list \<times> nat list" where
  "bvh_split m indices =
     (let centroidBounds = bvhCentroidBounds m indices;
          axis = bvhLongestAxis (box_Dimensions centroidBounds);
          pivot = bvhAxisValue (box_Center centroidBounds) axis;
          below = (\<lambda>i. flt (bvhAxisValue (triangle_Centroid (Triangles m ! i)) axis) pivot);
          leftIndices = filter below indices; rightIndices = filter (\<lambda>i. \<not> below i) indices in
      if leftIndices = [] \<or> rightIndices = []
      then bvh_halves m axis indices
      else (leftIndices, rightIndices))"

lemma filter_parts: "mset (filter P xs) + mset (filter (\<lambda>x. \<not> P x) xs) = mset xs"
  by (induction xs) auto

lemma take_drop_parts: "mset (take n xs) + mset (drop n xs) = mset xs"
  by (metis append_take_drop_id mset_append)

lemma bvh_halves_parts:
  assumes "bvh_halves m axis indices = (l, r)"
  shows "mset l + mset r = mset indices" "2 \<le> length indices \<Longrightarrow> l \<noteq> [] \<and> r \<noteq> []"
proof -
  define xs where "xs = SliceStable (centroid_less m axis) indices"
  have lr: "l = take (length xs div 2) xs" "r = drop (length xs div 2) xs"
    using assms by (auto simp: bvh_halves_def xs_def Let_def)
  show "mset l + mset r = mset indices" by (simp add: lr take_drop_parts xs_def del: length_SliceStable)
  have n: "length xs = length indices" by (simp add: xs_def)
  show "2 \<le> length indices \<Longrightarrow> l \<noteq> [] \<and> r \<noteq> []" unfolding lr n [symmetric] by (auto simp flip: length_0_conv)
qed

lemma bvh_split_cases:
  assumes "bvh_split m indices = (l, r)"
  obtains axis where "bvh_halves m axis indices = (l, r)"
  | P where "l = filter P indices" "r = filter (\<lambda>i. \<not> P i) indices" "l \<noteq> []" "r \<noteq> []"
  using assms unfolding bvh_split_def Let_def by (auto split: if_splits)

lemma bvh_split_mset: "bvh_split m indices = (l, r) \<Longrightarrow> mset l + mset r = mset indices"
  by (erule bvh_split_cases) (auto simp: bvh_halves_parts filter_parts simp del: mset_filter)

lemma bvh_split_nonempty: "bvh_split m indices = (l, r) \<Longrightarrow> 2 \<le> length indices \<Longrightarrow> l \<noteq> [] \<and> r \<noteq> []"
  by (erule bvh_split_cases) (auto dest: bvh_halves_parts(2))

lemma bvh_split_shorter:
  assumes "bvh_split m indices = (l, r)" "2 \<le> length indices"
  shows "length l < length indices" "length r < length indices"
proof -
  have "length l + length r = length indices"
    using bvh_split_mset [OF assms(1)] by (metis size_mset size_union)
  with bvh_split_nonempty [OF assms] show "length l < length indices" "length r < length indices"
    by (auto simp flip: length_greater_0_conv)
qed

function buildBVHNode :: "mesh \<Rightarrow> nat list \<Rightarrow> bvh" where
  "buildBVHNode m indices =
     (if indices = [] then NilNode
      else if length indices \<le> bvhLeafTriangleCount
      then BVHNode (bvhBoundsForTriangles m indices) NilNode NilNode indices (Some m)
      else
        (let (leftIndices, rightIndices) = bvh_split m indices;
             left = buildBVHNode m leftIndices; right = buildBVHNode m rightIndices in
         if left = NilNode \<or> right = NilNode
         then BVHNode (bvhBoundsForTriangles m indices) NilNode NilNode indices (Some m)
         else BVHNode (bvhBoundsForTriangles m indices) left right [] (Some m)))"
  by auto
termination
  by (relation "measure (\<lambda>(m, indices). length indices)")
     (auto simp: bvhLeafTriangleCount_def intro: bvh_split_shorter [OF sym])

declare buildBVHNode.simps [simp del]

definition BuildBVH :: "mesh option \<Rightarrow> bvh" where
  "BuildBVH mo = (case mo of
     None \<Rightarrow> NilNode
   | Some m \<Rightarrow> if Triangles m = [] then NilNode else buildBVHNode m [0..<length (Triangles m)])"

text \<open>\<open>bvhHitResult\<close>; an index of \<open>-1\<close> is \<open>None\<close>.\<close>

definition bvhHitResult :: "f64 \<Rightarrow> nat option \<Rightarrow> f64 \<times> nat \<times> bool" where
  "bvhHitResult t i = (case i of None \<Rightarrow> (Zero False, 0, False) | Some k \<Rightarrow> (t, k, True))"

definition closer_triangle :: "ray \<Rightarrow> mesh \<Rightarrow> f64 \<times> nat option \<Rightarrow> nat \<Rightarrow> f64 \<times> nat option" where
  "closer_triangle r m best i =
     (let (t, hit) = RayTriangle r (Triangles m ! i) in
      if hit \<and> flt t (fst best) then (t, Some i) else best)"

definition intersectLeaf :: "ray \<Rightarrow> mesh \<Rightarrow> nat list \<Rightarrow> f64 \<Rightarrow> f64 \<times> nat \<times> bool" where
  "intersectLeaf r m tris maxT =
     (let (t, i) = foldl (closer_triangle r m) (maxT, None) tris in bvhHitResult t i)"

record bvhTraversalCandidate =
  candNode :: bvh
  entry :: f64
  candHit :: bool

definition no_candidate :: bvhTraversalCandidate where
  "no_candidate = \<lparr>candNode = NilNode, entry = Zero False, candHit = False\<rparr>"

definition bvhTraversalForChild :: "bvh \<Rightarrow> ray \<Rightarrow> bvhTraversalCandidate" where
  "bvhTraversalForChild node r =
     (if node = NilNode then no_candidate
      else
        (let (tMin, tMax, hit) = RayBox r (AABB node) in
         if hit then \<lparr>candNode = node, entry = max64 (Zero False) tMin, candHit = True\<rparr> else no_candidate))"

text \<open>The children in the order they are visited: the one the ray enters first comes first.\<close>

definition child_order :: "bvh \<Rightarrow> bvh \<Rightarrow> ray \<Rightarrow> bvhTraversalCandidate list" where
  "child_order left right r =
     (let a = bvhTraversalForChild left r; b = bvhTraversalForChild right r in
      if candHit b \<and> (\<not> candHit a \<or> flt (entry b) (entry a)) then [b, a] else [a, b])"

text \<open>One round of the loop over the children.\<close>

definition visit_child ::
  "(bvh \<Rightarrow> f64 \<Rightarrow> f64 \<times> nat \<times> bool) \<Rightarrow> f64 \<times> nat option \<Rightarrow> bvhTraversalCandidate \<Rightarrow> f64 \<times> nat option" where
  "visit_child search best child =
     (if \<not> candHit child \<or> flt (fst best) (entry child) then best
      else
        (let (ct, ci, chit) = search (candNode child) (fst best) in
         if chit \<and> flt ct (fst best) then (ct, Some ci) else best))"

text \<open>\<open>intersectBVHChildren\<close>, over the function that searches a child.\<close>

definition intersectBVHChildren ::
  "(bvh \<Rightarrow> f64 \<Rightarrow> f64 \<times> nat \<times> bool) \<Rightarrow> bvhTraversalCandidate list \<Rightarrow> f64 \<Rightarrow> f64 \<times> nat \<times> bool" where
  "intersectBVHChildren search children maxT =
     (let (t, i) = foldl (visit_child search) (maxT, None) children in bvhHitResult t i)"

lemma child_order_nodes:
  "c \<in> set (child_order left right r) \<Longrightarrow> candHit c \<Longrightarrow> candNode c = left \<or> candNode c = right"
  by (auto simp: child_order_def bvhTraversalForChild_def no_candidate_def Let_def split: if_splits prod.splits)

lemma intersectBVHChildren_cong [fundef_cong]:
  assumes "children = children'" "maxT = maxT'"
    and "\<And>c t. c \<in> set children' \<Longrightarrow> candHit c \<Longrightarrow> search (candNode c) t = search' (candNode c) t"
  shows "intersectBVHChildren search children maxT = intersectBVHChildren search' children' maxT'"
  unfolding intersectBVHChildren_def assms(1,2)
  by (rule arg_cong [of _ _ "\<lambda>x. let (t, i) = x in bvhHitResult t i"], rule foldl_cong) (use assms(3) in \<open>auto simp: visit_child_def\<close>)

function intersectNearest :: "ray \<Rightarrow> bvh \<Rightarrow> f64 \<Rightarrow> f64 \<times> nat \<times> bool" where
  "intersectNearest r NilNode maxT = (Zero False, 0, False)"
| "intersectNearest r (BVHNode box left right tris mo) maxT =
     (case mo of
        None \<Rightarrow> (Zero False, 0, False)
      | Some m \<Rightarrow>
          (let (tMin, tMax, boxHit) = RayBox r box in
           if \<not> boxHit \<or> flt maxT tMin then (Zero False, 0, False)
           else if tris \<noteq> [] \<or> left = NilNode \<and> right = NilNode then intersectLeaf r m tris maxT
           else intersectBVHChildren (\<lambda>n t. intersectNearest r n t) (child_order left right r) maxT))"
  by pat_completeness auto
termination
  by (relation "measure (\<lambda>(r, n, t). size n)") (auto dest!: child_order_nodes)

definition bvh_Intersect :: "bvh \<Rightarrow> ray \<Rightarrow> f64 \<times> nat \<times> bool" where
  "bvh_Intersect n r = intersectNearest r n (Inf False)"

subsection \<open>What the hierarchy holds\<close>

fun bvh_leaves :: "bvh \<Rightarrow> nat list" where
  "bvh_leaves NilNode = []"
| "bvh_leaves (BVHNode b l r ts mo) = ts @ bvh_leaves l @ bvh_leaves r"

text \<open>The boxes of a hierarchy, each with the triangles below it.\<close>

fun bvh_boxes :: "bvh \<Rightarrow> (box \<times> nat list) list" where
  "bvh_boxes NilNode = []"
| "bvh_boxes (BVHNode b l r ts mo) = (b, bvh_leaves (BVHNode b l r ts mo)) # bvh_boxes l @ bvh_boxes r"

text \<open>A node is a leaf of one to four triangles or has two children.\<close>

fun bvh_ok :: "mesh \<Rightarrow> bvh \<Rightarrow> bool" where
  "bvh_ok m NilNode \<longleftrightarrow> True"
| "bvh_ok m (BVHNode b l r ts mo) \<longleftrightarrow> mo = Some m \<and>
     (if ts = [] then l \<noteq> NilNode \<and> r \<noteq> NilNode else l = NilNode \<and> r = NilNode \<and> length ts \<le> bvhLeafTriangleCount) \<and>
     bvh_ok m l \<and> bvh_ok m r"

lemma build_nil [simp]: "buildBVHNode m indices = NilNode \<longleftrightarrow> indices = []"
  by (subst buildBVHNode.simps) (simp add: Let_def split: prod.split)

lemma build_node:
  assumes "indices \<noteq> []"
  obtains (leaf) "length indices \<le> bvhLeafTriangleCount"
      "buildBVHNode m indices = BVHNode (bvhBoundsForTriangles m indices) NilNode NilNode indices (Some m)"
  | (split) l r where "bvh_split m indices = (l, r)" "mset l + mset r = mset indices" "length l < length indices"
      "length r < length indices" "l \<noteq> []" "r \<noteq> []"
      "buildBVHNode m indices =
         BVHNode (bvhBoundsForTriangles m indices) (buildBVHNode m l) (buildBVHNode m r) [] (Some m)"
proof (cases "length indices \<le> bvhLeafTriangleCount")
  case True
  with assms show thesis by (intro leaf) (simp_all add: buildBVHNode.simps [of m indices])
next
  case False
  obtain l r where lr: "bvh_split m indices = (l, r)" by fastforce
  have two: "2 \<le> length indices" using False by (simp add: bvhLeafTriangleCount_def)
  have ne: "l \<noteq> []" "r \<noteq> []" using bvh_split_nonempty [OF lr two] by auto
  note facts = bvh_split_mset [OF lr] bvh_split_shorter [OF lr two] ne
  show thesis
    using assms False facts lr by (intro split [of l r]) (simp_all add: buildBVHNode.simps [of m indices])
qed

lemma build_leaves: "mset (bvh_leaves (buildBVHNode m indices)) = mset indices"
proof (induction indices rule: length_induct)
  case (1 indices)
  show ?case
  proof (cases "indices = []")
    case False
    then show ?thesis
      by (cases rule: build_node [of indices m]) (use 1 False in auto)
  qed (simp add: buildBVHNode.simps)
qed

lemma build_ok: "bvh_ok m (buildBVHNode m indices)"
proof (induction indices rule: length_induct)
  case (1 indices)
  show ?case
  proof (cases "indices = []")
    case False
    then show ?thesis
      by (cases rule: build_node [of indices m]) (use 1 False in auto)
  qed (simp add: buildBVHNode.simps)
qed

subsection \<open>Boxes\<close>

lemma min64_le: "\<not> is_nan a \<Longrightarrow> \<not> is_nan b \<Longrightarrow> fle (min64 a b) a \<and> fle (min64 a b) b"
  by (auto simp: min64_def not_flt_iff flt_imp_fle)

lemma max64_ge: "\<not> is_nan a \<Longrightarrow> \<not> is_nan b \<Longrightarrow> fle a (max64 a b) \<and> fle b (max64 a b)"
  by (auto simp: max64_def not_flt_iff flt_imp_fle)

definition vec3_number :: "vec3 \<Rightarrow> bool" where
  "vec3_number v \<longleftrightarrow> \<not> is_nan (vX v) \<and> \<not> is_nan (vY v) \<and> \<not> is_nan (vZ v)"

definition box_number :: "box \<Rightarrow> bool" where
  "box_number b \<longleftrightarrow> vec3_number (Min b) \<and> vec3_number (Max b)"

lemma union_number: "box_number a \<Longrightarrow> box_number b \<Longrightarrow> box_number (bvhUnionBox a b)"
  by (auto simp: box_number_def vec3_number_def bvhUnionBox_def min64_def max64_def)

lemma min_below: "\<not> is_nan a \<Longrightarrow> \<not> is_nan b \<Longrightarrow> fle a x \<or> fle b x \<Longrightarrow> fle (min64 a b) x"
  using min64_le fle_trans by blast

lemma max_above: "\<not> is_nan a \<Longrightarrow> \<not> is_nan b \<Longrightarrow> fle x a \<or> fle x b \<Longrightarrow> fle x (max64 a b)"
  using max64_ge fle_trans by blast

lemma union_contains:
  assumes "box_number a" "box_number b" "box_Contains a v \<or> box_Contains b v"
  shows "box_Contains (bvhUnionBox a b) v"
  using assms(3,1,2)
  by (elim disjE) (simp_all add: box_Contains_def bvhUnionBox_def box_number_def vec3_number_def min_below max_above)

definition triangle_vertices :: "triangle \<Rightarrow> vec3 set" where
  "triangle_vertices t = {V0 t, V1 t, V2 t}"

definition triangle_number :: "triangle \<Rightarrow> bool" where
  "triangle_number t \<longleftrightarrow> (\<forall>v \<in> triangle_vertices t. vec3_number v)"

lemma point_box: "vec3_number v \<Longrightarrow> box_number (mk_box v v) \<and> box_Contains (mk_box v v) v"
  by (simp add: box_number_def vec3_number_def box_Contains_def)

lemma triangle_bounds_union:
  "bvhTriangleBounds t = bvhUnionBox (bvhUnionBox (mk_box (V0 t) (V0 t)) (mk_box (V1 t) (V1 t))) (mk_box (V2 t) (V2 t))"
  by (simp add: bvhTriangleBounds_def bvhUnionBox_def)

lemma triangle_bounds:
  assumes "triangle_number t"
  shows "box_number (bvhTriangleBounds t)" "v \<in> triangle_vertices t \<Longrightarrow> box_Contains (bvhTriangleBounds t) v"
proof -
  have p: "box_number (mk_box v v)" "box_Contains (mk_box v v) v" if "v \<in> triangle_vertices t" for v
    using assms that point_box by (auto simp: triangle_number_def)
  show "box_number (bvhTriangleBounds t)"
    unfolding triangle_bounds_union using p(1) by (intro union_number) (auto simp: triangle_vertices_def)
  show "box_Contains (bvhTriangleBounds t) v" if "v \<in> triangle_vertices t"
    unfolding triangle_bounds_union using that p by (auto simp: triangle_vertices_def intro!: union_contains union_number)
qed

lemma bounds_fold:
  assumes "box_number b" "\<forall>i \<in> set is. triangle_number (Triangles m ! i)"
  defines "B \<equiv> foldl (\<lambda>bounds i. bvhUnionBox bounds (bvhTriangleBounds (Triangles m ! i))) b is"
  shows "box_number B \<and> (\<forall>v. box_Contains b v \<longrightarrow> box_Contains B v) \<and>
    (\<forall>i \<in> set is. \<forall>v \<in> triangle_vertices (Triangles m ! i). box_Contains B v)"
  using assms(1,2) unfolding B_def
proof (induction "is" arbitrary: b)
  case (Cons i "is")
  let ?t = "bvhTriangleBounds (Triangles m ! i)"
  have t: "box_number ?t" "\<And>v. v \<in> triangle_vertices (Triangles m ! i) \<Longrightarrow> box_Contains ?t v"
    using Cons.prems(2) triangle_bounds by auto
  with Cons.IH [of "bvhUnionBox b ?t"] Cons.prems union_number [of b ?t] union_contains [of b ?t]
  show ?case by auto
qed simp

lemma bounds_contain:
  assumes "\<forall>i \<in> set is. triangle_number (Triangles m ! i)" "i \<in> set is" "v \<in> triangle_vertices (Triangles m ! i)"
  shows "box_Contains (bvhBoundsForTriangles m is) v"
proof -
  obtain j js where "is": "is = j # js" using assms(2) by (cases "is") auto
  note t = triangle_bounds [of "Triangles m ! j"]
  from bounds_fold [of "bvhTriangleBounds (Triangles m ! j)" js m] t assms show ?thesis
    by (auto simp: bvhBoundsForTriangles_def "is")
qed

lemma build_boxes:
  assumes "\<forall>i \<in> set indices. triangle_number (Triangles m ! i)" "(b, is) \<in> set (bvh_boxes (buildBVHNode m indices))"
    "i \<in> set is" "v \<in> triangle_vertices (Triangles m ! i)"
  shows "box_Contains b v"
  using assms(1,2)
proof (induction indices rule: length_induct)
  case (1 indices)
  have below: "set (bvh_leaves (buildBVHNode m js)) = set js" for js
    using build_leaves [of m js] by (metis set_mset_mset)
  show ?case
  proof (cases "indices = []")
    case True
    with "1.prems" show ?thesis by (simp add: buildBVHNode.simps)
  next
    case False
    then show ?thesis
    proof (cases rule: build_node [of indices m])
      case leaf
      with "1.prems" assms(3,4) show ?thesis by (auto intro: bounds_contain)
    next
      case (split l r)
      have sets: "set indices = set l \<union> set r" using split(2) by (metis set_mset_mset set_mset_union)
      from "1.prems"(2) consider "b = bvhBoundsForTriangles m indices" "set is = set indices"
        | "(b, is) \<in> set (bvh_boxes (buildBVHNode m l))" | "(b, is) \<in> set (bvh_boxes (buildBVHNode m r))"
        using split(7) below sets by auto
      then show ?thesis
      proof cases
        case 1
        with "1.prems"(1) assms(3,4) show ?thesis by (auto intro: bounds_contain)
      qed (use "1.IH" "1.prems"(1) split(3,4) sets in blast)+
    qed
  qed
qed

subsection \<open>Traversal\<close>

definition ray_hits :: "ray \<Rightarrow> mesh \<Rightarrow> nat \<Rightarrow> f64 \<Rightarrow> bool" where
  "ray_hits r m i t \<longleftrightarrow> RayTriangle r (Triangles m ! i) = (t, True)"

text \<open>The box test loses no hit: a ray that hits a triangle passes the test of every box above it, and
  does not enter the box behind the hit.\<close>

definition boxes_admit :: "ray \<Rightarrow> mesh \<Rightarrow> bvh \<Rightarrow> bool" where
  "boxes_admit r m n \<longleftrightarrow> (\<forall>(b, is) \<in> set (bvh_boxes n). \<forall>i \<in> set is. \<forall>t. ray_hits r m i t \<longrightarrow>
     (\<exists>tMin tMax. RayBox r b = (tMin, tMax, True) \<and> \<not> flt t tMin))"

text \<open>What a search of the triangles \<open>S\<close> for hits before \<open>maxT\<close> has found: one of them, and when the search
  is complete, the nearest.\<close>

definition best_of :: "bool \<Rightarrow> ray \<Rightarrow> mesh \<Rightarrow> nat set \<Rightarrow> f64 \<Rightarrow> f64 \<times> nat option \<Rightarrow> bool" where
  "best_of full r m S maxT best \<longleftrightarrow>
     (case snd best of
        None \<Rightarrow> fst best = maxT
      | Some i \<Rightarrow> i \<in> S \<and> ray_hits r m i (fst best) \<and> flt (fst best) maxT) \<and>
     (full \<longrightarrow> (\<forall>j \<in> S. \<forall>t. ray_hits r m j t \<longrightarrow> \<not> flt t (fst best)))"

definition nearest :: "bool \<Rightarrow> ray \<Rightarrow> mesh \<Rightarrow> nat set \<Rightarrow> f64 \<Rightarrow> f64 \<times> nat \<times> bool \<Rightarrow> bool" where
  "nearest full r m S maxT res \<longleftrightarrow>
     (case res of (t, i, hit) \<Rightarrow> best_of full r m S maxT (if hit then (t, Some i) else (maxT, None)))"

lemma nearest_result: "best_of c r m S maxT (t, i) \<Longrightarrow> nearest c r m S maxT (bvhHitResult t i)"
  by (cases i) (auto simp: nearest_def bvhHitResult_def best_of_def)

lemma best_start: "best_of c r m {} maxT (maxT, None)"
  by (simp add: best_of_def)

lemma best_replace:
  assumes "best_of c r m S maxT best" "i \<in> T" "ray_hits r m i t" "flt t (fst best)"
    and "c \<Longrightarrow> \<forall>j \<in> T. \<forall>t'. ray_hits r m j t' \<longrightarrow> \<not> flt t' t"
  shows "best_of c r m (S \<union> T) maxT (t, Some i)"
  using assms unfolding best_of_def by (auto split: option.splits dest: flt_trans)

lemma best_keep:
  assumes "best_of c r m S maxT best" "c \<Longrightarrow> \<forall>j \<in> T. \<forall>t. ray_hits r m j t \<longrightarrow> \<not> flt t (fst best)"
  shows "best_of c r m (S \<union> T) maxT best"
  using assms unfolding best_of_def by (auto split: option.splits)

lemma closer_best:
  assumes "best_of c r m S maxT best"
  shows "best_of c r m (S \<union> {i}) maxT (closer_triangle r m best i)"
proof -
  obtain t hit where t: "RayTriangle r (Triangles m ! i) = (t, hit)" by fastforce
  have only: "ray_hits r m i t' \<longleftrightarrow> hit \<and> t' = t" for t' by (auto simp: ray_hits_def t)
  show ?thesis
  proof (cases "hit \<and> flt t (fst best)")
    case True
    have "best_of c r m (S \<union> {i}) maxT (t, Some i)"
      by (rule best_replace [OF assms]) (use True only in auto)
    with True t show ?thesis by (simp add: closer_triangle_def)
  next
    case False
    have "best_of c r m (S \<union> {i}) maxT best" by (rule best_keep [OF assms]) (use False only in auto)
    with False t show ?thesis by (auto simp: closer_triangle_def)
  qed
qed

lemma leaf_best: "best_of c r m S maxT best \<Longrightarrow> best_of c r m (S \<union> set is) maxT (foldl (closer_triangle r m) best is)"
proof (induction "is" arbitrary: S best)
  case (Cons i "is")
  from Cons.IH [OF closer_best [OF Cons.prems, of i]] show ?case by simp
qed simp

lemma intersectLeaf_nearest: "nearest c r m (set is) maxT (intersectLeaf r m is maxT)"
proof -
  obtain t i where f: "foldl (closer_triangle r m) (maxT, None) is = (t, i)" by fastforce
  with leaf_best [OF best_start [of c r m maxT], of "is"] have "best_of c r m (set is) maxT (t, i)" by simp
  with f show ?thesis by (simp add: intersectLeaf_def nearest_result)
qed

lemma hit_positive:
  assumes "ray_hits r m i t" "\<not> is_nan t"
  shows "flt (Zero False) t"
proof -
  have eps: "fle (round64 (1 / 10 ^ 9)) t"
    using assms by (auto simp: ray_hits_def RayTriangle_def Let_def not_flt_iff split: if_splits)
  have "representable (1 / 2 ^ 30)" by (rule representableI [of _ 1 "-30"]) (simp_all add: power_int_minus field_simps)
  then have "fle (fof (1 / 2 ^ 30)) (round64 (1 / 10 ^ 9))" by (rule round64_ge_representable) simp
  moreover have "flt (Zero False) (fof (1 / 2 ^ 30))" by (simp add: flt_def)
  ultimately have "flt (Zero False) (round64 (1 / 10 ^ 9))" by (rule flt_fle_trans [rotated])
  with eps show ?thesis by (rule flt_fle_trans [rotated])
qed

text \<open>A box that is skipped holds no hit before the best one so far.\<close>

lemma skipped_box:
  assumes "ray_hits r m i t" "RayBox r b = (tMin, tMax, True)" "\<not> flt t tMin"
  shows "flt best tMin \<Longrightarrow> \<not> flt t best" "flt best (max64 (Zero False) tMin) \<Longrightarrow> \<not> flt t best"
proof -
  show a: "\<not> flt t best" if "flt best tMin" using that assms(3) flt_trans by blast
  show "\<not> flt t best" if "flt best (max64 (Zero False) tMin)"
  proof (cases "flt tMin (Zero False)")
    case True
    with that have "flt best (Zero False)" by (simp add: max64_def)
    moreover have "flt t best \<Longrightarrow> flt (Zero False) t"
      using hit_positive [OF assms(1)] by (simp add: flt_def)
    ultimately show ?thesis using flt_trans flt_irrefl by blast
  qed (use that a in \<open>simp add: max64_def\<close>)
qed

lemma boxes_admit_node:
  assumes "boxes_admit r m (BVHNode b l r' ts mo)"
  shows "boxes_admit r m l" "boxes_admit r m r'"
    "i \<in> set (bvh_leaves (BVHNode b l r' ts mo)) \<Longrightarrow> ray_hits r m i t \<Longrightarrow> \<exists>tMin tMax. RayBox r b = (tMin, tMax, True) \<and> \<not> flt t tMin"
  using assms by (auto simp: boxes_admit_def)

lemma boxes_admit_root:
  "boxes_admit r m n \<Longrightarrow> i \<in> set (bvh_leaves n) \<Longrightarrow> ray_hits r m i t \<Longrightarrow>
   \<exists>tMin tMax. RayBox r (AABB n) = (tMin, tMax, True) \<and> \<not> flt t tMin"
  by (cases n) (auto dest: boxes_admit_node(3))

lemma visit_best:
  assumes best: "best_of c r m S maxT best"
    and child: "child = bvhTraversalForChild n r"
    and search: "\<And>t. nearest c r m (set (bvh_leaves n)) t (search n t)"
    and admit: "c \<Longrightarrow> boxes_admit r m n"
  shows "best_of c r m (S \<union> set (bvh_leaves n)) maxT (visit_child search best child)"
proof (cases "\<not> candHit child \<or> flt (fst best) (entry child)")
  case True
  have "\<not> flt t (fst best)" if h: "c" "j \<in> set (bvh_leaves n)" "ray_hits r m j t" for j t
  proof -
    obtain tMin tMax where b: "RayBox r (AABB n) = (tMin, tMax, True)" "\<not> flt t tMin"
      using boxes_admit_root [OF admit [OF h(1)] h(2,3)] by blast
    have "n \<noteq> NilNode" using h(2) by auto
    with b child have "candHit child" "entry child = max64 (Zero False) tMin"
      by (auto simp: bvhTraversalForChild_def)
    with True skipped_box(2) [OF h(3) b] show ?thesis by simp
  qed
  with True best_keep [OF best] show ?thesis by (auto simp: visit_child_def)
next
  case False
  obtain ct ci chit where s: "search n (fst best) = (ct, ci, chit)" by (metis prod_cases3)
  have node: "candNode child = n"
    using False child by (auto simp: bvhTraversalForChild_def no_candidate_def split: if_splits prod.splits)
  have near: "nearest c r m (set (bvh_leaves n)) (fst best) (ct, ci, chit)" using search s by metis
  show ?thesis
  proof (cases chit)
    case True
    with near have n: "ci \<in> set (bvh_leaves n)" "ray_hits r m ci ct" "flt ct (fst best)"
      "c \<Longrightarrow> \<forall>j \<in> set (bvh_leaves n). \<forall>t'. ray_hits r m j t' \<longrightarrow> \<not> flt t' ct"
      by (auto simp: nearest_def best_of_def)
    from best_replace [OF best n] False node s True n(3) show ?thesis by (simp add: visit_child_def)
  next
    case False': False
    with near have "c \<Longrightarrow> \<forall>j \<in> set (bvh_leaves n). \<forall>t. ray_hits r m j t \<longrightarrow> \<not> flt t (fst best)"
      by (auto simp: nearest_def best_of_def)
    from best_keep [OF best this] False node s False' show ?thesis by (simp add: visit_child_def)
  qed
qed

lemma children_nearest:
  assumes search: "\<And>n t. n = left \<or> n = right \<Longrightarrow> nearest c r m (set (bvh_leaves n)) t (search n t)"
    and admit: "\<And>n. c \<Longrightarrow> n = left \<or> n = right \<Longrightarrow> boxes_admit r m n"
  shows "nearest c r m (set (bvh_leaves left) \<union> set (bvh_leaves right)) maxT
    (intersectBVHChildren search (child_order left right r) maxT)"
proof -
  have two: "best_of c r m (set (bvh_leaves a) \<union> set (bvh_leaves b)) maxT
      (foldl (visit_child search) (maxT, None) [bvhTraversalForChild a r, bvhTraversalForChild b r])"
    if "a = left \<or> a = right" "b = left \<or> b = right" for a b
  proof -
    have "best_of c r m ({} \<union> set (bvh_leaves a)) maxT (visit_child search (maxT, None) (bvhTraversalForChild a r))"
      by (rule visit_best [OF best_start refl]) (use search admit that in blast)+
    then have "best_of c r m ({} \<union> set (bvh_leaves a) \<union> set (bvh_leaves b)) maxT
        (visit_child search (visit_child search (maxT, None) (bvhTraversalForChild a r)) (bvhTraversalForChild b r))"
      by (rule visit_best [OF _ refl]) (use search admit that in blast)+
    then show ?thesis by simp
  qed
  obtain t i where f: "foldl (visit_child search) (maxT, None) (child_order left right r) = (t, i)" by fastforce
  have "child_order left right r = [bvhTraversalForChild left r, bvhTraversalForChild right r] \<or>
      child_order left right r = [bvhTraversalForChild right r, bvhTraversalForChild left r]"
    by (simp add: child_order_def Let_def)
  then have "best_of c r m (set (bvh_leaves left) \<union> set (bvh_leaves right)) maxT (t, i)"
    using two [of left right] two [of right left] f by (auto simp: Un_commute)
  with f show ?thesis
    by (simp add: intersectBVHChildren_def nearest_result)
qed

lemma intersectNearest_nearest:
  assumes "bvh_ok m n" "c \<Longrightarrow> boxes_admit r m n"
  shows "nearest c r m (set (bvh_leaves n)) maxT (intersectNearest r n maxT)"
  using assms
proof (induction n arbitrary: maxT)
  case NilNode
  show ?case by (simp add: nearest_def best_of_def)
next
  case (BVHNode b left right ts mo)
  let ?n = "BVHNode b left right ts mo"
  obtain tMin tMax boxHit where box: "RayBox r b = (tMin, tMax, boxHit)" by (metis prod_cases3)
  have mo: "mo = Some m" using BVHNode.prems(1) by simp
  show ?case
  proof (cases "\<not> boxHit \<or> flt maxT tMin")
    case True
    have "\<not> flt t maxT" if h: "c" "j \<in> set (bvh_leaves ?n)" "ray_hits r m j t" for j t
    proof -
      obtain tMin' tMax' where b: "RayBox r b = (tMin', tMax', True)" "\<not> flt t tMin'"
        using boxes_admit_node(3) [OF BVHNode.prems(2) [OF h(1)] h(2,3)] by blast
      with True box skipped_box(1) [OF h(3) b] show ?thesis by simp
    qed
    then have "nearest c r m (set (bvh_leaves ?n)) maxT (Zero False, 0, False)"
      by (simp add: nearest_def best_of_def)
    with True box mo show ?thesis by simp
  next
    case False
    show ?thesis
    proof (cases "ts = []")
      case True
      have ok: "left \<noteq> NilNode" "right \<noteq> NilNode" "bvh_ok m left" "bvh_ok m right" using BVHNode.prems(1) True by auto
      have "nearest c r m (set (bvh_leaves left) \<union> set (bvh_leaves right)) maxT
          (intersectBVHChildren (intersectNearest r) (child_order left right r) maxT)"
        by (rule children_nearest)
          (use BVHNode.IH ok boxes_admit_node(1,2) [OF BVHNode.prems(2)] in blast)+
      with True False box mo ok show ?thesis by simp
    next
      case leaf: False
      with BVHNode.prems(1) have "left = NilNode" "right = NilNode" by auto
      with leaf False box mo intersectLeaf_nearest [of c r m ts maxT] show ?thesis by simp
    qed
  qed
qed

text \<open>The nearest hit is unique but for the triangle that has it.\<close>

lemma nearest_unique:
  assumes "nearest True r m S (Inf False) (t, i, hit)" "nearest True r m S (Inf False) (t', i', hit')"
  shows "hit = hit' \<and> (hit \<longrightarrow> t = t')"
proof -
  have "t = t'" if "hit" "hit'"
  proof -
    from assms that have h: "ray_hits r m i t" "ray_hits r m i' t'" "flt t (Inf False)" "flt t' (Inf False)"
      "\<not> flt t' t" "\<not> flt t t'"
      by (auto simp: nearest_def best_of_def)
    from hit_positive [OF h(1)] hit_positive [OF h(2)] h(3-) show ?thesis
      by (cases t; cases t'; auto simp: flt_def split: if_splits)
  qed
  moreover have "hit = hit'" using assms by (auto simp: nearest_def best_of_def split: if_splits)
  ultimately show ?thesis by simp
qed

end
