(* ===== verification/Diffraction_Edges.thy ===== *)
theory Diffraction_Edges
  imports Bvh Go_Values Stable_Sort
begin

text \<open>
  The edges of a mesh that diffract (geometry/diffraction.go), the passage of a ray by an edge
  (geometry/ray_cylinder.go) and the uniform grid that finds the edges near a segment
  (raytrace/diffraction_index.go). \<open>math.Acos\<close> is the argument \<open>acosine\<close>. The two maps the extraction
  ranges over are visited in the orders \<open>edge_orders\<close> gives. \<open>sort.Slice\<close> is the stable sort: what it
  sorts comes out of those maps, so every order of equal elements is the one of some pair of orders.
\<close>

subsection \<open>Edges (diffraction.go)\<close>

definition diffractionAngleEpsilon :: f64 where
  "diffractionAngleEpsilon = round64 (1 / 10 ^ 9)"

definition diffractionMergeEpsilon :: f64 where
  "diffractionMergeEpsilon = round64 (1 / 10 ^ 8)"

definition diffractionKeyScale :: f64 where
  "diffractionKeyScale = round64 (10 ^ 6)"

record DiffractionEdge =
  deStart :: vec3
  deEnd :: vec3
  deDirection :: vec3
  deLength :: f64
  WedgeIndex :: f64
  FaceONormal :: vec3
  FaceNNormal :: vec3
  FaceOID :: nat
  FaceNID :: nat
  LocalBasis :: "vec3 \<times> vec3 \<times> vec3"

record diffractionFaceEdge =
  feFaceID :: nat
  feNormal :: vec3
  feStart :: vec3
  feEnd :: vec3
  feOpposite :: vec3

type_synonym gridKey = "int \<times> int \<times> int"

record diffractionLineKey =
  PlaneA :: gridKey
  PlaneB :: gridKey
  lkDir :: gridKey
  Off :: gridKey

record diffractionInterval =
  StartT :: f64
  EndT :: f64
  ivEdge :: DiffractionEdge
  Offset :: vec3
  ivDir :: vec3

record edge_orders =
  edgeOrder :: "(meshEdgeKey \<times> diffractionFaceEdge list) list \<Rightarrow> (meshEdgeKey \<times> diffractionFaceEdge list) list"
  lineOrder :: "(diffractionLineKey \<times> diffractionInterval list) list \<Rightarrow> (diffractionLineKey \<times> diffractionInterval list) list"

definition alist_append :: "('k \<times> 'v list) list \<Rightarrow> 'k \<Rightarrow> 'v \<Rightarrow> ('k \<times> 'v list) list" where
  "alist_append m k v = alist_put m k ((case alist_get m k of None \<Rightarrow> [] | Some vs \<Rightarrow> vs) @ [v])"

type_synonym edge_tables = "(meshEdgeKey \<times> diffractionFaceEdge list) list \<times> (meshVertexKey \<Rightarrow> vec3 option)"

definition record_edge :: "nat \<Rightarrow> vec3 \<Rightarrow> edge_tables \<Rightarrow> vec3 \<times> vec3 \<times> vec3 \<Rightarrow> edge_tables" where
  "record_edge triIndex normal tables side =
     (let (start, end', opposite) = side; (adjacency, vertices) = tables in
      (alist_append adjacency (newMeshEdgeKey start end')
         \<lparr>feFaceID = triIndex, feNormal = normal, feStart = start, feEnd = end', feOpposite = opposite\<rparr>,
       vertices(newMeshVertexKey start \<mapsto> start, newMeshVertexKey end' \<mapsto> end')))"

definition record_triangle :: "edge_tables \<Rightarrow> nat \<times> triangle \<Rightarrow> edge_tables" where
  "record_triangle tables it =
     (let (i, tri) = it; normal = triangle_Normal tri in
      if feq (vec3_Norm normal) (Zero False) then tables
      else foldl (record_edge i normal) tables
        [(V0 tri, V1 tri, V2 tri), (V1 tri, V2 tri, V0 tri), (V2 tri, V0 tri, V1 tri)])"

definition clampFloat64 :: "f64 \<Rightarrow> f64 \<Rightarrow> f64 \<Rightarrow> f64" where
  "clampFloat64 v lo hi = (if flt v lo then lo else if flt hi v then hi else v)"

definition diffractionEdgeFromFaces ::
  "(f64 \<Rightarrow> f64) \<Rightarrow> meshEdgeKey \<Rightarrow> diffractionFaceEdge list \<Rightarrow> (meshVertexKey \<Rightarrow> vec3 option) \<Rightarrow> DiffractionEdge option" where
  "diffractionEdgeFromFaces acosine edgeKey faces vertices =
     (if length faces \<noteq> 2 then None
      else
        (case (vertices (fst edgeKey), vertices (snd edgeKey)) of
           (Some start, Some end') \<Rightarrow>
             (let direction0 = vec3_Sub end' start; len = vec3_Norm direction0 in
              if fle len diffractionAngleEpsilon then None
              else
                (let direction = vec3_Scale direction0 (fdiv (round64 1) len);
                     faceO = faces ! 0; faceN = faces ! 1;
                     n0 = vec3_Normalize (feNormal faceO); n1 = vec3_Normalize (feNormal faceN) in
                 if feq (vec3_Norm n0) (Zero False) \<or> feq (vec3_Norm n1) (Zero False) then None
                 else
                   (let theta = acosine (clampFloat64 (vec3_Dot n0 n1) (round64 (- 1)) (round64 1)) in
                    if fle theta diffractionAngleEpsilon \<or> fle (fabs (fsub (round64 pi) theta)) diffractionAngleEpsilon then None
                    else
                      (let d01 = vec3_Dot n0 (vec3_Sub (feOpposite faceN) (feStart faceO));
                           d10 = vec3_Dot n1 (vec3_Sub (feOpposite faceO) (feStart faceN)) in
                       if fle (fneg diffractionAngleEpsilon) d01 \<or> fle (fneg diffractionAngleEpsilon) d10 then None
                       else
                         (let basis2 = vec3_Normalize (vec3_Cross direction n0) in
                          if feq (vec3_Norm basis2) (Zero False) then None
                          else Some \<lparr>deStart = start, deEnd = end', deDirection = direction, deLength = len,
                                     WedgeIndex = fdiv (fadd (round64 pi) theta) (round64 pi),
                                     FaceONormal = n0, FaceNNormal = n1, FaceOID = feFaceID faceO, FaceNID = feFaceID faceN,
                                     LocalBasis = (direction, n0, basis2)\<rparr>)))))
         | _ \<Rightarrow> None))"

definition canonicalDirection :: "vec3 \<Rightarrow> vec3" where
  "canonicalDirection v0 =
     (let v = vec3_Normalize v0; z = Zero False in
      if flt (vX v) z \<or> feq (vX v) z \<and> flt (vY v) z \<or> feq (vX v) z \<and> feq (vY v) z \<and> flt (vZ v) z
      then vec3_Neg v else v)"

definition vecKeyFrom :: "vec3 \<Rightarrow> gridKey" where
  "vecKeyFrom v =
     (let q = (\<lambda>c. f64_to_int (fround (fmul c diffractionKeyScale))) in (q (vX v), q (vY v), q (vZ v)))"

definition normalKeyFrom :: "vec3 \<Rightarrow> gridKey" where
  "normalKeyFrom v = vecKeyFrom (canonicalDirection v)"

fun compareDiffractionNormalKey :: "gridKey \<Rightarrow> gridKey \<Rightarrow> int" where
  "compareDiffractionNormalKey (ax, ay, az) (bx, by', bz) =
     (if ax < bx then -1 else if bx < ax then 1
      else if ay < by' then -1 else if by' < ay then 1
      else if az < bz then -1 else if bz < az then 1
      else 0)"

definition makeSortedNormalPair :: "vec3 \<Rightarrow> vec3 \<Rightarrow> gridKey \<times> gridKey" where
  "makeSortedNormalPair a b =
     (let keyA = normalKeyFrom a; keyB = normalKeyFrom b in
      if compareDiffractionNormalKey keyA keyB \<le> 0 then (keyA, keyB) else (keyB, keyA))"

definition compareVec3Lex :: "vec3 \<Rightarrow> vec3 \<Rightarrow> int" where
  "compareVec3Lex a b =
     (if flt (vX a) (vX b) then -1 else if flt (vX b) (vX a) then 1
      else if flt (vY a) (vY b) then -1 else if flt (vY b) (vY a) then 1
      else if flt (vZ a) (vZ b) then -1 else if flt (vZ b) (vZ a) then 1
      else 0)"

definition edge_interval :: "DiffractionEdge \<Rightarrow> diffractionLineKey \<times> diffractionInterval" where
  "edge_interval e =
     (let dir = canonicalDirection (deDirection e);
          offset = vec3_Sub (deStart e) (vec3_Scale dir (vec3_Dot (deStart e) dir));
          (planeA, planeB) = makeSortedNormalPair (FaceONormal e) (FaceNNormal e);
          t0 = vec3_Dot (deStart e) dir; t1 = vec3_Dot (deEnd e) dir;
          (lo, hi) = (if flt t1 t0 then (t1, t0) else (t0, t1)) in
      (\<lparr>PlaneA = planeA, PlaneB = planeB, lkDir = vecKeyFrom dir, Off = vecKeyFrom offset\<rparr>,
       \<lparr>StartT = lo, EndT = hi, ivEdge = e, Offset = offset, ivDir = dir\<rparr>))"

definition interval_before :: "diffractionInterval \<Rightarrow> diffractionInterval \<Rightarrow> bool" where
  "interval_before a b = (if feq (StartT a) (StartT b) then flt (EndT a) (EndT b) else flt (StartT a) (StartT b))"

definition flush_interval :: "diffractionInterval \<Rightarrow> f64 \<Rightarrow> f64 \<Rightarrow> DiffractionEdge" where
  "flush_interval current lo hi =
     (let start = vec3_Add (vec3_Scale (ivDir current) lo) (Offset current);
          end' = vec3_Add (vec3_Scale (ivDir current) hi) (Offset current);
          dir = vec3_Normalize (vec3_Sub end' start);
          e = ivEdge current in
      e\<lparr>deStart := start, deEnd := end', deDirection := dir, deLength := vec3_Distance start end',
        LocalBasis := (dir, FaceONormal e, vec3_Normalize (vec3_Cross dir (FaceONormal e)))\<rparr>)"

fun merge_line :: "diffractionInterval \<Rightarrow> f64 \<Rightarrow> f64 \<Rightarrow> diffractionInterval list \<Rightarrow> DiffractionEdge list" where
  "merge_line current lo hi [] = [flush_interval current lo hi]"
| "merge_line current lo hi (nxt # rest) =
     (if fle (StartT nxt) (fadd hi diffractionMergeEpsilon)
      then merge_line current lo (if flt hi (EndT nxt) then EndT nxt else hi) rest
      else flush_interval current lo hi # merge_line nxt (StartT nxt) (EndT nxt) rest)"

definition merge_group :: "diffractionInterval list \<Rightarrow> DiffractionEdge list" where
  "merge_group intervals =
     (let s = SliceStable interval_before intervals in merge_line (hd s) (StartT (hd s)) (EndT (hd s)) (tl s))"

definition mergeDiffractionEdges :: "edge_orders \<Rightarrow> DiffractionEdge list \<Rightarrow> DiffractionEdge list" where
  "mergeDiffractionEdges orders es =
     (if length es \<le> 1 then es
      else
        (let groups = foldl (\<lambda>m e. let (k, iv) = edge_interval e in alist_append m k iv) [] es in
         concat (map (\<lambda>(k, ivs). merge_group ivs) (lineOrder orders groups))))"

definition ExtractDiffractionEdges :: "(f64 \<Rightarrow> f64) \<Rightarrow> edge_orders \<Rightarrow> mesh \<Rightarrow> DiffractionEdge list" where
  "ExtractDiffractionEdges acosine orders m =
     (if Triangles m = [] then []
      else
        (let (adjacency, vertices) = foldl record_triangle ([], Map.empty) (enumerate 0 (Triangles m));
             raw = concat (map (\<lambda>(k, faces). case diffractionEdgeFromFaces acosine k faces vertices of None \<Rightarrow> [] | Some e \<Rightarrow> [e])
               (edgeOrder orders adjacency)) in
         SliceStable (\<lambda>a b. compareVec3Lex (deStart a) (deStart b) < 0 \<or>
             compareVec3Lex (deStart a) (deStart b) = 0 \<and> compareVec3Lex (deEnd a) (deEnd b) < 0)
           (mergeDiffractionEdges orders raw)))"

subsection \<open>Rays past an edge (ray_cylinder.go)\<close>

record RayCylinderHit =
  RayPoint :: vec3
  EdgePoint :: vec3
  RayDistance :: f64
  EdgeFraction :: f64
  FlyByDistance :: f64

definition rayCylinderEpsilon :: f64 where
  "rayCylinderEpsilon = round64 (1 / 10 ^ 12)"

definition RayOpenFiniteCylinder :: "ray \<Rightarrow> vec3 \<Rightarrow> vec3 \<Rightarrow> f64 \<Rightarrow> f64 \<Rightarrow> f64 \<Rightarrow> RayCylinderHit option" where
  "RayOpenFiniteCylinder r edgeStart edgeEnd radius tMin tMax =
     (if flt radius (Zero False) \<or> flt tMax tMin \<or> vec3_eq (rayDirection r) Vec3Zero then None
      else
        (let edge = vec3_Sub edgeEnd edgeStart; edgeLengthSquared = vec3_Dot edge edge in
         if fle edgeLengthSquared rayCylinderEpsilon then None
         else
           (let dir = vec3_Normalize (rayDirection r); w = vec3_Sub (rayOrigin r) edgeStart;
                b = vec3_Dot dir edge; d = vec3_Dot dir w; e = vec3_Dot edge w;
                denominator = fsub edgeLengthSquared (fmul b b) in
            if fle (fabs denominator) (fmul rayCylinderEpsilon edgeLengthSquared) then None
            else
              (let rayDistance = fdiv (fsub (fmul b e) (fmul edgeLengthSquared d)) denominator;
                   edgeFraction = fdiv (fsub e (fmul b d)) denominator in
               if flt rayDistance tMin \<or> flt tMax rayDistance \<or> fle edgeFraction (Zero False) \<or> fle (round64 1) edgeFraction
               then None
               else
                 (let rayPoint = vec3_Add (rayOrigin r) (vec3_Scale dir rayDistance);
                      edgePoint = vec3_Add edgeStart (vec3_Scale edge edgeFraction);
                      flyByDistance = vec3_Distance rayPoint edgePoint in
                  if flt (fadd radius rayCylinderEpsilon) flyByDistance then None
                  else Some \<lparr>RayPoint = rayPoint, EdgePoint = edgePoint, RayDistance = rayDistance,
                             EdgeFraction = edgeFraction, FlyByDistance = flyByDistance\<rparr>)))))"

subsection \<open>The grid of edges (diffraction_index.go)\<close>

record diffractionEdgeRef =
  refIndex :: nat
  refEdge :: DiffractionEdge

record DiffractionEdgeIndex =
  CellSize :: f64
  ixBounds :: box
  cells :: "gridKey \<Rightarrow> diffractionEdgeRef list"
  ixEdges :: "DiffractionEdge list"

definition diffractionIndexMinCellSize :: f64 where
  "diffractionIndexMinCellSize = round64 (1 / 4)"

definition keyForPoint :: "DiffractionEdgeIndex \<Rightarrow> vec3 \<Rightarrow> gridKey" where
  "keyForPoint ix point =
     (if fle (CellSize ix) (Zero False) then (0, 0, 0)
      else
        (let q = (\<lambda>p lo. f64_to_int (ffloor (fdiv (fsub p lo) (CellSize ix)))); b = Min (ixBounds ix) in
         (q (vX point) (vX b), q (vY point) (vY b), q (vZ point) (vZ b))))"

definition edgeBounds :: "DiffractionEdge \<Rightarrow> vec3 \<times> vec3" where
  "edgeBounds e =
     (let s = deStart e; t = deEnd e in
      (mk_vec3 (fmin (vX s) (vX t)) (fmin (vY s) (vY t)) (fmin (vZ s) (vZ t)),
       mk_vec3 (fmax (vX s) (vX t)) (fmax (vY s) (vY t)) (fmax (vZ s) (vZ t))))"

definition boxesOverlap :: "vec3 \<Rightarrow> vec3 \<Rightarrow> vec3 \<Rightarrow> vec3 \<Rightarrow> bool" where
  "boxesOverlap aMin aMax bMin bMax \<longleftrightarrow>
     fle (vX aMin) (vX bMax) \<and> fle (vX bMin) (vX aMax) \<and>
     fle (vY aMin) (vY bMax) \<and> fle (vY bMin) (vY aMax) \<and>
     fle (vZ aMin) (vZ bMax) \<and> fle (vZ bMin) (vZ aMax)"

text \<open>The cells between two keys, in the order of the nested loops.\<close>

fun cells_between :: "gridKey \<Rightarrow> gridKey \<Rightarrow> gridKey list" where
  "cells_between (x0, y0, z0) (x1, y1, z1) =
     concat (map (\<lambda>x. concat (map (\<lambda>y. map (\<lambda>z. (x, y, z)) [z0..z1]) [y0..y1])) [x0..x1])"

definition insert_edge :: "DiffractionEdgeIndex \<Rightarrow> nat \<times> DiffractionEdge \<Rightarrow> DiffractionEdgeIndex" where
  "insert_edge ix ie =
     (let (i, e) = ie; (lo, hi) = edgeBounds e in
      ix\<lparr>cells := foldl (\<lambda>m k. m(k := m k @ [\<lparr>refIndex = i, refEdge = e\<rparr>])) (cells ix)
          (cells_between (keyForPoint ix lo) (keyForPoint ix hi))\<rparr>)"

definition index_edges :: "f64 \<Rightarrow> box \<Rightarrow> DiffractionEdge list \<Rightarrow> DiffractionEdgeIndex" where
  "index_edges cellSize bounds es =
     foldl insert_edge \<lparr>CellSize = cellSize, ixBounds = bounds, cells = (\<lambda>_. []), ixEdges = es\<rparr> (enumerate 0 es)"

definition NewDiffractionEdgeIndex :: "(f64 \<Rightarrow> f64) \<Rightarrow> edge_orders \<Rightarrow> mesh \<Rightarrow> DiffractionEdgeIndex option" where
  "NewDiffractionEdgeIndex acosine orders m =
     (let es = ExtractDiffractionEdges acosine orders m in
      if es = [] then None
      else
        (let bounds = mesh_BoundingBox m; d = box_Dimensions bounds in
         Some (index_edges (fmax diffractionIndexMinCellSize (fdiv (fmax (vX d) (fmax (vY d) (vZ d))) (round64 8))) bounds es)))"

definition query_box :: "vec3 \<Rightarrow> vec3 \<Rightarrow> f64 \<Rightarrow> vec3 \<times> vec3" where
  "query_box start end' padding0 =
     (let padding = (if flt padding0 (Zero False) then Zero False else padding0);
          lo = (\<lambda>a b. fsub (fmin a b) padding); hi = (\<lambda>a b. fadd (fmax a b) padding) in
      (mk_vec3 (lo (vX start) (vX end')) (lo (vY start) (vY end')) (lo (vZ start) (vZ end')),
       mk_vec3 (hi (vX start) (vX end')) (hi (vY start) (vY end')) (hi (vZ start) (vZ end'))))"

definition take_candidate :: "vec3 \<Rightarrow> vec3 \<Rightarrow> diffractionEdgeRef list \<Rightarrow> diffractionEdgeRef \<Rightarrow> diffractionEdgeRef list" where
  "take_candidate minCorner maxCorner candidates ref =
     (if refIndex ref \<in> set (map refIndex candidates) then candidates
      else
        (let (edgeMin, edgeMax) = edgeBounds (refEdge ref) in
         if boxesOverlap minCorner maxCorner edgeMin edgeMax then candidates @ [ref] else candidates))"

definition candidateRefs :: "DiffractionEdgeIndex option \<Rightarrow> vec3 \<Rightarrow> vec3 \<Rightarrow> f64 \<Rightarrow> diffractionEdgeRef list" where
  "candidateRefs io start end' padding = (case io of
     None \<Rightarrow> []
   | Some ix \<Rightarrow>
       if ixEdges ix = [] then []
       else
         (let (minCorner, maxCorner) = query_box start end' padding in
          foldl (take_candidate minCorner maxCorner) []
            (concat (map (cells ix) (cells_between (keyForPoint ix minCorner) (keyForPoint ix maxCorner))))))"

definition Candidates :: "DiffractionEdgeIndex option \<Rightarrow> vec3 \<Rightarrow> vec3 \<Rightarrow> f64 \<Rightarrow> DiffractionEdge list" where
  "Candidates io start end' padding = map refEdge (candidateRefs io start end' padding)"

end
