(* ===== verification/Edge_Index.thy ===== *)
theory Edge_Index
  imports Diffraction_Edges
begin

text \<open>
  The grid of edges loses nothing: a query returns exactly the edges whose bounding boxes overlap its own,
  each once, like a scan of all edges. Rounding does not matter, because every step from a
  coordinate to its cell is monotone.
\<close>

subsection \<open>From coordinates to cells\<close>

lemma fle_fadd_right:
  assumes "fle a b" "is_finite a" "is_finite b" "is_finite c"
  shows "fle (fadd a c) (fadd b c)"
  using assms by (simp add: fle_fadd fle_finite round64_mono)

lemma fle_fdiv_right:
  assumes "fle a b" "is_finite c" "flt (Zero False) c"
  shows "fle (fdiv a c) (fdiv b c)"
proof -
  obtain y where c: "c = Num y" "0 < y" using assms(2,3) by (cases c) (auto simp: flt_def is_finite_def)
  have r: "fle (round64 (x / y)) (round64 (x' / y))" if "x \<le> x'" for x x'
    using that c(2) by (intro round64_mono divide_right_mono) auto
  have z: "fle (round64 (x / y)) (Zero s)" if "x \<le> 0" for x s
    using r [OF that] by (auto simp: fle_def)
  have z': "fle (Zero s) (round64 (x / y))" if "0 \<le> x" for x s
    using r [OF that] by (auto simp: fle_def)
  have high: "fle (round64 x) (Inf s)" if "\<not> s" for x s using that by simp
  have low: "fle (Inf s) (round64 x)" if "s" for x s
    by (cases "round64 x") (use that round64_not_nan(2) [of x] in \<open>auto simp: fle_def\<close>)
  have up: "fle (Zero s) (Num x) \<longleftrightarrow> 0 \<le> x" "fle (Num x) (Zero s) \<longleftrightarrow> x \<le> 0" for s x by (auto simp: fle_def)
  have inf: "fle (Inf s) (Num x) \<longleftrightarrow> s" "fle (Inf s) (Zero s') \<longleftrightarrow> s" "fle (Num x) (Inf s) \<longleftrightarrow> \<not> s"
    "fle (Zero s') (Inf s) \<longleftrightarrow> \<not> s" "fle (Inf s) (Inf s') \<longleftrightarrow> s \<or> \<not> s'" "fle (Num x) (Num x') \<longleftrightarrow> x \<le> x'" for s s' x x'
    by (auto simp: fle_def)
  show ?thesis using assms(1) c
    by (cases a; cases b) (auto simp: fdiv_def up inf r z z' low high, auto simp: fle_def split: if_splits)
qed

lemma fle_ffloor: "fle a b \<Longrightarrow> fle (ffloor a) (ffloor b)"
  by (cases a; cases b) (auto simp: ffloor_def fcompose_def fle_def floor_mono floor_eq_iff split: if_splits)

lemma f64_to_int_mono:
  assumes "fle a b" "flt b (Num (2 ^ 63))"
  shows "f64_to_int a \<le> f64_to_int b"
proof (cases "is_nan a \<or> is_inf a")
  case True
  then show ?thesis by (auto simp: f64_to_int_def Let_def)
next
  case False
  then have a: "is_finite a" by (cases a) (auto simp: is_finite_def)
  with assms have b: "is_finite b" "fval b < 2 ^ 63"
    by (cases a; cases b; auto simp: is_finite_def fle_def flt_def split: if_splits)+
  have le: "fval a \<le> fval b" using assms(1) a b(1) by (simp add: fle_finite)
  have t: "truncate_real (fval a) \<le> truncate_real (fval b)"
    using le floor_mono [OF le] ceiling_mono [OF le] by (auto simp: truncate_real_def) (smt (verit) ceiling_le_zero floor_less_zero zero_le_floor)+
  have "truncate_real (fval b) < 2 ^ 63"
    using b(2) by (auto simp: truncate_real_def floor_less_iff)
  with t a b(1) show ?thesis by (auto simp: f64_to_int_def Let_def is_finite_def)
qed

definition coordinate_cell :: "f64 \<Rightarrow> f64 \<Rightarrow> f64 \<Rightarrow> int" where
  "coordinate_cell c lo p = f64_to_int (ffloor (fdiv (fsub p lo) c))"

text \<open>A coordinate whose cell has a number.\<close>

definition placed :: "f64 \<Rightarrow> f64 \<Rightarrow> f64 \<Rightarrow> bool" where
  "placed c lo p \<longleftrightarrow> is_finite p \<and> is_finite lo \<and> flt (fdiv (fsub p lo) c) (Num (2 ^ 63))"

lemma coordinate_cell_mono:
  assumes "fle p q" "is_finite c" "flt (Zero False) c" "placed c lo p" "placed c lo q"
  shows "coordinate_cell c lo p \<le> coordinate_cell c lo q"
proof -
  have fin: "is_finite p" "is_finite q" "is_finite (fneg lo)" using assms(4,5) by (simp_all add: placed_def)
  have "fle (fsub p lo) (fsub q lo)" unfolding fsub_def using assms(1) fin by (intro fle_fadd_right)
  then have d: "fle (fdiv (fsub p lo) c) (fdiv (fsub q lo) c)" using assms(2,3) by (intro fle_fdiv_right)
  have "flt (ffloor (fdiv (fsub q lo) c)) (Num (2 ^ 63))"
    using assms(5) unfolding placed_def
    by (cases "fdiv (fsub q lo) c") (auto simp: ffloor_def fcompose_def flt_def floor_less_iff split: if_splits, linarith?)
  with fle_ffloor [OF d] show ?thesis unfolding coordinate_cell_def by (intro f64_to_int_mono)
qed

lemma coordinate_range:
  assumes "is_finite c" "flt (Zero False) c" "placed c lo a" "placed c lo a'" "placed c lo b" "placed c lo b'"
    and "fle a a'" "fle b b'" "fle a b'" "fle b a'"
  shows "\<exists>k. coordinate_cell c lo a \<le> k \<and> k \<le> coordinate_cell c lo a' \<and> coordinate_cell c lo b \<le> k \<and> k \<le> coordinate_cell c lo b'"
proof -
  note mono = coordinate_cell_mono [OF _ assms(1,2)]
  have "max (coordinate_cell c lo a) (coordinate_cell c lo b) \<le> min (coordinate_cell c lo a') (coordinate_cell c lo b')"
    using mono [OF assms(7)] mono [OF assms(8)] mono [OF assms(9)] mono [OF assms(10)] assms(3-6) by simp
  then show ?thesis by (intro exI [of _ "max (coordinate_cell c lo a) (coordinate_cell c lo b)"]) simp
qed

subsection \<open>The table of cells\<close>

lemma cells_between_iff:
  "k \<in> set (cells_between (x0, y0, z0) (x1, y1, z1)) \<longleftrightarrow>
     (\<exists>x y z. k = (x, y, z) \<and> x0 \<le> x \<and> x \<le> x1 \<and> y0 \<le> y \<and> y \<le> y1 \<and> z0 \<le> z \<and> z \<le> z1)"
  by (cases k) (auto simp: image_iff)

lemma keyForPoint_insert [simp]: "keyForPoint (insert_edge ix ie) p = keyForPoint ix p" "ixEdges (insert_edge ix ie) = ixEdges ix"
  by (auto simp: keyForPoint_def insert_edge_def Let_def split: prod.splits)

definition edge_cells :: "DiffractionEdgeIndex \<Rightarrow> DiffractionEdge \<Rightarrow> gridKey set" where
  "edge_cells ix e = set (cells_between (keyForPoint ix (fst (edgeBounds e))) (keyForPoint ix (snd (edgeBounds e))))"

lemma insert_cells:
  "set (cells (insert_edge ix (i, e)) k) =
     set (cells ix k) \<union> (if k \<in> edge_cells ix e then {\<lparr>refIndex = i, refEdge = e\<rparr>} else {})"
proof -
  have "set (foldl (\<lambda>m k. m(k := m k @ [r])) m ks k) = set (m k) \<union> (if k \<in> set ks then {r} else {})" for m ks and r :: diffractionEdgeRef
    by (induction ks arbitrary: m) auto
  then show ?thesis by (auto simp: insert_edge_def edge_cells_def Let_def split: prod.splits)
qed

lemma edge_cells_insert [simp]: "edge_cells (insert_edge ix ie) e = edge_cells ix e"
  by (simp add: edge_cells_def)

lemma insert_all:
  "set (cells (foldl insert_edge ix ies) k) =
     set (cells ix k) \<union> {\<lparr>refIndex = i, refEdge = e\<rparr> | i e. (i, e) \<in> set ies \<and> k \<in> edge_cells ix e}"
  by (induction ies arbitrary: ix) (auto simp: insert_cells split: if_splits)

lemma index_fields [simp]:
  "CellSize (index_edges c b es) = c" "ixBounds (index_edges c b es) = b" "ixEdges (index_edges c b es) = es"
proof -
  have "CellSize (foldl insert_edge ix ies) = CellSize ix \<and> ixBounds (foldl insert_edge ix ies) = ixBounds ix \<and>
      ixEdges (foldl insert_edge ix ies) = ixEdges ix" for ix ies
    by (induction ies arbitrary: ix) (auto simp: insert_edge_def Let_def split: prod.splits)
  then show "CellSize (index_edges c b es) = c" "ixBounds (index_edges c b es) = b" "ixEdges (index_edges c b es) = es"
    by (simp_all add: index_edges_def)
qed

lemma index_cells:
  "ref \<in> set (cells (index_edges c b es) k) \<longleftrightarrow>
     refIndex ref < length es \<and> refEdge ref = es ! refIndex ref \<and> k \<in> edge_cells (index_edges c b es) (es ! refIndex ref)"
proof -
  have key: "edge_cells (index_edges c b es) e = edge_cells \<lparr>CellSize = c, ixBounds = b, cells = (\<lambda>_. []), ixEdges = es\<rparr> e" for e
    by (simp add: edge_cells_def keyForPoint_def)
  show ?thesis unfolding key
    by (cases ref) (auto simp: index_edges_def insert_all in_set_enumerate_eq)
qed

subsection \<open>Queries\<close>

definition overlaps :: "vec3 \<times> vec3 \<Rightarrow> DiffractionEdge \<Rightarrow> bool" where
  "overlaps q e \<longleftrightarrow> boxesOverlap (fst q) (snd q) (fst (edgeBounds e)) (snd (edgeBounds e))"

lemma take_candidate_eq:
  "take_candidate lo hi acc r =
     (if refIndex r \<in> set (map refIndex acc) \<or> \<not> overlaps (lo, hi) (refEdge r) then acc else acc @ [r])"
  by (auto simp: take_candidate_def overlaps_def Let_def case_prod_beta)

lemma take_one:
  assumes "\<And>a. a \<in> set acc \<Longrightarrow> overlaps (lo, hi) (refEdge a)" "\<And>a. a \<in> set acc \<Longrightarrow> refIndex a = refIndex r \<Longrightarrow> a = r"
  shows "set (take_candidate lo hi acc r) = set acc \<union> (if overlaps (lo, hi) (refEdge r) then {r} else {})"
proof (cases "refIndex r \<in> set (map refIndex acc)")
  case True
  then have "r \<in> set acc" using assms(2) by fastforce
  with True assms(1) show ?thesis by (auto simp: take_candidate_eq)
next
  case False
  then show ?thesis by (auto simp: take_candidate_eq)
qed

lemma take_one_distinct: "distinct (map refIndex acc) \<Longrightarrow> distinct (map refIndex (take_candidate lo hi acc r))"
  by (auto simp: take_candidate_eq)

lemma take_candidates:
  assumes "distinct (map refIndex acc)" "\<And>a. a \<in> set acc \<Longrightarrow> overlaps (lo, hi) (refEdge a)"
    and "inj_on refIndex (set acc \<union> set refs)"
  shows "distinct (map refIndex (foldl (take_candidate lo hi) acc refs)) \<and>
    set (foldl (take_candidate lo hi) acc refs) = set acc \<union> {r \<in> set refs. overlaps (lo, hi) (refEdge r)}"
  using assms
proof (induction refs arbitrary: acc)
  case (Cons r refs)
  let ?acc = "take_candidate lo hi acc r"
  have one: "set ?acc = set acc \<union> (if overlaps (lo, hi) (refEdge r) then {r} else {})"
  proof (rule take_one)
    show "a = r" if "a \<in> set acc" "refIndex a = refIndex r" for a
      using inj_onD [OF Cons.prems(3) that(2)] that(1) by simp
  qed (rule Cons.prems(2))
  have "distinct (map refIndex (foldl (take_candidate lo hi) ?acc refs)) \<and>
    set (foldl (take_candidate lo hi) ?acc refs) = set ?acc \<union> {r \<in> set refs. overlaps (lo, hi) (refEdge r)}"
  proof (rule Cons.IH)
    show "distinct (map refIndex ?acc)" using Cons.prems(1) by (rule take_one_distinct)
    show "overlaps (lo, hi) (refEdge a)" if "a \<in> set ?acc" for a using that one Cons.prems(2) by (auto split: if_splits)
    show "inj_on refIndex (set ?acc \<union> set refs)" by (rule inj_on_subset [OF Cons.prems(3)]) (auto simp: one)
  qed
  with one show ?case by auto
qed simp

lemma fmin_le_fmax:
  assumes "is_finite a" "is_finite b"
  shows "fle (fmin a b) (fmax a b)" "is_finite (fmin a b)" "is_finite (fmax a b)"
  using assms by (cases a; cases b; auto simp: fmin_def fmax_def fle_def flt_def is_finite_def)+

text \<open>A point whose cell has numbers.\<close>

definition placed_point :: "DiffractionEdgeIndex \<Rightarrow> vec3 \<Rightarrow> bool" where
  "placed_point ix p \<longleftrightarrow> (let c = CellSize ix; b = Min (ixBounds ix) in
     placed c (vX b) (vX p) \<and> placed c (vY b) (vY p) \<and> placed c (vZ b) (vZ p))"

definition ordered_box :: "vec3 \<times> vec3 \<Rightarrow> bool" where
  "ordered_box q \<longleftrightarrow> fle (vX (fst q)) (vX (snd q)) \<and> fle (vY (fst q)) (vY (snd q)) \<and> fle (vZ (fst q)) (vZ (snd q))"

text \<open>Boxes that overlap share a cell.\<close>

lemma shared_cell:
  assumes "is_finite (CellSize ix)" "flt (Zero False) (CellSize ix)" "overlaps q e"
    and "ordered_box q" "ordered_box (edgeBounds e)"
    and "placed_point ix (fst q)" "placed_point ix (snd q)" "placed_point ix (fst (edgeBounds e))" "placed_point ix (snd (edgeBounds e))"
  shows "\<exists>k \<in> set (cells_between (keyForPoint ix (fst q)) (keyForPoint ix (snd q))). k \<in> edge_cells ix e"
proof -
  let ?c = "CellSize ix" and ?b = "Min (ixBounds ix)"
  have key: "keyForPoint ix p = (coordinate_cell ?c (vX ?b) (vX p), coordinate_cell ?c (vY ?b) (vY p), coordinate_cell ?c (vZ ?b) (vZ p))" for p
    using assms(2) fle_flt_trans [of ?c "Zero False" ?c] by (auto simp: keyForPoint_def coordinate_cell_def Let_def)
  note range = coordinate_range [OF assms(1,2)]
  obtain x where "coordinate_cell ?c (vX ?b) (vX (fst q)) \<le> x" "x \<le> coordinate_cell ?c (vX ?b) (vX (snd q))"
    "coordinate_cell ?c (vX ?b) (vX (fst (edgeBounds e))) \<le> x" "x \<le> coordinate_cell ?c (vX ?b) (vX (snd (edgeBounds e)))"
    using range [of "vX ?b" "vX (fst q)" "vX (snd q)" "vX (fst (edgeBounds e))" "vX (snd (edgeBounds e))"] assms(3-9)
    by (auto simp: placed_point_def ordered_box_def overlaps_def boxesOverlap_def Let_def)
  moreover obtain y where "coordinate_cell ?c (vY ?b) (vY (fst q)) \<le> y" "y \<le> coordinate_cell ?c (vY ?b) (vY (snd q))"
    "coordinate_cell ?c (vY ?b) (vY (fst (edgeBounds e))) \<le> y" "y \<le> coordinate_cell ?c (vY ?b) (vY (snd (edgeBounds e)))"
    using range [of "vY ?b" "vY (fst q)" "vY (snd q)" "vY (fst (edgeBounds e))" "vY (snd (edgeBounds e))"] assms(3-9)
    by (auto simp: placed_point_def ordered_box_def overlaps_def boxesOverlap_def Let_def)
  moreover obtain z where "coordinate_cell ?c (vZ ?b) (vZ (fst q)) \<le> z" "z \<le> coordinate_cell ?c (vZ ?b) (vZ (snd q))"
    "coordinate_cell ?c (vZ ?b) (vZ (fst (edgeBounds e))) \<le> z" "z \<le> coordinate_cell ?c (vZ ?b) (vZ (snd (edgeBounds e)))"
    using range [of "vZ ?b" "vZ (fst q)" "vZ (snd q)" "vZ (fst (edgeBounds e))" "vZ (snd (edgeBounds e))"] assms(3-9)
    by (auto simp: placed_point_def ordered_box_def overlaps_def boxesOverlap_def Let_def)
  ultimately show ?thesis
    unfolding key edge_cells_def by (intro bexI [of _ "(x, y, z)"]) (simp_all only: cells_between_iff, blast+)
qed

lemma edge_box_ordered:
  assumes "isFiniteVec3 (deStart e)" "isFiniteVec3 (deEnd e)"
  shows "ordered_box (edgeBounds e)"
  using assms fmin_le_fmax by (auto simp: ordered_box_def edgeBounds_def Let_def isFiniteVec3_def is_finite_def)

lemma query_box_ordered:
  assumes "isFiniteVec3 start" "isFiniteVec3 end'" "is_finite padding"
  shows "ordered_box (query_box start end' padding)"
proof -
  let ?p = "if flt padding (Zero False) then Zero False else padding"
  have p: "is_finite ?p" "0 \<le> fval ?p" using assms(3) by (cases padding; auto simp: is_finite_def flt_def)+
  have widen: "fle (fsub (fmin a b) ?p) (fadd (fmax a b) ?p)" if "is_finite a" "is_finite b" for a b
  proof -
    note m = fmin_le_fmax [OF that]
    have "fval (fmin a b) \<le> fval (fmax a b)" using m by (simp add: fle_finite)
    with p(2) have "fle (round64 (fval (fmin a b) + - fval ?p)) (round64 (fval (fmax a b) + fval ?p))" by (intro round64_mono) simp
    with m p(1) show ?thesis unfolding fsub_def by (simp add: fle_fadd)
  qed
  show ?thesis using assms(1,2) widen
    by (auto simp: ordered_box_def query_box_def Let_def isFiniteVec3_def is_finite_def)
qed

subsection \<open>Nothing is lost\<close>

text \<open>The points of an index and of a query have cells.\<close>

definition well_placed :: "DiffractionEdgeIndex \<Rightarrow> vec3 \<times> vec3 \<Rightarrow> bool" where
  "well_placed ix q \<longleftrightarrow> is_finite (CellSize ix) \<and> flt (Zero False) (CellSize ix) \<and> placed_point ix (fst q) \<and> placed_point ix (snd q) \<and>
     list_all (\<lambda>e. isFiniteVec3 (deStart e) \<and> isFiniteVec3 (deEnd e) \<and> placed_point ix (fst (edgeBounds e)) \<and>
       placed_point ix (snd (edgeBounds e))) (ixEdges ix)"

text \<open>C30: The grid of edges answers like a scan over all edges: a query returns exactly the edges whose bounding boxes
  overlap the padded box of the segment, each exactly once, with its number and its data, whatever the
  size of the cells, as long as the coordinates are finite and the cell numbers fit an int. The
  numbers of cells are computed with rounding; no edge is lost to it.\<close>

theorem edge_grid_exact:
  assumes "well_placed (index_edges cellSize bounds es) (query_box start end' padding)"
    and "isFiniteVec3 start" "isFiniteVec3 end'" "is_finite padding"
  shows "distinct (map refIndex (candidateRefs (Some (index_edges cellSize bounds es)) start end' padding)) \<and>
    set (candidateRefs (Some (index_edges cellSize bounds es)) start end' padding) =
      {\<lparr>refIndex = i, refEdge = es ! i\<rparr> | i. i < length es \<and> overlaps (query_box start end' padding) (es ! i)}"
proof (cases "es = []")
  case True
  then show ?thesis by (simp add: candidateRefs_def)
next
  case False
  let ?ix = "index_edges cellSize bounds es" and ?q = "query_box start end' padding"
  let ?refs = "concat (map (cells ?ix) (cells_between (keyForPoint ?ix (fst ?q)) (keyForPoint ?ix (snd ?q))))"
  have cand: "candidateRefs (Some ?ix) start end' padding = foldl (take_candidate (fst ?q) (snd ?q)) [] ?refs"
    using False by (simp add: candidateRefs_def case_prod_beta)
  have refs: "r \<in> set ?refs \<longleftrightarrow> (\<exists>k \<in> set (cells_between (keyForPoint ?ix (fst ?q)) (keyForPoint ?ix (snd ?q))). r \<in> set (cells ?ix k))" for r
    by auto
  have inj: "inj_on refIndex (set [] \<union> set ?refs)"
    by (rule inj_onI) (auto simp: index_cells)
  note res = take_candidates [of "[]" "fst ?q" "snd ?q" ?refs, OF _ _ inj, simplified]
  have shared: "\<lparr>refIndex = i, refEdge = es ! i\<rparr> \<in> set ?refs" if "i < length es" "overlaps ?q (es ! i)" for i
  proof -
    have e: "isFiniteVec3 (deStart (es ! i))" "isFiniteVec3 (deEnd (es ! i))"
      "placed_point ?ix (fst (edgeBounds (es ! i)))" "placed_point ?ix (snd (edgeBounds (es ! i)))"
      using assms(1) that(1) by (auto simp: well_placed_def list_all_length)
    have q: "is_finite (CellSize ?ix)" "flt (Zero False) (CellSize ?ix)" "placed_point ?ix (fst ?q)" "placed_point ?ix (snd ?q)"
      using assms(1) by (auto simp: well_placed_def)
    show ?thesis
      using shared_cell [OF q(1,2) that(2) query_box_ordered [OF assms(2-4)] edge_box_ordered [OF e(1,2)] q(3,4) e(3,4)] that(1)
      unfolding refs index_cells by simp
  qed
  have "set (candidateRefs (Some ?ix) start end' padding) = {r \<in> set ?refs. overlaps ?q (refEdge r)}"
    unfolding cand using res by simp
  also have "\<dots> = {\<lparr>refIndex = i, refEdge = es ! i\<rparr> | i. i < length es \<and> overlaps ?q (es ! i)}"
  proof (intro set_eqI iffI)
    fix r assume r: "r \<in> {r \<in> set ?refs. overlaps ?q (refEdge r)}"
    then have "refIndex r < length es" "refEdge r = es ! refIndex r" unfolding mem_Collect_eq refs index_cells by auto
    with r show "r \<in> {\<lparr>refIndex = i, refEdge = es ! i\<rparr> | i. i < length es \<and> overlaps ?q (es ! i)}"
      by (cases r) auto
  next
    fix r assume "r \<in> {\<lparr>refIndex = i, refEdge = es ! i\<rparr> | i. i < length es \<and> overlaps ?q (es ! i)}"
    with shared show "r \<in> {r \<in> set ?refs. overlaps ?q (refEdge r)}" by auto
  qed
  finally show ?thesis using res unfolding cand by simp
qed

definition sample_edge :: DiffractionEdge where
  "sample_edge = \<lparr>deStart = mk_vec3 (round64 1) (Zero False) (Zero False), deEnd = mk_vec3 (round64 2) (Zero False) (Zero False),
     deDirection = mk_vec3 (round64 1) (Zero False) (Zero False), deLength = round64 1, WedgeIndex = round64 (3 / 2),
     FaceONormal = mk_vec3 (Zero False) (round64 1) (Zero False), FaceNNormal = mk_vec3 (Zero False) (Zero False) (round64 1),
     FaceOID = 0, FaceNID = 1,
     LocalBasis = (mk_vec3 (round64 1) (Zero False) (Zero False), mk_vec3 (Zero False) (round64 1) (Zero False),
       mk_vec3 (Zero False) (Zero False) (round64 1))\<rparr>"

definition sample_bounds :: box where
  "sample_bounds = mk_box Vec3Zero (mk_vec3 (round64 2) (round64 2) (round64 2))"

definition sample_query :: "vec3 \<times> vec3" where
  "sample_query = (mk_vec3 (Zero False) (Zero False) (Zero False), mk_vec3 (round64 2) (Zero False) (Zero False))"

lemma sample_cells: "placed (round64 1) (Zero False) (Zero False)" "placed (round64 1) (Zero False) (Num 1)" "placed (round64 1) (Zero False) (Num 2)"
  by (simp_all add: placed_def float_eval)

lemma sample_boxes:
  "query_box (fst sample_query) (snd sample_query) (Zero False) = sample_query"
  "edgeBounds sample_edge = (mk_vec3 (Num 1) (Zero False) (Zero False), mk_vec3 (Num 2) (Zero False) (Zero False))"
  by (simp_all add: query_box_def sample_query_def sample_edge_def edgeBounds_def fmin_def fmax_def Let_def float_eval)

lemma sample_placed: "well_placed (index_edges (round64 1) sample_bounds [sample_edge]) (query_box (fst sample_query) (snd sample_query) (Zero False))"
proof -
  let ?ix = "index_edges (round64 1) sample_bounds [sample_edge]"
  have p: "placed_point ?ix (mk_vec3 a (Zero False) (Zero False))" if "placed (round64 1) (Zero False) a" for a
    using that sample_cells by (simp add: placed_point_def sample_bounds_def Vec3Zero_def Let_def)
  have two: "round64 2 = Num 2" by (simp add: float_eval)
  have "placed_point ?ix (fst sample_query)" "placed_point ?ix (snd sample_query)" "placed_point ?ix (fst (edgeBounds sample_edge))"
    "placed_point ?ix (snd (edgeBounds sample_edge))"
    unfolding sample_boxes by (simp_all only: sample_query_def fst_conv snd_conv two p sample_cells)
  moreover have "isFiniteVec3 (deStart sample_edge)" "isFiniteVec3 (deEnd sample_edge)" "is_finite (round64 1)" "flt (Zero False) (round64 1)"
    by (simp_all add: sample_edge_def isFiniteVec3_def float_eval)
  ultimately show ?thesis unfolding well_placed_def sample_boxes(1) index_fields by simp
qed

theorem edge_grid_exact_witness:
  "map refIndex (candidateRefs (Some (index_edges (round64 1) sample_bounds [sample_edge])) (fst sample_query) (snd sample_query) (Zero False)) = [0]"
proof -
  let ?c = "candidateRefs (Some (index_edges (round64 1) sample_bounds [sample_edge])) (fst sample_query) (snd sample_query) (Zero False)"
  have q: "isFiniteVec3 (fst sample_query)" "isFiniteVec3 (snd sample_query)" "is_finite (Zero False)"
    by (simp_all add: isFiniteVec3_def sample_query_def float_eval)
  have o: "overlaps sample_query sample_edge"
    unfolding overlaps_def sample_boxes by (simp add: boxesOverlap_def sample_query_def float_eval)
  note ex = edge_grid_exact [OF sample_placed q, unfolded sample_boxes]
  have "set (map refIndex ?c) = {0}" using ex o by auto
  moreover have "length (map refIndex ?c) = card (set (map refIndex ?c))"
    by (rule distinct_card [symmetric]) (rule ex [THEN conjunct1])
  ultimately show ?thesis by (cases "map refIndex ?c") auto
qed

end
