(* ===== verification/Ray_Particles.thy ===== *)
theory Ray_Particles
  imports Ray_Settings Bvh
begin

text \<open>
  The particles of the ray tracer (package raytrace): their state and the bookkeeping of the hybrid
  detection (reflection.go, hybrid_detection.go), reflection and scattering (reflection.go, scatter.go),
  air absorption (air_absorption.go), the spherical receiver (receiver.go) and launching (launch.go).
  The functions of package math that are not computed exactly are the fields of \<open>libm\<close>, and the n-th number of the
  generator \<open>rand.New(rand.NewSource(1))\<close> is \<open>draw n\<close>; a count of the numbers drawn so far is
  threaded through the calls that draw.
\<close>

record libm =
  mPow :: "f64 \<Rightarrow> f64 \<Rightarrow> f64"
  mExp :: "f64 \<Rightarrow> f64"
  mCos :: "f64 \<Rightarrow> f64"
  mSin :: "f64 \<Rightarrow> f64"
  mTan :: "f64 \<Rightarrow> f64"
  mAcos :: "f64 \<Rightarrow> f64"
  mAsin :: "f64 \<Rightarrow> f64"
  mAtan :: "f64 \<Rightarrow> f64"
  mAtan2 :: "f64 \<Rightarrow> f64 \<Rightarrow> f64"

type_synonym rng = "nat \<Rightarrow> f64"

subsection \<open>State and bookkeeping (reflection.go, hybrid_detection.go)\<close>

record RayState =
  rsRay :: ray
  Energy :: "f64 list"
  PathLength :: f64
  DelaySeconds :: f64
  Bounces :: int
  RainCovered :: bool
  HasDiffuseHistory :: bool
  AllowDetection :: bool
  ReflectionOrder :: int
  PreEDReflOrder :: int
  EDReflOrder :: int
  EDOrder :: int

definition DetectionAllowedHybrid :: "RayState \<Rightarrow> HybridDetectionConfig \<Rightarrow> bool" where
  "DetectionAllowedHybrid state cfg =
     (if \<not> Enabled cfg then True
      else if EDOrder state \<noteq> 0
      then HasDiffuseHistory state \<or> MaxPreEDISOrder cfg < PreEDReflOrder state \<or>
        MaxEDISOrder cfg < EDReflOrder state \<or> MaxEDOrder cfg < EDOrder state
      else MaxISOrder cfg < ReflectionOrder state)"

definition advanceStateAfterReflection :: "RayState \<Rightarrow> bool \<Rightarrow> RayState" where
  "advanceStateAfterReflection state diffuse =
     (let s1 = state\<lparr>ReflectionOrder := ReflectionOrder state + 1\<rparr>;
          s2 = (if EDOrder s1 = 0 then s1\<lparr>PreEDReflOrder := PreEDReflOrder s1 + 1\<rparr>
                else s1\<lparr>EDReflOrder := EDReflOrder s1 + 1\<rparr>);
          s3 = (if diffuse then s2\<lparr>HasDiffuseHistory := True\<rparr> else s2) in
      s3\<lparr>AllowDetection := \<not> diffuse\<rparr>)"

definition advanceStateAfterDiffraction :: "RayState \<Rightarrow> RayState" where
  "advanceStateAfterDiffraction state = state\<lparr>EDOrder := EDOrder state + 1, AllowDetection := False\<rparr>"

definition reflectedChildState :: "RayState \<Rightarrow> bool \<Rightarrow> RayState" where
  "reflectedChildState parent diffuse = advanceStateAfterReflection (parent\<lparr>Energy := []\<rparr>) diffuse"

definition diffractedChildState :: "RayState \<Rightarrow> RayState" where
  "diffractedChildState parent = advanceStateAfterDiffraction (parent\<lparr>Energy := []\<rparr>)"

subsection \<open>Energies (reflection.go)\<close>

definition clamp01 :: "f64 \<Rightarrow> f64" where
  "clamp01 v = (if flt v (Zero False) then Zero False else if flt (round64 1) v then round64 1 else v)"

text \<open>The band \<open>i\<close> of \<open>splitReflectionEnergy\<close>: the specular, the diffuse and the whole remaining part.\<close>

definition split_band :: "f64 list \<Rightarrow> f64 list \<Rightarrow> f64 \<Rightarrow> nat \<Rightarrow> f64 \<times> f64 \<times> f64" where
  "split_band absorption scattering e i =
     (let absorbed = (if i < length absorption then clamp01 (absorption ! i) else Zero False);
          scatter = (if i < length scattering then clamp01 (scattering ! i) else Zero False);
          left = fmul e (fsub (round64 1) absorbed) in
      (fmul left (fsub (round64 1) scatter), fmul left scatter, left))"

definition splitReflectionEnergy :: "f64 list \<Rightarrow> f64 list \<Rightarrow> f64 list \<Rightarrow> f64 list \<times> f64 list \<times> f64 list" where
  "splitReflectionEnergy energies absorption scattering =
     (let parts = map (\<lambda>i. split_band absorption scattering (energies ! i) i) [0..<length energies] in
      (map fst parts, map (fst \<circ> snd) parts, map (snd \<circ> snd) parts))"

definition chooseBlendDirection :: "vec3 \<Rightarrow> vec3 \<Rightarrow> f64 \<Rightarrow> vec3" where
  "chooseBlendDirection specularDir diffuseDir scatter0 =
     (let scatter = clamp01 scatter0;
          dir = vec3_Add (vec3_Scale specularDir (fsub (round64 1) scatter)) (vec3_Scale diffuseDir scatter) in
      if vec3_eq dir Vec3Zero then specularDir else vec3_Normalize dir)"

text \<open>The direction, whether it is the diffuse one, and the count of numbers drawn.\<close>

definition sampleProbabilisticReflection :: "rng \<Rightarrow> vec3 \<Rightarrow> vec3 \<Rightarrow> f64 \<Rightarrow> nat \<Rightarrow> vec3 \<times> bool \<times> nat" where
  "sampleProbabilisticReflection draw specularDir diffuseDir scatter0 n =
     (let scatter = clamp01 scatter0 in
      if fle (round64 1) scatter then (diffuseDir, True, n)
      else if flt (Zero False) scatter
      then (if flt (draw n) scatter then (diffuseDir, True, Suc n) else (specularDir, False, Suc n))
      else (specularDir, False, n))"

definition russianRouletteEnergy :: "rng \<Rightarrow> f64 list \<Rightarrow> f64 \<Rightarrow> nat \<Rightarrow> f64 list option \<times> nat" where
  "russianRouletteEnergy draw energy threshold n =
     (if energy = [] then (None, n)
      else if fle threshold (Zero False) then (Some energy, n)
      else
        (let peak = maxEnergy energy in
         if flt threshold peak then (Some energy, n)
         else
           (let s = fdiv peak threshold; survival = (if flt s (round64 (1 / 20)) then round64 (1 / 20) else s) in
            if flt survival (draw n) then (None, Suc n)
            else (Some (map (\<lambda>e. fmul e (fdiv (round64 1) survival)) energy), Suc n))))"

subsection \<open>Directions (scatter.go)\<close>

definition SpecularReflect :: "vec3 \<Rightarrow> vec3 \<Rightarrow> vec3" where
  "SpecularReflect dir normal =
     (let n = vec3_Normalize normal in vec3_Sub dir (vec3_Scale n (fmul (round64 2) (vec3_Dot dir n))))"

definition faceIncidentSide :: "vec3 \<Rightarrow> vec3 \<Rightarrow> vec3" where
  "faceIncidentSide dir normal =
     (if flt (Zero False) (vec3_Dot dir normal) then vec3_Scale normal (round64 (- 1)) else normal)"

definition LambertDirection :: "libm \<Rightarrow> rng \<Rightarrow> vec3 \<Rightarrow> nat \<Rightarrow> vec3 \<times> nat" where
  "LambertDirection lm draw normal k =
     (let r1 = draw k; r2 = draw (Suc k);
          cosTheta = fsqrt r1; sinTheta = fsqrt (fsub (round64 1) r1);
          phi = fmul (round64 (2 * pi)) r2; cosPhi = mCos lm phi; sinPhi = mSin lm phi;
          n = vec3_Normalize normal;
          axis = (if flt (round64 (9 / 10)) (fabs (vX n)) then mk_vec3 (Zero False) (round64 1) (Zero False)
                  else mk_vec3 (round64 1) (Zero False) (Zero False));
          tangent = vec3_Normalize (vec3_Cross axis n); bitangent = vec3_Cross n tangent in
      (vec3_Add (vec3_Add (vec3_Scale tangent (fmul sinTheta cosPhi)) (vec3_Scale bitangent (fmul sinTheta sinPhi)))
         (vec3_Scale n cosTheta), Suc (Suc k)))"

definition DiffuseReflect :: "libm \<Rightarrow> rng \<Rightarrow> vec3 \<Rightarrow> nat \<Rightarrow> vec3 \<times> nat" where
  "DiffuseReflect lm draw normal k = LambertDirection lm draw normal k"

definition SelectReflection :: "libm \<Rightarrow> rng \<Rightarrow> f64 \<Rightarrow> vec3 \<Rightarrow> vec3 \<Rightarrow> nat \<Rightarrow> vec3 \<times> nat" where
  "SelectReflection lm draw scatterCoeff dir normal k =
     (if fle scatterCoeff (Zero False) then (SpecularReflect dir normal, k)
      else if fle (round64 1) scatterCoeff then DiffuseReflect lm draw normal k
      else if flt (draw k) scatterCoeff then DiffuseReflect lm draw normal (Suc k)
      else (SpecularReflect dir normal, Suc k))"

definition AbsorbedFraction :: "f64 list \<Rightarrow> f64 list" where
  "AbsorbedFraction absorptionByBand = map (\<lambda>absorption. clamp01 (fsub (round64 1) absorption)) absorptionByBand"

definition averageCoeff :: "f64 list \<Rightarrow> f64" where
  "averageCoeff values =
     (if values = [] then Zero False
      else fdiv (foldl fadd (Zero False) values) (f64_of_int (int (length values))))"

subsection \<open>Air absorption (air_absorption.go)\<close>

text \<open>\<open>AlphaAirISO9613_1\<close>; the air pressure is 101.325, which is also the reference pressure and positive.\<close>

definition AlphaAirISO9613_1 :: "libm \<Rightarrow> f64 \<Rightarrow> f64 \<Rightarrow> f64 \<Rightarrow> f64" where
  "AlphaAirISO9613_1 lm frequencyHz temperatureC humidity =
     (if fle frequencyHz (Zero False) then Zero False
      else
        (let temperatureK = fadd temperatureC (round64 (27315 / 100)) in
         if fle temperatureK (Zero False) then Zero False
         else
           (let relativeHumidity = clamp01 humidity; pressure = round64 (101325 / 1000);
                satPressure = fmul pressure (mPow lm (round64 10)
                  (fadd (fmul (round64 (- 68346 / 10000)) (mPow lm (fdiv (round64 (27316 / 100)) temperatureK) (round64 (1261 / 1000))))
                    (round64 (46151 / 10000))));
                h = fdiv (fmul relativeHumidity satPressure) pressure;
                ratio = fdiv pressure pressure;
                frO = fmul ratio (fadd (round64 24)
                  (fdiv (fmul (fmul (round64 40400) h) (fadd (round64 (2 / 100)) h)) (fadd (round64 (391 / 1000)) h)));
                warm = fdiv temperatureK (round64 (29315 / 100));
                frN = fmul (fmul ratio (mPow lm warm (round64 (- 1 / 2))))
                  (fadd (round64 9) (fmul (fmul (round64 280) h)
                    (mExp lm (fmul (round64 (- 4170 / 1000)) (fsub (mPow lm warm (round64 (- 1 / 3))) (round64 1))))));
                classical = fmul (fmul (round64 (184 / 10 ^ 13)) ratio) (fsqrt warm);
                oxygen = fmul (fmul (round64 (1275 / 10 ^ 5)) (mExp lm (fdiv (round64 (- 22391 / 10)) temperatureK)))
                  (fdiv frO (fadd frO (fdiv (fmul frequencyHz frequencyHz) frO)));
                nitrogen = fmul (fmul (round64 (1068 / 10 ^ 4)) (mExp lm (fdiv (round64 (- 3352)) temperatureK)))
                  (fdiv frN (fadd frN (fdiv (fmul frequencyHz frequencyHz) frN))) in
            fmul (fmul (fmul (round64 (8686 / 1000)) frequencyHz) frequencyHz)
              (fadd classical (fmul (mPow lm warm (round64 (- 5 / 2))) (fadd oxygen nitrogen))))))"

definition air_factor :: "libm \<Rightarrow> f64 list \<Rightarrow> f64 \<Rightarrow> nat \<Rightarrow> f64" where
  "air_factor lm bandFreqs distance i =
     (let freqHz = (if i < length bandFreqs then bandFreqs ! i else f64_of_int (int i));
          alpha = AlphaAirISO9613_1 lm freqHz (round64 20) (round64 (1 / 2)) in
      mPow lm (round64 10) (fdiv (fmul (fneg alpha) distance) (round64 10)))"

definition attenuateEnergyByAir :: "libm \<Rightarrow> f64 list \<Rightarrow> f64 list \<Rightarrow> f64 \<Rightarrow> f64 list" where
  "attenuateEnergyByAir lm energy bandFreqs distance =
     (if energy = [] \<or> fle distance (Zero False) then energy
      else map (\<lambda>i. fmul (energy ! i) (air_factor lm bandFreqs distance i)) [0..<length energy])"

subsection \<open>Receivers (receiver.go)\<close>

record SphereReceiver =
  srCenter :: vec3
  srRadius :: f64

definition sphere_Intersects :: "SphereReceiver \<Rightarrow> ray \<Rightarrow> f64 \<Rightarrow> f64 \<Rightarrow> f64 option" where
  "sphere_Intersects s r tMin tMax =
     (if fle (srRadius s) (Zero False) then None
      else
        (let oc = vec3_Sub (rayOrigin r) (srCenter s);
             a = vec3_Dot (rayDirection r) (rayDirection r);
             b = fmul (round64 2) (vec3_Dot oc (rayDirection r));
             c = fsub (vec3_Dot oc oc) (fmul (srRadius s) (srRadius s));
             discriminant = fsub (fmul b b) (fmul (fmul (round64 4) a) c) in
         if flt discriminant (Zero False) then None
         else
           (let root = fsqrt discriminant;
                t0 = fdiv (fsub (fneg b) root) (fmul (round64 2) a);
                t1 = fdiv (fadd (fneg b) root) (fmul (round64 2) a) in
            if fle tMin t0 \<and> fle t0 tMax then Some t0
            else if fle tMin t1 \<and> fle t1 tMax then Some t1 else None)))"

definition AngularWeight :: "vec3 \<Rightarrow> f64" where
  "AngularWeight dir = (if feq (vec3_Norm dir) (Zero False) then Zero False else round64 1)"

subsection \<open>Launching (launch.go)\<close>

text \<open>\<open>make([]geometry.Vec3, n)\<close> holds 24 bytes per direction.\<close>

definition fibonacci_direction :: "libm \<Rightarrow> int \<Rightarrow> int \<Rightarrow> vec3" where
  "fibonacci_direction lm n i =
     (let phi = fdiv (fadd (round64 1) (fsqrt (round64 5))) (round64 2); denom = fmul phi phi;
          z = fsub (round64 1) (fdiv (fadd (fmul (round64 2) (f64_of_int i)) (round64 1)) (f64_of_int n));
          theta = fdiv (fmul (round64 (2 * pi)) (f64_of_int i)) denom;
          radius = fsqrt (fmax (Zero False) (fsub (round64 1) (fmul z z))) in
      mk_vec3 (fmul radius (mCos lm theta)) (fmul radius (mSin lm theta)) z)"

definition FibonacciSphere :: "libm \<Rightarrow> int \<Rightarrow> vec3 list option" where
  "FibonacciSphere lm n =
     (if n \<le> 0 then Some []
      else map_option (\<lambda>out. map (\<lambda>i. fibonacci_direction lm n (int i)) [0..<length out]) (make_slice 24 Vec3Zero n))"

definition pseudoRandom2 :: "libm \<Rightarrow> int \<Rightarrow> int \<Rightarrow> f64" where
  "pseudoRandom2 lm a b =
     (let x = fmul (mSin lm (fadd (fmul (f64_of_int a) (round64 (129898 / 10000))) (fmul (f64_of_int b) (round64 (78233 / 1000)))))
        (round64 (437585453 / 10000)) in
      fsub x (ffloor x))"

definition stratified_direction :: "libm \<Rightarrow> int \<Rightarrow> int \<Rightarrow> int \<Rightarrow> int \<Rightarrow> vec3" where
  "stratified_direction lm rows cols row col =
     (let jitterU = pseudoRandom2 lm row col; jitterV = pseudoRandom2 lm col row; half = round64 (1 / 2);
          place = (\<lambda>i jitter n. fdiv (fadd (fadd (f64_of_int i) half) (fmul (round64 (35 / 100)) (fsub jitter half))) (f64_of_int n));
          u = place col jitterU cols; v0 = place row jitterV rows;
          v = fmin (fmax v0 (Zero False)) (round64 1);
          z = fsub (round64 1) (fmul (round64 2) v);
          radius = fsqrt (fmax (Zero False) (fsub (round64 1) (fmul z z)));
          phi = fmul (round64 (2 * pi)) u in
      mk_vec3 (fmul radius (mCos lm phi)) (fmul radius (mSin lm phi)) z)"

text \<open>\<open>StratifiedDirections\<close>: the cells row by row, up to \<open>n\<close> of them.\<close>

definition StratifiedDirections :: "libm \<Rightarrow> int \<Rightarrow> vec3 list" where
  "StratifiedDirections lm n =
     (if n \<le> 0 then []
      else
        (let rows = f64_to_int (fceil (fsqrt (f64_of_int n)));
             cols = f64_to_int (fceil (fdiv (f64_of_int n) (f64_of_int rows))) in
         take (nat n) (concat (map (\<lambda>row. map (stratified_direction lm rows cols row) [0..cols - 1]) [0..rows - 1]))))"

definition LaunchRays :: "libm \<Rightarrow> vec3 \<Rightarrow> LaunchConfig \<Rightarrow> ray list option" where
  "LaunchRays lm src cfg =
     (if NumRays cfg \<le> 0 then Some []
      else
        (case FibonacciSphere lm (NumRays cfg) of
           None \<Rightarrow> None
         | Some directions \<Rightarrow>
             map_option (\<lambda>_. map (NewRay src) directions)
               (make_slice 48 () (int (length directions)))))"

end
