(* ===== verification/Ray_Walls.thy ===== *)
theory Ray_Walls
  imports Ray_Particles Diffraction_Edges
begin

text \<open>
  What the ray tracer meets: the walls of a shoebox (tracer.go) or the triangles of a mesh
  (mesh_tracer.go), their materials and the launch energies (raytrace.go), the edges that spawn
  diffracted particles (diffraction_spawn.go) and diffuse rain (diffuse_rain.go).
\<close>

subsection \<open>Tracers (tracer.go, mesh_tracer.go)\<close>

definition wallEpsilon :: f64 where
  "wallEpsilon = round64 (1 / 10 ^ 6)"

record ShoeboxTracer =
  stBounds :: box
  Walls :: "plane list"

datatype trace_error =
    TracerNil | TraceSceneNil | TraceSources int | TraceReceivers int | NumRaysNotPositive
  | MaxBouncesNegative | MaxTimeNotPositive | SpeedNotPositive
  | ShoeboxNil | MeshNil | MeshInvalid MeshValidationIssues | MeshTracerEmpty | UnsupportedRoom
  | EmissionTime nat | EmissionPosition nat | EmissionBands nat int int | EmissionEnergy nat nat
  | SurfaceInvalid nat

definition wall_at :: "vec3 \<Rightarrow> vec3 \<Rightarrow> plane" where
  "wall_at point normal = NewPlaneFromPointNormal point normal"

definition NewShoeboxTracer :: "shoebox option \<Rightarrow> trace_error + ShoeboxTracer" where
  "NewShoeboxTracer room = (case room of
     None \<Rightarrow> Inl ShoeboxNil
   | Some s \<Rightarrow>
       (let b = shoebox_Bounds s; z = Zero False; one = round64 1; minus = round64 (- 1) in
        Inr \<lparr>stBounds = b, Walls =
          [wall_at (mk_vec3 (vX (Min b)) z z) (mk_vec3 minus z z), wall_at (mk_vec3 (vX (Max b)) z z) (mk_vec3 one z z),
           wall_at (mk_vec3 z (vY (Min b)) z) (mk_vec3 z minus z), wall_at (mk_vec3 z (vY (Max b)) z) (mk_vec3 z one z),
           wall_at (mk_vec3 z z (vZ (Min b))) (mk_vec3 z z minus), wall_at (mk_vec3 z z (vZ (Max b))) (mk_vec3 z z one)]\<rparr>))"

definition within_slab :: "f64 \<Rightarrow> f64 \<Rightarrow> f64 \<Rightarrow> bool" where
  "within_slab v lo hi \<longleftrightarrow> fle (fsub lo wallEpsilon) v \<and> fle v (fadd hi wallEpsilon)"

definition pointOnWall :: "ShoeboxTracer \<Rightarrow> vec3 \<Rightarrow> nat \<Rightarrow> bool" where
  "pointOnWall t p wallIdx =
     (let b = stBounds t;
          x = within_slab (vX p) (vX (Min b)) (vX (Max b));
          y = within_slab (vY p) (vY (Min b)) (vY (Max b));
          z = within_slab (vZ p) (vZ (Min b)) (vZ (Max b)) in
      if wallIdx \<in> {0, 1} then y \<and> z
      else if wallIdx \<in> {2, 3} then x \<and> z
      else if wallIdx \<in> {4, 5} then x \<and> y
      else False)"

definition closer_wall :: "ShoeboxTracer \<Rightarrow> ray \<Rightarrow> f64 \<times> nat option \<Rightarrow> nat \<Rightarrow> f64 \<times> nat option" where
  "closer_wall t r best idx =
     (let wall = Walls t ! idx; denom = vec3_Dot (pNormal wall) (rayDirection r) in
      if flt (fabs denom) (round64 (1 / 10 ^ 12)) then best
      else
        (let tHit = fdiv (fsub (pDistance wall) (vec3_Dot (pNormal wall) (rayOrigin r))) denom in
         if fle tHit wallEpsilon \<or> fle (fst best) tHit then best
         else if \<not> pointOnWall t (ray_At r tHit) idx then best
         else (tHit, Some idx)))"

text \<open>A hit is its point, the surface normal and the index of the wall.\<close>

definition shoebox_NextHit :: "ShoeboxTracer \<Rightarrow> ray \<Rightarrow> (vec3 \<times> vec3 \<times> int) option" where
  "shoebox_NextHit t r =
     (let (bestT, bestIdx) = foldl (closer_wall t r) (Inf False, None) [0..<6] in
      map_option (\<lambda>i. (ray_At r bestT, pNormal (Walls t ! i), int i)) bestIdx)"

record MeshTracer =
  mtMesh :: mesh
  mtBVH :: bvh

definition NewMeshTracer :: "mesh option \<Rightarrow> trace_error + MeshTracer" where
  "NewMeshTracer mo = (case mo of
     None \<Rightarrow> Inl MeshNil
   | Some m \<Rightarrow>
       (case mesh_Validate (Some m) of
          Some issues \<Rightarrow>
            if HasProblems issues then Inl (MeshInvalid issues)
            else if BuildBVH (Some m) = NilNode then Inl MeshTracerEmpty
            else Inr \<lparr>mtMesh = m, mtBVH = BuildBVH (Some m)\<rparr>
        | None \<Rightarrow>
            if BuildBVH (Some m) = NilNode then Inl MeshTracerEmpty
            else Inr \<lparr>mtMesh = m, mtBVH = BuildBVH (Some m)\<rparr>))"

definition mesh_NextHit :: "MeshTracer \<Rightarrow> ray \<Rightarrow> (vec3 \<times> vec3 \<times> int) option" where
  "mesh_NextHit t r =
     (let (tHit, triIdx, hit) = bvh_Intersect (mtBVH t) r in
      if \<not> hit \<or> length (Triangles (mtMesh t)) \<le> triIdx then None
      else
        (let normal = triangle_Normal (Triangles (mtMesh t) ! triIdx) in
         if vec3_eq normal Vec3Zero then None else Some (ray_At r tHit, normal, int triIdx)))"

datatype Tracer = TracesShoebox ShoeboxTracer | TracesMesh MeshTracer

fun NextHit :: "Tracer \<Rightarrow> ray \<Rightarrow> (vec3 \<times> vec3 \<times> int) option" where
  "NextHit (TracesShoebox t) r = shoebox_NextHit t r"
| "NextHit (TracesMesh t) r = mesh_NextHit t r"

subsection \<open>Materials and launch energies (raytrace.go)\<close>

definition sceneMaterialForWall :: "('dir, 'h) scene \<Rightarrow> int \<Rightarrow> material" where
  "sceneMaterialForWall sc wallIdx =
     (if wallIdx < 0 then MaterialFullyReflective
      else
        (case Shoebox (Room sc) of
           Some room \<Rightarrow>
             (case slice_at (WallMaterials room) wallIdx of
                None \<Rightarrow> MaterialFullyReflective
              | Some name \<Rightarrow> (case Materials sc name of None \<Rightarrow> MaterialFullyReflective | Some m \<Rightarrow> m))
         | None \<Rightarrow>
             if Kind (Room sc) = RoomKindMesh then MaterialForTriangle (Room sc) wallIdx (Materials sc)
             else MaterialFullyReflective))"

definition sceneTracer :: "('dir, 'h) scene \<Rightarrow> trace_error + Tracer" where
  "sceneTracer sc =
     (if Kind (Room sc) = RoomKindShoebox then res_bind (NewShoeboxTracer (Shoebox (Room sc))) (\<lambda>t. Inr (TracesShoebox t))
      else if Kind (Room sc) = RoomKindMesh then res_bind (NewMeshTracer (Mesh (Room sc))) (\<lambda>t. Inr (TracesMesh t))
      else Inl UnsupportedRoom)"

text \<open>\<open>gain\<close> is \<open>GainLinear\<close> of a directivity.\<close>

definition initialRayEnergy ::
  "('dir \<Rightarrow> f64 \<Rightarrow> vec3 \<Rightarrow> f64) \<Rightarrow> 'dir source \<Rightarrow> vec3 \<Rightarrow> f64 \<Rightarrow> int \<Rightarrow> f64 list \<Rightarrow> f64 list option" where
  "initialRayEnergy gain src dir launchEnergy bandCount centerFreqs =
     map_option (\<lambda>energy. map (\<lambda>i.
        let freqHz = (if i < length centerFreqs then centerFreqs ! i else f64_of_int (int i));
            g = (case Directivity src of None \<Rightarrow> round64 1 | Some d \<Rightarrow> gain d freqHz dir) in
        fmul (fmul launchEnergy g) g) [0..<length energy]) (make_floats bandCount)"

definition oneBandEnergy :: "int \<Rightarrow> int \<Rightarrow> f64 \<Rightarrow> f64 list option" where
  "oneBandEnergy bandCount bandIndex energy =
     map_option (\<lambda>values. if 0 \<le> bandIndex \<and> bandIndex < int (length values) then values[nat bandIndex := energy] else values)
       (make_floats bandCount)"

definition calibratedRayLaunchEnergy :: "libm \<Rightarrow> f64 \<Rightarrow> vec3 \<Rightarrow> vec3 \<Rightarrow> f64 \<Rightarrow> int \<Rightarrow> f64" where
  "calibratedRayLaunchEnergy lm sourceGainDB sourcePosition receiverPosition receiverRadius rayCount =
     (if rayCount \<le> 0 \<or> fle receiverRadius (Zero False) then Zero False
      else
        (let sourceIntensity = mPow lm (round64 10) (fdiv sourceGainDB (round64 10));
             distance = vec3_Distance sourcePosition receiverPosition in
         if fle distance receiverRadius then fdiv sourceIntensity (f64_of_int rayCount)
         else
           (let q = fdiv receiverRadius distance;
                r1 = (if flt q (Zero False) then Zero False else q);
                ratio = (if flt (round64 1) r1 then round64 1 else r1);
                cosGamma = fsqrt (fsub (round64 1) (fmul ratio ratio));
                denominator = fmul (fmul (fmul (fmul (round64 (2 * pi)) distance) distance) (f64_of_int rayCount))
                  (fsub (round64 1) cosGamma) in
            if fle denominator (Zero False) then fdiv sourceIntensity (f64_of_int rayCount)
            else fdiv sourceIntensity denominator)))"

subsection \<open>Diffracted particles (diffraction_spawn.go)\<close>

definition diffractionSpawnEpsilon :: f64 where
  "diffractionSpawnEpsilon = round64 (1 / 10 ^ 6)"

definition diffractionCullingDB :: f64 where
  "diffractionCullingDB = round64 (- 60)"

definition clampDot :: "f64 \<Rightarrow> f64" where
  "clampDot v = (if flt v (round64 (- 1)) then round64 (- 1) else if flt (round64 1) v then round64 1 else v)"

definition orthogonalBasis :: "vec3 \<Rightarrow> vec3" where
  "orthogonalBasis axis =
     (let basis = (if flt (round64 (9 / 10)) (fabs (vX axis)) then mk_vec3 (Zero False) (round64 1) (Zero False)
                   else mk_vec3 (round64 1) (Zero False) (Zero False));
          ortho = vec3_Cross axis basis in
      vec3_Normalize (if fle (vec3_Norm ortho) diffractionSpawnEpsilon
        then vec3_Cross axis (mk_vec3 (Zero False) (Zero False) (round64 1)) else ortho))"

definition clampClosestApproachS :: "f64 \<Rightarrow> f64 \<Rightarrow> f64 \<Rightarrow> f64 \<times> f64" where
  "clampClosestApproachS value a sD =
     (if flt value (Zero False) then (Zero False, sD) else if flt a value then (sD, sD) else (value, a))"

text \<open>The closest point on the edge, the distance along the ray, the one along the edge and the gap.\<close>

definition closestApproach :: "vec3 \<Rightarrow> vec3 \<Rightarrow> vec3 \<Rightarrow> vec3 \<Rightarrow> (vec3 \<times> f64 \<times> f64 \<times> f64) option" where
  "closestApproach rayStart rayEnd edgeStart edgeEnd =
     (let u = vec3_Sub rayEnd rayStart; v = vec3_Sub edgeEnd edgeStart; w = vec3_Sub rayStart edgeStart;
          a = vec3_Dot u u; b = vec3_Dot u v; c = vec3_Dot v v; d = vec3_Dot u w; e = vec3_Dot v w;
          denom = fsub (fmul a c) (fmul b b);
          (sN, sD, tN, tD) =
            (if flt denom diffractionSpawnEpsilon then (Zero False, round64 1, e, c)
             else
               (let sN = fsub (fmul b e) (fmul c d); tN = fsub (fmul a e) (fmul b d) in
                if flt sN (Zero False) then (Zero False, denom, e, c)
                else if flt denom sN then (denom, denom, fadd e b, c)
                else (sN, denom, tN, denom)));
          (tN', sN', sD') =
            (if flt tN (Zero False) then (Zero False, clampClosestApproachS (fneg d) a sD)
             else if flt tD tN then (tD, clampClosestApproachS (fadd (fneg d) b) a sD)
             else (tN, sN, sD));
          sc = (if flt diffractionSpawnEpsilon (fabs sD') then fdiv sN' sD' else Zero False);
          tc = (if flt diffractionSpawnEpsilon (fabs tD) then fdiv tN' tD else Zero False) in
      if flt sc (Zero False) \<or> flt (round64 1) sc \<or> flt tc (Zero False) \<or> flt (round64 1) tc then None
      else
        (let pointOnRay = vec3_Add rayStart (vec3_Scale u sc); pointOnEdge = vec3_Add edgeStart (vec3_Scale v tc) in
         Some (pointOnEdge, vec3_Norm (vec3_Sub pointOnRay rayStart), fmul tc (vec3_Norm v),
           vec3_Distance pointOnRay pointOnEdge)))"

text \<open>The azimuth draws one number; a degenerate axis or direction returns before the draw.\<close>

definition sampleKellerConeDirection ::
  "libm \<Rightarrow> rng \<Rightarrow> vec3 \<Rightarrow> vec3 \<Rightarrow> int \<Rightarrow> int \<Rightarrow> nat \<Rightarrow> vec3 \<times> nat" where
  "sampleKellerConeDirection lm draw incidentDir edgeDir sampleIndex sampleCount n =
     (let axis = vec3_Normalize edgeDir; incoming = vec3_Normalize incidentDir in
      if vec3_eq axis Vec3Zero \<or> vec3_eq incoming Vec3Zero then (Vec3Zero, n)
      else
        (let cosTheta = clampDot (vec3_Dot incoming axis); coneAngle = mAcos lm cosTheta;
             radial0 = vec3_Sub incoming (vec3_Scale axis cosTheta);
             radial = (if fle (vec3_Norm radial0) diffractionSpawnEpsilon then orthogonalBasis axis else radial0);
             u = vec3_Normalize radial;
             v0 = vec3_Normalize (vec3_Cross axis u);
             v = (if vec3_eq v0 Vec3Zero then vec3_Normalize (vec3_Cross (orthogonalBasis axis) axis) else v0);
             a0 = fmul (round64 (2 * pi)) (fadd (f64_of_int sampleIndex) (round64 (1 / 2)));
             a1 = (if 0 < sampleCount then fdiv a0 (f64_of_int sampleCount) else a0);
             azimuth = fadd a1 (fmul (fsub (draw n) (round64 (1 / 2))) (fdiv (round64 (2 * pi)) (f64_of_int sampleCount)));
             sinTheta = mSin lm coneAngle;
             dir = vec3_Add (vec3_Add (vec3_Scale axis cosTheta) (vec3_Scale u (fmul sinTheta (mCos lm azimuth))))
               (vec3_Scale v (fmul sinTheta (mSin lm azimuth))) in
         (if vec3_eq dir Vec3Zero then Vec3Zero else vec3_Normalize dir, Suc n)))"

definition spawn_settings :: "LaunchConfig \<Rightarrow> f64 \<times> int" where
  "spawn_settings cfg =
     (if fle (DiffractionAngularThreshold cfg) (Zero False) then round64 (3 / 10) else DiffractionAngularThreshold cfg,
      if DiffractionConeSamples cfg \<le> 0 then 8 else DiffractionConeSamples cfg)"

text \<open>One sample of one edge.\<close>

definition spawn_sample ::
  "libm \<Rightarrow> rng \<Rightarrow> f64 \<Rightarrow> RayState \<Rightarrow> ray \<Rightarrow> DiffractionEdge \<Rightarrow> vec3 \<Rightarrow> f64 \<Rightarrow> f64 list \<Rightarrow> f64 \<Rightarrow> int \<Rightarrow>
   RayState list \<times> nat \<Rightarrow> int \<Rightarrow> RayState list \<times> nat" where
  "spawn_sample lm draw launchEnergy state r edge closestPoint rayT edgeEnergy branchScale samples acc sampleIndex =
     (let (branches, n) = acc;
          (dir, n') = sampleKellerConeDirection lm draw (rayDirection r) (deDirection edge) sampleIndex samples n in
      if vec3_eq dir Vec3Zero then (branches, n')
      else
        (let branchEnergy = map (\<lambda>e. fmul e branchScale) edgeEnergy in
         if fle (maxEnergy branchEnergy) (fmul launchEnergy (mPow lm (round64 10) (fdiv diffractionCullingDB (round64 10))))
         then (branches, n')
         else
           (let offset = vec3_Scale dir diffractionSpawnEpsilon;
                branch = (diffractedChildState state)
                  \<lparr>RainCovered := False, rsRay := NewRay (vec3_Add closestPoint offset) dir, Energy := branchEnergy,
                   PathLength := fadd (fadd (PathLength state) rayT) (vec3_Norm offset),
                   DelaySeconds := DelaySeconds state, Bounces := Bounces state + 1\<rparr> in
            (branches @ [branch], n'))))"

definition spawn_edge ::
  "libm \<Rightarrow> rng \<Rightarrow> LaunchConfig \<Rightarrow> f64 list \<Rightarrow> f64 \<Rightarrow> RayState \<Rightarrow> ray \<Rightarrow> vec3 \<Rightarrow> f64 \<Rightarrow>
   RayState list \<times> nat \<Rightarrow> DiffractionEdge \<Rightarrow> RayState list \<times> nat" where
  "spawn_edge lm draw cfg bandFreqs launchEnergy state r hitPoint segmentLength acc edge =
     (let (threshold, samples) = spawn_settings cfg in
      case closestApproach (rayOrigin r) hitPoint (deStart edge) (deEnd edge) of
        None \<Rightarrow> acc
      | Some (closestPoint, rayT, edgeT, reach) \<Rightarrow>
          if fle rayT (Zero False) \<or> fle segmentLength rayT then acc
          else
            (let angle = mAtan2 lm reach rayT in
             if flt threshold angle then acc
             else
               (let edgeEnergy = attenuateEnergyByAir lm (Energy state) bandFreqs rayT in
                if fle (maxEnergy edgeEnergy) (Zero False) then acc
                else
                  (let p = fsub (round64 1) (fdiv angle threshold);
                       proximity = (if flt p (Zero False) then Zero False else p);
                       branchScale = fdiv (fmul (round64 (35 / 100)) proximity) (f64_of_int samples) in
                   if fle branchScale (Zero False) then acc
                   else foldl (spawn_sample lm draw launchEnergy state r edge closestPoint rayT edgeEnergy branchScale samples)
                     acc [0..samples - 1]))))"

definition spawnDiffractionBranches ::
  "libm \<Rightarrow> rng \<Rightarrow> DiffractionEdgeIndex option \<Rightarrow> LaunchConfig \<Rightarrow> f64 list \<Rightarrow> f64 \<Rightarrow>
   RayState \<Rightarrow> ray \<Rightarrow> vec3 \<Rightarrow> f64 \<Rightarrow> nat \<Rightarrow> RayState list \<times> nat" where
  "spawnDiffractionBranches lm draw edgeIndex cfg bandFreqs launchEnergy state r hitPoint segmentLength n =
     (case edgeIndex of
        None \<Rightarrow> ([], n)
      | Some _ \<Rightarrow>
          if effectiveDiffractionMode cfg \<noteq> DiffractionKellerCone then ([], n)
          else
            (let p = fmul (mTan lm (fst (spawn_settings cfg))) segmentLength;
                 padding = (if flt p diffractionSpawnEpsilon then diffractionSpawnEpsilon else p) in
             foldl (spawn_edge lm draw cfg bandFreqs launchEnergy state r hitPoint segmentLength) ([], n)
               (Candidates edgeIndex (rayOrigin r) hitPoint padding)))"

subsection \<open>Diffuse rain (diffuse_rain.go)\<close>

record DiffuseRainContribution =
  rainEnergy :: "f64 list"
  ArrivalTime :: f64

definition rain_occluded :: "Tracer \<Rightarrow> vec3 \<Rightarrow> vec3 \<Rightarrow> f64 \<Rightarrow> bool" where
  "rain_occluded t reflectionPoint dir limit =
     (let origin = vec3_Add reflectionPoint (vec3_Scale dir wallEpsilon) in
      case NextHit t (NewRay origin dir) of
        None \<Rightarrow> False
      | Some (hitPoint, _, _) \<Rightarrow> flt (vec3_Distance origin hitPoint) (fsub limit wallEpsilon))"

definition rain_band :: "libm \<Rightarrow> f64 list \<Rightarrow> f64 list \<Rightarrow> f64 list \<Rightarrow> f64 \<Rightarrow> f64 \<Rightarrow> f64 \<Rightarrow> nat \<Rightarrow> f64" where
  "rain_band lm energy scattering centerFreqs solidAngleFactor cosTheta reach i =
     (let s = (if i < length scattering then clamp01 (scattering ! i) else round64 1) in
      if fle s (Zero False) \<or> fle (energy ! i) (Zero False) then Zero False
      else fmul (fmul (fmul (fmul (energy ! i) s) solidAngleFactor) cosTheta) (air_factor lm centerFreqs reach i))"

definition computeDiffuseRain ::
  "libm \<Rightarrow> Tracer \<Rightarrow> SphereReceiver \<Rightarrow> f64 list \<Rightarrow> f64 \<Rightarrow> vec3 \<Rightarrow> vec3 \<Rightarrow> f64 list \<Rightarrow> f64 list \<Rightarrow> f64 \<Rightarrow>
   DiffuseRainContribution option" where
  "computeDiffuseRain lm t rec centerFreqs speed reflectionPoint surfaceNormal energy scattering pathLength =
     (if energy = [] \<or> fle (srRadius rec) (Zero False) \<or> fle speed (Zero False) then None
      else
        (let toReceiver = vec3_Sub (srCenter rec) reflectionPoint; reach = vec3_Norm toReceiver in
         if fle reach (Zero False) then None
         else
           (let dir = vec3_Scale toReceiver (fdiv (round64 1) reach); cosTheta = vec3_Dot surfaceNormal dir in
            if fle cosTheta (Zero False) then None
            else if rain_occluded t reflectionPoint dir (fsub reach (srRadius rec)) then None
            else
              (let q = fdiv (srRadius rec) reach; ratio = (if flt (round64 1) q then round64 1 else q);
                   cosHalfGamma = fsqrt (fsub (round64 1) (fmul ratio ratio));
                   solidAngleFactor = fmul (fsub (round64 1) cosHalfGamma) (round64 2) in
               Some \<lparr>rainEnergy = map (rain_band lm energy scattering centerFreqs solidAngleFactor cosTheta reach) [0..<length energy],
                     ArrivalTime = fdiv (fadd pathLength reach) speed\<rparr>))))"

subsection \<open>Planar detectors (diffuse_rain.go)\<close>

record SurfaceReceiver =
  sfCenter :: vec3
  sfNormal :: vec3
  sfArea :: f64
  sfPolygon :: "vec3 list"

definition newell_term :: "vec3 list \<Rightarrow> vec3 \<Rightarrow> nat \<Rightarrow> vec3" where
  "newell_term vertices normal i =
     (let v = vertices ! i; w = vertices ! (Suc i mod length vertices) in
      mk_vec3 (fadd (vX normal) (fmul (fsub (vY v) (vY w)) (fadd (vZ v) (vZ w))))
        (fadd (vY normal) (fmul (fsub (vZ v) (vZ w)) (fadd (vX v) (vX w))))
        (fadd (vZ normal) (fmul (fsub (vX v) (vX w)) (fadd (vY v) (vY w)))))"

datatype surface_error = TooFewVertices | DegeneratePolygon | NotPlanar | InvalidArea

text \<open>The fan of triangles of a polygon around its first vertex.\<close>

definition polygon_fan :: "vec3 list \<Rightarrow> triangle list" where
  "polygon_fan vs = map (\<lambda>i. \<lparr>V0 = vs ! 0, V1 = vs ! i, V2 = vs ! Suc i\<rparr>) [1..<length vs - 1]"

definition NewSurfaceReceiver :: "vec3 list \<Rightarrow> surface_error + SurfaceReceiver" where
  "NewSurfaceReceiver polygon =
     (let vertices = (if 1 < length polygon \<and> vec3_eq (hd polygon) (last polygon) then butlast polygon else polygon) in
      if length vertices < 3 then Inl TooFewVertices
      else
        (let normal = vec3_Normalize (foldl (newell_term vertices) Vec3Zero [0..<length vertices]) in
         if vec3_eq normal Vec3Zero then Inl DegeneratePolygon
         else
           (let plane = NewPlaneFromPointNormal (hd vertices) normal in
            if list_ex (\<lambda>v. flt (round64 (1 / 10 ^ 7)) (fabs (plane_SideOf plane v))) (tl vertices) then Inl NotPlanar
            else
              (let (area, weighted) = foldl (\<lambda>(a, c) tri. let ta = triangle_Area tri in
                     (fadd a ta, vec3_Add c (vec3_Scale (triangle_Centroid tri) ta))) (Zero False, Vec3Zero) (polygon_fan vertices) in
               if fle area (Zero False) \<or> is_nan area \<or> is_inf area then Inl InvalidArea
               else Inr \<lparr>sfCenter = vec3_Scale weighted (fdiv (round64 1) area), sfNormal = normal, sfArea = area,
                          sfPolygon = vertices\<rparr>))))"

definition surface_Intersects :: "SurfaceReceiver \<Rightarrow> ray \<Rightarrow> f64 \<Rightarrow> f64 \<Rightarrow> f64 option" where
  "surface_Intersects s r tMin tMax =
     (if length (sfPolygon s) < 3 \<or> flt tMax tMin then None
      else
        (let nearest = foldl (\<lambda>best tri.
               let (distance, hit) = RayTriangle r tri in
               if hit \<and> fle tMin distance \<and> fle distance tMax \<and> flt distance best then distance else best)
             (Inf False) (polygon_fan (sfPolygon s)) in
         if nearest = Inf False then None else Some nearest))"

definition surface_band :: "libm \<Rightarrow> f64 list \<Rightarrow> f64 list \<Rightarrow> f64 list \<Rightarrow> f64 \<Rightarrow> f64 \<Rightarrow> f64 \<Rightarrow> f64 \<Rightarrow> nat \<Rightarrow> f64" where
  "surface_band lm energy scattering centerFreqs solidAngleFactor cosPsi cosTheta reach i =
     (let s = (if i < length scattering then clamp01 (scattering ! i) else round64 1) in
      if fle s (Zero False) \<or> fle (energy ! i) (Zero False) then Zero False
      else fmul (fmul (fmul (fmul (fmul (energy ! i) s) solidAngleFactor) cosPsi) cosTheta) (air_factor lm centerFreqs reach i))"

definition computeSurfaceRain ::
  "libm \<Rightarrow> Tracer \<Rightarrow> SurfaceReceiver \<Rightarrow> f64 list \<Rightarrow> f64 \<Rightarrow> vec3 \<Rightarrow> vec3 \<Rightarrow> f64 list \<Rightarrow> f64 list \<Rightarrow> f64 \<Rightarrow>
   DiffuseRainContribution option" where
  "computeSurfaceRain lm t detector centerFreqs speed reflectionPoint surfaceNormal energy scattering pathLength =
     (if energy = [] \<or> fle (sfArea detector) (Zero False) \<or> fle speed (Zero False) then None
      else
        (let toDetector = vec3_Sub (sfCenter detector) reflectionPoint; reach = vec3_Norm toDetector in
         if fle reach (Zero False) then None
         else
           (let dir = vec3_Scale toDetector (fdiv (round64 1) reach); cosTheta = vec3_Dot surfaceNormal dir;
                cosPsi = fneg (vec3_Dot (sfNormal detector) dir) in
            if fle cosTheta (Zero False) \<or> fle cosPsi (Zero False) then None
            else if rain_occluded t reflectionPoint dir reach then None
            else
              (let solidAngleFactor = fdiv (sfArea detector) (fmul (fmul (round64 (2 * pi)) reach) reach) in
               Some \<lparr>rainEnergy = map (surface_band lm energy scattering centerFreqs solidAngleFactor cosPsi cosTheta reach)
                       [0..<length energy],
                     ArrivalTime = fdiv (fadd pathLength reach) speed\<rparr>))))"

end
