(* ===== verification/Ray_Loop.thy ===== *)
theory Ray_Loop
  imports Ray_Walls "HOL-Library.Multiset"
begin

text \<open>
  The propagation loop that \<open>Trace\<close>, \<open>TraceSurfaces\<close> and \<open>TraceSecondary\<close> share line by line
  (raytrace.go, surface_trace.go, secondary.go). What differs between them, the detection of a
  segment, the deposits of DAPDF rain and of diffuse rain, the reference energy of spawned particles and the path
  limit, are the fields of \<open>hooks\<close>; the results they write are the type variable. A run-time panic of a
  hook is \<open>None\<close>. The stack of particles is a list with its top first.
\<close>

record ray_env =
  lib :: libm
  drawn_number :: rng

record 'a hooks =
  hkSkip :: "RayState \<Rightarrow> bool"
  hkMaxPath :: "RayState \<Rightarrow> f64"
  hkDetect :: "RayState \<Rightarrow> ray \<Rightarrow> f64 \<Rightarrow> f64 \<Rightarrow> 'a \<Rightarrow> 'a option"
  hkEdges :: "DiffractionEdgeIndex option"
  hkSpawnEnergy :: "RayState \<Rightarrow> f64"
  hkDeposit :: "RayState \<Rightarrow> ray \<Rightarrow> f64 \<Rightarrow> 'a \<Rightarrow> ('a \<times> bool) option"
  hkRain :: "RayState \<Rightarrow> vec3 \<Rightarrow> vec3 \<Rightarrow> f64 list \<Rightarrow> f64 list \<Rightarrow> f64 \<Rightarrow> 'a \<Rightarrow> 'a option"

text \<open>The local variables of the loop over bounces, and the particles it has appended to the stack.\<close>

record 'a particle =
  pState :: RayState
  pRay :: ray
  pPath :: f64
  pCovered :: bool
  pPushed :: "RayState list"
  pDrawn :: nat
  pResult :: 'a

definition diffract_step ::
  "ray_env \<Rightarrow> 'a hooks \<Rightarrow> LaunchConfig \<Rightarrow> f64 list \<Rightarrow> 'a particle \<Rightarrow> vec3 \<Rightarrow> f64 \<Rightarrow> 'a particle option" where
  "diffract_step env hk cfg freqs p hitPoint segmentLength =
     (case effectiveDiffractionMode cfg of
        DiffractionDisabled \<Rightarrow> Some p
      | DiffractionKellerCone \<Rightarrow>
          (let (branches, n) = spawnDiffractionBranches (lib env) (drawn_number env) (hkEdges hk) cfg freqs
                 (hkSpawnEnergy hk (pState p)) (pState p) (pRay p) hitPoint segmentLength (pDrawn p) in
           Some (p\<lparr>pPushed := pPushed p @ branches, pDrawn := n\<rparr>))
      | DiffractionDAPDFRain \<Rightarrow>
          map_option (\<lambda>(res, any).
              p\<lparr>pResult := res, pState := (if any then advanceStateAfterDiffraction (pState p) else pState p)\<rparr>)
            (hkDeposit hk (pState p) (pRay p) segmentLength (pResult p)))"

definition child_ray :: "vec3 \<Rightarrow> vec3 \<Rightarrow> ray" where
  "child_ray hitPoint dir = NewRay (vec3_Add hitPoint (vec3_Scale dir wallEpsilon)) dir"

definition zero_ray :: ray where
  "zero_ray = \<lparr>rayOrigin = Vec3Zero, rayDirection = Vec3Zero\<rparr>"

text \<open>A branch of the Russian roulette, when it survives.\<close>

definition roulette_child ::
  "LaunchConfig \<Rightarrow> int \<Rightarrow> f64 \<Rightarrow> RayState \<Rightarrow> vec3 \<Rightarrow> vec3 \<Rightarrow> bool \<Rightarrow> f64 list option \<Rightarrow> RayState list" where
  "roulette_child cfg bounce path state hitPoint dir diffuse energy = (case energy of
     None \<Rightarrow> []
   | Some e \<Rightarrow> [(reflectedChildState state diffuse)
       \<lparr>RainCovered := diffuse \<and> DiffuseRain cfg, rsRay := child_ray hitPoint dir, Energy := e, PathLength := path,
        Bounces := bounce + 1\<rparr>])"

definition reflect_step ::
  "ray_env \<Rightarrow> LaunchConfig \<Rightarrow> int \<Rightarrow> vec3 \<Rightarrow> vec3 \<Rightarrow> f64 list \<Rightarrow> f64 list \<times> f64 list \<times> f64 list \<Rightarrow>
   'a particle \<Rightarrow> 'a particle" where
  "reflect_step env cfg bounce hitPoint incidentNormal scattering parts p =
     (let (specEnergy, diffuseEnergy, remainingEnergy) = parts;
          scatterCoeff = averageCoeff scattering;
          specularDir = SpecularReflect (rayDirection (pRay p)) incidentNormal;
          (diffuseDir, n) = LambertDirection (lib env) (drawn_number env) incidentNormal (pDrawn p) in
      case lcReflectionStrategy cfg of
        ReflectionStrategyDeterministicBlend \<Rightarrow>
          p\<lparr>pRay := child_ray hitPoint (chooseBlendDirection specularDir diffuseDir scatterCoeff),
            pState := advanceStateAfterReflection ((pState p)\<lparr>Energy := remainingEnergy\<rparr>) (flt (Zero False) scatterCoeff),
            pCovered := DiffuseRain cfg, pDrawn := n\<rparr>
      | ReflectionStrategyRussianRoulette \<Rightarrow>
          (let (specBranch, n1) = russianRouletteEnergy (drawn_number env) specEnergy (EnergyTerminationThreshold cfg) n;
               (diffBranch, n2) = russianRouletteEnergy (drawn_number env) diffuseEnergy (EnergyTerminationThreshold cfg) n1 in
           p\<lparr>pPushed := pPushed p @ roulette_child cfg bounce (pPath p) (pState p) hitPoint specularDir False specBranch @
               roulette_child cfg bounce (pPath p) (pState p) hitPoint diffuseDir True diffBranch,
             pRay := zero_ray, pState := (pState p)\<lparr>Energy := []\<rparr>, pDrawn := n2\<rparr>)
      | ReflectionStrategyProbabilistic \<Rightarrow>
          (let (nextDir, diffuse, n1) = sampleProbabilisticReflection (drawn_number env) specularDir diffuseDir scatterCoeff n in
           p\<lparr>pRay := child_ray hitPoint nextDir,
             pState := advanceStateAfterReflection ((pState p)\<lparr>Energy := remainingEnergy\<rparr>) diffuse,
             pCovered := diffuse \<and> DiffuseRain cfg, pDrawn := n1\<rparr>))"

text \<open>The part of a bounce behind the hit: air absorption, the wall's material, rain and reflection. The
  second component says whether the loop goes on.\<close>

definition wall_step ::
  "ray_env \<Rightarrow> 'a hooks \<Rightarrow> LaunchConfig \<Rightarrow> ('dir, 'h) scene \<Rightarrow> int \<Rightarrow> int \<Rightarrow> vec3 \<Rightarrow> vec3 \<Rightarrow> int \<Rightarrow> f64 \<Rightarrow>
   'a particle \<Rightarrow> ('a particle \<times> bool) option" where
  "wall_step env hk cfg sc bandCount bounce hitPoint hitNormal wallIdx segmentLength p =
     (let energy = attenuateEnergyByAir (lib env) (Energy (pState p)) (CenterFreqs (BandSpec sc)) segmentLength;
          state = (pState p)\<lparr>Energy := energy\<rparr>;
          material = sceneMaterialForWall sc wallIdx;
          incidentNormal = faceIncidentSide (rayDirection (pRay p)) hitNormal in
      case make_floats bandCount of
        None \<Rightarrow> None
      | Some zeros \<Rightarrow>
          (let absorption = map (\<lambda>i. AbsorptionAt material (int i)) [0..<length zeros];
               scattering = ScatteringCoefficients material bandCount;
               parts = splitReflectionEnergy energy absorption scattering in
           case (if DiffuseRain cfg
                 then hkRain hk state hitPoint incidentNormal (snd (snd parts)) scattering (pPath p) (pResult p)
                 else Some (pResult p)) of
             None \<Rightarrow> None
           | Some res \<Rightarrow>
               (let p2 = reflect_step env cfg bounce hitPoint incidentNormal scattering parts (p\<lparr>pState := state, pResult := res\<rparr>);
                    e = Energy (pState p2) in
                Some (p2, \<not> (e \<noteq> [] \<and> fle (maxEnergy e) (EnergyTerminationThreshold cfg))))))"

definition bounce_step ::
  "ray_env \<Rightarrow> 'a hooks \<Rightarrow> LaunchConfig \<Rightarrow> ('dir, 'h) scene \<Rightarrow> Tracer \<Rightarrow> int \<Rightarrow> f64 \<Rightarrow> int \<Rightarrow>
   'a particle \<Rightarrow> ('a particle \<times> bool) option" where
  "bounce_step env hk cfg sc t bandCount maxPath bounce p =
     (if fle maxPath (pPath p) then Some (p, False)
      else
        (case NextHit t (pRay p) of
           None \<Rightarrow> Some (p, False)
         | Some (hitPoint, hitNormal, wallIdx) \<Rightarrow>
             (let segmentLength = vec3_Distance (rayOrigin (pRay p)) hitPoint in
              if fle segmentLength (Zero False) then Some (p, False)
              else
                (case (if pCovered p then Some (pResult p)
                       else hkDetect hk (pState p) (pRay p) (pPath p) segmentLength (pResult p)) of
                   None \<Rightarrow> None
                 | Some res \<Rightarrow>
                     (case diffract_step env hk cfg (CenterFreqs (BandSpec sc)) (p\<lparr>pResult := res\<rparr>) hitPoint segmentLength of
                        None \<Rightarrow> None
                      | Some p1 \<Rightarrow>
                          (let p2 = p1\<lparr>pPath := fadd (pPath p1) segmentLength\<rparr> in
                           if fle maxPath (pPath p2) then Some (p2, False)
                           else wall_step env hk cfg sc bandCount bounce hitPoint hitNormal wallIdx segmentLength p2))))))"

function bounce_loop ::
  "ray_env \<Rightarrow> 'a hooks \<Rightarrow> LaunchConfig \<Rightarrow> ('dir, 'h) scene \<Rightarrow> Tracer \<Rightarrow> int \<Rightarrow> f64 \<Rightarrow> int \<Rightarrow>
   'a particle \<Rightarrow> 'a particle option" where
  "bounce_loop env hk cfg sc t bandCount maxPath bounce p =
     (if MaxBounces cfg < bounce then Some p
      else
        (case bounce_step env hk cfg sc t bandCount maxPath bounce p of
           None \<Rightarrow> None
         | Some (p', again) \<Rightarrow>
             if again then bounce_loop env hk cfg sc t bandCount maxPath (bounce + 1) p' else Some p'))"
  by pat_completeness auto
termination
  by (relation "measure (\<lambda>(env, hk, cfg, sc, t, bandCount, maxPath, bounce, p). nat (MaxBounces cfg + 1 - bounce))") auto

declare bounce_loop.simps [simp del]

text \<open>The particle that is popped off the stack.\<close>

definition popped :: "RayState \<Rightarrow> nat \<Rightarrow> 'a \<Rightarrow> 'a particle" where
  "popped s n res =
     \<lparr>pState = s, pRay = rsRay s, pPath = PathLength s, pCovered = RainCovered s, pPushed = [], pDrawn = n, pResult = res\<rparr>"

definition trace_one ::
  "ray_env \<Rightarrow> 'a hooks \<Rightarrow> LaunchConfig \<Rightarrow> ('dir, 'h) scene \<Rightarrow> Tracer \<Rightarrow> int \<Rightarrow> RayState \<Rightarrow> nat \<Rightarrow> 'a \<Rightarrow> 'a particle option" where
  "trace_one env hk cfg sc t bandCount s n res =
     (if fle (maxEnergy (Energy s)) (EnergyTerminationThreshold cfg) \<or> hkSkip hk s then Some (popped s n res)
      else bounce_loop env hk cfg sc t bandCount (hkMaxPath hk s) (Bounces s) (popped s n res))"

subsection \<open>The loop ends\<close>

text \<open>A particle that is appended has more bounces behind it than the one that was popped.\<close>

definition pushes_ok :: "LaunchConfig \<Rightarrow> RayState \<Rightarrow> 'a particle \<Rightarrow> bool" where
  "pushes_ok cfg s p \<longleftrightarrow> Bounces (pState p) = Bounces s \<and>
     (\<forall>c \<in> set (pPushed p). Bounces s < Bounces c \<and> Bounces s \<le> MaxBounces cfg)"

lemma advance_fields [simp]:
  "Bounces (advanceStateAfterReflection s d) = Bounces s" "PathLength (advanceStateAfterReflection s d) = PathLength s"
  "Energy (advanceStateAfterReflection s d) = Energy s" "DelaySeconds (advanceStateAfterReflection s d) = DelaySeconds s"
  "Bounces (advanceStateAfterDiffraction s) = Bounces s" "PathLength (advanceStateAfterDiffraction s) = PathLength s"
  "Energy (advanceStateAfterDiffraction s) = Energy s" "DelaySeconds (advanceStateAfterDiffraction s) = DelaySeconds s"
  by (simp_all add: advanceStateAfterReflection_def advanceStateAfterDiffraction_def Let_def)

text \<open>Every spawned particle is a diffracted child of the state, one bounce further, and the path it has
  travelled is counted from the path length of the state.\<close>

definition spawned_from :: "RayState \<Rightarrow> RayState \<Rightarrow> bool" where
  "spawned_from s c \<longleftrightarrow>
     (\<exists>e r a b. c = (diffractedChildState s)
        \<lparr>RainCovered := False, rsRay := r, Energy := e, PathLength := fadd (fadd (PathLength s) a) b,
         DelaySeconds := DelaySeconds s, Bounces := Bounces s + 1\<rparr>)"

lemma spawned_from_fields: "spawned_from s c \<Longrightarrow> Bounces c = Bounces s + 1"
  by (auto simp: spawned_from_def)

lemma foldl_inv: "P a \<Longrightarrow> (\<And>b x. x \<in> set xs \<Longrightarrow> P b \<Longrightarrow> P (f b x)) \<Longrightarrow> P (foldl f a xs)"
  by (induction xs arbitrary: a) auto

definition all_spawned :: "RayState \<Rightarrow> RayState list \<times> nat \<Rightarrow> bool" where
  "all_spawned s acc \<longleftrightarrow> (\<forall>c \<in> set (fst acc). spawned_from s c)"

lemma spawn_sample_from:
  assumes "all_spawned s acc"
  shows "all_spawned s (spawn_sample lm draw le s r edge cp rt ee bs k acc i)"
proof -
  have "spawned_from s ((diffractedChildState s)
        \<lparr>RainCovered := False, rsRay := ry, Energy := e, PathLength := fadd (fadd (PathLength s) a) b,
         DelaySeconds := DelaySeconds s, Bounces := Bounces s + 1\<rparr>)" for e ry a b
    unfolding spawned_from_def by blast
  then show ?thesis
    using assms by (auto simp: spawn_sample_def all_spawned_def Let_def split: prod.splits)
qed

lemma spawn_edge_from:
  assumes "all_spawned s acc"
  shows "all_spawned s (spawn_edge lm draw cfg fr le s r hp sl acc edge)"
proof -
  have "all_spawned s (foldl (spawn_sample lm draw le s r edge cp rt ee bs k) acc xs)" for cp rt ee bs k xs
    by (rule foldl_inv [where P = "all_spawned s"]) (use assms spawn_sample_from in auto)
  then show ?thesis
    using assms unfolding spawn_edge_def Let_def by (auto split: prod.splits option.splits)
qed

lemma spawned_from_state: "all_spawned s (spawnDiffractionBranches lm draw cands cfg fr le s r hp sl n)"
proof -
  have start: "all_spawned s ([], n)" by (simp add: all_spawned_def)
  have "all_spawned s (foldl (spawn_edge lm draw cfg fr le s r hp sl) ([], n) xs)" for xs
    by (rule foldl_inv [where P = "all_spawned s"]) (use start spawn_edge_from in auto)
  with start show ?thesis unfolding spawnDiffractionBranches_def Let_def by (auto split: option.splits)
qed

lemma diffract_step_pushes:
  assumes "diffract_step env hk cfg fr p hp sl = Some p'" "pushes_ok cfg s p" "Bounces s \<le> MaxBounces cfg"
  shows "pushes_ok cfg s p'"
proof -
  let ?sp = "spawnDiffractionBranches (lib env) (drawn_number env) (hkEdges hk) cfg fr
     (hkSpawnEnergy hk (pState p)) (pState p) (pRay p) hp sl (pDrawn p)"
  have "\<forall>c \<in> set (fst ?sp). Bounces c = Bounces s + 1"
  proof
    fix c assume "c \<in> set (fst ?sp)"
    then have "spawned_from (pState p) c" using spawned_from_state [of "pState p"] unfolding all_spawned_def by blast
    with assms(2) show "Bounces c = Bounces s + 1" by (auto simp: pushes_ok_def dest: spawned_from_fields)
  qed
  then show ?thesis using assms
    by (cases ?sp) (auto simp: diffract_step_def pushes_ok_def split: DiffractionMode.splits)
qed

lemma reflect_step_pushes:
  assumes "pushes_ok cfg s p" "Bounces s \<le> bounce" "bounce \<le> MaxBounces cfg"
  shows "pushes_ok cfg s (reflect_step env cfg bounce hp nrm sc parts p)"
  using assms unfolding reflect_step_def
  by (auto simp: pushes_ok_def roulette_child_def Let_def split: prod.splits ReflectionStrategy.splits option.splits)

text \<open>What a bounce that goes through consists of.\<close>

lemma wall_step_cases:
  assumes "wall_step env hk cfg sc bands bounce hp nrm w sl p = Some (p', again)"
  obtains energy k scattering parts side res where
    "energy = attenuateEnergyByAir (lib env) (Energy (pState p)) (CenterFreqs (BandSpec sc)) sl"
    "parts = splitReflectionEnergy energy (map (\<lambda>i. AbsorptionAt (sceneMaterialForWall sc w) (int i)) [0..<k]) scattering"
    "(if DiffuseRain cfg
      then hkRain hk ((pState p)\<lparr>Energy := energy\<rparr>) hp side (snd (snd parts)) scattering (pPath p) (pResult p)
      else Some (pResult p)) = Some res"
    "p' = reflect_step env cfg bounce hp side scattering parts (p\<lparr>pState := (pState p)\<lparr>Energy := energy\<rparr>, pResult := res\<rparr>)"
proof -
  from assms obtain zeros where z: "make_floats bands = Some zeros" by (auto simp: wall_step_def Let_def split: option.splits)
  let ?e = "attenuateEnergyByAir (lib env) (Energy (pState p)) (CenterFreqs (BandSpec sc)) sl"
  let ?sc = "ScatteringCoefficients (sceneMaterialForWall sc w) bands"
  let ?ab = "map (\<lambda>i. AbsorptionAt (sceneMaterialForWall sc w) (int i)) [0..<length zeros]"
  let ?side = "faceIncidentSide (rayDirection (pRay p)) nrm"
  let ?rain = "if DiffuseRain cfg then hkRain hk ((pState p)\<lparr>Energy := ?e\<rparr>) hp ?side
    (snd (snd (splitReflectionEnergy ?e ?ab ?sc))) ?sc (pPath p) (pResult p) else Some (pResult p)"
  show thesis
  proof (cases ?rain)
    case None
    with assms z show thesis by (simp add: wall_step_def Let_def split: if_splits)
  next
    case (Some res)
    with assms z have "p' = reflect_step env cfg bounce hp ?side ?sc (splitReflectionEnergy ?e ?ab ?sc)
        (p\<lparr>pState := (pState p)\<lparr>Energy := ?e\<rparr>, pResult := res\<rparr>)"
      by (simp add: wall_step_def Let_def split: if_splits)
    with Some show thesis by (rule that [OF refl refl])
  qed
qed

lemma bounce_step_cases:
  assumes "bounce_step env hk cfg sc t bands mp bounce p = Some (p', again)"
  obtains "p' = p" "\<not> again"
  | res hp nrm w sl p1 where "NextHit t (pRay p) = Some (hp, nrm, w)" "sl = vec3_Distance (rayOrigin (pRay p)) hp"
      "\<not> fle sl (Zero False)"
      "(if pCovered p then Some (pResult p) else hkDetect hk (pState p) (pRay p) (pPath p) sl (pResult p)) = Some res"
      "diffract_step env hk cfg (CenterFreqs (BandSpec sc)) (p\<lparr>pResult := res\<rparr>) hp sl = Some p1"
      "p' = p1\<lparr>pPath := fadd (pPath p1) sl\<rparr> \<and> \<not> again \<or>
       wall_step env hk cfg sc bands bounce hp nrm w sl (p1\<lparr>pPath := fadd (pPath p1) sl\<rparr>) = Some (p', again)"
proof (cases "fle mp (pPath p)")
  case True
  with assms that(1) show thesis by (simp add: bounce_step_def)
next
  case go: False
  show thesis
  proof (cases "NextHit t (pRay p)")
    case None
    with assms go that(1) show thesis by (simp add: bounce_step_def)
  next
    case (Some hit)
    then obtain hp nrm w where hit: "NextHit t (pRay p) = Some (hp, nrm, w)" by (cases hit) auto
    let ?sl = "vec3_Distance (rayOrigin (pRay p)) hp"
    show thesis
    proof (cases "fle ?sl (Zero False)")
      case True
      with assms go hit that(1) show thesis by (simp add: bounce_step_def)
    next
      case sl: False
      from assms go hit sl obtain res where r:
        "(if pCovered p then Some (pResult p) else hkDetect hk (pState p) (pRay p) (pPath p) ?sl (pResult p)) = Some res"
        by (auto simp: bounce_step_def Let_def split: option.splits)
      from assms go hit sl r obtain p1 where p1: "diffract_step env hk cfg (CenterFreqs (BandSpec sc)) (p\<lparr>pResult := res\<rparr>) hp ?sl = Some p1"
        by (auto simp: bounce_step_def Let_def split: option.splits)
      from assms go hit sl r p1 have
        "p' = p1\<lparr>pPath := fadd (pPath p1) ?sl\<rparr> \<and> \<not> again \<or>
         wall_step env hk cfg sc bands bounce hp nrm w ?sl (p1\<lparr>pPath := fadd (pPath p1) ?sl\<rparr>) = Some (p', again)"
        by (auto simp: bounce_step_def Let_def split: if_splits)
      then show thesis by (rule that(2) [OF hit refl sl r p1])
    qed
  qed
qed

lemma pushes_ok_update:
  "pushes_ok cfg s p \<Longrightarrow> pushes_ok cfg s (p\<lparr>pResult := res\<rparr>)"
  "pushes_ok cfg s p \<Longrightarrow> pushes_ok cfg s (p\<lparr>pPath := l\<rparr>)"
  "pushes_ok cfg s p \<Longrightarrow> pushes_ok cfg s (p\<lparr>pState := (pState p)\<lparr>Energy := e\<rparr>, pResult := res\<rparr>)"
  by (simp_all add: pushes_ok_def)

lemma wall_step_pushes:
  assumes "wall_step env hk cfg sc bands bounce hp nrm w sl p = Some (p', again)"
    and "pushes_ok cfg s p" "Bounces s \<le> bounce" "bounce \<le> MaxBounces cfg"
  shows "pushes_ok cfg s p'"
  using assms(1)
  by (cases rule: wall_step_cases) (simp add: reflect_step_pushes pushes_ok_update assms)

lemma bounce_step_pushes:
  assumes "bounce_step env hk cfg sc t bands mp bounce p = Some (p', again)"
    and "pushes_ok cfg s p" "Bounces s \<le> bounce" "bounce \<le> MaxBounces cfg"
  shows "pushes_ok cfg s p'"
  using assms(1)
proof (cases rule: bounce_step_cases)
  case 1
  with assms(2) show ?thesis by simp
next
  case (2 res hp nrm w sl p1)
  have "pushes_ok cfg s p1"
    by (rule diffract_step_pushes [OF 2(5)]) (use assms in \<open>auto simp: pushes_ok_update\<close>)
  then have p2: "pushes_ok cfg s (p1\<lparr>pPath := fadd (pPath p1) sl\<rparr>)" by (rule pushes_ok_update)
  from 2(6) show ?thesis
    by (elim disjE conjE) (use p2 wall_step_pushes [OF _ p2 assms(3,4)] in auto)
qed

lemma bounce_loop_pushes:
  assumes "bounce_loop env hk cfg sc t bands mp bounce p = Some p'" "pushes_ok cfg s p" "Bounces s \<le> bounce"
  shows "pushes_ok cfg s p'"
  using assms
proof (induction env hk cfg sc t bands mp bounce p rule: bounce_loop.induct)
  case (1 env hk cfg sc t bands mp bounce p)
  show ?case
  proof (cases "MaxBounces cfg < bounce")
    case True
    with "1.prems" show ?thesis by (simp add: bounce_loop.simps)
  next
    case False
    with "1.prems"(1) obtain q again where q: "bounce_step env hk cfg sc t bands mp bounce p = Some (q, again)"
      by (auto simp: bounce_loop.simps [of env hk cfg sc t bands mp bounce p] split: option.splits)
    have ok: "pushes_ok cfg s q" using bounce_step_pushes [OF q "1.prems"(2,3)] False by simp
    show ?thesis
    proof (cases again)
      case True
      with q False "1.prems" have "bounce_loop env hk cfg sc t bands mp (bounce + 1) q = Some p'"
        by (simp add: bounce_loop.simps [of env hk cfg sc t bands mp bounce p])
      from "1.IH" [OF False q refl True this ok] "1.prems"(3) show ?thesis by simp
    next
      case stop: False
      with q False "1.prems"(1) ok show ?thesis
        by (simp add: bounce_loop.simps [of env hk cfg sc t bands mp bounce p])
    qed
  qed
qed

lemma trace_one_pushes:
  assumes "trace_one env hk cfg sc t bands s n res = Some p" "c \<in> set (pPushed p)"
  shows "Bounces s < Bounces c" "Bounces s \<le> MaxBounces cfg"
proof -
  have "pushes_ok cfg s (popped s n res)" by (simp add: pushes_ok_def popped_def)
  with assms(1) bounce_loop_pushes [of env hk cfg sc t bands "hkMaxPath hk s" "Bounces s" "popped s n res" p s]
  have "pushes_ok cfg s p" by (auto simp: trace_one_def split: if_splits)
  with assms(2) show "Bounces s < Bounces c" "Bounces s \<le> MaxBounces cfg" by (auto simp: pushes_ok_def)
qed

definition bounces_left :: "LaunchConfig \<Rightarrow> RayState \<Rightarrow> nat" where
  "bounces_left cfg s = nat (MaxBounces cfg + 1 - Bounces s)"

definition stack_order :: "(LaunchConfig \<times> RayState list) rel" where
  "stack_order = {((cfg, xs), (cfg', ys)). cfg = cfg' \<and>
     (mset (map (bounces_left cfg) xs), mset (map (bounces_left cfg) ys)) \<in> mult less_than}"

lemma wf_stack_order: "wf stack_order"
proof -
  have "wf (inv_image (mult less_than) (\<lambda>(cfg, xs). mset (map (bounces_left cfg) xs)))"
    by (intro wf_inv_image wf_mult) simp
  then show ?thesis by (rule wf_subset) (auto simp: stack_order_def inv_image_def)
qed

lemma stack_decreases:
  assumes "trace_one env hk cfg sc t bands s n res = Some p"
  shows "((cfg, rev (pPushed p) @ rest), (cfg, s # rest)) \<in> stack_order"
proof -
  have "bounces_left cfg c < bounces_left cfg s" if "c \<in> set (pPushed p)" for c
    using trace_one_pushes [OF assms that] by (simp add: bounces_left_def)
  then have "(mset (map (bounces_left cfg) rest) + mset (map (bounces_left cfg) (pPushed p)),
      mset (map (bounces_left cfg) rest) + {#bounces_left cfg s#}) \<in> mult less_than"
    by (intro one_step_implies_mult) auto
  then show ?thesis by (simp add: stack_order_def add.commute)
qed

function trace_loop ::
  "ray_env \<Rightarrow> 'a hooks \<Rightarrow> LaunchConfig \<Rightarrow> ('dir, 'h) scene \<Rightarrow> Tracer \<Rightarrow> int \<Rightarrow> RayState list \<Rightarrow> nat \<Rightarrow> 'a \<Rightarrow> 'a option" where
  "trace_loop env hk cfg sc t bandCount [] n res = Some res"
| "trace_loop env hk cfg sc t bandCount (s # rest) n res =
     (case trace_one env hk cfg sc t bandCount s n res of
        None \<Rightarrow> None
      | Some p \<Rightarrow> trace_loop env hk cfg sc t bandCount (rev (pPushed p) @ rest) (pDrawn p) (pResult p))"
  by pat_completeness auto
termination
  by (relation "inv_image stack_order (\<lambda>(env, hk, cfg, sc, t, bandCount, states, n, res). (cfg, states))")
     (auto intro: wf_inv_image wf_stack_order stack_decreases)

end
