(* ===== verification/Deflection.thy ===== *)
theory Deflection
  imports Ray_Walls
begin

text \<open>
  Rain from deflection cylinders: the density of deflection angles (raytrace/dapdf.go) and the energy an edge
  that a particle passes sends to the receivers, directly and over further edges
  (raytrace/diffracted_rain.go). Unwrapping an angle is a loop that need not end: \<open>None\<close>. A tracer is never nil here.
\<close>

subsection \<open>The density of deflection angles (dapdf.go)\<close>

text \<open>The constants are exact until they meet a variable.\<close>

definition exactV0 :: real where
  "exactV0 = 5411961001461969 / 10 ^ 16"

definition DAPDFV0 :: f64 where
  "DAPDFV0 = round64 exactV0"

definition dapdfOuterOffset :: f64 where
  "dapdfOuterOffset = round64 (sqrt 2 - 1)"

definition DAPDF :: "f64 \<Rightarrow> f64 \<Rightarrow> f64 \<Rightarrow> f64" where
  "DAPDF v v0 d0 =
     (if fle v0 (Zero False) \<or> flt d0 (Zero False) \<or> is_nan v \<or> is_nan v0 \<or> is_nan d0 then Zero False
      else if fle (fabs v) v0 then fmul d0 (fmax (Zero False) (fsub (round64 1) (fmul v v)))
      else fdiv (fmul d0 (round64 (1 / 2))) (fadd dapdfOuterOffset (fmul v v)))"

definition dapdf_center :: f64 where
  "dapdf_center = round64 (exactV0 - exactV0 ^ 3 / 3)"

definition dapdfTotalIntegral :: "libm \<Rightarrow> f64" where
  "dapdfTotalIntegral lm =
     (let root' = fsqrt dapdfOuterOffset;
          tail = fmul (fdiv (round64 (1 / 2)) root') (fsub (round64 (pi / 2)) (mAtan lm (fdiv DAPDFV0 root'))) in
      fmul (round64 2) (fadd dapdf_center tail))"

definition dapdfNormalization :: "libm \<Rightarrow> f64" where
  "dapdfNormalization lm = fdiv (round64 1) (dapdfTotalIntegral lm)"

definition dapdfPrimitive :: "libm \<Rightarrow> f64 \<Rightarrow> f64" where
  "dapdfPrimitive lm v =
     (if is_nan v then NaN
      else if v = Inf False then fdiv (dapdfTotalIntegral lm) (round64 2)
      else if v = Inf True then fdiv (fneg (dapdfTotalIntegral lm)) (round64 2)
      else
        (let (sign, x) = (if flt v (Zero False) then (round64 (- 1), fneg v) else (round64 1, v)) in
         if fle x DAPDFV0 then fmul sign (fsub x (fdiv (fmul (fmul x x) x) (round64 3)))
         else
           (let root' = fsqrt dapdfOuterOffset;
                tail = fmul (fdiv (round64 (1 / 2)) root') (fsub (mAtan lm (fdiv x root')) (mAtan lm (fdiv DAPDFV0 root'))) in
            fmul sign (fadd dapdf_center tail))))"

definition DAPDFIntegral :: "libm \<Rightarrow> f64 \<Rightarrow> f64 \<Rightarrow> f64 \<Rightarrow> f64" where
  "DAPDFIntegral lm epsilonMin epsilonMax b =
     (if \<not> flt (Zero False) b \<or> is_nan epsilonMin \<or> is_nan epsilonMax \<or> is_inf b then Zero False
      else
        (let vMin = fmul (fmul (round64 2) b) epsilonMin; vMax = fmul (fmul (round64 2) b) epsilonMax in
         fdiv (fsub (dapdfPrimitive lm vMax) (dapdfPrimitive lm vMin)) (dapdfTotalIntegral lm)))"

record DeflectionCylinder =
  dcID :: nat
  dcEdge :: DiffractionEdge
  dcRadius :: f64

definition NewDeflectionCylinder :: "nat \<Rightarrow> DiffractionEdge \<Rightarrow> f64 \<Rightarrow> DeflectionCylinder" where
  "NewDeflectionCylinder i edge wavelength =
     \<lparr>dcID = i, dcEdge = edge,
      dcRadius = (if flt (Zero False) wavelength \<and> \<not> is_inf wavelength \<and> \<not> is_nan wavelength
        then fmul (round64 7) wavelength else Zero False)\<rparr>"

subsection \<open>Angles (diffracted_rain.go)\<close>

record dapdfTarget =
  dtCenter :: vec3
  dtRadius :: f64
  dtPolygon :: "vec3 list"
  dtSurface :: int

record deposit =
  dpTime :: f64
  dpDirection :: vec3
  dpBand :: int
  dpEnergy :: f64
  dpSurface :: int

definition maximumDeflectionRadius :: "f64 \<Rightarrow> f64 list \<Rightarrow> f64" where
  "maximumDeflectionRadius speedOfSound centerFreqs =
     (if fle speedOfSound (Zero False) then Zero False
      else if centerFreqs = [] then fmul (round64 7) speedOfSound
      else foldl (\<lambda>radius f. if flt (Zero False) f then fmax radius (fdiv (fmul (round64 7) speedOfSound) f) else radius)
        (Zero False) centerFreqs)"

definition bandFrequency :: "f64 list \<Rightarrow> nat \<Rightarrow> f64" where
  "bandFrequency centerFreqs i = (if i < length centerFreqs then centerFreqs ! i else f64_of_int (int i + 1))"

definition segmentVisibleToTarget :: "vec3 \<Rightarrow> vec3 \<Rightarrow> f64 \<Rightarrow> Tracer \<Rightarrow> bool" where
  "segmentVisibleToTarget start target targetDistance t =
     (if fle targetDistance wallEpsilon then True
      else
        (let direction = vec3_Normalize (vec3_Sub target start) in
         if vec3_eq direction Vec3Zero then False
         else
           (let gap = round64 (1 / 10 ^ 5); origin = vec3_Add start (vec3_Scale direction gap) in
            case NextHit t (NewRay origin direction) of
              None \<Rightarrow> True
            | Some (hitPoint, _, _) \<Rightarrow> fle (fsub targetDistance gap) (vec3_Distance origin hitPoint))))"

definition deflectionAngle :: "libm \<Rightarrow> vec3 \<Rightarrow> vec3 \<Rightarrow> vec3 \<Rightarrow> f64 option" where
  "deflectionAngle lm edgeDirection incidentDirection targetDirection =
     (let axis = vec3_Normalize edgeDirection;
          across = (\<lambda>d. vec3_Normalize (vec3_Sub d (vec3_Scale axis (vec3_Dot d axis))));
          reference = across incidentDirection; target = across targetDirection in
      if vec3_eq axis Vec3Zero \<or> vec3_eq reference Vec3Zero \<or> vec3_eq target Vec3Zero then None
      else Some (mAtan2 lm (vec3_Dot axis (vec3_Cross reference target)) (vec3_Dot reference target)))"

text \<open>The two loops are those of \<open>angleDiffWrapped\<close>.\<close>

definition wrapAngle :: "f64 \<Rightarrow> f64 option" where
  "wrapAngle a = (case wrap_down a of None \<Rightarrow> None | Some b \<Rightarrow> wrap_up b)"

text \<open>An interval of angles is its ends; the inner \<open>None\<close> is the result \<open>false\<close>.\<close>

definition widen_interval ::
  "libm \<Rightarrow> vec3 \<Rightarrow> vec3 \<Rightarrow> vec3 \<Rightarrow> f64 \<Rightarrow> f64 \<times> f64 \<times> bool \<Rightarrow> vec3 \<Rightarrow> (f64 \<times> f64 \<times> bool) option" where
  "widen_interval lm origin edgeDirection incidentDirection centerAngle acc point =
     (let (minimum, maximum, valid) = acc in
      case deflectionAngle lm edgeDirection incidentDirection (vec3_Sub point origin) of
        None \<Rightarrow> Some acc
      | Some angle \<Rightarrow>
          map_option (\<lambda>relative. (fmin minimum relative, fmax maximum relative, True)) (wrapAngle (fsub angle centerAngle)))"

definition projectedDeflectionInterval ::
  "libm \<Rightarrow> vec3 \<Rightarrow> vec3 \<Rightarrow> vec3 \<Rightarrow> f64 \<Rightarrow> vec3 list \<Rightarrow> f64 \<Rightarrow> (f64 \<times> f64) option option" where
  "projectedDeflectionInterval lm origin edgeDirection incidentDirection centerAngle points padding =
     map_option (\<lambda>(minimum, maximum, valid).
         if valid then Some (fsub (fadd centerAngle minimum) padding, fadd (fadd centerAngle maximum) padding) else None)
       (opt_foldl (widen_interval lm origin edgeDirection incidentDirection centerAngle) (Zero False, Zero False, False) points)"

definition targetDeflectionInterval ::
  "libm \<Rightarrow> vec3 \<Rightarrow> vec3 \<Rightarrow> vec3 \<Rightarrow> dapdfTarget \<Rightarrow> (f64 \<times> f64) option option" where
  "targetDeflectionInterval lm origin edgeDirection incidentDirection target =
     (case deflectionAngle lm edgeDirection incidentDirection (vec3_Sub (dtCenter target) origin) of
        None \<Rightarrow> Some None
      | Some centerAngle \<Rightarrow>
          if flt (Zero False) (dtRadius target)
          then
            (let reach = vec3_Distance origin (dtCenter target) in
             if fle reach (Zero False) then Some None
             else
               (let halfSpan = mAsin lm (fmin (round64 1) (fdiv (dtRadius target) reach)) in
                Some (if flt (Zero False) halfSpan then Some (fsub centerAngle halfSpan, fadd centerAngle halfSpan) else None)))
          else projectedDeflectionInterval lm origin edgeDirection incidentDirection centerAngle (dtPolygon target) (Zero False))"

definition edge_middle :: "DiffractionEdge \<Rightarrow> vec3" where
  "edge_middle e = vec3_Add (deStart e) (vec3_Scale (vec3_Sub (deEnd e) (deStart e)) (round64 (1 / 2)))"

definition cylinderDeflectionInterval ::
  "libm \<Rightarrow> vec3 \<Rightarrow> vec3 \<Rightarrow> vec3 \<Rightarrow> DiffractionEdge \<Rightarrow> f64 \<Rightarrow> (f64 \<times> f64) option option" where
  "cylinderDeflectionInterval lm origin edgeDirection incidentDirection edge radius =
     (let center = edge_middle edge in
      case deflectionAngle lm edgeDirection incidentDirection (vec3_Sub center origin) of
        None \<Rightarrow> Some None
      | Some centerAngle \<Rightarrow>
          (let reach = vec3_Distance origin center;
               padding = (if flt (Zero False) reach then mAsin lm (fmin (round64 1) (fdiv radius reach)) else Zero False) in
           projectedDeflectionInterval lm origin edgeDirection incidentDirection centerAngle [deStart edge, deEnd edge] padding))"

subsection \<open>Rain from an edge (diffracted_rain.go)\<close>

text \<open>What the recursion over edges keeps: the index, the tracer, the receivers, the settings, the
  threshold, and the band with its frequency.\<close>

record rain_scene =
  rsLib :: libm
  rsEdges :: "DiffractionEdge list"
  rsTracer :: Tracer
  rsReceiver :: "SphereReceiver option"
  rsSurfaces :: "SurfaceReceiver list"
  rsConfig :: LaunchConfig
  cullThreshold :: f64
  rsBand :: nat
  rsFrequency :: f64

text \<open>The particle of sound at an edge: the edge, the point, the directions and the distance of its passage, its
  energy, path, depth and the edges it has visited.\<close>

record deflected =
  dfEdge :: nat
  dfPoint :: vec3
  dfAxis :: vec3
  dfIncident :: vec3
  dfFlyBy :: f64
  dfEnergy :: f64
  dfPath :: f64
  dfDelay :: f64
  dfDepth :: int
  dfVisited :: "nat set"

definition rain_targets :: "rain_scene \<Rightarrow> deflected \<Rightarrow> dapdfTarget list" where
  "rain_targets rs d =
     (case rsReceiver rs of
        None \<Rightarrow> []
      | Some receiver \<Rightarrow>
          if flt (Zero False) (srRadius receiver)
          then
            (let reach = vec3_Distance (dfPoint d) (srCenter receiver) in
             if flt (Zero False) reach \<and>
                segmentVisibleToTarget (dfPoint d) (srCenter receiver) (fsub reach (srRadius receiver)) (rsTracer rs)
             then [\<lparr>dtCenter = srCenter receiver, dtRadius = srRadius receiver, dtPolygon = [], dtSurface = - 1\<rparr>] else [])
          else []) @
     concat (map (\<lambda>(i, surface).
         let reach = vec3_Distance (dfPoint d) (sfCenter surface) in
         if fle reach (Zero False) \<or> \<not> segmentVisibleToTarget (dfPoint d) (sfCenter surface) reach (rsTracer rs) then []
         else [\<lparr>dtCenter = sfCenter surface, dtRadius = Zero False, dtPolygon = sfPolygon surface, dtSurface = int i\<rparr>])
       (enumerate 0 (rsSurfaces rs)))"

text \<open>The energy of one band over a distance.\<close>

definition attenuated_energy :: "rain_scene \<Rightarrow> f64 \<Rightarrow> f64 \<Rightarrow> f64" where
  "attenuated_energy rs energy reach = attenuateEnergyByAir (rsLib rs) [energy] [rsFrequency rs] reach ! 0"

definition slit_width :: "rain_scene \<Rightarrow> deflected \<Rightarrow> f64" where
  "slit_width rs d =
     (let wavelength = fdiv (SpeedOfSound (rsConfig rs)) (rsFrequency rs) in
      fdiv (fmul (round64 6) (fmax (dfFlyBy d) (fmul wavelength (round64 (1 / 10 ^ 6))))) wavelength)"

definition rain_target :: "rain_scene \<Rightarrow> deflected \<Rightarrow> dapdfTarget \<Rightarrow> deposit list option" where
  "rain_target rs d target =
     (case targetDeflectionInterval (rsLib rs) (dfPoint d) (dfAxis d) (dfIncident d) target of
        None \<Rightarrow> None
      | Some None \<Rightarrow> Some []
      | Some (Some (angleMin, angleMax)) \<Rightarrow>
          if fle angleMax angleMin then Some []
          else
            (let reach = vec3_Distance (dfPoint d) (dtCenter target);
                 weight = fmax (Zero False) (fmin (round64 1) (DAPDFIntegral (rsLib rs) angleMin angleMax (slit_width rs d)));
                 energy = attenuated_energy rs (fmul (dfEnergy d) weight) reach in
             if fle energy (cullThreshold rs) then Some []
             else
               (let arrivalTime = fadd (dfDelay d) (fdiv (fadd (dfPath d) reach) (SpeedOfSound (rsConfig rs))) in
                if flt (MaxTimeSeconds (rsConfig rs)) arrivalTime then Some []
                else Some [\<lparr>dpTime = arrivalTime, dpDirection = vec3_Normalize (vec3_Sub (dfPoint d) (dtCenter target)),
                            dpBand = int (rsBand rs), dpEnergy = energy, dpSurface = dtSurface target\<rparr>])))"

record forwardingTarget =
  fwIndex :: nat
  fwEdge :: DiffractionEdge
  fwPoint :: vec3
  fwDistance :: f64
  fwWeight :: f64

definition forward_target :: "rain_scene \<Rightarrow> deflected \<Rightarrow> nat \<times> DiffractionEdge \<Rightarrow> forwardingTarget list option" where
  "forward_target rs d ie =
     (let (nextID, nextEdge) = ie in
      if nextID = dfEdge d \<or> nextID \<in> dfVisited d then Some []
      else
        (let nextPoint = edge_middle nextEdge; reach = vec3_Distance (dfPoint d) nextPoint in
         if fle reach wallEpsilon \<or> \<not> segmentVisibleToTarget (dfPoint d) nextPoint reach (rsTracer rs) then Some []
         else
           (let radius = fmul (round64 7) (fdiv (SpeedOfSound (rsConfig rs)) (rsFrequency rs)) in
            case cylinderDeflectionInterval (rsLib rs) (dfPoint d) (dfAxis d) (dfIncident d) nextEdge radius of
              None \<Rightarrow> None
            | Some None \<Rightarrow> Some []
            | Some (Some (angleMin, angleMax)) \<Rightarrow>
                if fle angleMax angleMin then Some []
                else
                  (let weight = fmax (Zero False) (DAPDFIntegral (rsLib rs) angleMin angleMax (slit_width rs d)) in
                   Some (if fle weight (Zero False) then []
                     else [\<lparr>fwIndex = nextID, fwEdge = nextEdge, fwPoint = nextPoint, fwDistance = reach, fwWeight = weight\<rparr>])))))"

definition weight_scale :: "forwardingTarget list \<Rightarrow> f64" where
  "weight_scale forwarding =
     (let totalWeight = foldl (\<lambda>acc f. fadd acc (fwWeight f)) (Zero False) forwarding in
      if flt (round64 1) totalWeight then fdiv (round64 1) totalWeight else round64 1)"

definition forwarded :: "rain_scene \<Rightarrow> deflected \<Rightarrow> f64 \<Rightarrow> forwardingTarget \<Rightarrow> deflected" where
  "forwarded rs d weightScale f =
     \<lparr>dfEdge = fwIndex f, dfPoint = fwPoint f, dfAxis = deDirection (fwEdge f),
      dfIncident = vec3_Normalize (vec3_Sub (fwPoint f) (dfPoint d)), dfFlyBy = Zero False,
      dfEnergy = attenuated_energy rs (fmul (fmul (dfEnergy d) (fwWeight f)) weightScale) (fwDistance f),
      dfPath = fadd (dfPath d) (fwDistance f), dfDelay = dfDelay d, dfDepth = dfDepth d + 1,
      dfVisited = insert (fwIndex f) (dfVisited d)\<rparr>"

function dapdfForward :: "rain_scene \<Rightarrow> deflected \<Rightarrow> deposit list option" where
  "dapdfForward rs d =
     (if fle (dfEnergy d) (cullThreshold rs) \<or> effectiveMaxDiffractionDepth (rsConfig rs) < dfDepth d then Some []
      else
        (case those (map (rain_target rs d) (rain_targets rs d)) of
           None \<Rightarrow> None
         | Some deposits \<Rightarrow>
             if effectiveMaxDiffractionDepth (rsConfig rs) \<le> dfDepth d then Some (concat deposits)
             else
               (case those (map (forward_target rs d) (enumerate 0 (rsEdges rs))) of
                  None \<Rightarrow> None
                | Some targets \<Rightarrow>
                    (let forwarding = concat targets; weightScale = weight_scale forwarding in
                     map_option (\<lambda>further. concat deposits @ concat further)
                       (those (map (\<lambda>f. let d' = forwarded rs d weightScale f in
                          if fle (dfEnergy d') (cullThreshold rs) then Some [] else dapdfForward rs d') forwarding))))))"
  by pat_completeness auto
termination
  by (relation "measure (\<lambda>(rs, d). nat (effectiveMaxDiffractionDepth (rsConfig rs) - dfDepth d))") (auto simp: forwarded_def)

declare dapdfForward.simps [simp del]

text \<open>The deflection cylinder that the segment passes first, with its hit.\<close>

definition nearer_cylinder ::
  "f64 \<Rightarrow> ray \<Rightarrow> f64 \<Rightarrow> (diffractionEdgeRef \<times> RayCylinderHit) option \<Rightarrow> diffractionEdgeRef \<Rightarrow> (diffractionEdgeRef \<times> RayCylinderHit) option" where
  "nearer_cylinder wavelength r segmentLength closest ref =
     (let e = refEdge ref in
      case RayOpenFiniteCylinder r (deStart e) (deEnd e) (dcRadius (NewDeflectionCylinder (refIndex ref) e wavelength))
          wallEpsilon (fsub segmentLength wallEpsilon) of
        None \<Rightarrow> closest
      | Some hit \<Rightarrow>
          (case closest of
             Some (_, best) \<Rightarrow> if fle (RayDistance best) (RayDistance hit) then closest else Some (ref, hit)
           | None \<Rightarrow> Some (ref, hit)))"

definition dapdf_band ::
  "rain_scene \<Rightarrow> diffractionEdgeRef list \<Rightarrow> RayState \<Rightarrow> ray \<Rightarrow> f64 \<Rightarrow> f64 list \<Rightarrow> nat \<Rightarrow> deposit list option" where
  "dapdf_band rs0 candidates state r segmentLength centerFreqs bandIndex =
     (let frequency = bandFrequency centerFreqs bandIndex in
      if fle frequency (Zero False) then Some []
      else
        (let rs = rs0\<lparr>rsBand := bandIndex, rsFrequency := frequency\<rparr>;
             wavelength = fdiv (SpeedOfSound (rsConfig rs)) frequency in
         case foldl (nearer_cylinder wavelength r segmentLength) None candidates of
           None \<Rightarrow> Some []
         | Some (ref, hit) \<Rightarrow>
             (let incoming = attenuated_energy rs (Energy state ! bandIndex) (RayDistance hit) in
              if fle incoming (cullThreshold rs) then Some []
              else dapdfForward rs
                \<lparr>dfEdge = refIndex ref, dfPoint = EdgePoint hit, dfAxis = deDirection (refEdge ref), dfIncident = rayDirection r,
                 dfFlyBy = FlyByDistance hit, dfEnergy = incoming, dfPath = fadd (PathLength state) (RayDistance hit),
                 dfDelay = DelaySeconds state, dfDepth = 1, dfVisited = {refIndex ref}\<rparr>)))"

definition dapdfRainForSegment ::
  "libm \<Rightarrow> RayState \<Rightarrow> ray \<Rightarrow> f64 \<Rightarrow> DiffractionEdgeIndex option \<Rightarrow> Tracer \<Rightarrow> SphereReceiver option \<Rightarrow> SurfaceReceiver list \<Rightarrow>
   LaunchConfig \<Rightarrow> f64 list \<Rightarrow> f64 \<Rightarrow> deposit list option" where
  "dapdfRainForSegment lm state r segmentLength edgeIndex t receiver surfaces config centerFreqs launchEnergy =
     (case edgeIndex of
        None \<Rightarrow> Some []
      | Some ix \<Rightarrow>
          if effectiveDiffractionMode config \<noteq> DiffractionDAPDFRain \<or> fle segmentLength (Zero False) then Some []
          else
            (let maxRadius = maximumDeflectionRadius (SpeedOfSound config) centerFreqs in
             if fle maxRadius (Zero False) then Some []
             else
               (let candidates = candidateRefs edgeIndex (rayOrigin r) (ray_At r segmentLength) maxRadius in
                if candidates = [] then Some []
                else
                  (let cull0 = fmul launchEnergy (mPow lm (round64 10) (fdiv diffractionCullingDB (round64 10)));
                       cull = (if flt cull0 (EnergyTerminationThreshold config) then EnergyTerminationThreshold config else cull0);
                       rs = \<lparr>rsLib = lm, rsEdges = ixEdges ix, rsTracer = t, rsReceiver = receiver, rsSurfaces = surfaces,
                             rsConfig = config, cullThreshold = cull, rsBand = 0, rsFrequency = Zero False\<rparr> in
                   map_option concat
                     (those (map (dapdf_band rs candidates state r segmentLength centerFreqs) [0..<length (Energy state)]))))))"

end
