(* ===== verification/Ray_Tracing.thy ===== *)
theory Ray_Tracing
  imports Ray_Loop Deflection
begin

text \<open>
  The tracers of package raytrace: \<open>Trace\<close> (raytrace.go), \<open>TraceSurfaces\<close> (surface_trace.go) and
  \<open>TraceSecondary\<close> with its launch (secondary.go), as instances of the propagation loop.
\<close>

text \<open>The arguments: \<open>GainLinear\<close> of a directivity, and the orders in which the maps of
  \<open>ExtractDiffractionEdges\<close> are ranged over.\<close>

record 'dir tracer_env = ray_env +
  GainLinear :: "'dir \<Rightarrow> f64 \<Rightarrow> vec3 \<Rightarrow> f64"
  edgeOrders :: edge_orders

record ('dir, 'h) RayTracer =
  rtConfig :: LaunchConfig
  rtScene :: "('dir, 'h) scene option"
  rtReceiverRadius :: f64
  rtBinDuration :: f64
  rtGroups :: "DirectivityGroup list"

definition defaultBinDurationSeconds :: f64 where
  "defaultBinDurationSeconds = round64 (1 / 100)"

text \<open>What a trace writes: the histogram and the directivity groups with theirs.\<close>

record trace_result =
  trHistogram :: "EnergyHistogram option"
  trGroups :: "DirectivityGroup list"

definition add_deposit :: "'dir tracer_env \<Rightarrow> f64 \<Rightarrow> f64 list \<Rightarrow> vec3 \<Rightarrow> trace_result \<Rightarrow> trace_result option" where
  "add_deposit env time energy direction res =
     (case hist_Add (trHistogram res) time energy of
        None \<Rightarrow> None
      | Some h \<Rightarrow>
          if trGroups res = [] then Some (res\<lparr>trHistogram := h\<rparr>)
          else
            (case ClassifyDirection (mAsin (lib env)) (mAtan2 (lib env)) (trGroups res) direction of
               None \<Rightarrow> None
             | Some i \<Rightarrow>
                 (case hist_Add (dgHistogram (trGroups res ! i)) time energy of
                    None \<Rightarrow> None
                  | Some g \<Rightarrow>
                      Some (res\<lparr>trHistogram := h, trGroups := (trGroups res)[i := (trGroups res ! i)\<lparr>dgHistogram := g\<rparr>]\<rparr>))))"

definition add_band_deposit :: "'dir tracer_env \<Rightarrow> int \<Rightarrow> trace_result \<Rightarrow> deposit \<Rightarrow> trace_result option" where
  "add_band_deposit env bandCount res d =
     (case oneBandEnergy bandCount (dpBand d) (dpEnergy d) of
        None \<Rightarrow> None
      | Some energy \<Rightarrow> add_deposit env (dpTime d) energy (dpDirection d) res)"

definition diffractionEdgeIndex :: "'dir tracer_env \<Rightarrow> LaunchConfig \<Rightarrow> ('dir, 'h) scene \<Rightarrow> DiffractionEdgeIndex option" where
  "diffractionEdgeIndex env cfg sc =
     (case Mesh (Room sc) of
        None \<Rightarrow> None
      | Some m \<Rightarrow>
          if effectiveDiffractionMode cfg = DiffractionDisabled then None
          else NewDiffractionEdgeIndex (mAcos (lib env)) (edgeOrders env) m)"

text \<open>The checks the tracers begin with, and the sizes they allocate with.\<close>

definition check_launch :: "LaunchConfig \<Rightarrow> trace_error option" where
  "check_launch cfg =
     (if NumRays cfg \<le> 0 then Some NumRaysNotPositive
      else if MaxBounces cfg < 0 then Some MaxBouncesNegative
      else if fle (MaxTimeSeconds cfg) (Zero False) then Some MaxTimeNotPositive
      else if fle (SpeedOfSound cfg) (Zero False) then Some SpeedNotPositive
      else None)"

definition trace_bands :: "('dir, 'h) scene \<Rightarrow> int" where
  "trace_bands sc = (let n = BandCount (BandSpec sc) in if n \<le> 0 then 1 else n)"

definition bin_duration :: "f64 \<Rightarrow> f64" where
  "bin_duration d = (if fle d (Zero False) then defaultBinDurationSeconds else d)"

definition launch_state :: "ray \<Rightarrow> f64 list \<Rightarrow> f64 \<Rightarrow> RayState" where
  "launch_state r energy delay =
     \<lparr>rsRay = r, Energy = energy, PathLength = Zero False, DelaySeconds = delay, Bounces = 0, RainCovered = False,
      HasDiffuseHistory = False, AllowDetection = False, ReflectionOrder = 0, PreEDReflOrder = 0, EDReflOrder = 0,
      EDOrder = 0\<rparr>"

definition fresh_groups :: "f64 \<Rightarrow> f64 \<Rightarrow> int \<Rightarrow> DirectivityGroup list \<Rightarrow> DirectivityGroup list option" where
  "fresh_groups duration binDuration bandCount groups =
     those (map (\<lambda>g. map_option (\<lambda>h. g\<lparr>dgHistogram := Some h\<rparr>) (NewEnergyHistogram duration binDuration bandCount)) groups)"

subsection \<open>Trace (raytrace.go)\<close>

definition detect_direct ::
  "'dir tracer_env \<Rightarrow> LaunchConfig \<Rightarrow> f64 list \<Rightarrow> SphereReceiver \<Rightarrow> RayState \<Rightarrow> ray \<Rightarrow> f64 \<Rightarrow> f64 \<Rightarrow> trace_result \<Rightarrow> trace_result option" where
  "detect_direct env cfg freqs rec state r path segmentLength res =
     (case sphere_Intersects rec r wallEpsilon segmentLength of
        None \<Rightarrow> Some res
      | Some tHit \<Rightarrow>
          if \<not> DetectionAllowedHybrid state (HybridDetection cfg) then Some res
          else
            (let arrivalTime = fdiv (fadd path tHit) (SpeedOfSound cfg) in
             if fle arrivalTime (MaxTimeSeconds cfg)
             then add_deposit env arrivalTime
               (map (\<lambda>e. fmul e (AngularWeight (rayDirection r))) (attenuateEnergyByAir (lib env) (Energy state) freqs tHit))
               (vec3_Scale (rayDirection r) (round64 (- 1))) res
             else Some res))"

definition deposit_dapdf ::
  "'dir tracer_env \<Rightarrow> LaunchConfig \<Rightarrow> ('dir, 'h) scene \<Rightarrow> Tracer \<Rightarrow> SphereReceiver \<Rightarrow> int \<Rightarrow> (RayState \<Rightarrow> f64) \<Rightarrow>
   RayState \<Rightarrow> ray \<Rightarrow> f64 \<Rightarrow> trace_result \<Rightarrow> (trace_result \<times> bool) option" where
  "deposit_dapdf env cfg sc t rec bandCount energy state r segmentLength res =
     (case dapdfRainForSegment (lib env) state r segmentLength (diffractionEdgeIndex env cfg sc) t (Some rec) [] cfg
        (CenterFreqs (BandSpec sc)) (energy state) of
        None \<Rightarrow> None
      | Some deposits \<Rightarrow>
          map_option (\<lambda>res'. (res', deposits \<noteq> [])) (opt_foldl (add_band_deposit env bandCount) res deposits))"

definition rain_direct ::
  "'dir tracer_env \<Rightarrow> LaunchConfig \<Rightarrow> f64 list \<Rightarrow> Tracer \<Rightarrow> SphereReceiver \<Rightarrow>
   RayState \<Rightarrow> vec3 \<Rightarrow> vec3 \<Rightarrow> f64 list \<Rightarrow> f64 list \<Rightarrow> f64 \<Rightarrow> trace_result \<Rightarrow> trace_result option" where
  "rain_direct env cfg freqs t rec state hitPoint incidentNormal remaining scattering path res =
     (case computeDiffuseRain (lib env) t rec freqs (SpeedOfSound cfg) hitPoint incidentNormal remaining scattering path of
        None \<Rightarrow> Some res
      | Some rain \<Rightarrow>
          if fle (ArrivalTime rain) (MaxTimeSeconds cfg)
          then add_deposit env (ArrivalTime rain) (rainEnergy rain) (vec3_Sub hitPoint (srCenter rec)) res
          else Some res)"

definition trace_hooks ::
  "'dir tracer_env \<Rightarrow> LaunchConfig \<Rightarrow> ('dir, 'h) scene \<Rightarrow> Tracer \<Rightarrow> SphereReceiver \<Rightarrow> int \<Rightarrow> f64 \<Rightarrow> trace_result hooks" where
  "trace_hooks env cfg sc t rec bandCount launchEnergy =
     (let freqs = CenterFreqs (BandSpec sc) in
      \<lparr>hkSkip = (\<lambda>_. False), hkMaxPath = (\<lambda>_. fmul (MaxTimeSeconds cfg) (SpeedOfSound cfg)),
       hkDetect = detect_direct env cfg freqs rec, hkEdges = diffractionEdgeIndex env cfg sc,
       hkSpawnEnergy = (\<lambda>_. launchEnergy), hkDeposit = deposit_dapdf env cfg sc t rec bandCount (\<lambda>_. launchEnergy),
       hkRain = rain_direct env cfg freqs t rec\<rparr>)"

definition Trace :: "'dir tracer_env \<Rightarrow> ('dir, 'h) RayTracer option \<Rightarrow> (trace_error + trace_result) option" where
  "Trace env ro = (case ro of
     None \<Rightarrow> Some (Inl TracerNil)
   | Some r \<Rightarrow>
     (case rtScene r of
        None \<Rightarrow> Some (Inl TraceSceneNil)
      | Some sc \<Rightarrow>
        if length (Sources sc) \<noteq> 1 then Some (Inl (TraceSources (int (length (Sources sc)))))
        else if length (Receivers sc) \<noteq> 1 then Some (Inl (TraceReceivers (int (length (Receivers sc)))))
        else
          (case check_launch (rtConfig r) of
             Some err \<Rightarrow> Some (Inl err)
           | None \<Rightarrow>
             (let cfg = rtConfig r; bandCount = trace_bands sc; binDuration = bin_duration (rtBinDuration r) in
              case (NewEnergyHistogram (MaxTimeSeconds cfg) binDuration bandCount,
                    fresh_groups (MaxTimeSeconds cfg) binDuration bandCount (rtGroups r)) of
                (Some hist, Some groups) \<Rightarrow>
                  (case sceneTracer sc of
                     Inl err \<Rightarrow> Some (Inl err)
                   | Inr t \<Rightarrow>
                     (let src = hd (Sources sc); rpos = rPosition (hd (Receivers sc));
                          radius = effectiveReceiverRadius (rtReceiverRadius r);
                          rec = \<lparr>srCenter = rpos, srRadius = radius\<rparr>;
                          start = \<lparr>trHistogram = Some hist, trGroups = groups\<rparr> in
                      case LaunchRays (lib env) (sPosition src) cfg of
                        None \<Rightarrow> None
                      | Some rays \<Rightarrow>
                          if rays = [] then Some (Inr start)
                          else
                            (let launchEnergy = calibratedRayLaunchEnergy (lib env) (GainDB src) (sPosition src) rpos radius (int (length rays)) in
                             case those (map (\<lambda>ry. map_option (\<lambda>e. launch_state ry e (Zero False))
                                    (initialRayEnergy (GainLinear env) src (rayDirection ry) launchEnergy bandCount (CenterFreqs (BandSpec sc)))) rays) of
                               None \<Rightarrow> None
                             | Some states \<Rightarrow>
                                 map_option Inr (trace_loop (ray_env.truncate env)
                                   (trace_hooks env cfg sc t rec bandCount launchEnergy) cfg sc t bandCount (rev states) 0 start))))
              | _ \<Rightarrow> None))))"

subsection \<open>Surface detectors (surface_trace.go)\<close>

definition detect_surface ::
  "'dir tracer_env \<Rightarrow> LaunchConfig \<Rightarrow> f64 list \<Rightarrow> RayState \<Rightarrow> ray \<Rightarrow> f64 \<Rightarrow> f64 \<Rightarrow>
   EnergyHistogram option list \<Rightarrow> nat \<times> SurfaceReceiver \<Rightarrow> EnergyHistogram option list option" where
  "detect_surface env cfg freqs state r path segmentLength hists d =
     (case surface_Intersects (snd d) r wallEpsilon (fadd segmentLength wallEpsilon) of
        None \<Rightarrow> Some hists
      | Some tHit \<Rightarrow>
          (let arrivalTime = fdiv (fadd path tHit) (SpeedOfSound cfg) in
           if fle arrivalTime (MaxTimeSeconds cfg)
           then map_option (\<lambda>h. hists[fst d := h])
             (hist_Add (hists ! fst d) arrivalTime (attenuateEnergyByAir (lib env) (Energy state) freqs tHit))
           else Some hists))"

definition surface_deposit ::
  "int \<Rightarrow> EnergyHistogram option list \<Rightarrow> deposit \<Rightarrow> EnergyHistogram option list option" where
  "surface_deposit bandCount hists d =
     (if 0 \<le> dpSurface d \<and> dpSurface d < int (length hists)
      then (case oneBandEnergy bandCount (dpBand d) (dpEnergy d) of
              None \<Rightarrow> None
            | Some energy \<Rightarrow> map_option (\<lambda>h. hists[nat (dpSurface d) := h]) (hist_Add (hists ! nat (dpSurface d)) (dpTime d) energy))
      else Some hists)"

definition surface_rain ::
  "'dir tracer_env \<Rightarrow> LaunchConfig \<Rightarrow> f64 list \<Rightarrow> Tracer \<Rightarrow> vec3 \<Rightarrow> vec3 \<Rightarrow> f64 list \<Rightarrow> f64 list \<Rightarrow> f64 \<Rightarrow>
   EnergyHistogram option list \<Rightarrow> nat \<times> SurfaceReceiver \<Rightarrow> EnergyHistogram option list option" where
  "surface_rain env cfg freqs t hitPoint incidentNormal remaining scattering path hists d =
     (case computeSurfaceRain (lib env) t (snd d) freqs (SpeedOfSound cfg) hitPoint incidentNormal remaining scattering path of
        None \<Rightarrow> Some hists
      | Some rain \<Rightarrow>
          if fle (ArrivalTime rain) (MaxTimeSeconds cfg)
          then map_option (\<lambda>h. hists[fst d := h]) (hist_Add (hists ! fst d) (ArrivalTime rain) (rainEnergy rain))
          else Some hists)"

definition surface_hooks ::
  "'dir tracer_env \<Rightarrow> LaunchConfig \<Rightarrow> ('dir, 'h) scene \<Rightarrow> Tracer \<Rightarrow> SurfaceReceiver list \<Rightarrow> int \<Rightarrow> f64 \<Rightarrow>
   EnergyHistogram option list hooks" where
  "surface_hooks env cfg sc t detectors bandCount launchEnergy =
     (let freqs = CenterFreqs (BandSpec sc); indexed = enumerate 0 detectors in
      \<lparr>hkSkip = (\<lambda>_. False), hkMaxPath = (\<lambda>_. fmul (MaxTimeSeconds cfg) (SpeedOfSound cfg)),
       hkDetect = (\<lambda>state r path segmentLength hists. opt_foldl (detect_surface env cfg freqs state r path segmentLength) hists indexed),
       hkEdges = diffractionEdgeIndex env cfg sc, hkSpawnEnergy = (\<lambda>_. launchEnergy),
       hkDeposit = (\<lambda>state r segmentLength hists.
         case dapdfRainForSegment (lib env) state r segmentLength (diffractionEdgeIndex env cfg sc) t None detectors cfg freqs launchEnergy of
           None \<Rightarrow> None
         | Some deposits \<Rightarrow>
             map_option (\<lambda>hists'. (hists', deposits \<noteq> [])) (opt_foldl (surface_deposit bandCount) hists deposits)),
       hkRain = (\<lambda>state hitPoint incidentNormal remaining scattering path hists.
         opt_foldl (surface_rain env cfg freqs t hitPoint incidentNormal remaining scattering path) hists indexed)\<rparr>)"

fun check_detectors :: "SurfaceReceiver list \<Rightarrow> nat \<Rightarrow> trace_error option" where
  "check_detectors [] k = None"
| "check_detectors (d # ds) k =
     (if length (sfPolygon d) < 3 \<or> fle (sfArea d) (Zero False) \<or> vec3_eq (sfNormal d) Vec3Zero
      then Some (SurfaceInvalid k) else check_detectors ds (Suc k))"

definition TraceSurfaces ::
  "'dir tracer_env \<Rightarrow> ('dir, 'h) RayTracer option \<Rightarrow> SurfaceReceiver list \<Rightarrow>
   (trace_error + EnergyHistogram option list) option" where
  "TraceSurfaces env ro detectors = (case ro of
     None \<Rightarrow> Some (Inl TracerNil)
   | Some r \<Rightarrow>
     (case rtScene r of
        None \<Rightarrow> Some (Inl TraceSceneNil)
      | Some sc \<Rightarrow>
        if length (Sources sc) \<noteq> 1 then Some (Inl (TraceSources (int (length (Sources sc)))))
        else
          (case check_launch (rtConfig r) of
             Some err \<Rightarrow> Some (Inl err)
           | None \<Rightarrow>
             (case check_detectors detectors 0 of
                Some err \<Rightarrow> Some (Inl err)
              | None \<Rightarrow>
                (let cfg = rtConfig r; bandCount = trace_bands sc; binDuration = bin_duration (rtBinDuration r) in
                 case those (map (\<lambda>_. NewEnergyHistogram (MaxTimeSeconds cfg) binDuration bandCount) detectors) of
                   None \<Rightarrow> None
                 | Some hists \<Rightarrow>
                   (case sceneTracer sc of
                      Inl err \<Rightarrow> Some (Inl err)
                    | Inr t \<Rightarrow>
                      (let src = hd (Sources sc); start = map Some hists in
                       case LaunchRays (lib env) (sPosition src) cfg of
                         None \<Rightarrow> None
                       | Some rays \<Rightarrow>
                           if rays = [] then Some (Inr start)
                           else
                             (let launchEnergy = fdiv (mPow (lib env) (round64 10) (fdiv (GainDB src) (round64 10))) (f64_of_int (int (length rays))) in
                              case those (map (\<lambda>ry. map_option (\<lambda>e. launch_state ry e (Zero False))
                                     (initialRayEnergy (GainLinear env) src (rayDirection ry) launchEnergy bandCount (CenterFreqs (BandSpec sc)))) rays) of
                                None \<Rightarrow> None
                              | Some states \<Rightarrow>
                                  map_option Inr (trace_loop (ray_env.truncate env)
                                    (surface_hooks env cfg sc t detectors bandCount launchEnergy) cfg sc t bandCount (rev states) 0 start))))))))) "

subsection \<open>Secondary sources (secondary.go)\<close>

definition detect_secondary ::
  "'dir tracer_env \<Rightarrow> LaunchConfig \<Rightarrow> f64 list \<Rightarrow> SphereReceiver \<Rightarrow> RayState \<Rightarrow> ray \<Rightarrow> f64 \<Rightarrow> f64 \<Rightarrow> trace_result \<Rightarrow> trace_result option" where
  "detect_secondary env cfg freqs rec state r path segmentLength res =
     (case sphere_Intersects rec r wallEpsilon segmentLength of
        None \<Rightarrow> Some res
      | Some tHit \<Rightarrow>
          if \<not> DetectionAllowedHybrid state (HybridDetection cfg) then Some res
          else
            (let arrivalTime = fadd (DelaySeconds state) (fdiv (fadd path tHit) (SpeedOfSound cfg)) in
             if fle arrivalTime (MaxTimeSeconds cfg)
             then add_deposit env arrivalTime (attenuateEnergyByAir (lib env) (Energy state) freqs tHit)
               (vec3_Scale (rayDirection r) (round64 (- 1))) res
             else Some res))"

definition rain_secondary ::
  "'dir tracer_env \<Rightarrow> LaunchConfig \<Rightarrow> f64 list \<Rightarrow> Tracer \<Rightarrow> SphereReceiver \<Rightarrow>
   RayState \<Rightarrow> vec3 \<Rightarrow> vec3 \<Rightarrow> f64 list \<Rightarrow> f64 list \<Rightarrow> f64 \<Rightarrow> trace_result \<Rightarrow> trace_result option" where
  "rain_secondary env cfg freqs t rec state hitPoint incidentNormal remaining scattering path res =
     (case computeDiffuseRain (lib env) t rec freqs (SpeedOfSound cfg) hitPoint incidentNormal remaining scattering path of
        None \<Rightarrow> Some res
      | Some rain \<Rightarrow>
          (let arrivalTime = fadd (DelaySeconds state) (ArrivalTime rain) in
           if fle arrivalTime (MaxTimeSeconds cfg)
           then add_deposit env arrivalTime (rainEnergy rain) (vec3_Sub hitPoint (srCenter rec)) res
           else Some res))"

definition secondary_path :: "LaunchConfig \<Rightarrow> RayState \<Rightarrow> f64" where
  "secondary_path cfg state = fmul (fsub (MaxTimeSeconds cfg) (DelaySeconds state)) (SpeedOfSound cfg)"

definition secondary_hooks ::
  "'dir tracer_env \<Rightarrow> LaunchConfig \<Rightarrow> ('dir, 'h) scene \<Rightarrow> Tracer \<Rightarrow> SphereReceiver \<Rightarrow> int \<Rightarrow> trace_result hooks" where
  "secondary_hooks env cfg sc t rec bandCount =
     (let freqs = CenterFreqs (BandSpec sc) in
      \<lparr>hkSkip = (\<lambda>state. fle (secondary_path cfg state) (Zero False)), hkMaxPath = secondary_path cfg,
       hkDetect = detect_secondary env cfg freqs rec, hkEdges = diffractionEdgeIndex env cfg sc,
       hkSpawnEnergy = (\<lambda>state. maxEnergy (Energy state)),
       hkDeposit = deposit_dapdf env cfg sc t rec bandCount (\<lambda>state. maxEnergy (Energy state)),
       hkRain = rain_secondary env cfg freqs t rec\<rparr>)"

fun check_energies :: "f64 list \<Rightarrow> nat \<Rightarrow> nat option" where
  "check_energies [] k = None"
| "check_energies (e # es) k =
     (if is_nan e \<or> is_inf e \<or> flt e (Zero False) then Some k else check_energies es (Suc k))"

definition validateEnergyEmission :: "nat \<Rightarrow> EnergyEmission \<Rightarrow> int \<Rightarrow> trace_error option" where
  "validateEnergyEmission k e bandCount =
     (if is_nan (eeTimeSeconds e) \<or> is_inf (eeTimeSeconds e) \<or> flt (eeTimeSeconds e) (Zero False) then Some (EmissionTime k)
      else if \<not> isFiniteVec3 (eePosition e) then Some (EmissionPosition k)
      else if int (length (BandEnergyOf e)) \<noteq> bandCount then Some (EmissionBands k (int (length (BandEnergyOf e))) bandCount)
      else map_option (EmissionEnergy k) (check_energies (BandEnergyOf e) 0))"

fun check_emissions :: "EnergyEmission list \<Rightarrow> nat \<Rightarrow> int \<Rightarrow> trace_error option" where
  "check_emissions [] k bandCount = None"
| "check_emissions (e # es) k bandCount =
     (case validateEnergyEmission k e bandCount of Some err \<Rightarrow> Some err | None \<Rightarrow> check_emissions es (Suc k) bandCount)"

text \<open>\<open>math.Mod(x, 1)\<close>, and the binary search of \<open>sort.SearchFloat64s\<close>.\<close>

definition mod_one :: "f64 \<Rightarrow> f64" where
  "mod_one a = (case a of
     Num x \<Rightarrow> (let r = x - of_int (truncate_real x) in if r = 0 then Zero (x < 0) else Num r)
   | Zero s \<Rightarrow> Zero s
   | _ \<Rightarrow> NaN)"

function search_floats :: "f64 list \<Rightarrow> f64 \<Rightarrow> nat \<Rightarrow> nat \<Rightarrow> nat" where
  "search_floats xs x i j =
     (if i < j
      then (let h = (i + j) div 2 in
            if fle x (xs ! h) then search_floats xs x i h else search_floats xs x (Suc h) j)
      else i)"
  by pat_completeness auto
termination by (relation "measure (\<lambda>(xs, x, i, j). j - i)") auto

declare search_floats.simps [simp del]

definition SearchFloat64s :: "f64 list \<Rightarrow> f64 \<Rightarrow> nat" where
  "SearchFloat64s xs x = search_floats xs x 0 (length xs)"

definition emission_weight :: "LaunchConfig \<Rightarrow> EnergyEmission \<Rightarrow> f64" where
  "emission_weight cfg e =
     (if fle (MaxTimeSeconds cfg) (eeTimeSeconds e) then Zero False else foldl fadd (Zero False) (BandEnergyOf e))"

text \<open>The whole adds the weights of the emissions that are not skipped.\<close>

definition total_weight :: "LaunchConfig \<Rightarrow> EnergyEmission list \<Rightarrow> f64" where
  "total_weight cfg es =
     foldl (\<lambda>whole e. if fle (MaxTimeSeconds cfg) (eeTimeSeconds e) then whole else fadd whole (emission_weight cfg e))
       (Zero False) es"

fun cumulate :: "f64 \<Rightarrow> f64 \<Rightarrow> f64 list \<Rightarrow> f64 list" where
  "cumulate whole acc [] = []"
| "cumulate whole acc (w # ws) = (let c = fadd acc (fdiv w whole) in c # cumulate whole c ws)"

definition secondary_ray ::
  "libm \<Rightarrow> EnergyEmission list \<Rightarrow> f64 list \<Rightarrow> f64 \<Rightarrow> f64 list \<Rightarrow> vec3 \<Rightarrow> f64 \<Rightarrow> int \<Rightarrow> int \<Rightarrow> nat \<Rightarrow> vec3 \<Rightarrow>
   RayState list option" where
  "secondary_ray lm es weights whole cumulative rpos radius bandCount rayCount k direction =
     (let quantile = mod_one (fmul (fadd (f64_of_int (int k)) (round64 (1 / 2))) (round64 (6180339887498949 / 10 ^ 16)));
          found = SearchFloat64s cumulative quantile;
          i = (if length es \<le> found then length es - 1 else found);
          e = es ! i; probability = fdiv (weights ! i) whole in
      if fle probability (Zero False) then Some []
      else
        (let base = calibratedRayLaunchEnergy lm (Zero False) (eePosition e) rpos radius rayCount in
         map_option (\<lambda>energy.
             [launch_state (NewRay (eePosition e) direction)
                (map (\<lambda>b. fdiv (fmul base (BandEnergyOf e ! b)) probability) [0..<length energy]) (eeTimeSeconds e)])
           (make_floats bandCount)))"

definition secondaryLaunchStates ::
  "libm \<Rightarrow> EnergyEmission list \<Rightarrow> LaunchConfig \<Rightarrow> vec3 \<Rightarrow> f64 \<Rightarrow> int \<Rightarrow> RayState list option" where
  "secondaryLaunchStates lm es cfg rpos radius bandCount =
     (let weights = map (emission_weight cfg) es; whole = total_weight cfg es in
      if fle whole (Zero False) \<or> NumRays cfg \<le> 0 then Some []
      else
        (case FibonacciSphere lm (NumRays cfg) of
           None \<Rightarrow> None
         | Some directions \<Rightarrow>
             (let cumulative = (cumulate whole (Zero False) weights)[length weights - 1 := round64 1] in
              map_option concat (those (map (\<lambda>(k, d).
                secondary_ray lm es weights whole cumulative rpos radius bandCount (int (length directions)) k d)
                (enumerate 0 directions))))))"

definition TraceSecondary ::
  "'dir tracer_env \<Rightarrow> ('dir, 'h) RayTracer option \<Rightarrow> EnergyEmission list \<Rightarrow> (trace_error + trace_result) option" where
  "TraceSecondary env ro emissions = (case ro of
     None \<Rightarrow> Some (Inl TracerNil)
   | Some r \<Rightarrow>
     (case rtScene r of
        None \<Rightarrow> Some (Inl TraceSceneNil)
      | Some sc \<Rightarrow>
        if length (Receivers sc) \<noteq> 1 then Some (Inl (TraceReceivers (int (length (Receivers sc)))))
        else
          (case check_launch (rtConfig r) of
             Some err \<Rightarrow> Some (Inl err)
           | None \<Rightarrow>
             (let cfg = rtConfig r; bandCount = trace_bands sc; binDuration = bin_duration (rtBinDuration r) in
              case check_emissions emissions 0 bandCount of
                Some err \<Rightarrow> Some (Inl err)
              | None \<Rightarrow>
                (case (NewEnergyHistogram (MaxTimeSeconds cfg) binDuration bandCount,
                       fresh_groups (MaxTimeSeconds cfg) binDuration bandCount (rtGroups r)) of
                   (Some hist, Some groups) \<Rightarrow>
                     (let rpos = rPosition (hd (Receivers sc)); radius = effectiveReceiverRadius (rtReceiverRadius r);
                          start = \<lparr>trHistogram = Some hist, trGroups = groups\<rparr> in
                      case secondaryLaunchStates (lib env) emissions cfg rpos radius bandCount of
                        None \<Rightarrow> None
                      | Some states \<Rightarrow>
                          if states = [] then Some (Inr start)
                          else
                            (case sceneTracer sc of
                               Inl err \<Rightarrow> Some (Inl err)
                             | Inr t \<Rightarrow>
                                 map_option Inr (trace_loop (ray_env.truncate env)
                                   (secondary_hooks env cfg sc t \<lparr>srCenter = rpos, srRadius = radius\<rparr> bandCount)
                                   cfg sc t bandCount (rev states) 0 start)))
                 | _ \<Rightarrow> None)))))"

end
