(* ===== verification/Ray_Invariants.thy ===== *)
theory Ray_Invariants
  imports Ray_Loop
begin

text \<open>
  The contract between the propagation loop and what is said about its particles and results: an
  invariant of particle states that every event of a particle keeps, and an invariant of the results
  that every deposit keeps. The loop then keeps both, whatever it traces; and when no deposit
  panics, the loop returns.
\<close>

definition wall_absorption :: "('dir, 'h) scene \<Rightarrow> int \<Rightarrow> nat \<Rightarrow> f64 list" where
  "wall_absorption sc w k = map (\<lambda>i. AbsorptionAt (sceneMaterialForWall sc w) (int i)) [0..<k]"

locale propagation =
  fixes env :: ray_env and hk :: "'a hooks" and cfg :: LaunchConfig and sc :: "('dir, 'h) scene" and t :: Tracer
    and bands :: int and I :: "RayState \<Rightarrow> bool" and R :: "'a \<Rightarrow> bool"
  assumes attenuated: "I s \<Longrightarrow> \<not> fle d (Zero False) \<Longrightarrow>
      I (s\<lparr>Energy := attenuateEnergyByAir (lib env) (Energy s) (CenterFreqs (BandSpec sc)) d\<rparr>)"
    and reflected: "I s \<Longrightarrow> splitReflectionEnergy (Energy s) (wall_absorption sc w k) scat = (se, de, re) \<Longrightarrow>
      I (advanceStateAfterReflection (s\<lparr>Energy := re\<rparr>) diffuse)"
    and roulette: "I s \<Longrightarrow> lcReflectionStrategy cfg = ReflectionStrategyRussianRoulette \<Longrightarrow>
      splitReflectionEnergy (Energy s) (wall_absorption sc w k) scat = (se, de, re) \<Longrightarrow>
      russianRouletteEnergy (drawn_number env) (if diffuse then de else se) (EnergyTerminationThreshold cfg) n = (Some e, n') \<Longrightarrow>
      I ((reflectedChildState s diffuse)\<lparr>RainCovered := rc, rsRay := ry, Energy := e, PathLength := l, Bounces := b\<rparr>)"
    and emptied: "I s \<Longrightarrow> I (s\<lparr>Energy := []\<rparr>)"
    and spawned: "I s \<Longrightarrow> effectiveDiffractionMode cfg = DiffractionKellerCone \<Longrightarrow> spawned_from s c \<Longrightarrow> I c"
    and diffracted: "I s \<Longrightarrow> effectiveDiffractionMode cfg = DiffractionDAPDFRain \<Longrightarrow> I (advanceStateAfterDiffraction s)"
    and detected: "I s \<Longrightarrow> R res \<Longrightarrow> hkDetect hk s r path seg res = Some res' \<Longrightarrow> R res'"
    and deposited: "I s \<Longrightarrow> R res \<Longrightarrow> effectiveDiffractionMode cfg = DiffractionDAPDFRain \<Longrightarrow>
      hkDeposit hk s r seg res = Some (res', any) \<Longrightarrow> R res'"
    and rained: "I s \<Longrightarrow> R res \<Longrightarrow> DiffuseRain cfg \<Longrightarrow> hkRain hk s hp nrm e scat path res = Some res' \<Longrightarrow> R res'"
begin

definition particle_ok :: "'a particle \<Rightarrow> bool" where
  "particle_ok p \<longleftrightarrow> I (pState p) \<and> R (pResult p) \<and> (\<forall>c \<in> set (pPushed p). I c)"

lemma diffract_ok:
  assumes "diffract_step env hk cfg fr p hp sl = Some p'" "particle_ok p"
  shows "particle_ok p'"
proof (cases "effectiveDiffractionMode cfg")
  case DiffractionDisabled
  with assms show ?thesis by (simp add: diffract_step_def)
next
  case DiffractionKellerCone
  let ?sp = "spawnDiffractionBranches (lib env) (drawn_number env) (hkEdges hk) cfg fr
     (hkSpawnEnergy hk (pState p)) (pState p) (pRay p) hp sl (pDrawn p)"
  have "I c" if "c \<in> set (fst ?sp)" for c
  proof -
    have "spawned_from (pState p) c" using spawned_from_state [of "pState p"] that unfolding all_spawned_def by blast
    with assms(2) DiffractionKellerCone show ?thesis by (auto simp: particle_ok_def intro: spawned)
  qed
  with assms DiffractionKellerCone show ?thesis by (cases ?sp) (auto simp: diffract_step_def particle_ok_def)
next
  case DiffractionDAPDFRain
  with assms show ?thesis by (auto simp: diffract_step_def particle_ok_def intro: diffracted deposited)
qed

lemma reflect_ok:
  assumes "particle_ok p" "splitReflectionEnergy (Energy (pState p)) (wall_absorption sc w k) scat = parts"
  shows "particle_ok (reflect_step env cfg bounce hp side scat' parts p)"
proof -
  obtain se de re where parts: "parts = (se, de, re)" by (cases parts)
  have ok: "I (pState p)" "R (pResult p)" "\<And>c. c \<in> set (pPushed p) \<Longrightarrow> I c"
    using assms(1) by (auto simp: particle_ok_def)
  note re = reflected [OF ok(1) assms(2) [unfolded parts]]
  obtain dd n where L: "LambertDirection (lib env) (drawn_number env) side (pDrawn p) = (dd, n)" by fastforce
  show ?thesis
  proof (cases "lcReflectionStrategy cfg")
    case ReflectionStrategyProbabilistic
    with ok re L show ?thesis by (auto simp: reflect_step_def particle_ok_def parts Let_def split: prod.splits)
  next
    case ReflectionStrategyDeterministicBlend
    with ok re L show ?thesis by (auto simp: reflect_step_def particle_ok_def parts Let_def)
  next
    case rr: ReflectionStrategyRussianRoulette
    obtain sb n1 where s: "russianRouletteEnergy (drawn_number env) se (EnergyTerminationThreshold cfg) n = (sb, n1)" by fastforce
    obtain db n2 where d: "russianRouletteEnergy (drawn_number env) de (EnergyTerminationThreshold cfg) n1 = (db, n2)" by fastforce
    note child = roulette [OF ok(1) rr assms(2) [unfolded parts]]
    have "I c" if "c \<in> set (roulette_child cfg bounce (pPath p) (pState p) hp dir False sb)" for c dir
      using that child [where diffuse = False] s by (auto simp: roulette_child_def split: option.splits)
    moreover have "I c" if "c \<in> set (roulette_child cfg bounce (pPath p) (pState p) hp dir True db)" for c dir
      using that child [where diffuse = True] d by (auto simp: roulette_child_def split: option.splits)
    ultimately show ?thesis
      using rr ok emptied [OF ok(1)] L s d by (auto simp: reflect_step_def particle_ok_def parts Let_def)
  qed
qed

lemma wall_ok:
  assumes "wall_step env hk cfg sc bands bounce hp nrm w sl p = Some (p', again)" "particle_ok p" "\<not> fle sl (Zero False)"
  shows "particle_ok p'"
  using assms(1)
proof (cases rule: wall_step_cases)
  case (1 energy k scattering parts side res)
  let ?s = "(pState p)\<lparr>Energy := energy\<rparr>"
  have ok: "I (pState p)" "R (pResult p)" "\<forall>c \<in> set (pPushed p). I c" using assms(2) by (auto simp: particle_ok_def)
  have i: "I ?s" unfolding 1(1) by (rule attenuated [OF ok(1) assms(3)])
  have "R res" using 1(3) rained [OF i ok(2)] ok(2) by (auto split: if_splits)
  with i ok have "particle_ok (p\<lparr>pState := ?s, pResult := res\<rparr>)" by (simp add: particle_ok_def)
  then show ?thesis unfolding 1(4) by (rule reflect_ok) (simp add: 1(2) wall_absorption_def)
qed

lemma bounce_ok:
  assumes "bounce_step env hk cfg sc t bands mp bounce p = Some (p', again)" "particle_ok p"
  shows "particle_ok p'"
  using assms(1)
proof (cases rule: bounce_step_cases)
  case 1
  with assms(2) show ?thesis by simp
next
  case (2 res hp nrm w sl p1)
  have ok: "I (pState p)" "R (pResult p)" using assms(2) by (auto simp: particle_ok_def)
  have "R res"
  proof (cases "pCovered p")
    case True
    with 2(4) ok(2) show ?thesis by simp
  next
    case False
    with 2(4) show ?thesis by (intro detected [OF ok]) simp
  qed
  then have "particle_ok (p\<lparr>pResult := res\<rparr>)" using assms(2) by (simp add: particle_ok_def)
  then have "particle_ok p1" by (rule diffract_ok [OF 2(5)])
  then have p2: "particle_ok (p1\<lparr>pPath := fadd (pPath p1) sl\<rparr>)" by (simp add: particle_ok_def)
  from 2(6) show ?thesis
  proof (elim disjE conjE)
    assume "p' = p1\<lparr>pPath := fadd (pPath p1) sl\<rparr>"
    with p2 show ?thesis by simp
  next
    assume "wall_step env hk cfg sc bands bounce hp nrm w sl (p1\<lparr>pPath := fadd (pPath p1) sl\<rparr>) = Some (p', again)"
    then show ?thesis by (rule wall_ok [OF _ p2 2(3)])
  qed
qed

lemma bounce_loop_ok:
  assumes "bounce_loop env hk cfg sc t bands mp bounce p = Some p'" "particle_ok p"
  shows "particle_ok p'"
proof -
  have "particle_ok p'" if "nat (MaxBounces cfg + 1 - bounce) = k"
      "bounce_loop env hk cfg sc t bands mp bounce p = Some p'" "particle_ok p" for k bounce p
    using that
  proof (induction k arbitrary: bounce p)
    case 0
    then show ?case by (simp add: bounce_loop.simps [of env hk cfg sc t bands mp bounce p])
  next
    case (Suc k)
    then obtain q again where q: "bounce_step env hk cfg sc t bands mp bounce p = Some (q, again)"
      by (auto simp: bounce_loop.simps [of env hk cfg sc t bands mp bounce p] split: option.splits if_splits)
    have ok: "particle_ok q" by (rule bounce_ok [OF q Suc.prems(3)])
    show ?case
    proof (cases again)
      case True
      with q Suc.prems have "bounce_loop env hk cfg sc t bands mp (bounce + 1) q = Some p'"
        by (simp add: bounce_loop.simps [of env hk cfg sc t bands mp bounce p] split: if_splits)
      then show ?thesis by (rule Suc.IH [rotated]) (use Suc.prems(1) ok in auto)
    next
      case False
      with q Suc.prems ok show ?thesis
        by (simp add: bounce_loop.simps [of env hk cfg sc t bands mp bounce p] split: if_splits)
    qed
  qed
  with assms show ?thesis by blast
qed

lemma trace_one_ok:
  assumes "trace_one env hk cfg sc t bands s n res = Some p" "I s" "R res"
  shows "particle_ok p"
proof -
  have "particle_ok (popped s n res)" using assms by (simp add: particle_ok_def popped_def)
  with assms(1) bounce_loop_ok show ?thesis by (auto simp: trace_one_def split: if_splits)
qed

lemma trace_loop_ok:
  assumes "trace_loop env hk cfg sc t bands states n res = Some res'" "\<forall>s \<in> set states. I s" "R res"
  shows "R res'"
proof -
  have "wf (inv_image stack_order (\<lambda>states. (cfg, states)))" by (intro wf_inv_image wf_stack_order)
  then show ?thesis
    using assms
  proof (induction states arbitrary: n res rule: wf_induct_rule)
    case (less states)
    show ?case
    proof (cases states)
      case Nil
      with less.prems show ?thesis by simp
    next
      case (Cons s rest)
      with less.prems(1) obtain p where p: "trace_one env hk cfg sc t bands s n res = Some p"
        and nx: "trace_loop env hk cfg sc t bands (rev (pPushed p) @ rest) (pDrawn p) (pResult p) = Some res'"
        by (auto split: option.splits)
      have ok: "particle_ok p" by (rule trace_one_ok [OF p]) (use less.prems Cons in auto)
      show ?thesis
        by (rule less.IH [OF _ nx]) (use ok less.prems Cons stack_decreases [OF p] in \<open>auto simp: particle_ok_def\<close>)
    qed
  qed
qed

end

locale total_propagation = propagation +
  assumes bands_fit: "R res \<Longrightarrow> make_floats bands \<noteq> None"
    and detect_total: "I s \<Longrightarrow> R res \<Longrightarrow> hkDetect hk s r path seg res \<noteq> None"
    and deposit_total: "I s \<Longrightarrow> R res \<Longrightarrow> hkDeposit hk s r seg res \<noteq> None"
    and rain_total: "I s \<Longrightarrow> R res \<Longrightarrow> hkRain hk s hp nrm e scat path res \<noteq> None"
begin

lemma case_total: "x \<noteq> None \<Longrightarrow> \<exists>y. (case x of None \<Rightarrow> None | Some r \<Rightarrow> Some (f r)) = Some y"
  by auto

lemma wall_total:
  assumes "particle_ok p" "\<not> fle sl (Zero False)"
  shows "\<exists>x. wall_step env hk cfg sc bands bounce hp nrm w sl p = Some x"
proof -
  let ?s = "(pState p)\<lparr>Energy := attenuateEnergyByAir (lib env) (Energy (pState p)) (CenterFreqs (BandSpec sc)) sl\<rparr>"
  have "I ?s" "R (pResult p)" using assms attenuated by (auto simp: particle_ok_def)
  then have "hkRain hk ?s a b c d e (pResult p) \<noteq> None" for a b c d e by (rule rain_total)
  then have rain: "(if DiffuseRain cfg then hkRain hk ?s a b c d e (pResult p) else Some (pResult p)) \<noteq> None" for a b c d e
    by simp
  obtain zeros where "make_floats bands = Some zeros" using bands_fit [of "pResult p"] assms(1) by (auto simp: particle_ok_def)
  with rain show ?thesis unfolding wall_step_def Let_def by (simp only: option.case) (rule case_total)
qed

lemma bounce_total:
  assumes "particle_ok p"
  shows "\<exists>x. bounce_step env hk cfg sc t bands mp bounce p = Some x"
proof (cases "NextHit t (pRay p)")
  case None
  then have "bounce_step env hk cfg sc t bands mp bounce p = Some (p, False)" by (simp add: bounce_step_def)
  then show ?thesis by blast
next
  case (Some hit)
  then obtain hp nrm w where hit: "NextHit t (pRay p) = Some (hp, nrm, w)" by (cases hit) auto
  let ?sl = "vec3_Distance (rayOrigin (pRay p)) hp"
  have ok: "I (pState p)" "R (pResult p)" using assms by (auto simp: particle_ok_def)
  obtain res where res: "(if pCovered p then Some (pResult p) else hkDetect hk (pState p) (pRay p) (pPath p) ?sl (pResult p)) = Some res" "R res"
    using detect_total [OF ok] detected [OF ok] ok(2) by (cases "pCovered p") fastforce+
  have p1: "particle_ok (p\<lparr>pResult := res\<rparr>)" using assms res(2) by (simp add: particle_ok_def)
  have "diffract_step env hk cfg fr (p\<lparr>pResult := res\<rparr>) hp ?sl \<noteq> None" for fr
    using deposit_total [OF ok(1) res(2)] by (auto simp: diffract_step_def split: DiffractionMode.splits prod.splits)
  then obtain q where q: "diffract_step env hk cfg (CenterFreqs (BandSpec sc)) (p\<lparr>pResult := res\<rparr>) hp ?sl = Some q" by blast
  from diffract_ok [OF q p1] have "particle_ok (q\<lparr>pPath := l\<rparr>)" for l by (simp add: particle_ok_def)
  note total = wall_total [OF this]
  let ?p2 = "q\<lparr>pPath := fadd (pPath q) ?sl\<rparr>"
  have "bounce_step env hk cfg sc t bands mp bounce p =
      (if fle mp (pPath p) \<or> fle ?sl (Zero False) then Some (p, False)
       else if fle mp (pPath ?p2) then Some (?p2, False)
       else wall_step env hk cfg sc bands bounce hp nrm w ?sl ?p2)"
    unfolding bounce_step_def Let_def hit option.case prod.case res(1) q by simp
  then show ?thesis using total [of ?sl bounce hp nrm w "fadd (pPath q) ?sl"] by (metis (full_types))
qed

lemma bounce_loop_total:
  assumes "particle_ok p"
  shows "\<exists>p'. bounce_loop env hk cfg sc t bands mp bounce p = Some p'"
proof -
  have "\<exists>p'. bounce_loop env hk cfg sc t bands mp bounce p = Some p'"
    if "nat (MaxBounces cfg + 1 - bounce) = k" "particle_ok p" for k bounce p
    using that
  proof (induction k arbitrary: bounce p)
    case 0
    then show ?case by (simp add: bounce_loop.simps [of env hk cfg sc t bands mp bounce p])
  next
    case (Suc k)
    obtain q again where q: "bounce_step env hk cfg sc t bands mp bounce p = Some (q, again)"
      using bounce_total [OF Suc.prems(2), of mp bounce] by fastforce
    have "\<exists>p'. bounce_loop env hk cfg sc t bands mp (bounce + 1) q = Some p'"
      by (rule Suc.IH) (use Suc.prems bounce_ok [OF q] in auto)
    with q show ?case by (simp add: bounce_loop.simps [of env hk cfg sc t bands mp bounce p])
  qed
  with assms show ?thesis by blast
qed

lemma trace_loop_total:
  assumes "\<forall>s \<in> set states. I s" "R res"
  shows "\<exists>res'. trace_loop env hk cfg sc t bands states n res = Some res'"
proof -
  have "wf (inv_image stack_order (\<lambda>states. (cfg, states)))" by (intro wf_inv_image wf_stack_order)
  then show ?thesis
    using assms
  proof (induction states arbitrary: n res rule: wf_induct_rule)
    case (less states)
    show ?case
    proof (cases states)
      case (Cons s rest)
      have start: "particle_ok (popped s n res)" using less.prems Cons by (simp add: particle_ok_def popped_def)
      obtain q where "bounce_loop env hk cfg sc t bands (hkMaxPath hk s) (Bounces s) (popped s n res) = Some q"
        using bounce_loop_total [OF start] by blast
      then obtain p where p: "trace_one env hk cfg sc t bands s n res = Some p"
        unfolding trace_one_def by (cases "fle (maxEnergy (Energy s)) (EnergyTerminationThreshold cfg) \<or> hkSkip hk s") simp_all
      have ok: "particle_ok p" by (rule trace_one_ok [OF p]) (use less.prems Cons in auto)
      have "\<exists>res'. trace_loop env hk cfg sc t bands (rev (pPushed p) @ rest) (pDrawn p) (pResult p) = Some res'"
        by (rule less.IH) (use ok less.prems Cons stack_decreases [OF p] in \<open>auto simp: particle_ok_def\<close>)
      with Cons p show ?thesis by simp
    qed simp
  qed
qed

end

end
