(* ===== verification/Ray_Laws.thy ===== *)
theory Ray_Laws
  imports Ray_Tracing Ray_Invariants
begin

text \<open>
  What the tracers keep: the counters of a particle are those of its history of reflections and
  diffractions, its energy never exceeds what it was launched with, and the results are a replay of
  deposits. Each is an instance of the propagation contract, on the hooks of \<open>Trace\<close> and
  \<open>TraceSecondary\<close>.
\<close>

subsection \<open>Histories\<close>

datatype ray_event = Reflected bool | Diffracted

text \<open>The events of a particle, oldest first; \<open>True\<close> marks a diffuse reflection.\<close>

definition reflections :: "ray_event list \<Rightarrow> int" where
  "reflections h = int (length (filter (\<lambda>e. e \<noteq> Diffracted) h))"

definition diffractions :: "ray_event list \<Rightarrow> int" where
  "diffractions h = int (length (filter (\<lambda>e. e = Diffracted) h))"

definition before_edge :: "ray_event list \<Rightarrow> ray_event list" where
  "before_edge h = takeWhile (\<lambda>e. e \<noteq> Diffracted) h"

definition after_edge :: "ray_event list \<Rightarrow> ray_event list" where
  "after_edge h = dropWhile (\<lambda>e. e \<noteq> Diffracted) h"

definition counts_history :: "ray_event list \<Rightarrow> RayState \<Rightarrow> bool" where
  "counts_history h s \<longleftrightarrow> ReflectionOrder s = reflections h \<and> EDOrder s = diffractions h \<and>
     PreEDReflOrder s = reflections (before_edge h) \<and> EDReflOrder s = reflections (after_edge h) \<and>
     (HasDiffuseHistory s \<longleftrightarrow> Reflected True \<in> set h) \<and>
     (AllowDetection s \<longleftrightarrow> h \<noteq> [] \<and> last h = Reflected False)"

text \<open>The histories whose sound the image-source solver already contributes.\<close>

definition covered :: "HybridDetectionConfig \<Rightarrow> ray_event list \<Rightarrow> bool" where
  "covered cfg h \<longleftrightarrow>
     (if Diffracted \<in> set h
      then Reflected True \<notin> set h \<and> reflections (before_edge h) \<le> MaxPreEDISOrder cfg \<and>
        reflections (after_edge h) \<le> MaxEDISOrder cfg \<and> diffractions h \<le> MaxEDOrder cfg
      else reflections h \<le> MaxISOrder cfg)"

lemma diffractions_zero: "diffractions h = 0 \<longleftrightarrow> Diffracted \<notin> set h"
  by (auto simp: diffractions_def filter_empty_conv)

lemma no_edge: "Diffracted \<notin> set h \<Longrightarrow> before_edge h = h \<and> after_edge h = []"
  by (auto simp: before_edge_def after_edge_def takeWhile_eq_all_conv dropWhile_eq_Nil_conv)

lemma edge_append:
  "Diffracted \<notin> set h \<Longrightarrow> before_edge (h @ g) = h @ before_edge g" "Diffracted \<notin> set h \<Longrightarrow> after_edge (h @ g) = after_edge g"
  "Diffracted \<in> set h \<Longrightarrow> before_edge (h @ g) = before_edge h" "Diffracted \<in> set h \<Longrightarrow> after_edge (h @ g) = after_edge h @ g"
  by (auto simp: before_edge_def after_edge_def takeWhile_append dropWhile_append dropWhile_eq_Nil_conv)

lemma count_simps [simp]:
  "reflections (h @ [Reflected d]) = reflections h + 1" "reflections (h @ [Diffracted]) = reflections h"
  "diffractions (h @ [Reflected d]) = diffractions h" "diffractions (h @ [Diffracted]) = diffractions h + 1"
  "reflections [] = 0" "reflections [Diffracted] = 0" "diffractions [] = 0"
  "before_edge [Reflected d] = [Reflected d]" "after_edge [Reflected d] = []"
  "before_edge [Diffracted] = []" "after_edge [Diffracted] = [Diffracted]" "before_edge [] = []" "after_edge [] = []"
  by (simp_all add: reflections_def diffractions_def before_edge_def after_edge_def)

lemma counts_reflection: "counts_history h s \<Longrightarrow> counts_history (h @ [Reflected d]) (advanceStateAfterReflection s d)"
  using diffractions_zero [of h] no_edge [of h]
  by (cases "Diffracted \<in> set h") (auto simp: counts_history_def advanceStateAfterReflection_def Let_def edge_append)

lemma counts_diffraction: "counts_history h s \<Longrightarrow> counts_history (h @ [Diffracted]) (advanceStateAfterDiffraction s)"
  using no_edge [of h]
  by (cases "Diffracted \<in> set h") (auto simp: counts_history_def advanceStateAfterDiffraction_def edge_append)

lemma counts_fields:
  assumes "counts_history h s" "ReflectionOrder s' = ReflectionOrder s" "EDOrder s' = EDOrder s"
    "PreEDReflOrder s' = PreEDReflOrder s" "EDReflOrder s' = EDReflOrder s"
    "HasDiffuseHistory s' = HasDiffuseHistory s" "AllowDetection s' = AllowDetection s"
  shows "counts_history h s'"
  using assms by (simp add: counts_history_def)

lemma allowed_uncovered:
  "counts_history h s \<Longrightarrow> DetectionAllowedHybrid s cfg \<longleftrightarrow> \<not> Enabled cfg \<or> \<not> covered cfg h"
  by (auto simp: counts_history_def DetectionAllowedHybrid_def covered_def diffractions_zero)

text \<open>The particles a trace can come to: a launched particle, and what flight, reflection, splitting,
  spawning and deflection make of it, each with its history.\<close>

inductive lived :: "ray_env \<Rightarrow> LaunchConfig \<Rightarrow> ('dir, 'h) scene \<Rightarrow> (RayState \<Rightarrow> bool) \<Rightarrow> ray_event list \<Rightarrow> RayState \<Rightarrow> bool"
  for env cfg sc launched where
    launch: "launched s \<Longrightarrow> lived env cfg sc launched [] s"
  | flight: "lived env cfg sc launched h s \<Longrightarrow>
      lived env cfg sc launched h (s\<lparr>Energy := attenuateEnergyByAir (lib env) (Energy s) (CenterFreqs (BandSpec sc)) d\<rparr>)"
  | reflect: "lived env cfg sc launched h s \<Longrightarrow>
      splitReflectionEnergy (Energy s) (wall_absorption sc w k) scat = (se, de, re) \<Longrightarrow>
      lived env cfg sc launched (h @ [Reflected diffuse]) (advanceStateAfterReflection (s\<lparr>Energy := re\<rparr>) diffuse)"
  | divide: "lived env cfg sc launched h s \<Longrightarrow>
      splitReflectionEnergy (Energy s) (wall_absorption sc w k) scat = (se, de, re) \<Longrightarrow>
      russianRouletteEnergy (drawn_number env) (if diffuse then de else se) (EnergyTerminationThreshold cfg) n = (Some e, n') \<Longrightarrow>
      lived env cfg sc launched (h @ [Reflected diffuse])
        ((reflectedChildState s diffuse)\<lparr>RainCovered := rc, rsRay := ry, Energy := e, PathLength := l, Bounces := b\<rparr>)"
  | exhaust: "lived env cfg sc launched h s \<Longrightarrow> lived env cfg sc launched h (s\<lparr>Energy := []\<rparr>)"
  | spawn: "lived env cfg sc launched h s \<Longrightarrow> spawned_from s c \<Longrightarrow> lived env cfg sc launched (h @ [Diffracted]) c"
  | deflect: "lived env cfg sc launched h s \<Longrightarrow> lived env cfg sc launched (h @ [Diffracted]) (advanceStateAfterDiffraction s)"

definition fresh_particle :: "RayState \<Rightarrow> bool" where
  "fresh_particle s \<longleftrightarrow> (\<exists>r e d. s = launch_state r e d)"

lemma counts_Energy: "counts_history h s \<Longrightarrow> counts_history h (s\<lparr>Energy := e\<rparr>)"
  by (erule counts_fields) simp_all

text \<open>The counters of a particle are those of its history.\<close>

lemma lived_counts:
  assumes "lived env cfg sc launched h s" "\<And>s. launched s \<Longrightarrow> fresh_particle s"
  shows "counts_history h s"
  using assms(1)
proof induction
  case (launch s)
  then show ?case using assms(2) [of s] by (auto simp: counts_history_def fresh_particle_def launch_state_def)
next
  case (divide h s w k scat se de re diffuse n e n' rc ry l b)
  show ?case
    by (rule counts_fields [OF counts_reflection [OF counts_Energy [OF divide.IH, of "[]"], of diffuse]])
      (simp_all add: reflectedChildState_def)
next
  case (spawn h s c)
  from spawn.hyps(2) show ?case unfolding spawned_from_def
    by (elim exE) (rule counts_fields [OF counts_diffraction [OF counts_Energy [OF spawn.IH, of "[]"]]], auto simp: diffractedChildState_def)
qed (auto intro: counts_Energy counts_reflection counts_diffraction)

subsection \<open>Deposits\<close>

datatype deposit_kind = Detected "ray_event list" RayState ray | Rained | Deflected

text \<open>A deposit, and what made it: a particle detected on its way along a ray, diffuse rain from a
  wall, or rain from an edge.\<close>

record logged =
  lgTime :: f64
  lgEnergy :: "f64 list"
  lgDirection :: vec3
  lgKind :: deposit_kind

definition replay :: "'dir tracer_env \<Rightarrow> trace_result \<Rightarrow> logged list \<Rightarrow> trace_result option" where
  "replay env start ds = opt_foldl (\<lambda>res d. add_deposit env (lgTime d) (lgEnergy d) (lgDirection d) res) start ds"

definition logs :: "'dir tracer_env \<Rightarrow> trace_result \<Rightarrow> (logged \<Rightarrow> bool) \<Rightarrow> trace_result \<Rightarrow> bool" where
  "logs env start P res \<longleftrightarrow> (\<exists>ds. replay env start ds = Some res \<and> (\<forall>d \<in> set ds. P d))"

lemma opt_foldl_snoc: "opt_foldl f s (xs @ [x]) = (case opt_foldl f s xs of None \<Rightarrow> None | Some s' \<Rightarrow> f s' x)"
  by (induction xs arbitrary: s) (auto split: option.splits)

lemma logs_start: "logs env start P start"
  unfolding logs_def replay_def by (rule exI [of _ "[]"]) simp

lemma logs_add:
  assumes "logs env start P res" "add_deposit env t e dir res = Some res'" "P \<lparr>lgTime = t, lgEnergy = e, lgDirection = dir, lgKind = k\<rparr>"
  shows "logs env start P res'"
proof -
  obtain ds where "replay env start ds = Some res" "\<forall>d \<in> set ds. P d" using assms(1) by (auto simp: logs_def)
  with assms(2,3) show ?thesis unfolding logs_def
    by (intro exI [of _ "ds @ [\<lparr>lgTime = t, lgEnergy = e, lgDirection = dir, lgKind = k\<rparr>]"]) (simp add: replay_def opt_foldl_snoc)
qed

text \<open>The setting of a deposit: the tracer, the receiver and the number of bands.\<close>

record 'dir room_view =
  rvEnv :: "'dir tracer_env"
  rvEdges :: "DiffractionEdgeIndex option"
  rvConfig :: LaunchConfig
  rvFreqs :: "f64 list"
  rvTracer :: Tracer
  rvReceiver :: SphereReceiver
  rvBands :: int

definition view :: "'dir tracer_env \<Rightarrow> LaunchConfig \<Rightarrow> ('dir, 'h) scene \<Rightarrow> Tracer \<Rightarrow> SphereReceiver \<Rightarrow> int \<Rightarrow> 'dir room_view" where
  "view env cfg sc t rec bands = \<lparr>rvEnv = env, rvEdges = diffractionEdgeIndex env cfg sc, rvConfig = cfg, rvFreqs = CenterFreqs (BandSpec sc), rvTracer = t, rvReceiver = rec, rvBands = bands\<rparr>"

definition rained_in :: "'dir room_view \<Rightarrow> logged \<Rightarrow> bool" where
  "rained_in v d \<longleftrightarrow> DiffuseRain (rvConfig v) \<and>
     (\<exists>hp nrm e scat path rain. computeDiffuseRain (lib (rvEnv v)) (rvTracer v) (rvReceiver v) (rvFreqs v)
          (SpeedOfSound (rvConfig v)) hp nrm e scat path = Some rain \<and>
        lgEnergy d = rainEnergy rain \<and> lgDirection d = vec3_Sub hp (srCenter (rvReceiver v)))"

definition deflected_in :: "'dir room_view \<Rightarrow> logged \<Rightarrow> bool" where
  "deflected_in v d \<longleftrightarrow> effectiveDiffractionMode (rvConfig v) = DiffractionDAPDFRain \<and>
     (\<exists>s r seg le ds dp. dapdfRainForSegment (lib (rvEnv v)) s r seg (rvEdges v) (rvTracer v) (Some (rvReceiver v)) [] (rvConfig v) (rvFreqs v) le = Some ds \<and>
        dp \<in> set ds \<and>
        lgTime d = dpTime dp \<and> lgDirection d = dpDirection dp \<and>
        oneBandEnergy (rvBands v) (dpBand dp) (dpEnergy dp) = Some (lgEnergy d))"

text \<open>Deposits that do not come from a detection.\<close>

definition rains :: "'dir room_view \<Rightarrow> (logged \<Rightarrow> bool) \<Rightarrow> bool" where
  "rains v P \<longleftrightarrow> (\<forall>d. lgKind d = Rained \<longrightarrow> rained_in v d \<longrightarrow> P d) \<and> (\<forall>d. lgKind d = Deflected \<longrightarrow> deflected_in v d \<longrightarrow> P d)"

lemma logs_dapdf:
  assumes "logs env start P res" "opt_foldl (add_band_deposit env bands) res ds = Some res'"
    and "\<And>dp e. dp \<in> set ds \<Longrightarrow> oneBandEnergy bands (dpBand dp) (dpEnergy dp) = Some e \<Longrightarrow>
      P \<lparr>lgTime = dpTime dp, lgEnergy = e, lgDirection = dpDirection dp, lgKind = Deflected\<rparr>"
  shows "logs env start P res'"
  using assms
proof (induction ds arbitrary: res)
  case (Cons d ds)
  then obtain mid where m: "add_band_deposit env bands res d = Some mid" "opt_foldl (add_band_deposit env bands) mid ds = Some res'"
    by (auto split: option.splits)
  from m(1) obtain e where e: "oneBandEnergy bands (dpBand d) (dpEnergy d) = Some e" "add_deposit env (dpTime d) e (dpDirection d) res = Some mid"
    by (auto simp: add_band_deposit_def split: option.splits)
  have "logs env start P mid" by (rule logs_add [OF Cons.prems(1) e(2) Cons.prems(3) [OF _ e(1)]]) simp
  then show ?case using m(2) Cons.prems(3) by (rule Cons.IH) simp_all
qed simp

lemma logs_deposit:
  assumes "logs env start P res" "deposit_dapdf env cfg sc t rec bands en s r seg res = Some (res', any)"
    and "rains (view env cfg sc t rec bands) P"
    and "effectiveDiffractionMode cfg = DiffractionDAPDFRain"
  shows "logs env start P res'"
proof -
  obtain ds where ds: "dapdfRainForSegment (lib env) s r seg (diffractionEdgeIndex env cfg sc) t (Some rec) [] cfg
      (CenterFreqs (BandSpec sc)) (en s) = Some ds"
    and "opt_foldl (add_band_deposit env bands) res ds = Some res'"
    using assms(2) by (auto simp: deposit_dapdf_def split: option.splits)
  from assms(1) this(2) show ?thesis
  proof (rule logs_dapdf)
    fix dp e assume "dp \<in> set ds" "oneBandEnergy bands (dpBand dp) (dpEnergy dp) = Some e"
    with assms(4) ds have "deflected_in (view env cfg sc t rec bands)
       \<lparr>lgTime = dpTime dp, lgEnergy = e, lgDirection = dpDirection dp, lgKind = Deflected\<rparr>"
      by (simp add: deflected_in_def view_def) blast
    with assms(3) show "P \<lparr>lgTime = dpTime dp, lgEnergy = e, lgDirection = dpDirection dp, lgKind = Deflected\<rparr>" by (simp add: rains_def)
  qed
qed

lemma logs_rain:
  assumes "logs env start P res" "DiffuseRain cfg"
    and "rains (view env cfg sc t rec bands) P"
  shows "rain_direct env cfg (CenterFreqs (BandSpec sc)) t rec s hp nrm e scat path res = Some res' \<Longrightarrow> logs env start P res'"
    "rain_secondary env cfg (CenterFreqs (BandSpec sc)) t rec s hp nrm e scat path res = Some res' \<Longrightarrow> logs env start P res'"
proof -
  let ?rain = "computeDiffuseRain (lib env) t rec (CenterFreqs (BandSpec sc)) (SpeedOfSound cfg) hp nrm e scat path"
  have P: "P \<lparr>lgTime = time, lgEnergy = rainEnergy rain, lgDirection = vec3_Sub hp (srCenter rec), lgKind = Rained\<rparr>"
    if "?rain = Some rain" for time rain
  proof -
    have "rained_in (view env cfg sc t rec bands)
      \<lparr>lgTime = time, lgEnergy = rainEnergy rain, lgDirection = vec3_Sub hp (srCenter rec), lgKind = Rained\<rparr>"
      using assms(2) that by (simp add: rained_in_def view_def) blast
    with assms(3) show ?thesis by (simp add: rains_def)
  qed
  show "rain_direct env cfg (CenterFreqs (BandSpec sc)) t rec s hp nrm e scat path res = Some res' \<Longrightarrow> logs env start P res'"
    "rain_secondary env cfg (CenterFreqs (BandSpec sc)) t rec s hp nrm e scat path res = Some res' \<Longrightarrow> logs env start P res'"
    using assms(1) P unfolding rain_direct_def rain_secondary_def
    by (auto simp: Let_def split: option.splits if_splits intro: logs_add)
qed

text \<open>A detection deposits the attenuated energy of a particle the hybrid gate lets through.\<close>

lemma detect_direct_logs:
  assumes "logs env start P res" "detect_direct env cfg fr rec s r path seg res = Some res'"
    and "\<And>tHit. DetectionAllowedHybrid s (HybridDetection cfg) \<Longrightarrow> sphere_Intersects rec r wallEpsilon seg = Some tHit \<Longrightarrow>
      fle (fdiv (fadd path tHit) (SpeedOfSound cfg)) (MaxTimeSeconds cfg) \<Longrightarrow>
      P \<lparr>lgTime = fdiv (fadd path tHit) (SpeedOfSound cfg),
         lgEnergy = map (\<lambda>x. fmul x (AngularWeight (rayDirection r))) (attenuateEnergyByAir (lib env) (Energy s) fr tHit),
         lgDirection = vec3_Scale (rayDirection r) (round64 (- 1)), lgKind = Detected h s r\<rparr>"
  shows "logs env start P res'"
  using assms(2,1) unfolding detect_direct_def
  by (auto simp: Let_def split: option.splits if_splits intro: logs_add [where k = "Detected h s r"] assms(3) [simplified])

lemma detect_secondary_logs:
  assumes "logs env start P res" "detect_secondary env cfg fr rec s r path seg res = Some res'"
    and "\<And>tHit. DetectionAllowedHybrid s (HybridDetection cfg) \<Longrightarrow> sphere_Intersects rec r wallEpsilon seg = Some tHit \<Longrightarrow>
      fle (fadd (DelaySeconds s) (fdiv (fadd path tHit) (SpeedOfSound cfg))) (MaxTimeSeconds cfg) \<Longrightarrow>
      P \<lparr>lgTime = fadd (DelaySeconds s) (fdiv (fadd path tHit) (SpeedOfSound cfg)),
         lgEnergy = attenuateEnergyByAir (lib env) (Energy s) fr tHit,
         lgDirection = vec3_Scale (rayDirection r) (round64 (- 1)), lgKind = Detected h s r\<rparr>"
  shows "logs env start P res'"
  using assms(2,1) unfolding detect_secondary_def
  by (auto simp: Let_def split: option.splits if_splits intro: logs_add [where k = "Detected h s r"] assms(3) [simplified])

subsection \<open>Energies\<close>

text \<open>An energy between zero and a cap, or not a number.\<close>

definition within_cap :: "f64 \<Rightarrow> f64 \<Rightarrow> bool" where
  "within_cap cap e \<longleftrightarrow> is_nan e \<or> fnonneg e \<and> is_finite e \<and> f64_ok e \<and> fle e cap"

definition gain_ok :: "f64 \<Rightarrow> bool" where
  "gain_ok f \<longleftrightarrow> is_nan f \<or> funit f"

lemma within_cap_fmul:
  assumes "within_cap cap e" "gain_ok f"
  shows "within_cap cap (fmul e f)"
proof (cases "is_nan e \<or> is_nan f")
  case True
  then show ?thesis by (auto simp: within_cap_def fmul_def)
next
  case False
  with assms have e: "fnonneg e" "is_finite e" "f64_ok e" "fle e cap" and f: "funit f"
    by (auto simp: within_cap_def gain_ok_def)
  have le: "fle (fmul e f) e" by (rule fmul_unit_le [OF e(1) f e(2,3)])
  have "fnonneg (fmul e f)" using f e by (intro fnonneg_fmul) (auto intro: funit_finite)
  moreover have "is_finite (fmul e f)"
    using le e(2) calculation by (cases "fmul e f"; cases e) (auto simp: fle_def is_finite_def split: if_splits)
  ultimately show ?thesis using le e(4) fle_trans by (auto simp: within_cap_def intro: arith_ok)
qed

lemma gain_ok_complement: "gain_ok (fsub (round64 1) (clamp01 a))"
proof (cases "is_nan a")
  case True
  then have "clamp01 a = NaN" by (cases a) (auto simp: clamp01_def flt_def)
  then show ?thesis by (simp add: gain_ok_def fsub_def fadd_def)
next
  case False
  have "fle (Zero False) (Num 1)" by (simp add: fle_def)
  then have u: "funit (clamp01 a)" using False by (auto simp: clamp01_def not_flt_iff)
  have "0 \<le> fval (clamp01 a) \<and> fval (clamp01 a) \<le> 1 \<and> is_finite (clamp01 a)"
    by (rule funit_cases [OF u]) (auto simp: is_finite_def)
  then have x: "0 \<le> 1 - fval (clamp01 a)" "1 - fval (clamp01 a) \<le> 1" "is_finite (fneg (clamp01 a))" by auto
  have "fle (Zero False) (fsub (round64 1) (clamp01 a))" "fle (fsub (round64 1) (clamp01 a)) (fof 1)"
    unfolding fsub_def using x round64_le_representable [OF representable_of_int [of 1, simplified], of "1 - fval (clamp01 a)"]
    by (simp_all add: fle_fadd is_finite_def)
  then show ?thesis by (simp add: gain_ok_def)
qed

definition energy_within :: "f64 \<Rightarrow> RayState \<Rightarrow> bool" where
  "energy_within cap s \<longleftrightarrow> list_all (within_cap cap) (Energy s)"

definition air_attenuates :: "libm \<Rightarrow> f64 list \<Rightarrow> bool" where
  "air_attenuates lm freqs \<longleftrightarrow> (\<forall>d i. \<not> fle d (Zero False) \<longrightarrow> gain_ok (air_factor lm freqs d i))"

lemma air_within:
  assumes "air_attenuates lm freqs" "list_all (within_cap cap) es"
  shows "list_all (within_cap cap) (attenuateEnergyByAir lm es freqs d)"
  using assms by (auto simp: attenuateEnergyByAir_def air_attenuates_def list_all_length intro!: within_cap_fmul)

lemma split_within:
  assumes "list_all (within_cap cap) es" "splitReflectionEnergy es ab sc = (se, de, re)"
  shows "list_all (within_cap cap) re"
proof -
  have "re = map (\<lambda>i. snd (snd (split_band ab sc (es ! i) i))) [0..<length es]"
    using assms(2) by (auto simp: splitReflectionEnergy_def Let_def comp_def)
  moreover have "within_cap cap (snd (snd (split_band ab sc e i)))" if "within_cap cap e" for e i
  proof -
    have "gain_ok (fsub (round64 1) (Zero False))" using gain_ok_complement [of "Zero False"] by (simp add: clamp01_def flt_def)
    with gain_ok_complement that show ?thesis by (auto simp: split_band_def Let_def intro!: within_cap_fmul)
  qed
  ultimately show ?thesis using assms(1) by (auto simp: list_all_length)
qed

lemma angular_gain: "gain_ok (AngularWeight dir)"
  by (auto simp: AngularWeight_def gain_ok_def fle_def)

subsection \<open>The contract for Trace and TraceSecondary\<close>

text \<open>What a detection may deposit: the energy of a particle whose history the image sources do not cover,
  attenuated on the way to the receiver, within the time of the trace. \<open>TraceSecondary\<close> adds the
  particle's delay and does not weigh by direction.\<close>

definition detected_in :: "bool \<Rightarrow> 'dir room_view \<Rightarrow> ('dir, 'h) scene \<Rightarrow> (RayState \<Rightarrow> bool) \<Rightarrow> ray_event list \<Rightarrow> RayState \<Rightarrow> ray \<Rightarrow> logged \<Rightarrow> bool" where
  "detected_in direct v sc launched h s r d \<longleftrightarrow>
     lived (ray_env.truncate (rvEnv v)) (rvConfig v) sc launched h s \<and>
     (Enabled (HybridDetection (rvConfig v)) \<longrightarrow> \<not> covered (HybridDetection (rvConfig v)) h) \<and>
     fle (lgTime d) (MaxTimeSeconds (rvConfig v)) \<and>
     (\<exists>path seg tHit. sphere_Intersects (rvReceiver v) r wallEpsilon seg = Some tHit \<and>
        (let flight = fdiv (fadd path tHit) (SpeedOfSound (rvConfig v));
             energy = attenuateEnergyByAir (lib (rvEnv v)) (Energy s) (rvFreqs v) tHit in
         if direct then lgTime d = flight \<and> lgEnergy d = map (\<lambda>x. fmul x (AngularWeight (rayDirection r))) energy
         else lgTime d = fadd (DelaySeconds s) flight \<and> lgEnergy d = energy))"

text \<open>Settings under which particles are launched within a cap and only lose energy from there: no Russian roulette, which scales survivors up,
  and no Keller cones.\<close>

definition only_loses :: "libm \<Rightarrow> LaunchConfig \<Rightarrow> f64 list \<Rightarrow> (RayState \<Rightarrow> bool) \<Rightarrow> f64 \<Rightarrow> bool" where
  "only_loses lm cfg freqs launched cap \<longleftrightarrow> (\<forall>s. launched s \<longrightarrow> energy_within cap s) \<and> lcReflectionStrategy cfg \<noteq> ReflectionStrategyRussianRoulette \<and>
     effectiveDiffractionMode cfg \<noteq> DiffractionKellerCone \<and> air_attenuates lm freqs"

definition deposit_ok :: "bool \<Rightarrow> 'dir room_view \<Rightarrow> ('dir, 'h) scene \<Rightarrow> (RayState \<Rightarrow> bool) \<Rightarrow> f64 \<Rightarrow> logged \<Rightarrow> bool" where
  "deposit_ok direct v sc launched cap d = (case lgKind d of
     Detected h s r \<Rightarrow> detected_in direct v sc launched h s r d \<and>
       (only_loses (lib (rvEnv v)) (rvConfig v) (rvFreqs v) launched cap \<longrightarrow> list_all (within_cap cap) (lgEnergy d))
   | Rained \<Rightarrow> rained_in v d
   | Deflected \<Rightarrow> deflected_in v d)"

lemma rains_deposit_ok: "rains v (deposit_ok direct v sc launched cap)"
  by (simp add: rains_def deposit_ok_def)

definition launches :: "(RayState \<Rightarrow> bool) \<Rightarrow> bool" where
  "launches launched \<longleftrightarrow> (\<forall>s. launched s \<longrightarrow> fresh_particle s)"

definition traced_ok :: "ray_env \<Rightarrow> LaunchConfig \<Rightarrow> ('dir, 'h) scene \<Rightarrow> (RayState \<Rightarrow> bool) \<Rightarrow> f64 \<Rightarrow> RayState \<Rightarrow> bool" where
  "traced_ok env cfg sc launched cap s \<longleftrightarrow> launches launched \<and> (\<exists>h. lived env cfg sc launched h s) \<and>
     (only_loses (lib env) cfg (CenterFreqs (BandSpec sc)) launched cap \<longrightarrow> energy_within cap s)"

lemma truncate_env [simp]: "lib (ray_env.truncate env) = lib env" "drawn_number (ray_env.truncate env) = drawn_number env"
  by (simp_all add: ray_env.truncate_def)

lemma gate_exact:
  assumes "launches launched" "lived env cfg sc launched h s"
  shows "DetectionAllowedHybrid s cfg' \<longleftrightarrow> \<not> Enabled cfg' \<or> \<not> covered cfg' h"
  using allowed_uncovered [OF lived_counts [OF assms(2)]] assms(1) by (simp add: launches_def)

lemma weighted_within: "list_all (within_cap cap) es \<Longrightarrow> list_all (within_cap cap) (map (\<lambda>x. fmul x (AngularWeight r)) es)"
  by (auto simp: list_all_length intro: within_cap_fmul angular_gain)

lemma detection_within:
  assumes "traced_ok env cfg sc launched cap s" "only_loses (lib env) cfg (CenterFreqs (BandSpec sc)) launched cap"
  shows "list_all (within_cap cap) (attenuateEnergyByAir (lib env) (Energy s) (CenterFreqs (BandSpec sc)) d)"
  using assms by (auto simp: traced_ok_def energy_within_def only_loses_def intro: air_within)

text \<open>The laws that concern the particles are the same for both tracers.\<close>

lemma traced_laws:
  assumes "traced_ok env cfg sc launched cap s"
  shows "traced_ok env cfg sc launched cap (s\<lparr>Energy := attenuateEnergyByAir (lib env) (Energy s) (CenterFreqs (BandSpec sc)) d\<rparr>)"
    and "splitReflectionEnergy (Energy s) (wall_absorption sc w k) scat = (se, de, re) \<Longrightarrow>
      traced_ok env cfg sc launched cap (advanceStateAfterReflection (s\<lparr>Energy := re\<rparr>) diffuse)"
    and "lcReflectionStrategy cfg = ReflectionStrategyRussianRoulette \<Longrightarrow>
      splitReflectionEnergy (Energy s) (wall_absorption sc w k) scat = (se, de, re) \<Longrightarrow>
      russianRouletteEnergy (drawn_number env) (if diffuse then de else se) (EnergyTerminationThreshold cfg) n = (Some e, n') \<Longrightarrow>
      traced_ok env cfg sc launched cap
        ((reflectedChildState s diffuse)\<lparr>RainCovered := rc, rsRay := ry, Energy := e, PathLength := l, Bounces := b\<rparr>)"
    and "traced_ok env cfg sc launched cap (s\<lparr>Energy := []\<rparr>)"
    and "effectiveDiffractionMode cfg = DiffractionKellerCone \<Longrightarrow> spawned_from s c \<Longrightarrow> traced_ok env cfg sc launched cap c"
    and "traced_ok env cfg sc launched cap (advanceStateAfterDiffraction s)"
proof -
  obtain h where h: "lived env cfg sc launched h s" using assms by (auto simp: traced_ok_def)
  note e = assms [unfolded traced_ok_def, THEN conjunct2, THEN conjunct2] and l = assms [unfolded traced_ok_def, THEN conjunct1]
  show "traced_ok env cfg sc launched cap (s\<lparr>Energy := attenuateEnergyByAir (lib env) (Energy s) (CenterFreqs (BandSpec sc)) d\<rparr>)"
    using l lived.flight [OF h] detection_within [OF assms] by (auto simp: traced_ok_def energy_within_def)
  show "traced_ok env cfg sc launched cap (advanceStateAfterReflection (s\<lparr>Energy := re\<rparr>) diffuse)"
    if "splitReflectionEnergy (Energy s) (wall_absorption sc w k) scat = (se, de, re)"
    using l lived.reflect [OF h that, of diffuse] e split_within [OF _ that] by (auto simp: traced_ok_def energy_within_def)
  show "traced_ok env cfg sc launched cap (s\<lparr>Energy := []\<rparr>)"
    using l lived.exhaust [OF h] by (auto simp: traced_ok_def energy_within_def)
  show "traced_ok env cfg sc launched cap (advanceStateAfterDiffraction s)"
    using l lived.deflect [OF h] e by (auto simp: traced_ok_def energy_within_def)
  show "traced_ok env cfg sc launched cap
        ((reflectedChildState s diffuse)\<lparr>RainCovered := rc, rsRay := ry, Energy := e, PathLength := l, Bounces := b\<rparr>)"
    if "lcReflectionStrategy cfg = ReflectionStrategyRussianRoulette"
      "splitReflectionEnergy (Energy s) (wall_absorption sc w k) scat = (se, de, re)"
      "russianRouletteEnergy (drawn_number env) (if diffuse then de else se) (EnergyTerminationThreshold cfg) n = (Some e, n')"
    using l exI [of "\<lambda>h. lived env cfg sc launched h ((reflectedChildState s diffuse)
      \<lparr>RainCovered := rc, rsRay := ry, Energy := e, PathLength := l, Bounces := b\<rparr>)", OF lived.divide [OF h that(2,3)]] that(1)
    by (simp add: traced_ok_def only_loses_def)
  show "traced_ok env cfg sc launched cap c" if "effectiveDiffractionMode cfg = DiffractionKellerCone" "spawned_from s c"
    using l lived.spawn [OF h that(2)] that(1) by (auto simp: traced_ok_def only_loses_def)
qed

lemma trace_hooks_simps [simp]:
  "hkDetect (trace_hooks env cfg sc t rec b le) = detect_direct env cfg (CenterFreqs (BandSpec sc)) rec"
  "hkDeposit (trace_hooks env cfg sc t rec b le) = deposit_dapdf env cfg sc t rec b (\<lambda>_. le)"
  "hkRain (trace_hooks env cfg sc t rec b le) = rain_direct env cfg (CenterFreqs (BandSpec sc)) t rec"
  "hkDetect (secondary_hooks env cfg sc t rec b) = detect_secondary env cfg (CenterFreqs (BandSpec sc)) rec"
  "hkDeposit (secondary_hooks env cfg sc t rec b) =
     deposit_dapdf env cfg sc t rec b (\<lambda>state. maxEnergy (Energy state))"
  "hkRain (secondary_hooks env cfg sc t rec b) = rain_secondary env cfg (CenterFreqs (BandSpec sc)) t rec"
  by (simp_all add: trace_hooks_def secondary_hooks_def Let_def)

lemma detect_direct_ok:
  assumes "traced_ok (ray_env.truncate env) cfg sc launched cap s"
    "logs env start (deposit_ok True (view env cfg sc t rec bands) sc launched cap) res"
    "detect_direct env cfg (CenterFreqs (BandSpec sc)) rec s r path seg res = Some res'"
  shows "logs env start (deposit_ok True (view env cfg sc t rec bands) sc launched cap) res'"
proof -
  obtain h where h: "lived (ray_env.truncate env) cfg sc launched h s" using assms(1) by (auto simp: traced_ok_def)
  note gate = gate_exact [OF _ h] and cap = detection_within [of "ray_env.truncate env" cfg sc launched cap s]
  show ?thesis
    using assms(2,3)
  proof (rule detect_direct_logs [where h = h])
    fix tHit
    assume "DetectionAllowedHybrid s (HybridDetection cfg)" "sphere_Intersects rec r wallEpsilon seg = Some tHit"
      "fle (fdiv (fadd path tHit) (SpeedOfSound cfg)) (MaxTimeSeconds cfg)"
    with h gate cap assms(1)
    show "deposit_ok True (view env cfg sc t rec bands) sc launched cap
       \<lparr>lgTime = fdiv (fadd path tHit) (SpeedOfSound cfg),
         lgEnergy = map (\<lambda>x. fmul x (AngularWeight (rayDirection r))) (attenuateEnergyByAir (lib env) (Energy s) (CenterFreqs (BandSpec sc)) tHit),
         lgDirection = vec3_Scale (rayDirection r) (round64 (- 1)), lgKind = Detected h s r\<rparr>"
      by (auto simp: deposit_ok_def view_def detected_in_def traced_ok_def Let_def intro: weighted_within)
  qed
qed

lemma detect_secondary_ok:
  assumes "traced_ok (ray_env.truncate env) cfg sc launched cap s"
    "logs env start (deposit_ok False (view env cfg sc t rec bands) sc launched cap) res"
    "detect_secondary env cfg (CenterFreqs (BandSpec sc)) rec s r path seg res = Some res'"
  shows "logs env start (deposit_ok False (view env cfg sc t rec bands) sc launched cap) res'"
proof -
  obtain h where h: "lived (ray_env.truncate env) cfg sc launched h s" using assms(1) by (auto simp: traced_ok_def)
  note gate = gate_exact [OF _ h] and cap = detection_within [of "ray_env.truncate env" cfg sc launched cap s]
  show ?thesis
    using assms(2,3)
  proof (rule detect_secondary_logs [where h = h])
    fix tHit
    assume "DetectionAllowedHybrid s (HybridDetection cfg)" "sphere_Intersects rec r wallEpsilon seg = Some tHit"
      "fle (fadd (DelaySeconds s) (fdiv (fadd path tHit) (SpeedOfSound cfg))) (MaxTimeSeconds cfg)"
    with h gate cap assms(1)
    show "deposit_ok False (view env cfg sc t rec bands) sc launched cap
       \<lparr>lgTime = fadd (DelaySeconds s) (fdiv (fadd path tHit) (SpeedOfSound cfg)),
         lgEnergy = attenuateEnergyByAir (lib env) (Energy s) (CenterFreqs (BandSpec sc)) tHit,
         lgDirection = vec3_Scale (rayDirection r) (round64 (- 1)), lgKind = Detected h s r\<rparr>"
      by (auto simp: deposit_ok_def view_def detected_in_def traced_ok_def Let_def)
  qed
qed

interpretation traced: propagation "ray_env.truncate env" "trace_hooks env cfg sc t rec bands le" cfg sc t bands
  "traced_ok (ray_env.truncate env) cfg sc launched cap" "logs env start (deposit_ok True (view env cfg sc t rec bands) sc launched cap)"
proof unfold_locales
  fix s r path seg res res'
  assume "traced_ok (ray_env.truncate env) cfg sc launched cap s" "logs env start (deposit_ok True (view env cfg sc t rec bands) sc launched cap) res"
    "hkDetect (trace_hooks env cfg sc t rec bands le) s r path seg res = Some res'"
  then show "logs env start (deposit_ok True (view env cfg sc t rec bands) sc launched cap) res'"
    unfolding trace_hooks_simps by (rule detect_direct_ok)
next
  fix s r seg res res' any
  assume "logs env start (deposit_ok True (view env cfg sc t rec bands) sc launched cap) res"
    "hkDeposit (trace_hooks env cfg sc t rec bands le) s r seg res = Some (res', any)"
    "effectiveDiffractionMode cfg = DiffractionDAPDFRain"
  then show "logs env start (deposit_ok True (view env cfg sc t rec bands) sc launched cap) res'"
    unfolding trace_hooks_simps by (rule logs_deposit [OF _ _ rains_deposit_ok])
next
  fix s hp nrm e scat path res res'
  assume "logs env start (deposit_ok True (view env cfg sc t rec bands) sc launched cap) res" "DiffuseRain cfg"
    "hkRain (trace_hooks env cfg sc t rec bands le) s hp nrm e scat path res = Some res'"
  then show "logs env start (deposit_ok True (view env cfg sc t rec bands) sc launched cap) res'"
    unfolding trace_hooks_simps by (rule logs_rain(1) [OF _ _ rains_deposit_ok])
qed (rule traced_laws, assumption+)+

interpretation secondary: propagation "ray_env.truncate env" "secondary_hooks env cfg sc t rec bands" cfg sc t bands
  "traced_ok (ray_env.truncate env) cfg sc launched cap" "logs env start (deposit_ok False (view env cfg sc t rec bands) sc launched cap)"
proof unfold_locales
  fix s r path seg res res'
  assume "traced_ok (ray_env.truncate env) cfg sc launched cap s" "logs env start (deposit_ok False (view env cfg sc t rec bands) sc launched cap) res"
    "hkDetect (secondary_hooks env cfg sc t rec bands) s r path seg res = Some res'"
  then show "logs env start (deposit_ok False (view env cfg sc t rec bands) sc launched cap) res'"
    unfolding trace_hooks_simps by (rule detect_secondary_ok)
next
  fix s r seg res res' any
  assume "logs env start (deposit_ok False (view env cfg sc t rec bands) sc launched cap) res"
    "hkDeposit (secondary_hooks env cfg sc t rec bands) s r seg res = Some (res', any)"
    "effectiveDiffractionMode cfg = DiffractionDAPDFRain"
  then show "logs env start (deposit_ok False (view env cfg sc t rec bands) sc launched cap) res'"
    unfolding trace_hooks_simps by (rule logs_deposit [OF _ _ rains_deposit_ok])
next
  fix s hp nrm e scat path res res'
  assume "logs env start (deposit_ok False (view env cfg sc t rec bands) sc launched cap) res" "DiffuseRain cfg"
    "hkRain (secondary_hooks env cfg sc t rec bands) s hp nrm e scat path res = Some res'"
  then show "logs env start (deposit_ok False (view env cfg sc t rec bands) sc launched cap) res'"
    unfolding trace_hooks_simps by (rule logs_rain(2) [OF _ _ rains_deposit_ok])
qed (rule traced_laws, assumption+)+

end
