(* ===== verification/Ray_Totality.thy ===== *)
theory Ray_Totality
  imports Ray_Laws
begin

text \<open>
  That the tracers return: the laws of package math that the tracer relies on, classification into
  directivity groups ends because angles within a turn are unwrapped by one step, and deposits never
  panic on the histograms a trace allocates. With them the hooks of \<open>Trace\<close> and \<open>TraceSecondary\<close>
  satisfy the contract of a propagation that returns.
\<close>

subsection \<open>Values without a minus sign\<close>

definition plus_ok :: "f64 \<Rightarrow> bool" where
  "plus_ok x \<longleftrightarrow> is_nan x \<or> x = Zero False \<or> flt (Zero False) x"

lemma plus_ok_simps [simp]:
  "plus_ok NaN" "plus_ok (Inf s) \<longleftrightarrow> \<not> s" "plus_ok (Zero s) \<longleftrightarrow> \<not> s" "plus_ok (Num x) \<longleftrightarrow> 0 < x"
  by (auto simp: plus_ok_def flt_def)

lemma plus_ok_round64: "0 \<le> x \<Longrightarrow> plus_ok (round64 x)"
  using rne_ge_of_int [of 0] by (auto simp: round64_def Let_def zero_less_mult_iff less_le split: option.splits)

lemma plus_ok_arith:
  assumes "plus_ok a" "plus_ok b"
  shows "plus_ok (fadd a b)" "plus_ok (fmul a b)" "plus_ok (fdiv a b)" "plus_ok (fsqrt a)"
  using assms by (cases a; cases b; auto simp: fadd_def fmul_def fdiv_def plus_ok_round64)+

lemma positive_plus_ok: "\<not> fle x (Zero False) \<Longrightarrow> plus_ok x"
  by (cases x) (auto simp: fle_def split: if_splits)

lemma plus_ok_nonneg: "plus_ok x \<Longrightarrow> \<not> is_nan x \<Longrightarrow> fnonneg x"
  by (cases x) (auto simp: fle_def)

lemma plus_ok_clamp01: "plus_ok x \<Longrightarrow> plus_ok (clamp01 x)"
  by (cases x) (auto simp: clamp01_def flt_def)

lemma fneg_left:
  assumes "plus_ok a" "plus_ok b"
  shows "fmul (fneg a) b = fneg (fmul a b)" "fdiv (fneg a) b = fneg (fdiv a b)"
  using assms by (cases a; cases b; auto simp: fmul_def fdiv_def round64_minus)+

subsection \<open>Package math\<close>

text \<open>Documented behaviour of \<open>math.Pow\<close>, \<open>math.Exp\<close> and \<open>math.Atan2\<close>.\<close>

definition half_turn :: "f64 \<Rightarrow> bool" where
  "half_turn a \<longleftrightarrow> is_nan a \<or> fle (fneg (round64 pi)) a \<and> fle a (round64 pi)"

definition libm_ok :: "libm \<Rightarrow> bool" where
  "libm_ok lm \<longleftrightarrow>
     (\<forall>x y. plus_ok x \<longrightarrow> plus_ok (mPow lm x y)) \<and> (\<forall>x. plus_ok (mExp lm x)) \<and>
     (\<forall>y. is_nan y \<longrightarrow> is_nan (mPow lm (round64 10) y)) \<and>
     (\<forall>y. fle y (Zero False) \<longrightarrow> funit (mPow lm (round64 10) y)) \<and> (\<forall>y x. half_turn (mAtan2 lm y x))"

lemma libm_plus:
  assumes "libm_ok lm"
  shows "plus_ok x \<Longrightarrow> plus_ok (mPow lm x y)" "plus_ok (mExp lm x)"
  using assms by (auto simp: libm_ok_def)

lemma plus_ok_alpha:
  assumes "libm_ok lm" "plus_ok h" "plus_ok c"
  shows "plus_ok (AlphaAirISO9613_1 lm f c h)"
proof -
  note pos = positive_plus_ok [of f] positive_plus_ok [of "fadd c (round64 (27315 / 100))"]
  show ?thesis
    using pos assms(2,3) unfolding AlphaAirISO9613_1_def Let_def
    by (auto intro!: plus_ok_arith libm_plus [OF assms(1)] plus_ok_clamp01 plus_ok_round64)
qed

text \<open>Air absorption lowers energies.\<close>

lemma libm_air: "libm_ok lm \<Longrightarrow> air_attenuates lm freqs"
proof (unfold air_attenuates_def air_factor_def Let_def, intro allI impI)
  fix d i
  assume lm: "libm_ok lm" and "\<not> fle d (Zero False)"
  let ?a = "AlphaAirISO9613_1 lm (if i < length freqs then freqs ! i else f64_of_int (int i)) (round64 20) (round64 (1 / 2))"
  let ?y = "fdiv (fmul (fneg ?a) d) (round64 10)"
  have ok: "plus_ok ?a" "plus_ok d" "plus_ok (round64 10)"
    using lm \<open>\<not> fle d (Zero False)\<close> by (simp_all add: plus_ok_alpha positive_plus_ok plus_ok_round64)
  let ?z = "fdiv (fmul ?a d) (round64 10)"
  have "?y = fneg ?z" "plus_ok ?z" using ok by (simp_all add: fneg_left plus_ok_arith)
  then have "is_nan ?y \<or> fle ?y (Zero False)" by (cases ?z) (auto simp: fle_def)
  with lm show "gain_ok (mPow lm (round64 10) ?y)" by (auto simp: libm_ok_def gain_ok_def)
qed

subsection \<open>Classification\<close>

definition turn_ok :: "f64 \<Rightarrow> bool" where
  "turn_ok a \<longleftrightarrow> is_nan a \<or> fnonneg a \<and> fle a (round64 (2 * pi))"

text \<open>One turn, as a real.\<close>

definition turn :: real where
  "turn = fval (round64 (2 * pi))"

lemma turn_finite: "is_finite (round64 (2 * pi))" "is_finite (round64 pi)" "0 \<le> fval (round64 pi)"
  "fval (round64 pi) \<le> turn" "representable turn"
proof -
  have pi: "0 \<le> pi" "pi \<le> 4" using pi_less_4 by simp_all
  have small: "\<exists>v. is_finite (round64 x) \<and> 0 \<le> fval (round64 x)" if "0 \<le> x" "x \<le> 8" for x
  proof -
    have "fle (round64 x) (Num 8)" using round64_le_representable [OF representable_of_int [of 8, simplified] that(2)] by simp
    moreover have "fnonneg (round64 x)" using that(1) by simp
    ultimately show ?thesis by (cases "round64 x") (auto simp: fle_def is_finite_def split: if_splits)
  qed
  show fin: "is_finite (round64 (2 * pi))" "is_finite (round64 pi)" "0 \<le> fval (round64 pi)" using small pi by auto
  show "fval (round64 pi) \<le> turn"
    using round64_mono [of pi "2 * pi"] fin pi(1) unfolding turn_def fle_finite [OF fin(2,1), symmetric] by simp
  show "representable turn"
    using fin(1) round64_ok [of "2 * pi"] unfolding turn_def
    by (cases "round64 (2 * pi)") (auto simp: is_finite_def representable_of_int [of 0, simplified])
qed

lemma turn_ok_cases:
  assumes "turn_ok a"
  obtains "a = NaN" | "is_finite a" "0 \<le> fval a" "fval a \<le> turn"
proof (cases "is_nan a")
  case True
  with that(1) show thesis by (cases a) auto
next
  case False
  with assms have b: "fnonneg a" "fle a (round64 (2 * pi))" by (auto simp: turn_ok_def)
  with turn_finite(1) have fin: "is_finite a" by (cases a; cases "round64 (2 * pi)") (auto simp: fle_def is_finite_def split: if_splits)
  have "is_finite (Zero False)" by (simp add: is_finite_def)
  with b fin turn_finite(1) have "0 \<le> fval a" "fval a \<le> turn" by (simp_all add: fle_finite turn_def)
  with fin that(2) show thesis by blast
qed

lemma fadd_range:
  assumes "is_finite a" "is_finite b" "representable lo" "representable hi" "lo \<le> fval a + fval b" "fval a + fval b \<le> hi"
  shows "is_finite (fadd a b)" "lo \<le> fval (fadd a b)" "fval (fadd a b) \<le> hi"
proof -
  have b: "fle (fof lo) (fadd a b)" "fle (fadd a b) (fof hi)"
    using assms by (simp_all add: fle_fadd round64_le_representable round64_ge_representable)
  have fin: "is_finite (fof lo)" "is_finite (fof hi)" "fval (fof lo) = lo" "fval (fof hi) = hi"
    by (simp_all add: fof_def is_finite_def)
  with b show f: "is_finite (fadd a b)"
    by (cases "fadd a b"; cases "fof lo"; cases "fof hi") (auto simp: fle_def is_finite_def split: if_splits)
  from b show "lo \<le> fval (fadd a b)" "fval (fadd a b) \<le> hi" using f fin by (simp_all add: fle_finite)
qed

lemma representable_minus: "representable x \<Longrightarrow> representable (- x)"
  using fneg_ok [of "Num x"] by (cases "x = 0") auto

lemma flt_finite: "is_finite a \<Longrightarrow> is_finite b \<Longrightarrow> flt a b \<longleftrightarrow> fval a < fval b"
  by (cases a; cases b; simp add: flt_def is_finite_def)

lemmas turn_laws = turn_finite representable_of_int [of 0, simplified] representable_minus [OF turn_finite(5)]

lemma turn_bounds: "3 \<le> fval (round64 pi)" "fval (round64 pi) \<le> 4" "6 \<le> turn" "turn \<le> 8"
proof -
  have num: "is_finite (Num x)" "fval (Num x) = x" for x by (simp_all add: is_finite_def)
  have "3 \<le> pi" using sin_x_le_x [of "pi / 6"] by (simp add: sin_30)
  have "fle (Num 3) (round64 pi)" "fle (round64 pi) (Num 4)" "fle (Num 6) (round64 (2 * pi))" "fle (round64 (2 * pi)) (Num 8)"
    using round64_ge_representable [of 3 pi] round64_le_representable [of 4 pi] round64_ge_representable [of 6 "2 * pi"]
      round64_le_representable [of 8 "2 * pi"] representable_of_int [of 3] representable_of_int [of 4]
      representable_of_int [of 6] representable_of_int [of 8] \<open>3 \<le> pi\<close> pi_less_4 by simp_all
  then show "3 \<le> fval (round64 pi)" "fval (round64 pi) \<le> 4" "6 \<le> turn" "turn \<le> 8"
    using turn_finite(1,2) by (simp_all add: fle_finite num turn_def)
qed

lemmas step_laws = turn_bounds representable_of_int [of 8, simplified] representable_of_int [of "- 8", simplified]
  representable_of_int [of 2, simplified] representable_of_int [of "- 2", simplified]

lemma wrap_down_total:
  assumes "is_finite d" "- 8 \<le> fval d" "fval d \<le> 8"
  shows "\<exists>e. wrap_down d = Some e \<and> is_finite e \<and> - 8 \<le> fval e \<and> fval e \<le> 8"
proof (cases "flt (round64 pi) d")
  case True
  let ?e = "fsub d (round64 (2 * pi))"
  have "fval (round64 pi) < fval d" using True assms(1) turn_finite(2) by (simp add: flt_finite)
  then have e: "is_finite ?e" "- 8 \<le> fval ?e" "fval ?e \<le> 2"
    using fadd_range [of d "fneg (round64 (2 * pi))" "- 8" 2] assms turn_laws step_laws unfolding fsub_def by (simp_all add: turn_def)
  then have "\<not> flt (round64 pi) ?e" using turn_finite turn_bounds by (simp add: flt_finite)
  with True e show ?thesis by (simp add: wrap_down.simps [of d] wrap_down.simps [of ?e])
qed (use assms in \<open>simp add: wrap_down.simps [of d]\<close>)

lemma wrap_up_total:
  assumes "is_finite d" "- 8 \<le> fval d"
  shows "\<exists>e. wrap_up d = Some e"
proof (cases "flt d (fneg (round64 pi))")
  case True
  let ?e = "fadd d (round64 (2 * pi))"
  have "fval d < - fval (round64 pi)" using True assms(1) turn_finite(2) by (simp add: flt_finite)
  then have e: "is_finite ?e" "- 2 \<le> fval ?e"
    using fadd_range [of d "round64 (2 * pi)" "- 2" 8] assms turn_laws step_laws by (simp_all add: turn_def)
  then have "\<not> flt ?e (fneg (round64 pi))" using turn_finite turn_bounds by (simp add: flt_finite)
  with True show ?thesis by (simp add: wrap_up.simps [of d] wrap_up.simps [of ?e])
qed (simp add: wrap_up.simps [of d])

text \<open>Two steps unwrap any angle within eight radians.\<close>

lemma unwrapped:
  assumes "is_nan d \<or> is_finite d \<and> - 8 \<le> fval d \<and> fval d \<le> 8"
  shows "\<exists>e. wrapAngle d = Some e"
proof (cases "is_nan d")
  case True
  then have "d = NaN" by (cases d) auto
  then show ?thesis by (simp add: wrapAngle_def wrap_down.simps [of NaN] wrap_up.simps [of NaN] flt_def)
next
  case False
  with assms obtain e where "wrap_down d = Some e" "is_finite e" "- 8 \<le> fval e" using wrap_down_total by blast
  with wrap_up_total show ?thesis by (simp add: wrapAngle_def)
qed

lemma turn_okI: "is_finite a \<Longrightarrow> 0 \<le> fval a \<Longrightarrow> fval a \<le> turn \<Longrightarrow> turn_ok a"
  using turn_finite(1) fle_finite [of "Zero False" a] by (simp add: turn_ok_def fle_finite turn_def is_finite_def)

lemma full_circle:
  assumes "half_turn a"
  shows "turn_ok (if flt a (Zero False) then fadd a (round64 (2 * pi)) else a)"
proof (cases "is_nan a")
  case True
  then show ?thesis by (simp add: turn_ok_def flt_def)
next
  case False
  with assms have b: "fle (fneg (round64 pi)) a" "fle a (round64 pi)" by (auto simp: half_turn_def)
  with turn_finite(2) have fin: "is_finite a"
    by (cases a; cases "round64 pi") (auto simp: fle_def is_finite_def split: if_splits)
  with b turn_finite have r: "- fval (round64 pi) \<le> fval a" "fval a \<le> fval (round64 pi)" by (simp_all add: fle_finite)
  have z: "is_finite (Zero False)" by (simp add: is_finite_def)
  show ?thesis
  proof (cases "flt a (Zero False)")
    case True
    then have "fval a < 0" using fin z by (simp add: flt_finite)
    with True fin r turn_laws show ?thesis
      using fadd_range [of a "round64 (2 * pi)" 0 turn] by (simp add: turn_okI turn_def)
  next
    case ge: False
    then have "0 \<le> fval a" using fin z by (simp add: flt_finite)
    with ge fin r turn_finite show ?thesis by (simp add: turn_okI)
  qed
qed

lemma half_turn_cases:
  assumes "half_turn a" "a \<noteq> NaN"
  shows "is_finite a" "- 4 \<le> fval a" "fval a \<le> 4"
proof -
  from assms have b: "fle (fneg (round64 pi)) a" "fle a (round64 pi)" by (cases a; simp add: half_turn_def)+
  with turn_finite(2) show "is_finite a"
    by (cases a; cases "round64 pi") (auto simp: fle_def is_finite_def split: if_splits)
  with b turn_finite turn_bounds show "- 4 \<le> fval a" "fval a \<le> 4" by (simp_all add: fle_finite)
qed

lemma fsub_unwrapped:
  assumes "a \<noteq> NaN \<Longrightarrow> b \<noteq> NaN \<Longrightarrow> is_finite a \<and> is_finite b \<and> - 8 \<le> fval a - fval b \<and> fval a - fval b \<le> 8"
  shows "\<exists>e. wrapAngle (fsub a b) = Some e"
proof (rule unwrapped, cases "a = NaN \<or> b = NaN")
  case True
  then show "is_nan (fsub a b) \<or> is_finite (fsub a b) \<and> - 8 \<le> fval (fsub a b) \<and> fval (fsub a b) \<le> 8"
    by (auto simp: fsub_def fadd_def)
next
  case False
  with assms fadd_range [of a "fneg b" "- 8" 8] step_laws turn_laws
  show "is_nan (fsub a b) \<or> is_finite (fsub a b) \<and> - 8 \<le> fval (fsub a b) \<and> fval (fsub a b) \<le> 8"
    unfolding fsub_def by simp
qed

lemma wraps:
  assumes "turn_ok a" "turn_ok b"
  shows "\<exists>d. angleDiffWrapped a b = Some d"
proof -
  have "\<exists>d. wrapAngle (fsub a b) = Some d"
    using assms turn_bounds by (intro fsub_unwrapped) (fastforce elim!: turn_ok_cases)
  then show ?thesis by (simp add: angleDiffWrapped_def wrapAngle_def)
qed

lemma half_wraps: "half_turn a \<Longrightarrow> half_turn b \<Longrightarrow> \<exists>d. wrapAngle (fsub a b) = Some d"
  using half_turn_cases [of a] half_turn_cases [of b] by (intro fsub_unwrapped) auto

lemma nearest_group_total:
  assumes "turn_ok az" "list_all (\<lambda>g. turn_ok (AzimuthCenter g)) gs"
  shows "\<exists>k. nearest_group az el gs i best = Some k"
  using assms
proof (induction gs arbitrary: i best)
  case (Cons g gs)
  obtain d where "angleDiffWrapped az (AzimuthCenter g) = Some d" using wraps Cons.prems by fastforce
  with Cons show ?case by (simp add: Let_def)
qed simp

lemma nearest_group_bound:
  "nearest_group az el gs i best = Some k \<Longrightarrow> k = fst best \<or> i \<le> k \<and> k < i + length gs"
proof (induction gs arbitrary: i best)
  case (Cons g gs)
  from Cons.prems obtain best' where "nearest_group az el gs (Suc i) best' = Some k" "fst best' \<in> {i, fst best}"
    by (auto simp: Let_def split: option.splits if_splits)
  from Cons.IH [OF this(1)] this(2) show ?case by auto
qed simp

lemma classified:
  assumes "libm_ok lm" "list_all (\<lambda>g. turn_ok (AzimuthCenter g)) gs" "gs \<noteq> []"
  shows "\<exists>k < length gs. ClassifyDirection (mAsin lm) (mAtan2 lm) gs dir = Some k"
proof (cases "feq (vec3_Norm dir) (Zero False)")
  case True
  with assms(3) show ?thesis by (simp add: ClassifyDirection_def)
next
  case False
  let ?az = "mAtan2 lm (vY dir) (vX dir)"
  let ?az' = "if flt ?az (Zero False) then fadd ?az (round64 (2 * pi)) else ?az"
  have h: "half_turn ?az" using assms(1) by (simp add: libm_ok_def)
  have "turn_ok ?az'" using h by (rule full_circle)
  then obtain k where k: "nearest_group ?az' (mAsin lm (fdiv (vZ dir) (vec3_Norm dir))) gs 0 (0, MaxFloat64) = Some k"
    using nearest_group_total assms(2) by blast
  from nearest_group_bound [OF k] assms(3) have "k < length gs" by auto
  with k False assms(3) show ?thesis by (auto simp: ClassifyDirection_def Let_def)
qed

subsection \<open>Deposits never panic\<close>

definition histogram_bands :: "int \<Rightarrow> EnergyHistogram option \<Rightarrow> bool" where
  "histogram_bands bands ho = (case ho of None \<Rightarrow> True | Some h \<Rightarrow> hBandCount h = bands)"

definition result_ok :: "libm \<Rightarrow> int \<Rightarrow> trace_result \<Rightarrow> bool" where
  "result_ok lm bands res \<longleftrightarrow> libm_ok lm \<and> make_floats bands \<noteq> None \<and> histogram_bands bands (trHistogram res) \<and>
     list_all (\<lambda>g. histogram_bands bands (dgHistogram g) \<and> turn_ok (AzimuthCenter g)) (trGroups res)"

lemma hist_Add_bands:
  assumes "histogram_bands bands ho" "make_floats bands \<noteq> None"
  shows "\<exists>h. hist_Add ho t e = Some h \<and> histogram_bands bands h"
  using assms by (auto simp: hist_Add_def histogram_bands_def Let_def split: option.splits)

lemma add_deposit_total:
  assumes "result_ok (lib env) bands res"
  shows "\<exists>res'. add_deposit env time e dir res = Some res' \<and> result_ok (lib env) bands res'"
proof -
  have ok: "libm_ok (lib env)" "make_floats bands \<noteq> None" "histogram_bands bands (trHistogram res)"
    "list_all (\<lambda>g. turn_ok (AzimuthCenter g)) (trGroups res)" "\<forall>g \<in> set (trGroups res). histogram_bands bands (dgHistogram g)"
    using assms by (auto simp: result_ok_def list_all_iff)
  obtain h where h: "hist_Add (trHistogram res) time e = Some h" "histogram_bands bands h"
    using hist_Add_bands [OF ok(3,2)] by blast
  show ?thesis
  proof (cases "trGroups res = []")
    case True
    with h assms show ?thesis by (simp add: add_deposit_def result_ok_def)
  next
    case False
    obtain k where k: "k < length (trGroups res)" "ClassifyDirection (mAsin (lib env)) (mAtan2 (lib env)) (trGroups res) dir = Some k"
      using classified [OF ok(1,4) False] by blast
    obtain g where g: "hist_Add (dgHistogram (trGroups res ! k)) time e = Some g" "histogram_bands bands g"
      using hist_Add_bands ok(2,5) k(1) nth_mem by blast
    have "list_all (\<lambda>g. histogram_bands bands (dgHistogram g) \<and> turn_ok (AzimuthCenter g))
        ((trGroups res)[k := (trGroups res ! k)\<lparr>dgHistogram := g\<rparr>])"
      using assms g(2) k(1) by (auto simp: result_ok_def list_all_length nth_list_update)
    with False h k g assms show ?thesis by (simp add: add_deposit_def result_ok_def)
  qed
qed

lemma add_deposit_ok:
  "result_ok (lib env) bands res \<Longrightarrow> add_deposit env time e dir res = Some res' \<Longrightarrow> result_ok (lib env) bands res'"
  using add_deposit_total [of env bands res time e dir] by auto

lemma opt_foldl_total:
  assumes "P s" "\<And>s x. P s \<Longrightarrow> \<exists>s'. f s x = Some s' \<and> P s'"
  shows "\<exists>s'. opt_foldl f s xs = Some s' \<and> P s'"
  using assms(1)
proof (induction xs arbitrary: s)
  case (Cons x xs)
  obtain s' where "f s x = Some s'" "P s'" using assms(2) Cons.prems by blast
  with Cons.IH show ?case by simp
qed simp

lemma add_band_deposit_total:
  assumes "result_ok (lib env) bands res"
  shows "\<exists>res'. add_band_deposit env bands res d = Some res' \<and> result_ok (lib env) bands res'"
proof -
  obtain e where "oneBandEnergy bands (dpBand d) (dpEnergy d) = Some e"
    using assms by (auto simp: result_ok_def oneBandEnergy_def)
  with add_deposit_total [OF assms] show ?thesis by (simp add: add_band_deposit_def)
qed

subsection \<open>Rain from edges ends\<close>

lemma deflection_half_turn: "libm_ok lm \<Longrightarrow> deflectionAngle lm axis incident target = Some a \<Longrightarrow> half_turn a"
  by (auto simp: deflectionAngle_def libm_ok_def Let_def split: if_splits)

lemma projected_total:
  assumes "libm_ok lm" "half_turn center"
  shows "\<exists>i. projectedDeflectionInterval lm origin axis incident center points padding = Some i"
proof -
  have "\<exists>acc'. widen_interval lm origin axis incident center acc point = Some acc' \<and> True" for acc point
    using half_wraps assms(2) deflection_half_turn [OF assms(1), of axis incident "vec3_Sub point origin"]
    by (fastforce simp: widen_interval_def split: prod.splits option.splits)
  from opt_foldl_total [of "\<lambda>_. True", OF _ this] show ?thesis
    by (auto simp: projectedDeflectionInterval_def)
qed

lemma target_total: "libm_ok lm \<Longrightarrow> \<exists>i. targetDeflectionInterval lm origin axis incident target = Some i"
  using projected_total deflection_half_turn by (auto simp: targetDeflectionInterval_def Let_def split: option.splits)

lemma cylinder_total: "libm_ok lm \<Longrightarrow> \<exists>i. cylinderDeflectionInterval lm origin axis incident edge radius = Some i"
  using projected_total deflection_half_turn by (auto simp: cylinderDeflectionInterval_def Let_def split: option.splits)

lemma those_total: "(\<And>x. x \<in> set xs \<Longrightarrow> \<exists>y. f x = Some y) \<Longrightarrow> \<exists>ys. those (map f xs) = Some ys"
  by (induction xs) fastforce+

lemma rain_target_total: "libm_ok (rsLib rs) \<Longrightarrow> \<exists>ds. rain_target rs d target = Some ds"
  using target_total by (fastforce simp: rain_target_def Let_def split: option.splits)

lemma forward_target_total: "libm_ok (rsLib rs) \<Longrightarrow> \<exists>fs. forward_target rs d ie = Some fs"
proof -
  assume lm: "libm_ok (rsLib rs)"
  obtain nextID edge where ie: "ie = (nextID, edge)" by (cases ie)
  obtain i where "cylinderDeflectionInterval (rsLib rs) (dfPoint d) (dfAxis d) (dfIncident d) edge
      (fmul (round64 7) (fdiv (SpeedOfSound (rsConfig rs)) (rsFrequency rs))) = Some i"
    using cylinder_total [OF lm] by blast
  then show ?thesis by (simp add: forward_target_def ie Let_def split: option.split)
qed

lemma dapdfForward_total:
  assumes "libm_ok (rsLib rs)"
  shows "\<exists>ds. dapdfForward rs d = Some ds"
  using assms
proof (induction rs d rule: dapdfForward.induct)
  case (1 rs d)
  obtain ds where ds: "those (map (rain_target rs d) (rain_targets rs d)) = Some ds"
    using those_total rain_target_total [OF "1.prems"] by metis
  obtain fs where fs: "those (map (forward_target rs d) (enumerate 0 (rsEdges rs))) = Some fs"
    using those_total forward_target_total [OF "1.prems"] by metis
  show ?case
  proof (cases "fle (dfEnergy d) (cullThreshold rs) \<or> effectiveMaxDiffractionDepth (rsConfig rs) \<le> dfDepth d")
    case True
    with ds show ?thesis by (auto simp: dapdfForward.simps [of rs d])
  next
    case False
    let ?step = "\<lambda>f. let d' = forwarded rs d (weight_scale (concat fs)) f in
        if fle (dfEnergy d') (cullThreshold rs) then Some [] else dapdfForward rs d'"
    have "\<exists>ys. those (map ?step (concat fs)) = Some ys"
    proof (rule those_total)
      fix f assume "f \<in> set (concat fs)"
      with False ds fs "1.IH" "1.prems" show "\<exists>y. ?step f = Some y" by (auto simp: Let_def)
    qed
    with False ds fs show ?thesis by (auto simp: dapdfForward.simps [of rs d] Let_def)
  qed
qed

lemma dapdf_band_total: "libm_ok (rsLib rs) \<Longrightarrow> \<exists>ds. dapdf_band rs candidates s r seg freqs b = Some ds"
  using dapdfForward_total by (auto simp: dapdf_band_def Let_def split: option.splits)

lemma dapdfRain_total:
  assumes "libm_ok lm"
  shows "\<exists>ds. dapdfRainForSegment lm s r seg ix t rec surfaces cfg freqs le = Some ds"
proof (cases "\<exists>rs cands. dapdfRainForSegment lm s r seg ix t rec surfaces cfg freqs le =
    map_option concat (those (map (dapdf_band rs cands s r seg freqs) [0..<length (Energy s)])) \<and> rsLib rs = lm")
  case True
  then obtain rs cands where d: "dapdfRainForSegment lm s r seg ix t rec surfaces cfg freqs le =
      map_option concat (those (map (dapdf_band rs cands s r seg freqs) [0..<length (Energy s)]))" and "rsLib rs = lm"
    by blast
  with assms have "libm_ok (rsLib rs)" by simp
  then obtain ds where "those (map (dapdf_band rs cands s r seg freqs) [0..<length (Energy s)]) = Some ds"
    using those_total dapdf_band_total by metis
  with d show ?thesis by simp
next
  case False
  then show ?thesis unfolding dapdfRainForSegment_def Let_def
    by (cases ix) (simp_all split: if_splits, (metis rain_scene.select_convs(1))+)
qed

lemma deposit_dapdf_total:
  assumes "result_ok (lib env) bands res"
  shows "\<exists>res' any. deposit_dapdf env cfg sc t rec bands en s r seg res = Some (res', any) \<and> result_ok (lib env) bands res'"
proof -
  have "libm_ok (lib env)" using assms by (simp add: result_ok_def)
  then obtain ds where "dapdfRainForSegment (lib env) s r seg (diffractionEdgeIndex env cfg sc) t (Some rec) [] cfg
      (CenterFreqs (BandSpec sc)) (en s) = Some ds"
    using dapdfRain_total by metis
  with opt_foldl_total [where P = "result_ok (lib env) bands" and f = "add_band_deposit env bands", OF assms add_band_deposit_total]
  show ?thesis by (fastforce simp: deposit_dapdf_def)
qed

lemma detections_total:
  assumes "result_ok (lib env) bands res"
  shows "\<exists>res'. detect_direct env cfg fr rec s r path seg res = Some res' \<and> result_ok (lib env) bands res'"
    "\<exists>res'. detect_secondary env cfg fr rec s r path seg res = Some res' \<and> result_ok (lib env) bands res'"
  using assms add_deposit_total [OF assms]
  by (auto simp: detect_direct_def detect_secondary_def Let_def split: option.splits)

lemma rains_total:
  assumes "result_ok (lib env) bands res"
  shows "\<exists>res'. rain_direct env cfg fr t rec s hp nrm e scat path res = Some res' \<and> result_ok (lib env) bands res'"
    "\<exists>res'. rain_secondary env cfg fr t rec s hp nrm e scat path res = Some res' \<and> result_ok (lib env) bands res'"
  using assms add_deposit_total [OF assms]
  by (auto simp: rain_direct_def rain_secondary_def Let_def split: option.splits)

interpretation traced_total: total_propagation "ray_env.truncate env" "trace_hooks env cfg sc t rec bands le" cfg sc t bands
  "\<lambda>_. True" "result_ok (lib env) bands"
proof unfold_locales
  fix s r path seg res
  assume ok: "result_ok (lib env) bands res"
  note total = detections_total(1) [OF ok, of cfg "CenterFreqs (BandSpec sc)" rec s r path seg]
  from total show "hkDetect (trace_hooks env cfg sc t rec bands le) s r path seg res \<noteq> None" by auto
  fix res' assume "hkDetect (trace_hooks env cfg sc t rec bands le) s r path seg res = Some res'"
  with total show "result_ok (lib env) bands res'" by auto
next
  fix s r seg res
  assume ok: "result_ok (lib env) bands res"
  note total = deposit_dapdf_total [OF ok]
  have "\<exists>res' any. hkDeposit (trace_hooks env cfg sc t rec bands le) s r seg res = Some (res', any) \<and> result_ok (lib env) bands res'"
    unfolding trace_hooks_simps by (rule total)
  then obtain res1 any1 where one: "hkDeposit (trace_hooks env cfg sc t rec bands le) s r seg res = Some (res1, any1)" "result_ok (lib env) bands res1" by blast
  from one(1) show "hkDeposit (trace_hooks env cfg sc t rec bands le) s r seg res \<noteq> None" by simp
  fix res' any assume "hkDeposit (trace_hooks env cfg sc t rec bands le) s r seg res = Some (res', any)"
  with one show "result_ok (lib env) bands res'" by simp
next
  fix s hp nrm e scat path res
  assume ok: "result_ok (lib env) bands res"
  note total = rains_total(1) [OF ok, of cfg "CenterFreqs (BandSpec sc)" t rec s hp nrm e scat path]
  from total show "hkRain (trace_hooks env cfg sc t rec bands le) s hp nrm e scat path res \<noteq> None" by auto
  fix res' assume "hkRain (trace_hooks env cfg sc t rec bands le) s hp nrm e scat path res = Some res'"
  with total show "result_ok (lib env) bands res'" by auto
next
  fix res assume "result_ok (lib env) bands res"
  then show "make_floats bands \<noteq> None" by (simp add: result_ok_def)
qed simp_all

interpretation secondary_total: total_propagation "ray_env.truncate env" "secondary_hooks env cfg sc t rec bands" cfg sc t bands
  "\<lambda>_. True" "result_ok (lib env) bands"
proof unfold_locales
  fix s r path seg res
  assume ok: "result_ok (lib env) bands res"
  note total = detections_total(2) [OF ok, of cfg "CenterFreqs (BandSpec sc)" rec s r path seg]
  from total show "hkDetect (secondary_hooks env cfg sc t rec bands) s r path seg res \<noteq> None" by auto
  fix res' assume "hkDetect (secondary_hooks env cfg sc t rec bands) s r path seg res = Some res'"
  with total show "result_ok (lib env) bands res'" by auto
next
  fix s r seg res
  assume ok: "result_ok (lib env) bands res"
  note total = deposit_dapdf_total [OF ok]
  have "\<exists>res' any. hkDeposit (secondary_hooks env cfg sc t rec bands) s r seg res = Some (res', any) \<and> result_ok (lib env) bands res'"
    unfolding trace_hooks_simps by (rule total)
  then obtain res1 any1 where one: "hkDeposit (secondary_hooks env cfg sc t rec bands) s r seg res = Some (res1, any1)" "result_ok (lib env) bands res1" by blast
  from one(1) show "hkDeposit (secondary_hooks env cfg sc t rec bands) s r seg res \<noteq> None" by simp
  fix res' any assume "hkDeposit (secondary_hooks env cfg sc t rec bands) s r seg res = Some (res', any)"
  with one show "result_ok (lib env) bands res'" by simp
next
  fix s hp nrm e scat path res
  assume ok: "result_ok (lib env) bands res"
  note total = rains_total(2) [OF ok, of cfg "CenterFreqs (BandSpec sc)" t rec s hp nrm e scat path]
  from total show "hkRain (secondary_hooks env cfg sc t rec bands) s hp nrm e scat path res \<noteq> None" by auto
  fix res' assume "hkRain (secondary_hooks env cfg sc t rec bands) s hp nrm e scat path res = Some res'"
  with total show "result_ok (lib env) bands res'" by auto
next
  fix res assume "result_ok (lib env) bands res"
  then show "make_floats bands \<noteq> None" by (simp add: result_ok_def)
qed simp_all

end
