(* ===== verification/Ray_Properties.thy ===== *)
theory Ray_Properties
  imports Ray_Totality Network_Properties
begin












subsection \<open>The tracer returns\<close>




subsection \<open>Nothing is counted twice\<close>








subsection \<open>Nothing is amplified\<close>






subsection \<open>A concrete room\<close>











end
