(* ===== verification/Bvh_Properties.thy ===== *)
theory Bvh_Properties
  imports Bvh
begin

text \<open>
  The properties of the hierarchy, with a mesh of five coincident triangles as their witness.
\<close>

lemma BuildBVH_Some: "BuildBVH (Some m) = buildBVHNode m [0..<length (Triangles m)]"
  by (simp add: BuildBVH_def buildBVHNode.simps)

text \<open>C35: the hierarchy built for a mesh holds every triangle index exactly once, in leaves of one to four
  triangles under nodes with two children, and, when no coordinate is NaN, the box of every node
  contains every vertex of every triangle below it.\<close>

theorem bvh_holds_mesh:
  "mset (bvh_leaves (BuildBVH (Some m))) = mset [0..<length (Triangles m)] \<and>
   bvh_ok m (BuildBVH (Some m)) \<and>
   ((\<forall>t \<in> set (Triangles m). triangle_number t) \<longrightarrow>
     (\<forall>(b, is) \<in> set (bvh_boxes (BuildBVH (Some m))). \<forall>i \<in> set is. \<forall>v \<in> triangle_vertices (Triangles m ! i).
        box_Contains b v))"
  unfolding BuildBVH_Some
  using build_boxes [of "[0..<length (Triangles m)]" m] by (auto simp: build_leaves build_ok)

text \<open>C34: a hit that the traversal of the hierarchy reports is a hit of that triangle of the mesh at that
  distance, in front of the origin; and when the box test loses no hit of the ray, the traversal finds
  a hit exactly when the loop over all triangles finds one, at the same distance.\<close>

theorem bvh_nearest_hit:
  "case bvh_Intersect (BuildBVH (Some m)) r of (t, i, hit) \<Rightarrow>
     (hit \<longrightarrow> i < length (Triangles m) \<and> RayTriangle r (Triangles m ! i) = (t, True) \<and> flt (Zero False) t) \<and>
     (boxes_admit r m (BuildBVH (Some m)) \<longrightarrow>
       (case intersectLeaf r m [0..<length (Triangles m)] (Inf False) of (t', i', hit') \<Rightarrow>
          hit = hit' \<and> (hit \<longrightarrow> t = t')))"
proof -
  let ?n = "BuildBVH (Some m)"
  obtain t i hit where x: "bvh_Intersect ?n r = (t, i, hit)" by (metis prod_cases3)
  obtain t' i' hit' where y: "intersectLeaf r m [0..<length (Triangles m)] (Inf False) = (t', i', hit')" by (metis prod_cases3)
  have ok: "bvh_ok m ?n" by (simp add: BuildBVH_Some build_ok)
  have leaves: "set (bvh_leaves ?n) = set [0..<length (Triangles m)]"
    using build_leaves [of m "[0..<length (Triangles m)]"] unfolding BuildBVH_Some by (metis set_mset_mset)
  have near: "nearest c r m (set [0..<length (Triangles m)]) (Inf False) (t, i, hit)" if "c \<Longrightarrow> boxes_admit r m ?n" for c
    using intersectNearest_nearest [OF ok, of c r "Inf False"] that x leaves by (simp add: bvh_Intersect_def)
  have "i < length (Triangles m) \<and> RayTriangle r (Triangles m ! i) = (t, True) \<and> flt (Zero False) t" if "hit"
  proof -
    from near [of False] that have h: "i < length (Triangles m)" "ray_hits r m i t" "flt t (Inf False)"
      by (auto simp: nearest_def best_of_def)
    with hit_positive [OF h(2)] show ?thesis by (simp add: flt_def ray_hits_def)
  qed
  moreover have "hit = hit' \<and> (hit \<longrightarrow> t = t')" if "boxes_admit r m ?n"
    using nearest_unique [OF near [of True, OF that], of t' i' hit']
      intersectLeaf_nearest [of True r m "[0..<length (Triangles m)]" "Inf False"] by (simp add: y)
  ultimately show ?thesis by (simp add: x y)
qed

text \<open>Every box of a hierarchy is the bounds of some of its triangles.\<close>

lemma build_boxes_bounds:
  "(b, is) \<in> set (bvh_boxes (buildBVHNode m indices)) \<Longrightarrow>
   \<exists>js. js \<noteq> [] \<and> set js \<subseteq> set indices \<and> b = bvhBoundsForTriangles m js"
proof (induction indices rule: length_induct)
  case (1 indices)
  show ?case
  proof (cases "indices = []")
    case True
    with "1.prems" show ?thesis by (simp add: buildBVHNode.simps)
  next
    case False
    then show ?thesis
    proof (cases rule: build_node [of indices m])
      case leaf
      with "1.prems" False show ?thesis by auto
    next
      case (split l r)
      have sets: "set indices = set l \<union> set r" using split(2) by (metis set_mset_mset set_mset_union)
      from "1.prems" split(7) consider "b = bvhBoundsForTriangles m indices"
        | "(b, is) \<in> set (bvh_boxes (buildBVHNode m l))" | "(b, is) \<in> set (bvh_boxes (buildBVHNode m r))"
        by auto
      then show ?thesis
      proof cases
        case 1
        with False show ?thesis by blast
      next
        case 2
        with "1.IH" [rule_format, OF split(3)] sets show ?thesis by blast
      next
        case 3
        with "1.IH" [rule_format, OF split(4)] sets show ?thesis by blast
      qed
    qed
  qed
qed

definition wall_piece :: triangle where
  "wall_piece = \<lparr>V0 = mk_vec3 (Zero False) (Zero False) (Zero False), V1 = mk_vec3 (Num 1) (Zero False) (Zero False),
     V2 = mk_vec3 (Zero False) (Num 1) (Zero False)\<rparr>"

definition five_walls :: mesh where
  "five_walls = \<lparr>Triangles = replicate 5 wall_piece\<rparr>"

definition straight_ray :: ray where
  "straight_ray = \<lparr>rayOrigin = mk_vec3 (Zero False) (Zero False) (Num (- 1)), rayDirection = mk_vec3 (Zero False) (Zero False) (Num 1)\<rparr>"

lemma eps_bounds: "\<not> flt (Num 1) (round64 (1 / 10 ^ 9))" "flt (Zero False) (round64 (1 / 10 ^ 12))" "\<not> flt (Num 1) (round64 (1 / 10 ^ 12))"
proof -
  have one: "representable 1" using representable_of_int [of 1] by simp
  from round64_le_representable [OF one, of "1 / 10 ^ 9"] round64_le_representable [OF one, of "1 / 10 ^ 12"]
  show "\<not> flt (Num 1) (round64 (1 / 10 ^ 9))" "\<not> flt (Num 1) (round64 (1 / 10 ^ 12))"
    by (auto simp: not_flt_iff)
  have "representable (1 / 2 ^ 40)" by (rule representableI [of _ 1 "-40"]) (simp_all add: power_int_minus field_simps)
  then have "fle (fof (1 / 2 ^ 40)) (round64 (1 / 10 ^ 12))" by (rule round64_ge_representable) simp
  moreover have "flt (Zero False) (fof (1 / 2 ^ 40))" by (simp add: flt_def)
  ultimately show "flt (Zero False) (round64 (1 / 10 ^ 12))" by (rule flt_fle_trans [rotated])
qed

lemma ray_meets_wall: "RayTriangle straight_ray wall_piece = (Num 1, True)"
proof -
  let ?z = "Zero False" and ?d = "rayDirection straight_ray"
  let ?h = "mk_vec3 (Num (- 1)) ?z ?z" and ?s = "mk_vec3 ?z ?z (Num (- 1))" and ?q = "mk_vec3 ?z (Num (- 1)) ?z"
  let ?e1 = "mk_vec3 (Num 1) ?z ?z" and ?e2 = "mk_vec3 ?z (Num 1) ?z"
  have e: "vec3_Sub (V1 wall_piece) (V0 wall_piece) = ?e1" "vec3_Sub (V2 wall_piece) (V0 wall_piece) = ?e2"
    "vec3_Sub (rayOrigin straight_ray) (V0 wall_piece) = ?s"
    by (simp_all add: wall_piece_def straight_ray_def vec3_Sub_def float_eval)
  have h: "vec3_Cross ?d ?e2 = ?h" "vec3_Cross ?s ?e1 = ?q"
    by (simp_all add: straight_ray_def vec3_Cross_def float_eval)
  have d: "vec3_Dot ?e1 ?h = Num (- 1)" "vec3_Dot ?s ?h = ?z" "vec3_Dot ?d ?q = ?z" "vec3_Dot ?e2 ?q = Num (- 1)"
    by (simp_all add: straight_ray_def vec3_Dot_def float_eval)
  have f: "fdiv (round64 1) (Num (- 1)) = Num (- 1)" "fmul ?z (Num (- 1)) = Zero True" "fadd (Zero True) (Zero True) = Zero True"
    "fmul (Num (- 1)) (Num (- 1)) = Num 1" "fabs (Num (- 1)) = Num 1"
    "\<not> flt (Zero True) ?z" "\<not> flt (round64 1) (Zero True)"
    by (simp_all add: float_eval)
  show ?thesis
    unfolding RayTriangle_def Let_def e h d f(1-5) using eps_bounds(1) f(6,7) by simp
qed

lemma wall_bounds: "bvhTriangleBounds wall_piece = mk_box (mk_vec3 (Zero False) (Zero False) (Zero False)) (mk_vec3 (Num 1) (Num 1) (Zero False))"
  by (simp add: bvhTriangleBounds_def wall_piece_def min64_def max64_def flt_def)

lemma ray_enters_wall: "RayBox straight_ray (bvhTriangleBounds wall_piece) = (Num 1, Num 1, True)"
  using eps_bounds(2,3)
  by (simp add: RayBox_def wall_bounds straight_ray_def float_eval Let_def)

lemma five_walls_nth: "i < 5 \<Longrightarrow> Triangles five_walls ! i = wall_piece" "length (Triangles five_walls) = 5"
  by (simp_all add: five_walls_def)

lemma wall_union: "bvhUnionBox (bvhTriangleBounds wall_piece) (bvhTriangleBounds wall_piece) = bvhTriangleBounds wall_piece"
  by (simp add: wall_bounds bvhUnionBox_def min64_def max64_def)

lemma five_walls_bounds:
  assumes "js \<noteq> []" "set js \<subseteq> {..<5}"
  shows "bvhBoundsForTriangles five_walls js = bvhTriangleBounds wall_piece"
proof -
  have "foldl (\<lambda>bounds i. bvhUnionBox bounds (bvhTriangleBounds (Triangles five_walls ! i))) (bvhTriangleBounds wall_piece) js
      = bvhTriangleBounds wall_piece" if "set js \<subseteq> {..<5}" for js
    using that by (induction js) (simp_all add: five_walls_nth wall_union)
  moreover have "hd js \<in> {..<5}" "set (tl js) \<subseteq> {..<5}" using assms by (auto simp: subset_iff dest: list.set_sel)
  ultimately show ?thesis by (simp add: bvhBoundsForTriangles_def five_walls_nth)
qed

lemma five_walls_admit: "boxes_admit straight_ray five_walls (BuildBVH (Some five_walls))"
proof -
  have "\<exists>tMin tMax. RayBox straight_ray b = (tMin, tMax, True) \<and> \<not> flt t tMin"
    if b: "(b, is) \<in> set (bvh_boxes (BuildBVH (Some five_walls)))" "i \<in> set is" "ray_hits straight_ray five_walls i t" for b "is" i t
  proof -
    have "set (bvh_leaves (BuildBVH (Some five_walls))) = {..<5}"
      using build_leaves [of five_walls "[0..<5]"] unfolding BuildBVH_Some five_walls_nth(2)
      by (metis set_mset_mset atLeast_upt)
    moreover have "set is \<subseteq> set (bvh_leaves n)" if "(b, is) \<in> set (bvh_boxes n)" for n
      using that by (induction n) auto
    ultimately have "i < 5" using b by blast
    then have "t = Num 1" using b(3) ray_meets_wall by (simp add: ray_hits_def five_walls_nth)
    moreover have "b = bvhTriangleBounds wall_piece"
      using build_boxes_bounds [OF b(1) [unfolded BuildBVH_Some]] five_walls_bounds
      by (auto simp: five_walls_nth atLeast0LessThan)
    ultimately show ?thesis by (simp add: ray_enters_wall)
  qed
  then show ?thesis unfolding boxes_admit_def by blast
qed

theorem bvh_holds_mesh_witness:
  "mset (bvh_leaves (BuildBVH (Some five_walls))) = mset [0, 1, 2, 3, 4] \<and> bvh_ok five_walls (BuildBVH (Some five_walls)) \<and>
   list_all (\<lambda>(b, is). list_all (\<lambda>i. box_Contains b (V1 (Triangles five_walls ! i))) is) (bvh_boxes (BuildBVH (Some five_walls)))"
proof -
  have "\<forall>t \<in> set (Triangles five_walls). triangle_number t"
    by (simp add: five_walls_def triangle_number_def triangle_vertices_def wall_piece_def vec3_number_def)
  with bvh_holds_mesh [of five_walls] have "\<forall>(b, is) \<in> set (bvh_boxes (BuildBVH (Some five_walls))). \<forall>i \<in> set is.
      \<forall>v \<in> triangle_vertices (Triangles five_walls ! i). box_Contains b v"
    by blast
  then have "list_all (\<lambda>(b, is). list_all (\<lambda>i. box_Contains b (V1 (Triangles five_walls ! i))) is) (bvh_boxes (BuildBVH (Some five_walls)))"
    by (fastforce simp: list_all_iff triangle_vertices_def)
  with bvh_holds_mesh [of five_walls] show ?thesis by (simp add: five_walls_nth upt_rec numeral_eq_Suc)
qed

theorem bvh_nearest_hit_witness:
  "fst (bvh_Intersect (BuildBVH (Some five_walls)) straight_ray) = Num 1 \<and>
   snd (snd (bvh_Intersect (BuildBVH (Some five_walls)) straight_ray))"
proof -
  have brute: "intersectLeaf straight_ray five_walls [0..<5] (Inf False) = (Num 1, 0, True)"
    by (simp add: intersectLeaf_def closer_triangle_def upt_rec five_walls_nth ray_meets_wall bvhHitResult_def flt_def)
  show ?thesis
    using bvh_nearest_hit [of five_walls straight_ray] five_walls_admit
    by (cases "bvh_Intersect (BuildBVH (Some five_walls)) straight_ray") (simp add: five_walls_nth brute)
qed

end
