(* ===== verification/Image_Sources.thy ===== *)
theory Image_Sources
  imports Scene_Model Go_Values Stable_Sort "HOL-Library.Word"
begin

text \<open>
  The image sources of a shoebox (ism/image.go) and the reflection path of one of them
  (ism/audibility.go). \<open>sort.Slice\<close> is the argument \<open>srt\<close>: it is not stable, and its law is
  \<open>sorts_slices\<close>. Walls are numbered 0 to 5, as in the code.
\<close>

unbundle bit_operations_syntax

definition sorts_slices :: "(('a \<Rightarrow> 'a \<Rightarrow> bool) \<Rightarrow> 'a list \<Rightarrow> 'a list) \<Rightarrow> bool" where
  "sorts_slices srt \<longleftrightarrow> (\<forall>lt xs. mset (srt lt xs) = mset xs \<and>
     (weak_order_on (set xs) lt \<longrightarrow> sorted_wrt (\<lambda>a b. \<not> lt b a) (srt lt xs)))"

lemma sorts_SliceStable: "sorts_slices SliceStable"
  by (auto simp: sorts_slices_def intro: SliceStable_sorted)

subsection \<open>Image sources (image.go)\<close>

definition wallNegX :: nat where "wallNegX = 0"
definition wallPosX :: nat where "wallPosX = 1"
definition wallNegY :: nat where "wallNegY = 2"
definition wallPosY :: nat where "wallPosY = 3"
definition wallNegZ :: nat where "wallNegZ = 4"
definition wallPosZ :: nat where "wallPosZ = 5"

lemmas wall_numbers = wallNegX_def wallPosX_def wallNegY_def wallPosY_def wallNegZ_def wallPosZ_def

definition wall_bit :: "nat \<Rightarrow> 8 word" where
  "wall_bit w = push_bit w 1"

record ImageSource =
  isPosition :: vec3
  isOrder :: int
  WallMask :: "8 word"
  orderX :: int
  orderY :: int
  orderZ :: int
  roomDims :: vec3

definition imageSourceCoordinate :: "int \<Rightarrow> f64 \<Rightarrow> f64 \<Rightarrow> f64" where
  "imageSourceCoordinate order source dimension =
     (if even order then fadd (fmul (f64_of_int order) dimension) source
      else fsub (fmul (f64_of_int (order + 1)) dimension) source)"

definition accumulateAxisWallHits :: "int list \<Rightarrow> int \<Rightarrow> nat \<Rightarrow> nat \<Rightarrow> int list" where
  "accumulateAxisWallHits counts order negativeWall positiveWall =
     (if order = 0 then counts
      else
        (let (firstWall, secondWall) = (if order < 0 then (negativeWall, positiveWall) else (positiveWall, negativeWall)) in
         foldl (\<lambda>c step. let w = (if even step then firstWall else secondWall) in c[w := c ! w + 1])
           counts [0..<nat \<bar>order\<bar>]))"

definition wallHitCounts :: "int \<Rightarrow> int \<Rightarrow> int \<Rightarrow> int list" where
  "wallHitCounts ox oy oz =
     accumulateAxisWallHits (accumulateAxisWallHits (accumulateAxisWallHits (replicate 6 0) ox wallNegX wallPosX)
       oy wallNegY wallPosY) oz wallNegZ wallPosZ"

definition wallMaskFromCounts :: "int list \<Rightarrow> 8 word" where
  "wallMaskFromCounts counts =
     foldl (\<lambda>mask w. if 0 < counts ! w then mask OR wall_bit w else mask) 0
       [wallNegX, wallPosX, wallNegY, wallPosY, wallNegZ, wallPosZ]"

definition image_at :: "vec3 \<Rightarrow> vec3 \<Rightarrow> int \<times> int \<times> int \<Rightarrow> ImageSource" where
  "image_at src dims o3 =
     (let (ox, oy, oz) = o3 in
      \<lparr>isPosition = mk_vec3 (imageSourceCoordinate ox (vX src) (vX dims)) (imageSourceCoordinate oy (vY src) (vY dims))
         (imageSourceCoordinate oz (vZ src) (vZ dims)),
       isOrder = \<bar>ox\<bar> + \<bar>oy\<bar> + \<bar>oz\<bar>, WallMask = wallMaskFromCounts (wallHitCounts ox oy oz),
       orderX = ox, orderY = oy, orderZ = oz, roomDims = dims\<rparr>)"

definition image_before :: "ImageSource \<Rightarrow> ImageSource \<Rightarrow> bool" where
  "image_before a b =
     (let p = isPosition a; q = isPosition b in
      if isOrder a \<noteq> isOrder b then isOrder a < isOrder b
      else if \<not> feq (vX p) (vX q) then flt (vX p) (vX q)
      else if \<not> feq (vY p) (vY q) then flt (vY p) (vY q)
      else flt (vZ p) (vZ q))"

text \<open>The orders the three loops visit and do not skip.\<close>

definition image_orders :: "int \<Rightarrow> (int \<times> int \<times> int) list" where
  "image_orders maxOrder =
     filter (\<lambda>(ox, oy, oz). \<bar>ox\<bar> + \<bar>oy\<bar> + \<bar>oz\<bar> \<le> maxOrder)
       (concat (map (\<lambda>ox. concat (map (\<lambda>oy. map (\<lambda>oz. (ox, oy, oz)) [- maxOrder..maxOrder]) [- maxOrder..maxOrder]))
         [- maxOrder..maxOrder]))"

definition GenerateImageSources ::
  "((ImageSource \<Rightarrow> ImageSource \<Rightarrow> bool) \<Rightarrow> ImageSource list \<Rightarrow> ImageSource list) \<Rightarrow> vec3 \<Rightarrow> shoebox option \<Rightarrow> int \<Rightarrow> ImageSource list" where
  "GenerateImageSources srt src ro maxOrder = (case ro of
     None \<Rightarrow> []
   | Some room \<Rightarrow>
       if maxOrder < 0 then []
       else srt image_before (map (image_at src (mk_vec3 (Width room) (Depth room) (Height room))) (image_orders maxOrder)))"

subsection \<open>Reflection paths (audibility.go)\<close>

definition pathEpsilon :: f64 where
  "pathEpsilon = round64 (1 / 10 ^ 9)"

record reflectionPoint =
  rpPoint :: vec3
  rpWall :: nat

record pathCrossing =
  pcT :: f64
  pcWall :: nat

text \<open>\<open>math.Mod\<close>: the remainder with the sign of the dividend, which is exact.\<close>

definition fmod :: "f64 \<Rightarrow> f64 \<Rightarrow> f64" where
  "fmod a b =
     (if is_nan a \<or> is_nan b \<or> is_inf a \<or> is_fzero b then NaN
      else if is_inf b \<or> is_fzero a then a
      else (let r = fval a - of_int (truncate_real (fval a / fval b)) * fval b in
            if r = 0 then Zero (fneg_bit a) else round64 r))"

definition foldCoordinate :: "f64 \<Rightarrow> f64 \<Rightarrow> f64" where
  "foldCoordinate value dimension =
     (let period = fmul (round64 2) dimension;
          folded0 = fmod value period;
          folded = (if flt folded0 (Zero False) then fadd folded0 period else folded0) in
      if fle folded pathEpsilon then Zero False
      else if fle (fabs (fsub folded dimension)) pathEpsilon then dimension
      else if flt folded dimension then folded
      else
        (let mirrored = fsub period folded in
         if fle mirrored pathEpsilon then Zero False
         else if fle (fabs (fsub mirrored dimension)) pathEpsilon then dimension
         else mirrored))"

definition foldPoint :: "vec3 \<Rightarrow> vec3 \<Rightarrow> vec3" where
  "foldPoint point dims =
     mk_vec3 (foldCoordinate (vX point) (vX dims)) (foldCoordinate (vY point) (vY dims)) (foldCoordinate (vZ point) (vZ dims))"

definition withinOpenInterval :: "f64 \<Rightarrow> f64 \<Rightarrow> bool" where
  "withinOpenInterval value dimension \<longleftrightarrow> flt pathEpsilon value \<and> flt value (fsub dimension pathEpsilon)"

definition pointOnWallInterior :: "vec3 \<Rightarrow> nat \<Rightarrow> vec3 \<Rightarrow> bool" where
  "pointOnWallInterior p w dims =
     (let x = withinOpenInterval (vX p) (vX dims); y = withinOpenInterval (vY p) (vY dims);
          z = withinOpenInterval (vZ p) (vZ dims); near = (\<lambda>d. fle (fabs d) pathEpsilon) in
      if w = wallNegX then near (vX p) \<and> y \<and> z
      else if w = wallPosX then near (fsub (vX p) (vX dims)) \<and> y \<and> z
      else if w = wallNegY then x \<and> near (vY p) \<and> z
      else if w = wallPosY then x \<and> near (fsub (vY p) (vY dims)) \<and> z
      else if w = wallNegZ then x \<and> y \<and> near (vZ p)
      else if w = wallPosZ then x \<and> y \<and> near (fsub (vZ p) (vZ dims))
      else False)"

text \<open>The wall and the index of the plane that a step of the unfolded path crosses.\<close>

definition crossed_wall :: "int \<Rightarrow> nat \<Rightarrow> nat \<Rightarrow> nat \<Rightarrow> nat" where
  "crossed_wall order negativeWall positiveWall step =
     (if order < 0 then (if odd step then positiveWall else negativeWall)
      else (if odd step then negativeWall else positiveWall))"

definition crossed_plane :: "int \<Rightarrow> nat \<Rightarrow> int" where
  "crossed_plane order step = (if order < 0 then - int step else int step + 1)"

definition appendAxisCrossings ::
  "pathCrossing list \<Rightarrow> f64 \<Rightarrow> f64 \<Rightarrow> f64 \<Rightarrow> int \<Rightarrow> nat \<Rightarrow> nat \<Rightarrow> pathCrossing list option" where
  "appendAxisCrossings events receiverCoord imageCoord dimension order negativeWall positiveWall =
     (if order = 0 then Some events
      else
        (let delta = fsub imageCoord receiverCoord in
         if fle (fabs delta) pathEpsilon then None
         else Some (events @ map (\<lambda>step.
             \<lparr>pcT = fdiv (fsub (fmul (f64_of_int (crossed_plane order step)) dimension) receiverCoord) delta,
              pcWall = crossed_wall order negativeWall positiveWall step\<rparr>) [0..<nat \<bar>order\<bar>])))"

definition crossingEvents :: "ImageSource \<Rightarrow> vec3 \<Rightarrow> pathCrossing list option" where
  "crossingEvents img receiver =
     (let p = isPosition img; d = roomDims img in
      case appendAxisCrossings [] (vX receiver) (vX p) (vX d) (orderX img) wallNegX wallPosX of
        None \<Rightarrow> None
      | Some xs \<Rightarrow>
          (case appendAxisCrossings xs (vY receiver) (vY p) (vY d) (orderY img) wallNegY wallPosY of
             None \<Rightarrow> None
           | Some ys \<Rightarrow> appendAxisCrossings ys (vZ receiver) (vZ p) (vZ d) (orderZ img) wallNegZ wallPosZ))"

text \<open>Two neighbours of the sorted crossings that nearly coincide.\<close>

fun crossings_collide :: "pathCrossing list \<Rightarrow> bool" where
  "crossings_collide (a # b # rest) \<longleftrightarrow> fle (fabs (fsub (pcT b) (pcT a))) pathEpsilon \<or> crossings_collide (b # rest)"
| "crossings_collide _ \<longleftrightarrow> False"

definition crossing_point :: "ImageSource \<Rightarrow> vec3 \<Rightarrow> pathCrossing \<Rightarrow> reflectionPoint option" where
  "crossing_point img receiver c =
     (if fle (pcT c) pathEpsilon \<or> fle (round64 (1 - 1 / 10 ^ 9)) (pcT c) then None
      else
        (let delta = vec3_Sub (isPosition img) receiver;
             point = foldPoint (vec3_Add receiver (vec3_Scale delta (pcT c))) (roomDims img) in
         if pointOnWallInterior point (pcWall c) (roomDims img) then Some \<lparr>rpPoint = point, rpWall = pcWall c\<rparr> else None))"

definition reflectionPath ::
  "((pathCrossing \<Rightarrow> pathCrossing \<Rightarrow> bool) \<Rightarrow> pathCrossing list \<Rightarrow> pathCrossing list) \<Rightarrow> ImageSource \<Rightarrow> vec3 \<Rightarrow> reflectionPoint list option" where
  "reflectionPath srt img receiver =
     (if fle (vec3_Distance (isPosition img) receiver) pathEpsilon then None
      else
        (case crossingEvents img receiver of
           None \<Rightarrow> None
         | Some crossings0 \<Rightarrow>
             if int (length crossings0) \<noteq> isOrder img then None
             else
               (let crossings = srt (\<lambda>a b. flt (pcT a) (pcT b)) crossings0 in
                if crossings_collide crossings then None else those (map (crossing_point img receiver) crossings))))"

definition IsAudible ::
  "((pathCrossing \<Rightarrow> pathCrossing \<Rightarrow> bool) \<Rightarrow> pathCrossing list \<Rightarrow> pathCrossing list) \<Rightarrow> ImageSource \<Rightarrow> vec3 \<Rightarrow> bool" where
  "IsAudible srt img receiver \<longleftrightarrow> reflectionPath srt img receiver \<noteq> None"

end
