(* ===== verification/Image_Laws.thy ===== *)
theory Image_Laws
  imports Image_Sources Bvh_Properties
begin

text \<open>
  What the image sources of a shoebox are: every combination of orders once, at the mirror images of the
  source, with the walls its unfolded path crosses; and what the reflection path of an image is.
\<close>

subsection \<open>Walls\<close>

definition crossed_walls :: "int \<Rightarrow> nat \<Rightarrow> nat \<Rightarrow> nat list" where
  "crossed_walls order neg pos = map (crossed_wall order neg pos) [0..<nat \<bar>order\<bar>]"

definition bump_wall :: "int list \<Rightarrow> nat \<Rightarrow> int list" where
  "bump_wall c w = c[w := c ! w + 1]"

lemma length_bumps [simp]: "length (foldl bump_wall c ws) = length c"
  by (induction ws arbitrary: c) (auto simp: bump_wall_def)

lemma bumps_nth:
  "w < length c \<Longrightarrow> set ws \<subseteq> {..<length c} \<Longrightarrow> foldl bump_wall c ws ! w = c ! w + int (count_list ws w)"
  by (induction ws arbitrary: c) (auto simp: bump_wall_def nth_list_update)

lemma accumulate_bumps: "accumulateAxisWallHits c order neg pos = foldl bump_wall c (crossed_walls order neg pos)"
proof -
  have "foldl f c (map g xs) = foldl (\<lambda>c x. f c (g x)) c xs" for f :: "int list \<Rightarrow> nat \<Rightarrow> int list" and g and xs :: "nat list"
    by (induction xs arbitrary: c) auto
  moreover have "crossed_wall order neg pos step =
      (if even step then if order < 0 then neg else pos else if order < 0 then pos else neg)" for step
    by (simp add: crossed_wall_def)
  ultimately show ?thesis by (simp add: accumulateAxisWallHits_def crossed_walls_def Let_def bump_wall_def)
qed

definition path_walls :: "int \<Rightarrow> int \<Rightarrow> int \<Rightarrow> nat list" where
  "path_walls ox oy oz = crossed_walls ox wallNegX wallPosX @ crossed_walls oy wallNegY wallPosY @ crossed_walls oz wallNegZ wallPosZ"

lemma crossed_walls_range: "set (crossed_walls order neg pos) \<subseteq> {neg, pos}"
  by (auto simp: crossed_walls_def crossed_wall_def)

lemma path_walls_range: "set (path_walls ox oy oz) \<subseteq> {..<6}"
  using crossed_walls_range [of ox wallNegX wallPosX] crossed_walls_range [of oy wallNegY wallPosY]
    crossed_walls_range [of oz wallNegZ wallPosZ]
  by (auto simp: path_walls_def wall_numbers)

lemma wallHitCounts_bumps: "wallHitCounts ox oy oz = foldl bump_wall (replicate 6 0) (path_walls ox oy oz)"
  by (simp add: wallHitCounts_def accumulate_bumps path_walls_def)

lemma wallHitCounts_nth: "w < 6 \<Longrightarrow> wallHitCounts ox oy oz ! w = int (count_list (path_walls ox oy oz) w)"
  using path_walls_range [of ox oy oz] unfolding wallHitCounts_bumps by (subst bumps_nth) auto

lemma length_path_walls: "int (length (path_walls ox oy oz)) = \<bar>ox\<bar> + \<bar>oy\<bar> + \<bar>oz\<bar>"
  by (simp add: path_walls_def crossed_walls_def)

lemma bit_wall: "v < 8 \<Longrightarrow> bit (wall_bit w) v \<longleftrightarrow> v = w"
  by (auto simp: wall_bit_def bit_exp_iff)

lemma bit_mask:
  "w < 6 \<Longrightarrow> bit (wallMaskFromCounts counts) w \<longleftrightarrow> 0 < counts ! w"
proof -
  have f: "bit (foldl (\<lambda>mask u. if 0 < counts ! u then mask OR wall_bit u else mask) m us) w \<longleftrightarrow>
      bit m w \<or> (w \<in> set us \<and> 0 < counts ! w)" if "w < 8" for m :: "8 word" and us
    using that by (induction us arbitrary: m) (auto simp: bit_or_iff bit_wall)
  assume "w < 6"
  then have "w \<in> set [wallNegX, wallPosX, wallNegY, wallPosY, wallNegZ, wallPosZ]" by (auto simp: wall_numbers)
  with \<open>w < 6\<close> show ?thesis unfolding wallMaskFromCounts_def by (subst f) auto
qed

subsection \<open>Mirror images\<close>

text \<open>The image of order \<open>n\<close> along an axis: an image behind the wall at \<open>d\<close> is the mirror image, in that wall, of
  an image on the other side, and likewise at 0.\<close>

function mirrored :: "real \<Rightarrow> real \<Rightarrow> int \<Rightarrow> real" where
  "mirrored s d n = (if n = 0 then s else if 0 < n then 2 * d - mirrored s d (1 - n) else - mirrored s d (- n - 1))"
  by pat_completeness auto
termination by (relation "measure (\<lambda>(s, d, n). nat (if 0 < n then 2 * n - 1 else - 2 * n))") auto

declare mirrored.simps [simp del]

lemma mirrored_closed: "mirrored s d n = (if even n then of_int n * d + s else of_int (n + 1) * d - s)"
proof (induction s d n rule: mirrored.induct)
  case (1 s d n)
  consider "n = 0" | "0 < n" | "n < 0" by linarith
  then show ?case
  proof cases
    case 2
    then have "mirrored s d (1 - n) = (if even (1 - n) then of_int (1 - n) * d + s else of_int (1 - n + 1) * d - s)" using 1(1) by simp
    with 2 show ?thesis by (subst mirrored.simps) (simp add: algebra_simps)
  next
    case 3
    then have "mirrored s d (- n - 1) = (if even (- n - 1) then of_int (- n - 1) * d + s else of_int (- n - 1 + 1) * d - s)" using 1(2) by simp
    with 3 show ?thesis by (subst mirrored.simps) (simp add: algebra_simps)
  qed (simp add: mirrored.simps)
qed

lemma fmul_exact:
  assumes "is_finite a" "is_finite b" "representable (fval a * fval b)"
  shows "is_finite (fmul a b)" "fval (fmul a b) = fval a * fval b"
  using assms by (cases a; cases b; auto simp: fmul_def is_finite_def round64_exact fof_def)+

lemma fadd_round: "is_finite a \<Longrightarrow> is_finite b \<Longrightarrow> feq (fadd a b) (round64 (fval a + fval b))"
  using round64_not_nan by (auto simp: fadd_def is_finite_def feq_def)

lemma fneg_finite [simp]: "is_finite (fneg a) = is_finite a" "fval (fneg a) = - fval a"
  by (cases a; simp add: is_finite_def)+

text \<open>A coordinate is the correctly rounded mirror image when the multiple of the room's size is exact.\<close>

lemma coordinate_mirrored:
  assumes "is_finite s" "is_finite d" "\<bar>n\<bar> < 2 ^ 52"
    and "representable (of_int (if even n then n else n + 1) * fval d)"
  shows "feq (imageSourceCoordinate n s d) (round64 (mirrored (fval s) (fval d) n))"
proof -
  let ?k = "if even n then n else n + 1"
  have k: "f64_of_int ?k = fof (of_int ?k)" using assms(3) by (intro f64_of_int_exact) auto
  have f: "is_finite (fof (of_int ?k))" "fval (fof (of_int ?k)) = of_int ?k" by (simp_all add: fof_def is_finite_def)
  have m: "is_finite (fmul (fof (of_int ?k)) d)" "fval (fmul (fof (of_int ?k)) d) = of_int ?k * fval d"
    using fmul_exact [OF f(1) assms(2)] assms(4) unfolding f(2) by blast+
  show ?thesis
  proof (cases "even n")
    case True
    with fadd_round [OF m(1) assms(1)] k m(2) show ?thesis by (simp add: imageSourceCoordinate_def mirrored_closed)
  next
    case False
    with fadd_round [OF m(1), of "fneg s"] assms(1) k m(2) show ?thesis
      by (simp add: imageSourceCoordinate_def mirrored_closed fsub_def)
  qed
qed

lemma coordinate_not_nan:
  assumes "is_finite s" "is_finite d" "\<bar>n\<bar> < 2 ^ 52"
  shows "\<not> is_nan (imageSourceCoordinate n s d)"
proof -
  have "is_finite (f64_of_int k)" if "\<bar>k\<bar> < 2 ^ 53" for k
    using that by (simp add: f64_of_int_exact fof_def is_finite_def)
  then have f: "is_finite (f64_of_int n)" "is_finite (f64_of_int (n + 1))" using assms(3) by auto
  have mul: "\<not> is_nan (fmul a d)" if "is_finite a" for a
    using that assms(2) round64_not_nan by (auto simp: fmul_def is_finite_def)
  have add: "\<not> is_nan (fadd a b)" if "\<not> is_nan a" "is_finite b" for a b
    using that round64_not_nan by (auto simp: fadd_def is_finite_def)
  show ?thesis using add [OF mul [OF f(1)], of s] add [OF mul [OF f(2)], of "fneg s"] assms(1)
    by (simp add: imageSourceCoordinate_def fsub_def)
qed

subsection \<open>The order of the images\<close>

text \<open>A real number that orders the float64 values other than NaN.\<close>

definition frank :: "f64 \<Rightarrow> real" where
  "frank a = 4 * of_int (ford a) + arctan (fval a)"

lemma ford_range: "ford a \<in> {- 1, 0, 1}" "ford a \<noteq> 0 \<Longrightarrow> fval a = 0"
  by (cases a; simp)+

lemma frank_laws:
  assumes "\<not> is_nan a" "\<not> is_nan b"
  shows "flt a b \<longleftrightarrow> frank a < frank b" "feq a b \<longleftrightarrow> frank a = frank b"
proof -
  have arctan: "\<bar>arctan x\<bar> < 2" for x
    using arctan_bounded [of x] pi_less_4 by auto
  have up: "frank x < frank y" if "ford x < ford y" for x y
  proof -
    have "real_of_int (ford x) + 1 \<le> real_of_int (ford y)" using that by linarith
    with arctan [of "fval x"] arctan [of "fval y"] show ?thesis by (simp add: frank_def abs_less_iff)
  qed
  consider "ford a = ford b" | "ford a < ford b" | "ford b < ford a" by linarith
  note cases = this
  show "flt a b \<longleftrightarrow> frank a < frank b"
    by (rule cases) (use assms up [of a b] up [of b a] in \<open>auto simp: flt_def frank_def arctan_less_iff\<close>)
  show "feq a b \<longleftrightarrow> frank a = frank b"
    by (rule cases) (use assms up [of a b] up [of b a] in \<open>auto simp: feq_def frank_def arctan_eq_iff\<close>)
qed

lemma image_before_weak:
  assumes "\<forall>img \<in> S. \<not> is_nan (vX (isPosition img)) \<and> \<not> is_nan (vY (isPosition img)) \<and> \<not> is_nan (vZ (isPosition img))"
  shows "weak_order_on S image_before"
proof -
  define key where "key img = (real_of_int (isOrder img), frank (vX (isPosition img)), frank (vY (isPosition img)), frank (vZ (isPosition img)))" for img :: ImageSource
  define below :: "real \<times> real \<times> real \<times> real \<Rightarrow> real \<times> real \<times> real \<times> real \<Rightarrow> bool" where
    "below = (\<lambda>(o1, x1, y1, z1) (o2, x2, y2, z2). o1 < o2 \<or> o1 = o2 \<and> (x1 < x2 \<or> x1 = x2 \<and> (y1 < y2 \<or> y1 = y2 \<and> z1 < z2)))"
  have eq: "image_before a b \<longleftrightarrow> below (key a) (key b)" if "a \<in> S" "b \<in> S" for a b
    using assms that by (auto simp: image_before_def Let_def below_def key_def frank_laws)
  have asym: "\<not> below q p" if "below p q" for p q using that by (cases p; cases q) (auto simp: below_def)
  have trans: "\<not> below r p" if "\<not> below q p" "\<not> below r q" for p q r
    using that by (cases p; cases q; cases r) (auto simp: below_def)
  show ?thesis unfolding weak_order_on_def
  proof (intro conjI ballI impI)
    fix a b assume "a \<in> S" "b \<in> S" "image_before a b"
    then show "\<not> image_before b a" using asym eq by blast
  next
    fix a b c assume "a \<in> S" "b \<in> S" "c \<in> S" "\<not> image_before b a" "\<not> image_before c b"
    then show "\<not> image_before c a" using trans [of "key b" "key a" "key c"] eq by blast
  qed
qed

subsection \<open>Orders\<close>

lemma image_orders_laws:
  "distinct (image_orders n)" "set (image_orders n) = {(x, y, z). \<bar>x\<bar> + \<bar>y\<bar> + \<bar>z\<bar> \<le> n}"
proof -
  let ?r = "[- n..n]"
  have "concat (map (\<lambda>x. concat (map (\<lambda>y. map (\<lambda>z. (x, y, z)) ?r) ?r)) ?r) = List.product ?r (List.product ?r ?r)"
    by (simp add: product_concat_map map_concat comp_def)
  then show "distinct (image_orders n)" by (simp add: image_orders_def distinct_product)
  show "set (image_orders n) = {(x, y, z). \<bar>x\<bar> + \<bar>y\<bar> + \<bar>z\<bar> \<le> n}"
    unfolding image_orders_def by (auto simp: image_iff)
qed


definition orders_of :: "ImageSource \<Rightarrow> int \<times> int \<times> int" where
  "orders_of img = (orderX img, orderY img, orderZ img)"

lemma image_at_simps [simp]:
  "orders_of (image_at src dims o3) = o3" "roomDims (image_at src dims o3) = dims"
  "isOrder (image_at src dims (ox, oy, oz)) = \<bar>ox\<bar> + \<bar>oy\<bar> + \<bar>oz\<bar>"
  "orderX (image_at src dims (ox, oy, oz)) = ox" "orderY (image_at src dims (ox, oy, oz)) = oy" "orderZ (image_at src dims (ox, oy, oz)) = oz"
  by (auto simp: orders_of_def image_at_def Let_def split: prod.splits)

text \<open>A coordinate of an image, correctly rounded whenever the multiple of the room's size is a float64.\<close>

definition unfolds :: "f64 \<Rightarrow> f64 \<Rightarrow> int \<Rightarrow> f64 \<Rightarrow> bool" where
  "unfolds s d n c \<longleftrightarrow> (representable (of_int (if even n then n else n + 1) * fval d) \<longrightarrow> feq c (round64 (mirrored (fval s) (fval d) n)))"

definition image_exact :: "vec3 \<Rightarrow> vec3 \<Rightarrow> ImageSource \<Rightarrow> bool" where
  "image_exact src dims img \<longleftrightarrow>
     isOrder img = \<bar>orderX img\<bar> + \<bar>orderY img\<bar> + \<bar>orderZ img\<bar> \<and> roomDims img = dims \<and>
     unfolds (vX src) (vX dims) (orderX img) (vX (isPosition img)) \<and>
     unfolds (vY src) (vY dims) (orderY img) (vY (isPosition img)) \<and>
     unfolds (vZ src) (vZ dims) (orderZ img) (vZ (isPosition img)) \<and>
     (\<forall>w < 6. bit (WallMask img) w \<longleftrightarrow> w \<in> set (path_walls (orderX img) (orderY img) (orderZ img)))"

lemma image_at_exact:
  assumes "isFiniteVec3 src" "isFiniteVec3 dims" "\<bar>ox\<bar> + \<bar>oy\<bar> + \<bar>oz\<bar> < 2 ^ 52"
  shows "image_exact src dims (image_at src dims (ox, oy, oz))"
proof -
  have o: "\<bar>ox\<bar> < 2 ^ 52" "\<bar>oy\<bar> < 2 ^ 52" "\<bar>oz\<bar> < 2 ^ 52" using assms(3) by linarith+
  have "0 < count_list ws w \<longleftrightarrow> w \<in> set ws" for ws :: "nat list" and w by (simp add: count_list_0_iff flip: neq0_conv)
  with assms(1,2) o show ?thesis
    by (simp add: image_exact_def unfolds_def isFiniteVec3_def coordinate_mirrored)
      (simp add: image_at_def Let_def coordinate_mirrored bit_mask wallHitCounts_nth)
qed

subsection \<open>Reflection paths\<close>

lemma axis_crossings:
  "appendAxisCrossings events rc ic dimension order neg pos = Some cs \<Longrightarrow>
     map pcWall cs = map pcWall events @ crossed_walls order neg pos"
  by (auto simp: appendAxisCrossings_def crossed_walls_def Let_def split: if_splits)

lemma crossing_walls:
  "crossingEvents img receiver = Some cs \<Longrightarrow> map pcWall cs = path_walls (orderX img) (orderY img) (orderZ img)"
  by (auto simp: crossingEvents_def path_walls_def Let_def dest!: axis_crossings split: option.splits)

lemma crossing_point_laws:
  "crossing_point img receiver c = Some p \<Longrightarrow> rpWall p = pcWall c \<and> pointOnWallInterior (rpPoint p) (rpWall p) (roomDims img)"
  by (auto simp: crossing_point_def Let_def split: if_splits)

end
