(* ===== verification/Plane_Map.thy ===== *)
theory Plane_Map
  imports Geometry Go_Values "HOL-Library.Word"
begin

text \<open>
  The planes of a mesh (geometry/plane_polygon_map.go, pointInTriangle of geometry/triangle.go): triangles
  that lie in one plane, within tolerances, share a plane index. The buckets are found by hash
  keys of 64-bit words, whose sums wrap as in the code. An index of \<open>-1\<close> is \<open>None\<close>.
\<close>

definition ppmNormalEps :: f64 where "ppmNormalEps = round64 (1 / 10 ^ 6)"
definition ppmDistEps :: f64 where "ppmDistEps = round64 (1 / 10 ^ 6)"
definition ppmNormalBucket :: f64 where "ppmNormalBucket = round64 (1 / 10 ^ 2)"
definition ppmDistBucket :: f64 where "ppmDistBucket = round64 (1 / 10 ^ 5)"
definition ppmContainsEps :: f64 where "ppmContainsEps = round64 (1 / 10 ^ 6)"

record PlanePolygonMap =
  Planes :: "plane list"
  Polygons :: "nat list list"
  planeOfTri :: "nat list"

type_synonym ppmKey = "64 word \<times> 64 word \<times> 64 word \<times> 64 word"

definition quantize :: "f64 \<Rightarrow> f64 \<Rightarrow> 64 word" where
  "quantize v bucket = word_of_int (f64_to_int (fround (fdiv v bucket)))"

definition planeKey :: "vec3 \<Rightarrow> f64 \<Rightarrow> ppmKey" where
  "planeKey n d =
     (quantize (vX n) ppmNormalBucket, quantize (vY n) ppmNormalBucket, quantize (vZ n) ppmNormalBucket, quantize d ppmDistBucket)"

definition plane_matches :: "vec3 \<Rightarrow> f64 \<Rightarrow> plane \<Rightarrow> bool" where
  "plane_matches n d p \<longleftrightarrow>
     flt (fabs (fsub (vec3_Dot (pNormal p) n) (round64 1))) ppmNormalEps \<and> flt (fabs (fsub (pDistance p) d)) ppmDistEps"

definition matchIn :: "plane list \<Rightarrow> nat list \<Rightarrow> vec3 \<Rightarrow> f64 \<Rightarrow> nat option" where
  "matchIn planes candidates n d = List.find (\<lambda>c. plane_matches n d (planes ! c)) candidates"

text \<open>The keys of the four nested loops.\<close>

definition neighbour_keys :: "ppmKey \<Rightarrow> ppmKey list" where
  "neighbour_keys base =
     (let (nx, ny, nz, d) = base; steps = [- 1, 0, 1] in
      concat (map (\<lambda>dx. concat (map (\<lambda>dy. concat (map (\<lambda>dz. map (\<lambda>dd. (nx + dx, ny + dy, nz + dz, d + dd)) steps) steps)) steps)) steps))"

fun first_match :: "(ppmKey \<Rightarrow> nat list) \<Rightarrow> plane list \<Rightarrow> ppmKey list \<Rightarrow> vec3 \<Rightarrow> f64 \<Rightarrow> nat option" where
  "first_match buckets planes [] n d = None"
| "first_match buckets planes (k # ks) n d =
     (case matchIn planes (buckets k) n d of Some i \<Rightarrow> Some i | None \<Rightarrow> first_match buckets planes ks n d)"

definition findPlane :: "(ppmKey \<Rightarrow> nat list) \<Rightarrow> plane list \<Rightarrow> vec3 \<Rightarrow> f64 \<Rightarrow> nat option" where
  "findPlane buckets planes n d =
     (let base = planeKey n d in first_match buckets planes (base # neighbour_keys base) n d)"

definition place_triangle :: "PlanePolygonMap \<times> (ppmKey \<Rightarrow> nat list) \<Rightarrow> nat \<times> triangle \<Rightarrow> PlanePolygonMap \<times> (ppmKey \<Rightarrow> nat list)" where
  "place_triangle acc it =
     (let (ppm, buckets) = acc; (i, tri) = it; n = triangle_Normal tri; d = vec3_Dot n (V0 tri);
          (ppm', buckets', planeIndex) =
            (case findPlane buckets (Planes ppm) n d of
               Some k \<Rightarrow> (ppm, buckets, k)
             | None \<Rightarrow>
                 (let k = length (Planes ppm); key = planeKey n d in
                  (ppm\<lparr>Planes := Planes ppm @ [\<lparr>pNormal = n, pDistance = d\<rparr>], Polygons := Polygons ppm @ [[]]\<rparr>,
                   buckets(key := buckets key @ [k]), k))) in
      (ppm'\<lparr>Polygons := (Polygons ppm')[planeIndex := Polygons ppm' ! planeIndex @ [i]],
            planeOfTri := (planeOfTri ppm')[i := planeIndex]\<rparr>, buckets'))"

definition BuildPlanePolygonMap :: "mesh option \<Rightarrow> PlanePolygonMap option" where
  "BuildPlanePolygonMap mo =
     map_option (\<lambda>m. fst (foldl place_triangle
       (\<lparr>Planes = [], Polygons = [], planeOfTri = replicate (length (Triangles m)) 0\<rparr>, \<lambda>_. [])
       (enumerate 0 (Triangles m)))) mo"

definition PlaneCount :: "PlanePolygonMap option \<Rightarrow> nat" where
  "PlaneCount m = (case m of None \<Rightarrow> 0 | Some p \<Rightarrow> length (Planes p))"

definition TriangleCount :: "PlanePolygonMap option \<Rightarrow> nat" where
  "TriangleCount m = (case m of None \<Rightarrow> 0 | Some p \<Rightarrow> length (planeOfTri p))"

definition PlaneOf :: "PlanePolygonMap option \<Rightarrow> int \<Rightarrow> nat option" where
  "PlaneOf m triIndex = (case m of None \<Rightarrow> None | Some p \<Rightarrow> slice_at (planeOfTri p) triIndex)"

definition SamePlane :: "PlanePolygonMap option \<Rightarrow> int \<Rightarrow> int \<Rightarrow> bool" where
  "SamePlane m triA triB = (case PlaneOf m triA of None \<Rightarrow> False | Some a \<Rightarrow> PlaneOf m triB = Some a)"

definition TrianglesOn :: "PlanePolygonMap option \<Rightarrow> int \<Rightarrow> nat list" where
  "TrianglesOn m planeIndex =
     (case m of None \<Rightarrow> [] | Some p \<Rightarrow> (case slice_at (Polygons p) planeIndex of None \<Rightarrow> [] | Some ts \<Rightarrow> ts))"

definition pointInTriangle :: "triangle \<Rightarrow> vec3 \<Rightarrow> f64 \<Rightarrow> bool" where
  "pointInTriangle tri p eps =
     (let e1 = vec3_Sub (V1 tri) (V0 tri); e2 = vec3_Sub (V2 tri) (V0 tri); n = vec3_Cross e1 e2; norm = vec3_Norm n in
      if feq norm (Zero False) then False
      else
        (let vp = vec3_Sub p (V0 tri) in
         if flt eps (fabs (fdiv (vec3_Dot vp n) norm)) then False
         else
           (let d00 = vec3_Dot e1 e1; d01 = vec3_Dot e1 e2; d11 = vec3_Dot e2 e2;
                d20 = vec3_Dot vp e1; d21 = vec3_Dot vp e2;
                denom = fsub (fmul d00 d11) (fmul d01 d01) in
            if feq denom (Zero False) then False
            else
              (let u = fdiv (fsub (fmul d11 d20) (fmul d01 d21)) denom;
                   v = fdiv (fsub (fmul d00 d21) (fmul d01 d20)) denom in
               fle (fneg eps) u \<and> fle (fneg eps) v \<and> fle (fadd u v) (fadd (round64 1) eps)))))"

definition ContainsPoint :: "PlanePolygonMap option \<Rightarrow> mesh option \<Rightarrow> int \<Rightarrow> vec3 \<Rightarrow> bool" where
  "ContainsPoint mo msh planeIndex p =
     (case (mo, msh) of
        (Some _, Some m) \<Rightarrow>
          list_ex (\<lambda>i. i < length (Triangles m) \<and> pointInTriangle (Triangles m ! i) p ppmContainsEps) (TrianglesOn mo planeIndex)
      | _ \<Rightarrow> False)"

subsection \<open>A partition of the triangles\<close>

definition plane_indices :: "PlanePolygonMap \<Rightarrow> nat \<Rightarrow> bool" where
  "plane_indices p k \<longleftrightarrow> length (Polygons p) = length (Planes p) \<and>
     (\<forall>i < k. i < length (planeOfTri p) \<longrightarrow> planeOfTri p ! i < length (Planes p)) \<and>
     (\<forall>j < length (Planes p). Polygons p ! j \<noteq> [] \<and> Polygons p ! j = filter (\<lambda>i. planeOfTri p ! i = j) [0..<k])"

text \<open>A triangle lies in its plane: it is the first one of the plane, or it matches the plane within the tolerances.\<close>

definition plane_of_triangle :: "triangle \<Rightarrow> plane" where
  "plane_of_triangle tri = (let n = triangle_Normal tri in \<lparr>pNormal = n, pDistance = vec3_Dot n (V0 tri)\<rparr>)"

definition lies_in :: "triangle \<Rightarrow> plane \<Rightarrow> bool" where
  "lies_in tri p \<longleftrightarrow> p = plane_of_triangle tri \<or> plane_matches (triangle_Normal tri) (vec3_Dot (triangle_Normal tri) (V0 tri)) p"

definition plane_inv :: "triangle list \<Rightarrow> nat \<Rightarrow> PlanePolygonMap \<times> (ppmKey \<Rightarrow> nat list) \<Rightarrow> bool" where
  "plane_inv tris k acc \<longleftrightarrow>
     (let (p, buckets) = acc in
      plane_indices p k \<and> length (planeOfTri p) = length tris \<and>
      (\<forall>key. \<forall>c \<in> set (buckets key). c < length (Planes p)) \<and>
      (\<forall>i < k. lies_in (tris ! i) (Planes p ! (planeOfTri p ! i))) \<and>
      (\<forall>j < length (Planes p). Planes p ! j = plane_of_triangle (tris ! hd (Polygons p ! j))))"

lemma matchIn_Some: "matchIn planes cs n d = Some i \<Longrightarrow> i \<in> set cs \<and> plane_matches n d (planes ! i)"
  by (auto simp: matchIn_def find_Some_iff)

lemma first_match_Some:
  "first_match buckets planes ks n d = Some i \<Longrightarrow> (\<exists>key. i \<in> set (buckets key)) \<and> plane_matches n d (planes ! i)"
proof (induction ks)
  case (Cons k ks)
  show ?case
  proof (cases "matchIn planes (buckets k) n d")
    case None
    with Cons show ?thesis by simp
  next
    case (Some c)
    with Cons.prems have "matchIn planes (buckets k) n d = Some i" by simp
    then show ?thesis using matchIn_Some by blast
  qed
qed simp

lemma findPlane_Some:
  "findPlane buckets planes n d = Some i \<Longrightarrow> (\<exists>key. i \<in> set (buckets key)) \<and> plane_matches n d (planes ! i)"
  by (auto simp: findPlane_def Let_def dest!: first_match_Some simp del: first_match.simps)

lemma filter_upt_Suc:
  "filter P [0..<Suc k] = filter P [0..<k] @ (if P k then [k] else [])"
  by simp

lemma filter_upt_cong:
  "(\<And>i. i < k \<Longrightarrow> P i = Q i) \<Longrightarrow> filter P [0..<k] = filter Q [0..<k]"
  by (rule filter_cong) auto

text \<open>Joining plane \<open>j\<close> with a triangle that lies in it.\<close>

lemma join_plane:
  assumes inv: "plane_inv tris k (p, buckets)" and k: "k < length tris" and j: "j < length (Planes p)"
    and lies: "lies_in (tris ! k) (Planes p ! j)"
  shows "plane_inv tris (Suc k) (p\<lparr>Polygons := (Polygons p)[j := Polygons p ! j @ [k]], planeOfTri := (planeOfTri p)[k := j]\<rparr>, buckets)"
proof -
  from inv have p: "length (Polygons p) = length (Planes p)" "length (planeOfTri p) = length tris"
    "\<And>i. i < k \<Longrightarrow> planeOfTri p ! i < length (Planes p)"
    "\<And>i. i < length (Planes p) \<Longrightarrow> Polygons p ! i \<noteq> [] \<and> Polygons p ! i = filter (\<lambda>t. planeOfTri p ! t = i) [0..<k]"
    "\<And>key c. c \<in> set (buckets key) \<Longrightarrow> c < length (Planes p)"
    "\<And>i. i < k \<Longrightarrow> lies_in (tris ! i) (Planes p ! (planeOfTri p ! i))"
    "\<And>i. i < length (Planes p) \<Longrightarrow> Planes p ! i = plane_of_triangle (tris ! hd (Polygons p ! i))"
    using k by (auto simp: plane_inv_def plane_indices_def Let_def)
  have poly: "(Polygons p)[j := Polygons p ! j @ [k]] ! i = filter (\<lambda>t. (planeOfTri p)[k := j] ! t = i) [0..<Suc k]"
    if i: "i < length (Planes p)" for i
  proof -
    have "filter (\<lambda>t. (planeOfTri p)[k := j] ! t = i) [0..<k] = Polygons p ! i"
      using p(4) [OF i] by (auto intro: filter_upt_cong)
    with i j k p(1,2) show ?thesis by (auto simp: filter_upt_Suc nth_list_update simp del: upt_Suc)
  qed
  have size: "length (Polygons p) = length (Planes p)" "length (planeOfTri p) = length tris" "k < length tris" "j < length (Planes p)"
    using p(1,2) k j by simp_all
  have below: "(planeOfTri p)[k := j] ! i < length (Planes p)" if "i < Suc k" for i
    using p(3) [of i] that size by (cases "i = k") simp_all
  have lie: "lies_in (tris ! i) (Planes p ! ((planeOfTri p)[k := j] ! i))" if "i < Suc k" for i
    using p(6) [of i] that size lies by (cases "i = k") simp_all
  have fst_: "Planes p ! i = plane_of_triangle (tris ! hd ((Polygons p)[j := Polygons p ! j @ [k]] ! i))"
    "(Polygons p)[j := Polygons p ! j @ [k]] ! i \<noteq> []" if "i < length (Planes p)" for i
    using p(4,7) [OF that] size by (cases "i = j"; simp)+
  show ?thesis
    unfolding plane_inv_def Let_def prod.case plane_indices_def
    using size below lie fst_(1) poly fst_(2) [unfolded poly] p(5) by (simp del: upt_Suc)
qed

text \<open>A triangle that matches no plane opens one.\<close>

lemma open_plane:
  assumes inv: "plane_inv tris k (p, buckets)" and k: "k < length tris"
  defines "j \<equiv> length (Planes p)"
  shows "plane_inv tris (Suc k)
    (p\<lparr>Planes := Planes p @ [plane_of_triangle (tris ! k)], Polygons := (Polygons p @ [[]])[j := (Polygons p @ [[]]) ! j @ [k]],
       planeOfTri := (planeOfTri p)[k := j]\<rparr>, buckets(key := buckets key @ [j]))"
proof -
  from inv have p: "length (Polygons p) = length (Planes p)" "length (planeOfTri p) = length tris"
    "\<And>i. i < k \<Longrightarrow> planeOfTri p ! i < length (Planes p)"
    "\<And>i. i < length (Planes p) \<Longrightarrow> Polygons p ! i \<noteq> [] \<and> Polygons p ! i = filter (\<lambda>t. planeOfTri p ! t = i) [0..<k]"
    "\<And>key c. c \<in> set (buckets key) \<Longrightarrow> c < length (Planes p)"
    "\<And>i. i < k \<Longrightarrow> lies_in (tris ! i) (Planes p ! (planeOfTri p ! i))"
    "\<And>i. i < length (Planes p) \<Longrightarrow> Planes p ! i = plane_of_triangle (tris ! hd (Polygons p ! i))"
    using k by (auto simp: plane_inv_def plane_indices_def Let_def)
  let ?planes = "Planes p @ [plane_of_triangle (tris ! k)]" and ?of = "(planeOfTri p)[k := j]"
  let ?poly = "(Polygons p @ [[]])[j := (Polygons p @ [[]]) ! j @ [k]]"
  have polys: "?poly = Polygons p @ [[k]]" using p(1) by (simp add: j_def list_update_append nth_append)
  have filt: "filter (\<lambda>t. ?of ! t = i) [0..<k] = (if i < j then Polygons p ! i else [])" if "i \<le> j" for i
  proof -
    have "filter (\<lambda>t. ?of ! t = i) [0..<k] = filter (\<lambda>t. planeOfTri p ! t = i) [0..<k]" by (rule filter_upt_cong) simp
    moreover have "filter (\<lambda>t. planeOfTri p ! t = j) [0..<k] = []" using p(3) by (fastforce simp: filter_empty_conv j_def)
    ultimately show ?thesis using that p(4) [of i] by (cases "i = j") (auto simp: j_def)
  qed
  have poly: "(Polygons p @ [[k]]) ! i \<noteq> [] \<and> (Polygons p @ [[k]]) ! i = filter (\<lambda>t. ?of ! t = i) [0..<Suc k]" if i: "i < Suc j" for i
  proof (cases "i = j")
    case True
    with filt [of j] k p(1,2) show ?thesis by (simp add: filter_upt_Suc nth_append j_def del: upt_Suc)
  next
    case False
    with i have "i < j" by simp
    then have "(Polygons p @ [[k]]) ! i = Polygons p ! i" "filter (\<lambda>t. ?of ! t = i) [0..<k] = Polygons p ! i"
      using p(1) filt [of i] by (simp_all add: nth_append j_def)
    moreover have "Polygons p ! i \<noteq> []" using p(4) [of i] \<open>i < j\<close> unfolding j_def by blast
    ultimately show ?thesis using \<open>i < j\<close> k p(2) by (simp add: filter_upt_Suc del: upt_Suc)
  qed
  have below: "?of ! i < Suc j" if "i < Suc k" for i
    using p(3) [of i] that k p(2) by (cases "i = k") (auto simp: j_def less_Suc_eq)
  have lie: "lies_in (tris ! i) (?planes ! (?of ! i))" if "i < Suc k" for i
    using p(3,6) [of i] that k p(2) by (cases "i = k") (simp_all add: lies_in_def nth_append j_def)
  have heads: "?planes ! i = plane_of_triangle (tris ! hd ((Polygons p @ [[k]]) ! i))" if "i < Suc j" for i
    using p(1) p(7) [of i] that by (cases "i = j") (simp_all add: nth_append j_def)
  have keys: "c < Suc j" if "c \<in> set ((buckets(key := buckets key @ [j])) key')" for c key'
  proof -
    have "c \<in> set (buckets key') \<or> c = j" using that by (auto split: if_splits)
    with p(5) [of c key'] show ?thesis by (auto simp: j_def)
  qed
  let ?p = "p\<lparr>Planes := ?planes, Polygons := Polygons p @ [[k]], planeOfTri := ?of\<rparr>"
  have fields: "Planes ?p = ?planes" "Polygons ?p = Polygons p @ [[k]]" "planeOfTri ?p = ?of" "length (Planes ?p) = Suc j"
    by (simp_all add: j_def)
  have "plane_indices ?p (Suc k)"
    unfolding plane_indices_def fields(2-4)
  proof (intro conjI allI impI)
    show "length (Polygons p @ [[k]]) = Suc j" using p(1) by (simp add: j_def)
  qed (use below poly in blast)+
  moreover have "length (planeOfTri ?p) = length tris" using p(2) by simp
  moreover have "\<forall>key'. \<forall>c \<in> set ((buckets(key := buckets key @ [j])) key'). c < length (Planes ?p)"
    unfolding fields(4) using keys by blast
  moreover have "\<forall>i < Suc k. lies_in (tris ! i) (Planes ?p ! (planeOfTri ?p ! i))" unfolding fields using lie by blast
  moreover have "\<forall>i < length (Planes ?p). Planes ?p ! i = plane_of_triangle (tris ! hd (Polygons ?p ! i))"
    unfolding fields(4) unfolding fields(1,2) by (intro allI impI) (rule heads)
  ultimately show ?thesis unfolding plane_inv_def Let_def prod.case polys by (intro conjI)
qed

lemma place_inv:
  assumes "plane_inv tris k (p, buckets)" "k < length tris"
  shows "plane_inv tris (Suc k) (place_triangle (p, buckets) (k, tris ! k))"
proof (cases "findPlane buckets (Planes p) (triangle_Normal (tris ! k)) (vec3_Dot (triangle_Normal (tris ! k)) (V0 (tris ! k)))")
  case None
  then show ?thesis using open_plane [OF assms] by (simp add: place_triangle_def plane_of_triangle_def Let_def)
next
  case (Some c)
  from findPlane_Some [OF Some] assms(1) have "c < length (Planes p)" "lies_in (tris ! k) (Planes p ! c)"
    by (auto simp: plane_inv_def lies_in_def Let_def)
  with Some join_plane [OF assms] show ?thesis by (simp add: place_triangle_def Let_def)
qed

lemma place_all:
  "k \<le> length tris \<Longrightarrow> plane_inv tris 0 acc \<Longrightarrow> plane_inv tris k (foldl place_triangle acc (take k (enumerate 0 tris)))"
proof (induction k)
  case (Suc k)
  let ?acc = "foldl place_triangle acc (take k (enumerate 0 tris))"
  have "take (Suc k) (enumerate 0 tris) = take k (enumerate 0 tris) @ [(k, tris ! k)]"
    using Suc.prems(1) by (simp add: take_Suc_conv_app_nth nth_enumerate_eq)
  with Suc place_inv [of tris k "fst ?acc" "snd ?acc"] show ?case by simp
qed simp

text \<open>C21: \<open>BuildPlanePolygonMap\<close> sorts the triangles of a mesh into planes: every triangle has one plane,
  \<open>PlaneOf\<close> and \<open>TrianglesOn\<close> invert each other, no plane is empty, and its triangles come in order.
  A plane is the one of its first triangle, and every other triangle in it matches it within the
  tolerances on the normal and the distance.\<close>

theorem plane_map_partitions:
  "\<exists>p. BuildPlanePolygonMap (Some m) = Some p \<and> length (planeOfTri p) = length (Triangles m) \<and>
     plane_indices p (length (Triangles m)) \<and>
     list_all2 (\<lambda>tri j. lies_in tri (Planes p ! j)) (Triangles m) (planeOfTri p) \<and>
     list_all2 (\<lambda>pl is. pl = plane_of_triangle (Triangles m ! hd is)) (Planes p) (Polygons p)"
proof -
  let ?tris = "Triangles m"
  let ?acc = "foldl place_triangle (\<lparr>Planes = [], Polygons = [], planeOfTri = replicate (length ?tris) 0\<rparr>, \<lambda>_. []) (enumerate 0 ?tris)"
  have "plane_inv ?tris (length ?tris) ?acc"
    using place_all [of "length ?tris" ?tris] by (simp add: plane_inv_def plane_indices_def)
  then show ?thesis
    by (intro exI [of _ "fst ?acc"])
      (auto simp: BuildPlanePolygonMap_def plane_inv_def plane_indices_def list_all2_conv_all_nth case_prod_beta Let_def)
qed

end
