(* ===== verification/Image_Solver.thy ===== *)
theory Image_Solver
  imports Image_Sources Plane_Map Bvh Responses Ray_Settings Ray_Particles Validation
begin

text \<open>
  The image-source solver: events of a shoebox (ism/solver.go, ism/evaluate.go), the images and paths of a mesh
  (ism/mesh_image.go, ism/mesh_solver.go), the caches (ism/cache.go) and the solver that keeps
  image sources between calls (ism/cached_solver.go). \<open>ism_env\<close> holds the arguments: package math, the
  directivities, the sort functions, what validation needs, and the diffraction events of a mesh
  (ism/diffraction_accum.go).
\<close>

record meshMaterialSet =
  fallback :: material
  perTriangle :: "material list"

record ISMConfig =
  imMaxOrder :: int
  imSpeedOfSound :: f64
  imBandSpec :: band_spec
  EnableDiffraction :: bool
  MaxDiffractionOrder :: int

record MeshImageSource =
  miPosition :: vec3
  miOrder :: int
  TriangleHits :: "nat list"
  PlaneHits :: "nat list"

record ('dir, 'h) ism_env =
  ieLib :: libm
  ieGain :: "'dir \<Rightarrow> f64 \<Rightarrow> vec3 \<Rightarrow> f64"
  ieRate :: "'h \<Rightarrow> int"
  ieNames :: "('dir, 'h) scene \<Rightarrow> string list"
  sortImages :: "(ImageSource \<Rightarrow> ImageSource \<Rightarrow> bool) \<Rightarrow> ImageSource list \<Rightarrow> ImageSource list"
  sortCrossings :: "(pathCrossing \<Rightarrow> pathCrossing \<Rightarrow> bool) \<Rightarrow> pathCrossing list \<Rightarrow> pathCrossing list"
  sortMeshImages :: "(MeshImageSource \<Rightarrow> MeshImageSource \<Rightarrow> bool) \<Rightarrow> MeshImageSource list \<Rightarrow> MeshImageSource list"
  sortEvents :: "(Event \<Rightarrow> Event \<Rightarrow> bool) \<Rightarrow> Event list \<Rightarrow> Event list"
  meshDiffractionEvents :: "('dir, 'h) scene \<Rightarrow> ISMConfig \<Rightarrow> bvh \<Rightarrow> meshMaterialSet \<Rightarrow> band_spec \<Rightarrow> f64 \<Rightarrow> Event list"

datatype ism_error =
    IsmSceneNil | MaxOrderNegative | DiffractionOrderRange | IsmSceneInvalid "scene_error list" | IsmNoSource | IsmNoReceiver
  | IsmReceivers int | IsmMeshNil | IsmShoeboxNil | IsmRoomKind string | IsmOneSource | SourceCount int int

subsection \<open>Events of a path (solver.go)\<close>

definition sourceAmplitude :: "libm \<Rightarrow> 'dir source \<Rightarrow> f64" where
  "sourceAmplitude lm src = mPow lm (round64 10) (fdiv (GainDB src) (round64 20))"

definition directivityBandGain :: "('dir \<Rightarrow> f64 \<Rightarrow> vec3 \<Rightarrow> f64) \<Rightarrow> 'dir source \<Rightarrow> band_spec \<Rightarrow> vec3 \<Rightarrow> f64 list" where
  "directivityBandGain gain src spec target =
     (case Directivity src of
        None \<Rightarrow> map (\<lambda>_. round64 1) (CenterFreqs spec)
      | Some d \<Rightarrow> (let direction = DirectionTo src target in map (\<lambda>f. gain d f direction) (CenterFreqs spec)))"

definition bandGainSilent :: "f64 list \<Rightarrow> bool" where
  "bandGainSilent bandGain \<longleftrightarrow> bandGain \<noteq> [] \<and> list_all (\<lambda>v. \<not> flt pathEpsilon (fabs v)) bandGain"

definition path_event :: "libm \<Rightarrow> 'dir source \<Rightarrow> vec3 \<Rightarrow> vec3 \<Rightarrow> f64 \<Rightarrow> f64 \<Rightarrow> f64 list \<Rightarrow> EventKind \<Rightarrow> Event" where
  "path_event lm src origin receiver len speed bandGain kind =
     \<lparr>TimeSeconds = fdiv len speed, Amplitude = fdiv (sourceAmplitude lm src) len,
      evDirection = vec3_Normalize (vec3_Sub origin receiver), DistanceMeters = len, BandGain = bandGain,
      PhaseRadians = Zero False, evKind = kind\<rparr>"

definition directEvent :: "('dir, 'h) ism_env \<Rightarrow> 'dir source \<Rightarrow> 'h receiver \<Rightarrow> band_spec \<Rightarrow> f64 \<Rightarrow> Event option" where
  "directEvent env src rec spec speed =
     (let len = vec3_Distance (sPosition src) (rPosition rec) in
      if fle len pathEpsilon then None
      else
        (let bandGain = directivityBandGain (ieGain env) src spec (rPosition rec) in
         if bandGainSilent bandGain then None
         else Some (path_event (ieLib env) src (sPosition src) (rPosition rec) len speed bandGain EventDirect)))"

definition wayverbPressureReflectance :: "f64 \<Rightarrow> f64 \<Rightarrow> f64" where
  "wayverbPressureReflectance absorption0 cosAngle0 =
     (let clamp = (\<lambda>v. let w = (if flt v (Zero False) then Zero False else v) in if flt (round64 1) w then round64 1 else w);
          absorption = clamp absorption0; cosAngle = clamp cosAngle0;
          magnitude = fsqrt (fmax (Zero False) (fsub (round64 1) absorption)) in
      if fle (round64 (1 - 1 / 10 ^ 12)) magnitude then round64 1
      else
        (let impedance = fdiv (fadd (round64 1) magnitude) (fsub (round64 1) magnitude); tmp = fmul impedance cosAngle in
         fdiv (fsub tmp (round64 1)) (fadd tmp (round64 1))))"

definition wallNormal :: "nat \<Rightarrow> vec3" where
  "wallNormal w =
     (let o1 = round64 1; m1 = round64 (- 1); z = Zero False in
      if w = wallNegX then mk_vec3 o1 z z else if w = wallPosX then mk_vec3 m1 z z
      else if w = wallNegY then mk_vec3 z o1 z else if w = wallPosY then mk_vec3 z m1 z
      else if w = wallNegZ then mk_vec3 z z o1 else if w = wallPosZ then mk_vec3 z z m1
      else Vec3Zero)"

definition reflectionCosine :: "vec3 \<Rightarrow> vec3 \<Rightarrow> nat \<Rightarrow> f64" where
  "reflectionCosine previous point w =
     (let direction = vec3_Normalize (vec3_Sub point previous) in
      if vec3_eq direction Vec3Zero then Zero False
      else
        (let cosAngle = fabs (vec3_Dot direction (wallNormal w)) in
         if flt cosAngle (Zero False) then Zero False else if flt (round64 1) cosAngle then round64 1 else cosAngle))"

definition sourceOrderedPath :: "reflectionPoint list \<Rightarrow> reflectionPoint list" where
  "sourceOrderedPath path = rev path"

text \<open>A missing entry of a map is the zero material.\<close>

definition zero_material :: material where
  "zero_material = \<lparr>Name = [], AbsorptionByBand = [], Scattering = replicate 6 (Zero False), ScatteringByBand = [],
     TransmissionByBand = [], SoundReductionIndex = []\<rparr>"

definition material_named :: "(string \<rightharpoonup> material) \<Rightarrow> string \<Rightarrow> material" where
  "material_named materials name = (case materials name of None \<Rightarrow> zero_material | Some m \<Rightarrow> m)"

definition reflect_pressure ::
  "shoebox \<Rightarrow> (string \<rightharpoonup> material) \<Rightarrow> int \<Rightarrow> f64 \<times> vec3 \<Rightarrow> reflectionPoint \<Rightarrow> f64 \<times> vec3" where
  "reflect_pressure room materials bandIndex acc p =
     (let (pressure, previous) = acc; cosAngle = reflectionCosine previous (rpPoint p) (rpWall p);
          material = material_named materials (WallMaterials room ! rpWall p) in
      (fmul pressure (wayverbPressureReflectance (AbsorptionAt material bandIndex) cosAngle), rpPoint p))"

definition pathPressureReflectance :: "reflectionPoint list \<Rightarrow> vec3 \<Rightarrow> shoebox \<Rightarrow> (string \<rightharpoonup> material) \<Rightarrow> int \<Rightarrow> f64" where
  "pathPressureReflectance path src room materials bandIndex =
     fst (foldl (reflect_pressure room materials bandIndex) (round64 1, src) path)"

text \<open>What \<open>specularEvent\<close> and \<open>meshSpecularEvent\<close> share: the gains of the target, scaled by the reflectance of the
  path.\<close>

definition reflected_event ::
  "('dir, 'h) ism_env \<Rightarrow> 'dir source \<Rightarrow> 'h receiver \<Rightarrow> vec3 \<Rightarrow> vec3 \<Rightarrow> (int \<Rightarrow> f64) \<Rightarrow> band_spec \<Rightarrow> f64 \<Rightarrow> Event option" where
  "reflected_event env src rec origin target reflectance spec speed =
     (let len = vec3_Distance (rPosition rec) origin;
          gain0 = directivityBandGain (ieGain env) src spec target in
      if bandGainSilent gain0 then None
      else
        (let gain = map (\<lambda>(i, g). fmul g (reflectance (int i))) (enumerate 0 gain0) in
         if bandGainSilent gain then None
         else Some (path_event (ieLib env) src origin (rPosition rec) len speed gain EventSpecular)))"

definition specularEvent ::
  "('dir, 'h) ism_env \<Rightarrow> 'dir source \<Rightarrow> 'h receiver \<Rightarrow> ImageSource \<Rightarrow> reflectionPoint list \<Rightarrow> shoebox \<Rightarrow> (string \<rightharpoonup> material) \<Rightarrow>
   band_spec \<Rightarrow> f64 \<Rightarrow> Event option" where
  "specularEvent env src rec img path room materials spec speed =
     (if fle (vec3_Distance (rPosition rec) (isPosition img)) pathEpsilon then None
      else
        (let ordered = sourceOrderedPath path;
             target = (case ordered of [] \<Rightarrow> rPosition rec | p # _ \<Rightarrow> rpPoint p) in
         reflected_event env src rec (isPosition img) target
           (pathPressureReflectance ordered (sPosition src) room materials) spec speed))"

fun kind_number :: "EventKind \<Rightarrow> int" where
  "kind_number EventDirect = 0"
| "kind_number EventSpecular = 1"
| "kind_number EventDiffuse = 2"
| "kind_number EventDiffraction = 3"
| "kind_number EventPDE = 4"
| "kind_number EventTransmission = 5"

definition event_before :: "Event \<Rightarrow> Event \<Rightarrow> bool" where
  "event_before a b =
     (if \<not> feq (TimeSeconds a) (TimeSeconds b) then flt (TimeSeconds a) (TimeSeconds b)
      else if evKind a \<noteq> evKind b then kind_number (evKind a) < kind_number (evKind b)
      else flt (DistanceMeters a) (DistanceMeters b))"

definition opt_list :: "'a option \<Rightarrow> 'a list" where
  "opt_list x = (case x of None \<Rightarrow> [] | Some a \<Rightarrow> [a])"

definition used_spec :: "ISMConfig \<Rightarrow> ('dir, 'h) scene \<Rightarrow> band_spec" where
  "used_spec cfg sc = (if BandCount (imBandSpec cfg) = 0 then BandSpec sc else imBandSpec cfg)"

definition used_speed :: "ISMConfig \<Rightarrow> f64" where
  "used_speed cfg = (if fle (imSpeedOfSound cfg) (Zero False) then round64 343 else imSpeedOfSound cfg)"

text \<open>The events of a source: the direct one and one for each audible image. The loops over images of \<open>Solve\<close>,
  \<open>EvaluateShoebox\<close> and \<open>evaluateShoeboxMultiSource\<close> are the same.\<close>

definition shoebox_events ::
  "('dir, 'h) ism_env \<Rightarrow> ('dir, 'h) scene \<Rightarrow> ISMConfig \<Rightarrow> shoebox \<Rightarrow> 'dir source \<Rightarrow> ImageSource list \<Rightarrow> Event list" where
  "shoebox_events env sc cfg room src images =
     (let spec = used_spec cfg sc; speed = used_speed cfg; rec = hd (Receivers sc) in
      opt_list (directEvent env src rec spec speed) @
      concat (map (\<lambda>img.
          if isOrder img = 0 then []
          else
            (case reflectionPath (sortCrossings env) img (rPosition rec) of
               None \<Rightarrow> []
             | Some path \<Rightarrow> opt_list (specularEvent env src rec img path room (Materials sc) spec speed))) images))"

subsection \<open>Evaluation of cached images (evaluate.go, cache.go)\<close>

definition EvaluateShoebox ::
  "('dir, 'h) ism_env \<Rightarrow> ImageSource list \<Rightarrow> ('dir, 'h) scene option \<Rightarrow> ISMConfig \<Rightarrow> ism_error + Event list" where
  "EvaluateShoebox env images so cfg = (case so of
     None \<Rightarrow> Inl IsmSceneNil
   | Some sc \<Rightarrow>
     (case Shoebox (Room sc) of
        None \<Rightarrow> Inl IsmShoeboxNil
      | Some room \<Rightarrow>
          if Sources sc = [] then Inl IsmNoSource
          else if 1 < length (Sources sc) then Inl IsmOneSource
          else if Receivers sc = [] then Inl IsmNoReceiver
          else Inr (sortEvents env event_before
            (concat (map (\<lambda>src. shoebox_events env sc cfg room src images) (Sources sc))))))"

record ShoeboxCache =
  scSources :: "ImageSource list"
  scGeometryHash :: hashw

definition NewShoeboxCache :: "ImageSource list \<Rightarrow> ('dir, 'h) scene \<Rightarrow> ShoeboxCache" where
  "NewShoeboxCache images sc = \<lparr>scSources = images, scGeometryHash = GeometryHash sc\<rparr>"

definition shoebox_ValidFor :: "ShoeboxCache \<Rightarrow> ('dir, 'h) scene \<Rightarrow> bool" where
  "shoebox_ValidFor c sc \<longleftrightarrow> scGeometryHash c = GeometryHash sc"

record MeshCache =
  mcSources :: "MeshImageSource list"
  mcGeometryHash :: hashw

definition NewMeshCache :: "MeshImageSource list \<Rightarrow> ('dir, 'h) scene \<Rightarrow> MeshCache" where
  "NewMeshCache images sc = \<lparr>mcSources = images, mcGeometryHash = GeometryHash sc\<rparr>"

definition mesh_ValidFor :: "MeshCache \<Rightarrow> ('dir, 'h) scene \<Rightarrow> bool" where
  "mesh_ValidFor c sc \<longleftrightarrow> mcGeometryHash c = GeometryHash sc"

subsection \<open>Image sources of a mesh (mesh_image.go)\<close>

definition defaultMaxCandidates :: int where
  "defaultMaxCandidates = 500000"

record MeshISMConfig =
  mMaxOrder :: int
  MaxDistance :: f64
  MaxCandidates :: int
  PPM :: "PlanePolygonMap option"

text \<open>One plane of the loop: the images found so far, and those that are to be mirrored again.\<close>

definition mirror_plane ::
  "vec3 \<Rightarrow> MeshISMConfig \<Rightarrow> PlanePolygonMap option \<Rightarrow> nat \<Rightarrow> MeshImageSource \<Rightarrow> MeshImageSource list \<times> MeshImageSource list \<Rightarrow>
   nat \<times> plane \<Rightarrow> MeshImageSource list \<times> MeshImageSource list" where
  "mirror_plane src cfg ppm maxc current acc ip =
     (let (found, again) = acc; (planeIndex, pl) = ip; mirrored = plane_ReflectPoint pl (miPosition current) in
      if fle (plane_SideOf pl (miPosition current)) pathEpsilon then acc
      else if flt (Zero False) (MaxDistance cfg) \<and> flt (MaxDistance cfg) (vec3_Distance mirrored src) then acc
      else if maxc \<le> length found then acc
      else
        (let tris = TrianglesOn ppm (int planeIndex);
             img = \<lparr>miPosition = mirrored, miOrder = miOrder current + 1,
               TriangleHits = TriangleHits current @ [if tris = [] then planeIndex else hd tris],
               PlaneHits = PlaneHits current @ [planeIndex]\<rparr> in
         (found @ [img], if miOrder img < mMaxOrder cfg then again @ [img] else again)))"

lemma mirror_planes_grow:
  "length found + length again' \<le> length found' + length again"
  if "foldl (mirror_plane src cfg ppm maxc current) (found, again) ips = (found', again')" for found again
  using that
proof (induction ips arbitrary: found again)
  case (Cons ip ips)
  obtain f a where step: "mirror_plane src cfg ppm maxc current (found, again) ip = (f, a)" by fastforce
  then have "length found + length a \<le> length f + length again"
    by (auto simp: mirror_plane_def Let_def split: prod.splits if_splits)
  with Cons step show ?case by fastforce
qed simp

function mesh_bfs ::
  "vec3 \<Rightarrow> MeshISMConfig \<Rightarrow> PlanePolygonMap option \<Rightarrow> plane list \<Rightarrow> nat \<Rightarrow> MeshImageSource list \<Rightarrow> MeshImageSource list \<Rightarrow> MeshImageSource list" where
  "mesh_bfs src cfg ppm planes maxc found queue =
     (case queue of
        [] \<Rightarrow> found
      | current # rest \<Rightarrow>
          if maxc \<le> length found then found
          else if mMaxOrder cfg \<le> miOrder current then mesh_bfs src cfg ppm planes maxc found rest
          else
            (let (found', again) = foldl (mirror_plane src cfg ppm maxc current) (found, []) (enumerate 0 planes) in
             mesh_bfs src cfg ppm planes maxc found' (rest @ again)))"
  by pat_completeness auto
termination
proof (relation "measures [\<lambda>(src, cfg, ppm, planes, maxc, found, queue). maxc - length found,
    \<lambda>(src, cfg, ppm, planes, maxc, found, queue). length queue]", goal_cases)
  case (3 src cfg ppm planes maxc found queue current rest p found' again)
  then have "length found + length again \<le> length found'" using mirror_planes_grow [of src cfg ppm maxc current found "[]" _ found' again] by simp
  with 3 show ?case by (cases again) auto
qed auto

declare mesh_bfs.simps [simp del]

definition mesh_image_before :: "vec3 \<Rightarrow> MeshImageSource \<Rightarrow> MeshImageSource \<Rightarrow> bool" where
  "mesh_image_before src a b =
     (if miOrder a \<noteq> miOrder b then miOrder a < miOrder b
      else flt (vec3_Distance (miPosition a) src) (vec3_Distance (miPosition b) src))"

definition GenerateMeshImageSources ::
  "((MeshImageSource \<Rightarrow> MeshImageSource \<Rightarrow> bool) \<Rightarrow> MeshImageSource list \<Rightarrow> MeshImageSource list) \<Rightarrow> vec3 \<Rightarrow> mesh option \<Rightarrow> MeshISMConfig \<Rightarrow>
   MeshImageSource list" where
  "GenerateMeshImageSources srt src mo cfg =
     (if mo = None \<or> mMaxOrder cfg < 0 then []
      else
        (let maxc = nat (if MaxCandidates cfg \<le> 0 then defaultMaxCandidates else MaxCandidates cfg);
             ppm = (if PPM cfg = None then BuildPlanePolygonMap mo else PPM cfg);
             start = \<lparr>miPosition = src, miOrder = 0, TriangleHits = [], PlaneHits = []\<rparr> in
         if mMaxOrder cfg = 0 then [start]
         else
           srt (mesh_image_before src)
             (mesh_bfs src cfg ppm (case ppm of None \<Rightarrow> [] | Some p \<Rightarrow> Planes p) maxc [start] [start])))"

subsection \<open>Paths and events in a mesh (mesh_solver.go)\<close>

definition meshRayOffset :: f64 where
  "meshRayOffset = round64 (1 / 10 ^ 6)"

record meshReflectionPoint =
  mrPoint :: vec3
  mrNormal :: vec3
  mrTriIndex :: nat

text \<open>The walk from the receiver back to the source; the planes are those of the image, last first. A
  hierarchy of the mesh only reports triangles of the mesh.\<close>

fun mesh_walk ::
  "mesh \<Rightarrow> bvh \<Rightarrow> PlanePolygonMap option \<Rightarrow> vec3 \<Rightarrow> vec3 \<Rightarrow> nat list \<Rightarrow> meshReflectionPoint list option" where
  "mesh_walk m b ppm current target [] = Some []"
| "mesh_walk m b ppm current target (expected # planes) =
     (let direction = vec3_Sub target current; len = vec3_Norm direction in
      if fle len pathEpsilon then None
      else
        (let r = \<lparr>rayOrigin = current, rayDirection = vec3_Scale direction (fdiv (round64 1) len)\<rparr>;
             (hitT, triIdx, hit) = bvh_Intersect b r in
         if \<not> hit \<or> PlaneOf ppm (int triIdx) \<noteq> Some expected then None
         else
           (let hitPoint = ray_At r hitT in
            if \<not> ContainsPoint ppm (Some m) (int expected) hitPoint then None
            else
              (let normal = triangle_Normal (Triangles m ! triIdx) in
               map_option (\<lambda>rest. \<lparr>mrPoint = hitPoint, mrNormal = normal, mrTriIndex = triIdx\<rparr> # rest)
                 (mesh_walk m b ppm (vec3_Add hitPoint (vec3_Scale normal meshRayOffset))
                   (plane_ReflectPoint (NewPlaneFromPointNormal hitPoint normal) target) planes)))))"

definition meshReflectionPath ::
  "MeshImageSource \<Rightarrow> vec3 \<Rightarrow> mesh \<Rightarrow> bvh \<Rightarrow> PlanePolygonMap option \<Rightarrow> meshReflectionPoint list option" where
  "meshReflectionPath img receiver m b ppm0 =
     (if miOrder img = 0 \<or> int (length (TriangleHits img)) \<noteq> miOrder img \<or> int (length (PlaneHits img)) \<noteq> miOrder img then None
      else
        (let ppm = (if ppm0 = None then BuildPlanePolygonMap (Some m) else ppm0) in
         map_option rev (mesh_walk m b ppm receiver (miPosition img) (rev (PlaneHits img)))))"

definition set_At :: "meshMaterialSet \<Rightarrow> nat \<Rightarrow> material" where
  "set_At s triIndex = (if length (perTriangle s) \<le> triIndex then fallback s else perTriangle s ! triIndex)"

fun mesh_pressure :: "meshMaterialSet \<Rightarrow> int \<Rightarrow> f64 \<Rightarrow> vec3 \<Rightarrow> meshReflectionPoint list \<Rightarrow> f64" where
  "mesh_pressure materials bandIndex pressure previous [] = pressure"
| "mesh_pressure materials bandIndex pressure previous (rp # path) =
     (let direction = vec3_Normalize (vec3_Sub (mrPoint rp) previous) in
      if vec3_eq direction Vec3Zero then Zero False
      else
        (let cos0 = fabs (vec3_Dot direction (mrNormal rp)); cosAngle = (if flt (round64 1) cos0 then round64 1 else cos0) in
         mesh_pressure materials bandIndex
           (fmul pressure (wayverbPressureReflectance (AbsorptionAt (set_At materials (mrTriIndex rp)) bandIndex) cosAngle))
           (mrPoint rp) path))"

definition meshPathReflectance :: "meshReflectionPoint list \<Rightarrow> vec3 \<Rightarrow> meshMaterialSet \<Rightarrow> int \<Rightarrow> f64" where
  "meshPathReflectance path src materials bandIndex = mesh_pressure materials bandIndex (round64 1) src path"

definition meshSpecularEvent ::
  "('dir, 'h) ism_env \<Rightarrow> 'dir source \<Rightarrow> 'h receiver \<Rightarrow> MeshImageSource \<Rightarrow> mesh \<Rightarrow> bvh \<Rightarrow> PlanePolygonMap option \<Rightarrow> meshMaterialSet \<Rightarrow>
   band_spec \<Rightarrow> f64 \<Rightarrow> Event option" where
  "meshSpecularEvent env src rec img m b ppm materials spec speed =
     (if fle (vec3_Distance (rPosition rec) (miPosition img)) pathEpsilon then None
      else
        (case meshReflectionPath img (rPosition rec) m b ppm of
           None \<Rightarrow> None
         | Some path \<Rightarrow>
             (let target = (case path of [] \<Rightarrow> rPosition rec | p # _ \<Rightarrow> mrPoint p) in
              reflected_event env src rec (miPosition img) target (meshPathReflectance path (sPosition src) materials) spec speed)))"

definition meshMaterials :: "('dir, 'h) scene \<Rightarrow> meshMaterialSet" where
  "meshMaterials sc =
     (let name = MeshMaterial (Room sc);
          whole = (case Materials sc name of Some m \<Rightarrow> if name \<noteq> [] then m else MaterialFullyReflective | None \<Rightarrow> MaterialFullyReflective) in
      case (TriangleMaterials (Room sc), Mesh (Room sc)) of
        (Some (t # ts), Some m) \<Rightarrow>
          \<lparr>fallback = whole, perTriangle = map (\<lambda>i. MaterialForTriangle (Room sc) (int i) (Materials sc)) [0..<length (Triangles m)]\<rparr>
      | _ \<Rightarrow> \<lparr>fallback = whole, perTriangle = []\<rparr>)"

definition meshMaxDistance :: "f64 \<Rightarrow> f64" where
  "meshMaxDistance speedOfSound = fmul speedOfSound (round64 2)"

definition mesh_source_events ::
  "('dir, 'h) ism_env \<Rightarrow> ('dir, 'h) scene \<Rightarrow> ISMConfig \<Rightarrow> mesh \<Rightarrow> PlanePolygonMap option \<Rightarrow> 'dir source \<Rightarrow> MeshImageSource list \<Rightarrow> Event list" where
  "mesh_source_events env sc cfg m ppm src images =
     (let spec = used_spec cfg sc; speed = used_speed cfg; rec = hd (Receivers sc) in
      opt_list (directEvent env src rec spec speed) @
      concat (map (\<lambda>img.
          if miOrder img = 0 then []
          else opt_list (meshSpecularEvent env src rec img m (BuildBVH (Some m)) ppm (meshMaterials sc) spec speed)) images))"

text \<open>The end that \<open>solveMesh\<close>, \<open>EvaluateMesh\<close> and \<open>evaluateMeshMultiSource\<close> share: diffraction and the order.\<close>

definition finish_mesh :: "('dir, 'h) ism_env \<Rightarrow> ('dir, 'h) scene \<Rightarrow> ISMConfig \<Rightarrow> mesh \<Rightarrow> Event list \<Rightarrow> Event list" where
  "finish_mesh env sc cfg m events =
     sortEvents env event_before
       (events @ (if EnableDiffraction cfg
          then meshDiffractionEvents env sc cfg (BuildBVH (Some m)) (meshMaterials sc) (used_spec cfg sc) (used_speed cfg) else []))"

definition mesh_images :: "('dir, 'h) ism_env \<Rightarrow> ISMConfig \<Rightarrow> mesh \<Rightarrow> PlanePolygonMap option \<Rightarrow> vec3 \<Rightarrow> MeshImageSource list" where
  "mesh_images env cfg m ppm src =
     GenerateMeshImageSources (sortMeshImages env) src (Some m)
       \<lparr>mMaxOrder = imMaxOrder cfg, MaxDistance = meshMaxDistance (used_speed cfg), MaxCandidates = 0, PPM = ppm\<rparr>"

definition solveMesh :: "('dir, 'h) ism_env \<Rightarrow> ('dir, 'h) scene \<Rightarrow> ISMConfig \<Rightarrow> mesh \<Rightarrow> Event list" where
  "solveMesh env sc cfg m =
     (let ppm = BuildPlanePolygonMap (Some m) in
      finish_mesh env sc cfg m
        (concat (map (\<lambda>src. mesh_source_events env sc cfg m ppm src (mesh_images env cfg m ppm (sPosition src))) (Sources sc))))"

definition EvaluateMesh ::
  "('dir, 'h) ism_env \<Rightarrow> MeshImageSource list \<Rightarrow> ('dir, 'h) scene option \<Rightarrow> ISMConfig \<Rightarrow> ism_error + Event list" where
  "EvaluateMesh env images so cfg = (case so of
     None \<Rightarrow> Inl IsmSceneNil
   | Some sc \<Rightarrow>
     (case Mesh (Room sc) of
        None \<Rightarrow> Inl IsmMeshNil
      | Some m \<Rightarrow>
          if Sources sc = [] then Inl IsmNoSource
          else if 1 < length (Sources sc) then Inl IsmOneSource
          else if Receivers sc = [] then Inl IsmNoReceiver
          else Inr (finish_mesh env sc cfg m
            (concat (map (\<lambda>src. mesh_source_events env sc cfg m (BuildPlanePolygonMap (Some m)) src images) (Sources sc))))))"

subsection \<open>Solve (solver.go)\<close>

definition check_solve :: "('dir, 'h) ism_env \<Rightarrow> ('dir, 'h) scene option \<Rightarrow> ISMConfig \<Rightarrow> ism_error option" where
  "check_solve env so cfg = (case so of
     None \<Rightarrow> Some IsmSceneNil
   | Some sc \<Rightarrow>
       if imMaxOrder cfg < 0 then Some MaxOrderNegative
       else if MaxDiffractionOrder cfg < 0 \<or> 2 < MaxDiffractionOrder cfg then Some DiffractionOrderRange
       else
         (case Validate (mPow (ieLib env)) (ieRate env) (ieNames env sc) (Some sc) of
            e # es \<Rightarrow> Some (IsmSceneInvalid (e # es))
          | [] \<Rightarrow>
              if Sources sc = [] then Some IsmNoSource
              else if Receivers sc = [] then Some IsmNoReceiver
              else if 1 < length (Receivers sc) then Some (IsmReceivers (int (length (Receivers sc))))
              else if Kind (Room sc) = RoomKindMesh then (if Mesh (Room sc) = None then Some IsmMeshNil else None)
              else if Kind (Room sc) = RoomKindShoebox then (if Shoebox (Room sc) = None then Some IsmShoeboxNil else None)
              else Some (IsmRoomKind (Kind (Room sc)))))"

definition Solve :: "('dir, 'h) ism_env \<Rightarrow> ('dir, 'h) scene option \<Rightarrow> ISMConfig \<Rightarrow> ism_error + Event list" where
  "Solve env so cfg =
     (case check_solve env so cfg of
        Some err \<Rightarrow> Inl err
      | None \<Rightarrow>
          (let sc = the so in
           if Kind (Room sc) = RoomKindMesh then Inr (solveMesh env sc cfg (the (Mesh (Room sc))))
           else
             Inr (sortEvents env event_before
               (concat (map (\<lambda>src. shoebox_events env sc cfg (the (Shoebox (Room sc))) src
                  (GenerateImageSources (sortImages env) (sPosition src) (Shoebox (Room sc)) (imMaxOrder cfg))) (Sources sc))))))"

end
