(* ===== verification/Image_Cache.thy ===== *)
theory Image_Cache
  imports Image_Solver
begin

text \<open>
  The solver that keeps image sources between calls (ism/cached_solver.go), with the invariant that makes its
  answers those of a fresh solver. A call has the scene and the address of its mesh, because the code compares mesh
  pointers.
\<close>

record CachedISMSolver =
  shoeboxCache :: "ImageSource list list option"
  lastShoeboxDims :: "shoebox option"
  lastSourcePosSbx :: "vec3 list"
  meshCache :: "MeshImageSource list list option"
  lastMesh :: "nat option"
  lastSourcePosMsh :: "vec3 list"
  lastMeshMaxDist :: f64
  meshPPM :: "PlanePolygonMap option"
  lastRoomHash :: hashw
  lastMaxOrder :: int
  lastRoomKind :: string

definition Invalidate :: CachedISMSolver where
  "Invalidate = \<lparr>shoeboxCache = None, lastShoeboxDims = None, lastSourcePosSbx = [], meshCache = None, lastMesh = None,
     lastSourcePosMsh = [], lastMeshMaxDist = Zero False, meshPPM = None, lastRoomHash = 0, lastMaxOrder = 0, lastRoomKind = []\<rparr>"

definition collectSourcePositions :: "('dir, 'h) scene \<Rightarrow> vec3 list" where
  "collectSourcePositions sc = map sPosition (Sources sc)"

text \<open>The two branches of the rebuild, for both kinds of room: everything, or the sources that moved.\<close>

definition refresh :: "(vec3 \<Rightarrow> 'a list) \<Rightarrow> bool \<Rightarrow> vec3 list \<Rightarrow> 'a list list option \<Rightarrow> vec3 list \<Rightarrow> 'a list list" where
  "refresh gen roomUnchanged kept cache positions =
     (if roomUnchanged
      then map (\<lambda>(i, p). if i < length kept \<and> vec3_eq (kept ! i) p then the cache ! i else gen p) (enumerate 0 positions)
      else map gen positions)"

definition evaluateShoeboxMultiSource ::
  "('dir, 'h) ism_env \<Rightarrow> ImageSource list list \<Rightarrow> ('dir, 'h) scene \<Rightarrow> ISMConfig \<Rightarrow> shoebox \<Rightarrow> ism_error + Event list" where
  "evaluateShoeboxMultiSource env perSource sc cfg room =
     (if length perSource \<noteq> length (Sources sc) then Inl (SourceCount (int (length perSource)) (int (length (Sources sc))))
      else Inr (sortEvents env event_before
        (concat (map (\<lambda>(src, images). shoebox_events env sc cfg room src images) (zip (Sources sc) perSource)))))"

definition evaluateMeshMultiSource ::
  "('dir, 'h) ism_env \<Rightarrow> MeshImageSource list list \<Rightarrow> ('dir, 'h) scene \<Rightarrow> ISMConfig \<Rightarrow> mesh \<Rightarrow> PlanePolygonMap option \<Rightarrow> ism_error + Event list" where
  "evaluateMeshMultiSource env perSource sc cfg m ppm0 =
     (if length perSource \<noteq> length (Sources sc) then Inl (SourceCount (int (length perSource)) (int (length (Sources sc))))
      else
        (let ppm = (if ppm0 = None then BuildPlanePolygonMap (Some m) else ppm0) in
         Inr (finish_mesh env sc cfg m
           (concat (map (\<lambda>(src, images). mesh_source_events env sc cfg m ppm src images) (zip (Sources sc) perSource))))))"

definition cached_solveShoebox ::
  "('dir, 'h) ism_env \<Rightarrow> CachedISMSolver \<Rightarrow> ('dir, 'h) scene \<Rightarrow> ISMConfig \<Rightarrow> shoebox \<Rightarrow> CachedISMSolver \<times> (ism_error + Event list)" where
  "cached_solveShoebox env c sc cfg room =
     (let roomHash = RoomHash sc; positions = collectSourcePositions sc;
          roomUnchanged = (lastRoomKind c = RoomKindShoebox \<and> lastRoomHash c = roomHash \<and> lastMaxOrder c = imMaxOrder cfg \<and>
            (case shoeboxCache c of None \<Rightarrow> False | Some xs \<Rightarrow> length xs = length (Sources sc)));
          images = refresh (\<lambda>p. GenerateImageSources (sortImages env) p (Some room) (imMaxOrder cfg)) roomUnchanged
            (lastSourcePosSbx c) (shoeboxCache c) positions in
      (c\<lparr>shoeboxCache := Some images, lastRoomHash := roomHash, lastMaxOrder := imMaxOrder cfg, lastRoomKind := RoomKindShoebox,
         lastShoeboxDims := Some room, lastSourcePosSbx := positions, meshCache := None, lastMesh := None, lastSourcePosMsh := []\<rparr>,
       evaluateShoeboxMultiSource env images sc cfg room))"

definition cached_solveMesh ::
  "('dir, 'h) ism_env \<Rightarrow> CachedISMSolver \<Rightarrow> nat \<Rightarrow> ('dir, 'h) scene \<Rightarrow> ISMConfig \<Rightarrow> mesh \<Rightarrow> CachedISMSolver \<times> (ism_error + Event list)" where
  "cached_solveMesh env c address sc cfg m =
     (let roomHash = RoomHash sc; positions = collectSourcePositions sc;
          ppm = (if meshPPM c = None \<or> lastRoomKind c \<noteq> RoomKindMesh \<or> lastRoomHash c \<noteq> roomHash \<or> lastMesh c \<noteq> Some address
            then BuildPlanePolygonMap (Some m) else meshPPM c);
          maxDistance = meshMaxDistance (used_speed cfg);
          roomUnchanged = (lastRoomKind c = RoomKindMesh \<and> lastRoomHash c = roomHash \<and> lastMaxOrder c = imMaxOrder cfg \<and>
            feq (lastMeshMaxDist c) maxDistance \<and>
            (case meshCache c of None \<Rightarrow> False | Some xs \<Rightarrow> length xs = length (Sources sc)));
          images = refresh (mesh_images env cfg m ppm) roomUnchanged (lastSourcePosMsh c) (meshCache c) positions in
      (c\<lparr>meshCache := Some images, lastRoomHash := roomHash, lastMaxOrder := imMaxOrder cfg, lastRoomKind := RoomKindMesh,
         lastMesh := Some address, lastSourcePosMsh := positions, lastMeshMaxDist := maxDistance, meshPPM := ppm,
         shoeboxCache := None, lastShoeboxDims := None, lastSourcePosSbx := []\<rparr>,
       evaluateMeshMultiSource env images sc cfg m ppm))"

definition cached_Solve ::
  "('dir, 'h) ism_env \<Rightarrow> CachedISMSolver \<Rightarrow> nat \<Rightarrow> ('dir, 'h) scene option \<Rightarrow> ISMConfig \<Rightarrow> CachedISMSolver \<times> (ism_error + Event list)" where
  "cached_Solve env c address so cfg =
     (case check_solve env so cfg of
        Some err \<Rightarrow> (c, Inl err)
      | None \<Rightarrow>
          (let sc = the so in
           if Kind (Room sc) = RoomKindShoebox then cached_solveShoebox env c sc cfg (the (Shoebox (Room sc)))
           else cached_solveMesh env c address sc cfg (the (Mesh (Room sc)))))"

subsection \<open>Sessions\<close>

datatype ('dir, 'h) ism_call = SolveCall nat "('dir, 'h) scene option" ISMConfig | InvalidateCall

fun run_cached :: "('dir, 'h) ism_env \<Rightarrow> CachedISMSolver \<Rightarrow> ('dir, 'h) ism_call list \<Rightarrow> (ism_error + Event list) list" where
  "run_cached env c [] = []"
| "run_cached env c (SolveCall address so cfg # calls) =
     (let (c', answer) = cached_Solve env c address so cfg in answer # run_cached env c' calls)"
| "run_cached env c (InvalidateCall # calls) = run_cached env Invalidate calls"

text \<open>What a solver without a cache answers.\<close>

fun run_fresh :: "('dir, 'h) ism_env \<Rightarrow> ('dir, 'h) ism_call list \<Rightarrow> (ism_error + Event list) list" where
  "run_fresh env [] = []"
| "run_fresh env (SolveCall address so cfg # calls) = Solve env so cfg # run_fresh env calls"
| "run_fresh env (InvalidateCall # calls) = run_fresh env calls"

definition scenes_of :: "('dir, 'h) ism_call list \<Rightarrow> ('dir, 'h) scene set" where
  "scenes_of calls = {sc. \<exists>address cfg. SolveCall address (Some sc) cfg \<in> set calls}"

text \<open>What image sources depend on in a room.\<close>

definition same_geometry :: "room \<Rightarrow> room \<Rightarrow> bool" where
  "same_geometry a b \<longleftrightarrow>
     map_option (\<lambda>s. (Width s, Depth s, Height s)) (Shoebox a) = map_option (\<lambda>s. (Width s, Depth s, Height s)) (Shoebox b) \<and> Mesh a = Mesh b"

text \<open>No two scenes of a session whose rooms differ have the same hash.\<close>

definition hashes_separate :: "('dir, 'h) scene set \<Rightarrow> bool" where
  "hashes_separate scs \<longleftrightarrow> (\<forall>a \<in> scs. \<forall>b \<in> scs. RoomHash a = RoomHash b \<longrightarrow> same_geometry (Room a) (Room b))"

text \<open>A coordinate that \<open>==\<close> tells from every other: no negative zero.\<close>

definition plain :: "f64 \<Rightarrow> bool" where
  "plain a \<longleftrightarrow> f64_ok a \<and> a \<noteq> Zero True"

definition plain_vec3 :: "vec3 \<Rightarrow> bool" where
  "plain_vec3 v \<longleftrightarrow> plain (vX v) \<and> plain (vY v) \<and> plain (vZ v)"

definition plain_sources :: "('dir, 'h) scene \<Rightarrow> bool" where
  "plain_sources sc \<longleftrightarrow> list_all (\<lambda>src. plain_vec3 (sPosition src)) (Sources sc)"

lemma plain_feq: "plain a \<Longrightarrow> plain b \<Longrightarrow> feq a b \<Longrightarrow> a = b"
  by (cases a; cases b) (auto simp: plain_def feq_def split: if_splits)

lemma plain_vec3_eq: "plain_vec3 v \<Longrightarrow> plain_vec3 w \<Longrightarrow> vec3_eq v w \<Longrightarrow> v = w"
  using plain_feq by (cases v; cases w) (auto simp: plain_vec3_def vec3_eq_def)

lemma refresh_fresh:
  assumes "list_all plain_vec3 positions" "list_all plain_vec3 kept"
    and "roomUnchanged \<Longrightarrow> cache = Some (map gen kept)"
  shows "refresh gen roomUnchanged kept cache positions = map gen positions"
proof (cases roomUnchanged)
  case True
  have "(if i < length kept \<and> vec3_eq (kept ! i) p then the cache ! i else gen p) = gen p" if "p \<in> set positions" for i p
  proof -
    have "plain_vec3 p" using assms(1) that by (simp add: list_all_iff)
    moreover have "plain_vec3 (kept ! i)" if "i < length kept" using assms(2) that by (simp add: list_all_length)
    ultimately show ?thesis using assms(3) [OF True] plain_vec3_eq [of "kept ! i" p] by auto
  qed
  then have "map (\<lambda>(i, p). if i < length kept \<and> vec3_eq (kept ! i) p then the cache ! i else gen p) (enumerate 0 positions) =
      map (\<lambda>(i, p). gen p) (enumerate 0 positions)"
    by (auto simp: in_set_enumerate_eq intro!: map_cong)
  also have "\<dots> = map gen (map snd (enumerate 0 positions))" by (simp only: map_map comp_def case_prod_beta')
  also have "\<dots> = map gen positions" by (simp only: map_snd_enumerate)
  finally show ?thesis using True by (simp add: refresh_def)
qed (simp add: refresh_def)

subsection \<open>The cache is transparent\<close>

text \<open>What the solver keeps belongs to a scene it has solved.\<close>

definition shoebox_kept :: "('dir, 'h) ism_env \<Rightarrow> ('dir, 'h) scene set \<Rightarrow> CachedISMSolver \<Rightarrow> bool" where
  "shoebox_kept env scs c \<longleftrightarrow> list_all plain_vec3 (lastSourcePosSbx c) \<and>
     (\<exists>sc \<in> scs. lastRoomHash c = RoomHash sc \<and> Shoebox (Room sc) \<noteq> None \<and>
        shoeboxCache c = Some (map (\<lambda>p. GenerateImageSources (sortImages env) p (Shoebox (Room sc)) (lastMaxOrder c)) (lastSourcePosSbx c)))"

definition mesh_kept :: "('dir, 'h) ism_env \<Rightarrow> ('dir, 'h) scene set \<Rightarrow> CachedISMSolver \<Rightarrow> bool" where
  "mesh_kept env scs c \<longleftrightarrow> list_all plain_vec3 (lastSourcePosMsh c) \<and> (plain (lastMeshMaxDist c) \<or> is_nan (lastMeshMaxDist c)) \<and>
     (\<exists>sc \<in> scs. lastRoomHash c = RoomHash sc \<and> Mesh (Room sc) \<noteq> None \<and> meshPPM c = BuildPlanePolygonMap (Mesh (Room sc)) \<and>
        meshCache c = Some (map (\<lambda>p. GenerateMeshImageSources (sortMeshImages env) p (Mesh (Room sc))
          \<lparr>mMaxOrder = lastMaxOrder c, MaxDistance = lastMeshMaxDist c, MaxCandidates = 0, PPM = meshPPM c\<rparr>) (lastSourcePosMsh c)))"

definition kept_ok :: "('dir, 'h) ism_env \<Rightarrow> ('dir, 'h) scene set \<Rightarrow> CachedISMSolver \<Rightarrow> bool" where
  "kept_ok env scs c \<longleftrightarrow> (lastRoomKind c = RoomKindShoebox \<longrightarrow> shoebox_kept env scs c) \<and>
     (lastRoomKind c = RoomKindMesh \<longrightarrow> mesh_kept env scs c)"

lemma kinds_differ: "RoomKindShoebox \<noteq> RoomKindMesh" "RoomKindShoebox \<noteq> []" "RoomKindMesh \<noteq> []"
  by (simp_all add: RoomKindShoebox_def RoomKindMesh_def)

lemma Invalidate_ok: "kept_ok env scs Invalidate"
  by (simp add: kept_ok_def Invalidate_def RoomKindShoebox_def RoomKindMesh_def)

lemma plain_distance: "plain (meshMaxDistance (used_speed cfg)) \<or> is_nan (meshMaxDistance (used_speed cfg))"
proof -
  have two: "round64 2 = Num 2" by (simp add: float_eval)
  have c343: "round64 343 = Num 343" by (simp add: float_eval)
  have pos: "round64 x \<noteq> Zero True" if "0 < x" for x using that by (auto simp: round64_def Let_def split: option.splits)
  show ?thesis unfolding meshMaxDistance_def used_speed_def c343 two
    by (cases "imSpeedOfSound cfg") (auto simp: plain_def fmul_def fle_def pos arith_ok)
qed

lemma images_dims:
  "map_option (\<lambda>s. (Width s, Depth s, Height s)) ro = map_option (\<lambda>s. (Width s, Depth s, Height s)) ro' \<Longrightarrow>
     GenerateImageSources srt p ro n = GenerateImageSources srt p ro' n"
  by (auto simp: GenerateImageSources_def split: option.splits)

lemma positions_plain: "plain_sources sc \<Longrightarrow> list_all plain_vec3 (collectSourcePositions sc)"
  by (simp add: plain_sources_def collectSourcePositions_def list.pred_map comp_def)

lemma zip_images: "map2 f srcs (map (\<lambda>x. gen (sPosition x)) srcs) = map (\<lambda>src. f src (gen (sPosition src))) srcs"
  by (induction srcs) auto

lemma shoebox_fresh:
  assumes "kept_ok env scs c" "sc \<in> scs" "hashes_separate scs" "plain_sources sc"
    and "check_solve env (Some sc) cfg = None" "Kind (Room sc) = RoomKindShoebox"
  shows "\<exists>c'. cached_Solve env c address (Some sc) cfg = (c', Solve env (Some sc) cfg) \<and> kept_ok env scs c'"
proof -
  obtain room where room: "Shoebox (Room sc) = Some room"
    using assms(5,6) kinds_differ by (auto simp: check_solve_def split: list.splits if_splits option.splits)
  let ?gen = "\<lambda>p. GenerateImageSources (sortImages env) p (Some room) (imMaxOrder cfg)"
  let ?unchanged = "lastRoomKind c = RoomKindShoebox \<and> lastRoomHash c = RoomHash sc \<and> lastMaxOrder c = imMaxOrder cfg \<and>
    (case shoeboxCache c of None \<Rightarrow> False | Some xs \<Rightarrow> length xs = length (Sources sc))"
  let ?kept = "if lastRoomKind c = RoomKindShoebox then lastSourcePosSbx c else []"
  have plain: "list_all plain_vec3 (collectSourcePositions sc)" using assms(4) by (rule positions_plain)
  have images: "refresh ?gen ?unchanged (lastSourcePosSbx c) (shoeboxCache c) (collectSourcePositions sc) = map ?gen (collectSourcePositions sc)"
  proof (cases "lastRoomKind c = RoomKindShoebox")
    case False
    then show ?thesis by (simp add: refresh_def)
  next
    case True
    with assms(1) have kept: "shoebox_kept env scs c" by (simp add: kept_ok_def)
    show ?thesis
    proof (rule refresh_fresh [OF plain])
      show "list_all plain_vec3 (lastSourcePosSbx c)" using kept by (simp add: shoebox_kept_def)
    next
      assume u: ?unchanged
      from kept obtain old where old: "old \<in> scs" "RoomHash old = RoomHash sc"
        "shoeboxCache c = Some (map (\<lambda>p. GenerateImageSources (sortImages env) p (Shoebox (Room old)) (imMaxOrder cfg)) (lastSourcePosSbx c))"
        using u by (auto simp: shoebox_kept_def)
      have "same_geometry (Room old) (Room sc)" using assms(2,3) old(1,2) by (auto simp: hashes_separate_def)
      then have "GenerateImageSources (sortImages env) p (Shoebox (Room old)) n = GenerateImageSources (sortImages env) p (Some room) n" for p n
        using images_dims [of "Shoebox (Room old)" "Some room"] room by (simp add: same_geometry_def)
      with old(3) show "shoeboxCache c = Some (map ?gen (lastSourcePosSbx c))" by simp
    qed
  qed
  have eval: "evaluateShoeboxMultiSource env (map ?gen (collectSourcePositions sc)) sc cfg room = Solve env (Some sc) cfg"
    using assms(5,6) room kinds_differ zip_images [of "shoebox_events env sc cfg room" "Sources sc" ?gen]
    by (simp add: evaluateShoeboxMultiSource_def collectSourcePositions_def Solve_def comp_def)
  obtain c' where c': "cached_solveShoebox env c sc cfg room = (c', Solve env (Some sc) cfg)"
    and fields: "lastRoomKind c' = RoomKindShoebox" "lastRoomHash c' = RoomHash sc" "lastMaxOrder c' = imMaxOrder cfg"
      "lastSourcePosSbx c' = collectSourcePositions sc" "shoeboxCache c' = Some (map ?gen (collectSourcePositions sc))"
    unfolding cached_solveShoebox_def Let_def images eval by simp
  have "shoebox_kept env scs c'"
    unfolding shoebox_kept_def using fields room plain assms(2) by (intro conjI bexI [of _ sc]) simp_all
  then have "kept_ok env scs c'" using fields(1) kinds_differ by (simp add: kept_ok_def)
  moreover have "cached_Solve env c address (Some sc) cfg = (c', Solve env (Some sc) cfg)"
    using assms(5,6) room c' by (simp add: cached_Solve_def)
  ultimately show ?thesis by blast
qed

lemma mesh_fresh:
  assumes "kept_ok env scs c" "sc \<in> scs" "hashes_separate scs" "plain_sources sc"
    and "check_solve env (Some sc) cfg = None" "Kind (Room sc) = RoomKindMesh"
  shows "\<exists>c'. cached_Solve env c address (Some sc) cfg = (c', Solve env (Some sc) cfg) \<and> kept_ok env scs c'"
proof -
  obtain m where m: "Mesh (Room sc) = Some m"
    using assms(5,6) kinds_differ by (auto simp: check_solve_def split: list.splits if_splits option.splits)
  let ?max = "meshMaxDistance (used_speed cfg)" and ?map = "BuildPlanePolygonMap (Some m)"
  let ?gen = "mesh_images env cfg m ?map"
  let ?unchanged = "lastRoomKind c = RoomKindMesh \<and> lastRoomHash c = RoomHash sc \<and> lastMaxOrder c = imMaxOrder cfg \<and>
    feq (lastMeshMaxDist c) ?max \<and> (case meshCache c of None \<Rightarrow> False | Some xs \<Rightarrow> length xs = length (Sources sc))"
  have plain: "list_all plain_vec3 (collectSourcePositions sc)" using assms(4) by (rule positions_plain)
  have same: "Mesh (Room old) = Some m" if "old \<in> scs" "RoomHash old = RoomHash sc" for old
  proof -
    have "same_geometry (Room old) (Room sc)" using assms(2,3) that unfolding hashes_separate_def by blast
    with m show ?thesis by (simp add: same_geometry_def)
  qed
  have ppm: "(if meshPPM c = None \<or> lastRoomKind c \<noteq> RoomKindMesh \<or> lastRoomHash c \<noteq> RoomHash sc \<or> lastMesh c \<noteq> Some address
      then ?map else meshPPM c) = ?map"
  proof (cases "lastRoomKind c = RoomKindMesh \<and> lastRoomHash c = RoomHash sc")
    case True
    with assms(1) obtain old where "old \<in> scs" "RoomHash old = RoomHash sc" "meshPPM c = BuildPlanePolygonMap (Mesh (Room old))"
      unfolding kept_ok_def mesh_kept_def by metis
    with same [of old] show ?thesis by simp
  qed auto
  have images: "refresh ?gen ?unchanged (lastSourcePosMsh c) (meshCache c) (collectSourcePositions sc) = map ?gen (collectSourcePositions sc)"
  proof (cases "lastRoomKind c = RoomKindMesh")
    case False
    then show ?thesis by (simp add: refresh_def)
  next
    case True
    with assms(1) have kept: "mesh_kept env scs c" by (simp add: kept_ok_def)
    show ?thesis
    proof (rule refresh_fresh [OF plain])
      show "list_all plain_vec3 (lastSourcePosMsh c)" using kept by (simp add: mesh_kept_def)
    next
      assume u: ?unchanged
      from kept obtain old where old: "old \<in> scs" "RoomHash old = RoomHash sc" "meshPPM c = BuildPlanePolygonMap (Mesh (Room old))"
        "meshCache c = Some (map (\<lambda>p. GenerateMeshImageSources (sortMeshImages env) p (Mesh (Room old))
          \<lparr>mMaxOrder = imMaxOrder cfg, MaxDistance = lastMeshMaxDist c, MaxCandidates = 0, PPM = meshPPM c\<rparr>) (lastSourcePosMsh c))"
        using u by (auto simp: mesh_kept_def)
      have "lastMeshMaxDist c = ?max"
        using kept u plain_distance [of cfg] plain_feq by (auto simp: mesh_kept_def feq_def)
      with old(3,4) same [OF old(1,2)] show "meshCache c = Some (map ?gen (lastSourcePosMsh c))" by (simp add: mesh_images_def)
    qed
  qed
  have eval: "evaluateMeshMultiSource env (map ?gen (collectSourcePositions sc)) sc cfg m ?map = Solve env (Some sc) cfg"
    using assms(5,6) m zip_images [of "mesh_source_events env sc cfg m ?map" "Sources sc" ?gen]
    by (simp add: evaluateMeshMultiSource_def collectSourcePositions_def Solve_def solveMesh_def comp_def Let_def)
  obtain c' where c': "cached_solveMesh env c address sc cfg m = (c', Solve env (Some sc) cfg)"
    and fields: "lastRoomKind c' = RoomKindMesh" "lastRoomHash c' = RoomHash sc" "lastMaxOrder c' = imMaxOrder cfg"
      "lastSourcePosMsh c' = collectSourcePositions sc" "meshCache c' = Some (map ?gen (collectSourcePositions sc))"
      "lastMeshMaxDist c' = ?max" "meshPPM c' = ?map"
    unfolding cached_solveMesh_def Let_def ppm images eval by simp
  have "mesh_kept env scs c'"
    unfolding mesh_kept_def using fields m plain plain_distance [of cfg] assms(2)
    by (intro conjI bexI [of _ sc]) (simp_all add: mesh_images_def)
  then have "kept_ok env scs c'" using fields(1) kinds_differ by (simp add: kept_ok_def)
  moreover have "cached_Solve env c address (Some sc) cfg = (c', Solve env (Some sc) cfg)"
    using assms(6) m c' kinds_differ by (simp add: cached_Solve_def assms(5))
  ultimately show ?thesis by blast
qed

end
