(* ===== verification/Image_Bounds.thy ===== *)
theory Image_Bounds
  imports Image_Solver Ray_Totality
begin

text \<open>
  Reflections only attenuate: the pressure reflectance of a wall lies between \<open>-1\<close> and \<open>1\<close> for every absorption
  and every angle, so the gain of an event in a band is at most the gain of the source's directivity there.
\<close>

definition signed_unit :: "f64 \<Rightarrow> bool" where
  "signed_unit x \<longleftrightarrow> is_nan x \<or> is_finite x \<and> \<bar>fval x\<bar> \<le> 1"

definition unit_value :: "f64 \<Rightarrow> bool" where
  "unit_value x \<longleftrightarrow> is_nan x \<or> is_finite x \<and> 0 \<le> fval x \<and> fval x \<le> 1"

lemma not_nan: "is_nan x \<longleftrightarrow> x = NaN"
  by (cases x) auto

lemma round64_range:
  assumes "representable lo" "representable hi" "lo \<le> x" "x \<le> hi"
  shows "is_finite (round64 x)" "lo \<le> fval (round64 x)" "fval (round64 x) \<le> hi"
proof -
  have b: "fle (fof lo) (round64 x)" "fle (round64 x) (fof hi)"
    using assms by (simp_all add: round64_le_representable round64_ge_representable)
  have fin: "is_finite (fof lo)" "is_finite (fof hi)" "fval (fof lo) = lo" "fval (fof hi) = hi"
    by (simp_all add: fof_def is_finite_def)
  with b show f: "is_finite (round64 x)"
    by (cases "round64 x"; cases "fof lo"; cases "fof hi") (auto simp: fle_def is_finite_def split: if_splits)
  from b show "lo \<le> fval (round64 x)" "fval (round64 x) \<le> hi" using f fin by (simp_all add: fle_finite)
qed

lemma fmul_range:
  assumes "is_finite a" "is_finite b" "representable lo" "representable hi" "lo \<le> fval a * fval b" "fval a * fval b \<le> hi"
  shows "is_finite (fmul a b)" "lo \<le> fval (fmul a b)" "fval (fmul a b) \<le> hi"
  using assms round64_range [OF assms(3-6)]
  by (cases a; cases b; auto simp: fmul_def is_finite_def)+

lemma fdiv_range:
  assumes "is_finite a" "is_finite b" "fval b > 0" "representable lo" "representable hi" "lo \<le> fval a / fval b" "fval a / fval b \<le> hi"
  shows "is_finite (fdiv a b)" "lo \<le> fval (fdiv a b)" "fval (fdiv a b) \<le> hi"
  using assms round64_range [OF assms(4-7)]
  by (cases a; cases b; auto simp: fdiv_def is_finite_def)+

lemmas unit_reps = representable_of_int [of 0, simplified] representable_of_int [of 1, simplified]
  representable_of_int [of "- 1", simplified] representable_of_int [of 2, simplified]

lemma representable_power: "n \<le> 900 \<Longrightarrow> representable (2 ^ n)" "n \<le> 900 \<Longrightarrow> representable (- (2 ^ n))" "n \<le> 900 \<Longrightarrow> representable (1 / 2 ^ n)"
proof -
  have "representable (2 powi k)" if "- 1074 \<le> k" "k \<le> 971" for k
    unfolding representable_def using that by (intro exI [of _ 1] exI [of _ k]) simp
  from this [of "int n"] this [of "- int n"]
  show p: "representable (2 ^ n)" and "representable (1 / 2 ^ n)" if "n \<le> 900"
    using that by (simp_all add: power_int_minus inverse_eq_divide)
  show "representable (- (2 ^ n))" if "n \<le> 900" using p [OF that] by (rule representable_minus)
qed

text \<open>The clamps.\<close>

lemma clamp_unit:
  "unit_value (let w = (if flt v (Zero False) then Zero False else v) in if flt (round64 1) w then round64 1 else w)"
  by (cases v) (auto simp: unit_value_def flt_def is_finite_def Let_def)

lemma fsqrt_unit:
  assumes "unit_value x"
  shows "unit_value (fsqrt x)"
proof (cases x)
  case (Num y)
  with assms have y: "0 \<le> y" "y \<le> 1" by (simp_all add: unit_value_def is_finite_def)
  then have "0 \<le> sqrt y" "sqrt y \<le> 1" by simp_all
  with Num y round64_range [OF unit_reps(1,2), of "sqrt y"] show ?thesis by (simp add: unit_value_def)
qed (use assms in \<open>auto simp: unit_value_def is_finite_def\<close>)

lemma complement_unit:
  assumes "unit_value a"
  shows "unit_value (fmax (Zero False) (fsub (round64 1) a))"
proof (cases "is_nan a")
  case True
  then show ?thesis by (auto simp: not_nan fsub_def fadd_def fmax_def unit_value_def)
next
  case False
  with assms have a: "is_finite a" "0 \<le> fval a" "fval a \<le> 1" by (simp_all add: unit_value_def)
  have one: "is_finite (round64 1)" "fval (round64 1) = 1" by (simp_all add: is_finite_def)
  have d: "is_finite (fsub (round64 1) a)" "0 \<le> fval (fsub (round64 1) a)" "fval (fsub (round64 1) a) \<le> 1"
    using fadd_range [OF one(1), of "fneg a" 0 1] a one(2) unit_reps unfolding fsub_def by simp_all
  then show ?thesis
    by (cases "fsub (round64 1) a") (auto simp: fmax_def unit_value_def is_finite_def flt_def)
qed

lemma threshold:
  "is_finite (round64 (1 - 1 / 10 ^ 12))" "fval (round64 (1 - 1 / 10 ^ 12)) \<le> 1 - 1 / 2 ^ 50"
proof -
  have p: "(2::real) powi (- 50) = 1 / 1125899906842624" by (simp add: power_int_minus inverse_eq_divide)
  have "1 - 1 / 1125899906842624 = of_int 1125899906842623 * (2::real) powi (- 50)" unfolding p by simp
  then have rep: "representable (1 - 1 / 1125899906842624)" by (rule representableI) simp_all
  show "is_finite (round64 (1 - 1 / 10 ^ 12))" by (rule round64_range(1) [OF unit_reps(1) rep]) simp_all
  have "fval (round64 (1 - 1 / 10 ^ 12)) \<le> 1 - 1 / 1125899906842624"
    by (rule round64_range(3) [OF unit_reps(1) rep]) simp_all
  then show "fval (round64 (1 - 1 / 10 ^ 12)) \<le> 1 - 1 / 2 ^ 50" by simp
qed

lemma ratio_unit:
  assumes mu: "unit_value m" and cu: "unit_value c" and nle: "\<not> fle (round64 (1 - 1 / 10 ^ 12)) m"
  defines "t \<equiv> fmul (fdiv (fadd (round64 1) m) (fsub (round64 1) m)) c"
  shows "signed_unit (fdiv (fsub t (round64 1)) (fadd t (round64 1)))"
proof (cases "m = NaN \<or> c = NaN")
  case True
  then have "t = NaN" unfolding t_def by (elim disjE) (simp_all add: fadd_def fdiv_def fmul_def fsub_def)
  then show ?thesis by (simp add: fadd_def fsub_def fdiv_def signed_unit_def)
next
  case False
  then have 2: "m \<noteq> NaN" "c \<noteq> NaN" by simp_all
  let ?imp = "fdiv (fadd (round64 1) m) (fsub (round64 1) m)"
  have one: "is_finite (round64 1)" "fval (round64 1) = 1" by (simp_all add: is_finite_def)
  have mf: "is_finite m" "0 \<le> fval m" "fval m \<le> 1" using mu 2 by (simp_all add: unit_value_def not_nan)
  have cf: "is_finite c" "0 \<le> fval c" "fval c \<le> 1" using cu 2 by (simp_all add: unit_value_def not_nan)
  note thr = threshold
  have low: "fval m < 1 - 1 / 2 ^ 50" using nle thr mf(1) by (simp add: fle_finite)
  have num: "is_finite (fadd (round64 1) m)" "1 \<le> fval (fadd (round64 1) m)" "fval (fadd (round64 1) m) \<le> 2"
    using fadd_range [OF one(1) mf(1), of 1 2] mf one(2) unit_reps by simp_all
  have den: "is_finite (fsub (round64 1) m)" "1 / 2 ^ 50 \<le> fval (fsub (round64 1) m)"
    using fadd_range [OF one(1), of "fneg m" "1 / 2 ^ 50" 1] mf low one(2) unit_reps representable_power(3) [of 50]
    unfolding fsub_def by simp_all
  have ratio: "0 \<le> fval (fadd (round64 1) m) / fval (fsub (round64 1) m)"
    "fval (fadd (round64 1) m) / fval (fsub (round64 1) m) \<le> 2 ^ 51"
  proof -
    have pos: "0 < fval (fsub (round64 1) m)" using den(2) by (rule less_le_trans [rotated]) simp
    show "0 \<le> fval (fadd (round64 1) m) / fval (fsub (round64 1) m)" using pos num(2) by simp
    have "2 ^ 51 * (1 / 2 ^ 50) \<le> 2 ^ 51 * fval (fsub (round64 1) m)" using den(2) by (rule mult_left_mono) simp
    then have "fval (fadd (round64 1) m) \<le> 2 ^ 51 * fval (fsub (round64 1) m)" using num(3) by simp
    with pos show "fval (fadd (round64 1) m) / fval (fsub (round64 1) m) \<le> 2 ^ 51" by (simp add: divide_le_eq)
  qed
  have pos: "0 < fval (fsub (round64 1) m)" using den(2) by (rule less_le_trans [rotated]) simp
  have imp: "is_finite ?imp" "0 \<le> fval ?imp" "fval ?imp \<le> 2 ^ 51"
    using fdiv_range [OF num(1) den(1) pos unit_reps(1) representable_power(1) [of 51] ratio] by simp_all
  have "fval ?imp * fval c \<le> 2 ^ 51 * 1" using imp(2,3) cf(2,3) by (intro mult_mono) simp_all
  then have t: "is_finite t" "0 \<le> fval t" "fval t \<le> 2 ^ 51"
    using fmul_range [OF imp(1) cf(1) unit_reps(1) representable_power(1) [of 51]] imp(2) cf(2) unfolding t_def by simp_all
  let ?u = "fsub t (round64 1)" and ?v = "fadd t (round64 1)"
  have v: "is_finite ?v" "1 \<le> fval ?v"
    using fadd_range [OF t(1) one(1), of 1 "2 ^ 52"] t one(2) unit_reps representable_power(1) [of 52] by simp_all
  have u: "is_finite ?u"
    using fadd_range(1) [OF t(1), of "fneg (round64 1)" "- 1" "2 ^ 52"] t one(2) unit_reps representable_power(1) [of 52]
    unfolding fsub_def by (simp add: is_finite_def [of "Num (- 1)"])
  have mono: "fle ?u ?v" "fle (fneg ?v) ?u"
  proof -
    have r: "round64 (- x) = (if x = 0 then Zero False else fneg (round64 x))" for x by (simp add: round64_minus)
    have le: "fle (round64 (fval t - 1)) (round64 (fval t + 1))" "fle (round64 (- (fval t + 1))) (round64 (fval t - 1))"
      using t(2) by (auto intro: round64_mono)
    have "fval t + 1 \<noteq> 0" using t(2) by linarith
    then have vr: "?v = round64 (fval t + 1)" using t(1) one by (simp add: fadd_def is_finite_def)
    have ur: "fval ?u = fval (round64 (fval t - 1))"
      using t(1) one by (auto simp: fsub_def fadd_def is_finite_def)
    have uf: "is_finite (round64 (fval t - 1))"
      using round64_range [OF unit_reps(3) representable_power(1) [of 51], of "fval t - 1"] t by simp
    have nv: "round64 (- (fval t + 1)) = fneg ?v" using \<open>fval t + 1 \<noteq> 0\<close> vr r [of "fval t + 1"] by simp
    show "fle ?u ?v" using le(1) u v(1) uf ur vr by (simp add: fle_finite)
    show "fle (fneg ?v) ?u" using le(2) u v(1) uf ur unfolding nv by (simp add: fle_finite)
  qed
  then have q: "- fval ?v \<le> fval ?u" "fval ?u \<le> fval ?v" using u v(1) by (simp_all add: fle_finite)
  then have "- 1 \<le> fval ?u / fval ?v" "fval ?u / fval ?v \<le> 1" using v(2) by (simp_all add: le_divide_eq divide_le_eq)
  with fdiv_range [OF u v(1) _ unit_reps(3,2)] v(2) show ?thesis by (simp add: signed_unit_def abs_le_iff)
qed

lemma reflectance_unit: "signed_unit (wayverbPressureReflectance absorption cosAngle)"
proof -
  obtain c where c: "c = (let w = (if flt cosAngle (Zero False) then Zero False else cosAngle) in if flt (round64 1) w then round64 1 else w)" by simp
  obtain a where a: "a = (let w = (if flt absorption (Zero False) then Zero False else absorption) in if flt (round64 1) w then round64 1 else w)" by simp
  obtain m where m: "m = fsqrt (fmax (Zero False) (fsub (round64 1) a))" by simp
  have units: "unit_value c" "unit_value m" unfolding c m a by (intro fsqrt_unit complement_unit clamp_unit)+
  have "wayverbPressureReflectance absorption cosAngle =
      (if fle (round64 (1 - 1 / 10 ^ 12)) m then round64 1
       else fdiv (fsub (fmul (fdiv (fadd (round64 1) m) (fsub (round64 1) m)) c) (round64 1))
         (fadd (fmul (fdiv (fadd (round64 1) m) (fsub (round64 1) m)) c) (round64 1)))"
    unfolding wayverbPressureReflectance_def m a c Let_def by (rule refl)
  then show ?thesis using ratio_unit [OF units(2,1)] by (simp add: signed_unit_def is_finite_def)
qed

definition attenuated :: "f64 \<Rightarrow> f64 \<Rightarrow> bool" where
  "attenuated b a \<longleftrightarrow> is_nan b \<or> fle (fabs b) (fabs a)"

lemma signed_unit_one: "signed_unit (round64 1)" and signed_unit_zero: "signed_unit (Zero s)"
  by (simp_all add: signed_unit_def is_finite_def)

lemma abs_product_le: "\<bar>a\<bar> \<le> (1::real) \<Longrightarrow> \<bar>x * a\<bar> \<le> \<bar>x\<bar>"
  by (simp add: abs_mult mult_left_le)

lemma signed_unit_fmul:
  assumes "signed_unit a" "signed_unit b"
  shows "signed_unit (fmul a b)"
proof (cases "a = NaN \<or> b = NaN")
  case True
  then show ?thesis by (auto simp: fmul_def signed_unit_def)
next
  case False
  with assms have f: "is_finite a" "is_finite b" "\<bar>fval a\<bar> \<le> 1" "\<bar>fval b\<bar> \<le> 1" by (simp_all add: signed_unit_def not_nan)
  then have "\<bar>fval a * fval b\<bar> \<le> 1" using abs_product_le [of "fval b" "fval a"] by linarith
  then have "- 1 \<le> fval a * fval b" "fval a * fval b \<le> 1" by linarith+
  with fmul_range [OF f(1,2) unit_reps(3,2)] show ?thesis by (simp add: signed_unit_def abs_le_iff)
qed

lemma representable_fval: "f64_ok g \<Longrightarrow> representable (fval g)"
  using unit_reps(1) by (cases g) auto

lemma fval_fabs: "fval (fabs g) = \<bar>fval g\<bar>" "is_finite (fabs g) = is_finite g"
  by (cases g; simp add: is_finite_def)+

lemma attenuated_fmul:
  assumes "signed_unit r" "f64_ok g"
  shows "attenuated (fmul g r) g"
proof (cases "g = NaN \<or> r = NaN")
  case True
  then show ?thesis by (auto simp: fmul_def attenuated_def)
next
  case False
  with assms have r: "is_finite r" "\<bar>fval r\<bar> \<le> 1" by (simp_all add: signed_unit_def not_nan)
  show ?thesis
  proof (cases "is_finite g")
    case True
    let ?M = "\<bar>fval g\<bar>"
    have rep: "representable ?M" "representable (- ?M)"
      using representable_fval [OF assms(2)] representable_minus [of "fval g"] representable_minus [of "- fval g"]
      by (simp_all add: abs_if)
    have "\<bar>fval g * fval r\<bar> \<le> ?M" using r(2) by (rule abs_product_le)
    then have "- ?M \<le> fval g * fval r" "fval g * fval r \<le> ?M" by linarith+
    with fmul_range [OF True r(1) rep(2,1)] True show ?thesis
      unfolding attenuated_def by (simp add: fle_finite fval_fabs abs_le_iff)
  next
    case inf: False
    with False obtain s where "g = Inf s" by (cases g) (auto simp: is_finite_def)
    with r(1) show ?thesis by (cases r) (auto simp: attenuated_def fmul_def fle_def is_finite_def)
  qed
qed

lemma attenuated_refl: "attenuated g g"
  by (cases g) (auto simp: attenuated_def fle_def)

text \<open>The paths.\<close>

lemma path_reflectance_unit: "signed_unit (pathPressureReflectance path src room materials band)"
proof -
  have "signed_unit (fst (foldl (reflect_pressure room materials band) (p, v) path))" if "signed_unit p" for p v
    using that
  proof (induction path arbitrary: p v)
    case (Cons rp path)
    obtain p' v' where step: "reflect_pressure room materials band (p, v) rp = (p', v')" by fastforce
    then have "signed_unit p'"
      using Cons.prems by (auto simp: reflect_pressure_def Let_def intro: signed_unit_fmul reflectance_unit)
    with Cons.IH step show ?case by simp
  qed simp
  then show ?thesis using signed_unit_one by (simp add: pathPressureReflectance_def)
qed

lemma mesh_reflectance_unit: "signed_unit (meshPathReflectance path src materials band)"
proof -
  have "signed_unit p \<Longrightarrow> signed_unit (mesh_pressure materials band p v path)" for p v
    by (induction path arbitrary: p v) (simp_all add: Let_def signed_unit_zero signed_unit_fmul reflectance_unit)
  then show ?thesis using signed_unit_one by (simp add: meshPathReflectance_def)
qed

definition physical_event :: "('dir, 'h) ism_env \<Rightarrow> 'dir source \<Rightarrow> band_spec \<Rightarrow> f64 \<Rightarrow> Event \<Rightarrow> bool" where
  "physical_event env src spec speed e \<longleftrightarrow>
     TimeSeconds e = fdiv (DistanceMeters e) speed \<and>
     Amplitude e = fdiv (sourceAmplitude (ieLib env) src) (DistanceMeters e) \<and>
     \<not> bandGainSilent (BandGain e) \<and>
     (\<exists>target. list_all2 attenuated (BandGain e) (directivityBandGain (ieGain env) src spec target))"

lemma gain_ok:
  assumes "\<And>d f v. f64_ok (gain d f v)" "g \<in> set (directivityBandGain gain src spec target)"
  shows "f64_ok g"
  using assms unit_reps(2) by (auto simp: directivityBandGain_def Let_def split: option.splits)

lemma direct_event_physical: "directEvent env src rec spec speed = Some e \<Longrightarrow> physical_event env src spec speed e"
  by (auto simp: directEvent_def physical_event_def path_event_def Let_def list_all2_same attenuated_refl
      split: if_splits intro!: exI [of _ "rPosition rec"])

lemma scaled_attenuated:
  assumes "\<And>i. signed_unit (r i)" "\<And>g. g \<in> set gs \<Longrightarrow> f64_ok g"
  shows "list_all2 attenuated (map (\<lambda>(i, g). fmul g (r (int i))) (enumerate n gs)) gs"
  using assms(2)
proof (induction gs arbitrary: n)
  case (Cons g gs)
  then show ?case using attenuated_fmul [OF assms(1)] by simp
qed simp

lemma reflected_event_physical:
  assumes "reflected_event env src rec origin target reflectance spec speed = Some e"
    "\<And>i. signed_unit (reflectance i)" "\<And>d f v. f64_ok (ieGain env d f v)"
  shows "physical_event env src spec speed e"
proof -
  let ?g = "directivityBandGain (ieGain env) src spec target"
  let ?h = "map (\<lambda>(i, g). fmul g (reflectance (int i))) (enumerate 0 ?g)"
  have e: "e = path_event (ieLib env) src origin (rPosition rec) (vec3_Distance (rPosition rec) origin) speed ?h EventSpecular"
    "\<not> bandGainSilent ?h"
    using assms(1) unfolding reflected_event_def Let_def by (simp_all split: if_splits)
  moreover have "list_all2 attenuated ?h ?g"
    by (rule scaled_attenuated [of reflectance, OF assms(2) gain_ok [OF assms(3)]])
  ultimately show ?thesis unfolding physical_event_def path_event_def by (intro conjI exI [of _ target]) simp_all
qed

lemma specular_physical:
  assumes "specularEvent env src rec img path room materials spec speed = Some e" "\<And>d f v. f64_ok (ieGain env d f v)"
  shows "physical_event env src spec speed e"
  using assms(1) unfolding specularEvent_def Let_def
  by (auto split: if_splits intro: reflected_event_physical [OF _ path_reflectance_unit assms(2)])

lemma mesh_specular_physical:
  assumes "meshSpecularEvent env src rec img m b ppm materials spec speed = Some e" "\<And>d f v. f64_ok (ieGain env d f v)"
  shows "physical_event env src spec speed e"
proof -
  obtain path target where "reflected_event env src rec (miPosition img) target
      (meshPathReflectance path (sPosition src) materials) spec speed = Some e"
    using assms(1) unfolding meshSpecularEvent_def Let_def by (simp split: if_splits option.splits)
  then show ?thesis by (rule reflected_event_physical [OF _ mesh_reflectance_unit assms(2)])
qed

lemma in_opt_list: "e \<in> set (opt_list x) \<longleftrightarrow> x = Some e"
  by (auto simp: opt_list_def split: option.splits)

lemma shoebox_event_physical:
  assumes "e \<in> set (shoebox_events env sc cfg room src images)" "\<And>d f v. f64_ok (ieGain env d f v)"
  shows "physical_event env src (used_spec cfg sc) (used_speed cfg) e"
proof -
  consider "directEvent env src (hd (Receivers sc)) (used_spec cfg sc) (used_speed cfg) = Some e"
    | img path where "specularEvent env src (hd (Receivers sc)) img path room (Materials sc) (used_spec cfg sc) (used_speed cfg) = Some e"
    using assms(1) unfolding shoebox_events_def Let_def by (auto simp: in_opt_list split: if_splits option.splits)
  then show ?thesis by cases (auto intro: direct_event_physical specular_physical assms(2))
qed

lemma mesh_event_physical:
  assumes "e \<in> set (mesh_source_events env sc cfg m ppm src images)" "\<And>d f v. f64_ok (ieGain env d f v)"
  shows "physical_event env src (used_spec cfg sc) (used_speed cfg) e"
proof -
  consider "directEvent env src (hd (Receivers sc)) (used_spec cfg sc) (used_speed cfg) = Some e"
    | img where "meshSpecularEvent env src (hd (Receivers sc)) img m (BuildBVH (Some m)) ppm (meshMaterials sc)
        (used_spec cfg sc) (used_speed cfg) = Some e"
    using assms(1) unfolding mesh_source_events_def Let_def by (auto simp: in_opt_list split: if_splits)
  then show ?thesis by cases (auto intro: direct_event_physical mesh_specular_physical assms(2))
qed

end
