(* ===== verification/Image_Properties.thy ===== *)
theory Image_Properties
  imports Image_Laws Image_Cache Image_Bounds Example_Plan
begin

text \<open>
  The properties of the image-source solver, with a room of two metres each way as the example: one source that
  moves, one receiver, walls that absorb half of the energy.
\<close>

subsection \<open>The example room\<close>

definition chamber :: "vec3 \<Rightarrow> (unit, unit) scene" where
  "chamber p = (building PortalOpen PortalOpen)
     \<lparr>Room := box_room (Zero False), Rooms := [], Portals := [],
      Sources := [\<lparr>sPosition = p, sOrientation = quat_identity, GainDB = Zero False, Directivity = None\<rparr>],
      Receivers := [\<lparr>rPosition = mk_vec3 (Num 1) (Num 2) (Num 1), rOrientation = quat_identity, rType = ''omni'', HRTF = None\<rparr>]\<rparr>"

lemma chamber_fields:
  "Room (chamber p) = box_room (Zero False)" "Rooms (chamber p) = []" "Portals (chamber p) = []"
  "Materials (chamber p) = building_materials" "SampleRate (chamber p) = 48000"
  "BandSpec (chamber p) = \<lparr>CenterFreqs = [Num 1000], LowerEdges = [Num 500], UpperEdges = [Num 2000]\<rparr>"
  "Sources (chamber p) = [\<lparr>sPosition = p, sOrientation = quat_identity, GainDB = Zero False, Directivity = None\<rparr>]"
  "Receivers (chamber p) = [\<lparr>rPosition = mk_vec3 (Num 1) (Num 2) (Num 1), rOrientation = quat_identity, rType = ''omni'', HRTF = None\<rparr>]"
  by (simp_all add: chamber_def building_def)

lemma chamber_elsewhere:
  "Materials (chamber p) = Materials (building st1 st2)" "BandSpec (chamber p) = BandSpec (building st1 st2)"
  "SampleRate (chamber p) = SampleRate (building st1 st2)"
  by (simp_all add: chamber_def building_def)

lemma chamber_rooms: "RoomCount (chamber p) = 1" "RoomAt (chamber p) 0 = Some (box_room (Zero False))"
  by (simp_all add: RoomCount_def RoomAt_def chamber_fields roomIsSet_def box_room_def RoomKindShoebox_def)

lemma upto_1: "[0..(1::int) - 1] = [0]"
  by (simp add: upto.simps)

lemma chamber_contains:
  "room_contains (chamber p) (seat 1) 0" "room_contains (chamber p) (seat 2) 0"
  "room_contains (chamber p) (mk_vec3 (Num 1) (Num 2) (Num 1)) 0"
proof -
  have b: "room_Bounds (box_room x) = Some (shoebox_Bounds (the (Shoebox (box_room x))))" for x
    by (simp add: room_Bounds_def box_room_def)
  show "room_contains (chamber p) (seat 1) 0" "room_contains (chamber p) (seat 2) 0"
    "room_contains (chamber p) (mk_vec3 (Num 1) (Num 2) (Num 1)) 0"
    unfolding room_contains_def chamber_rooms option.case b boxes by (simp_all add: box_Contains_def seat_def fle_def)
qed

lemma chamber_bands: "validateBandSpec (chamber p) = []"
  using building_bands [of PortalOpen PortalOpen]
  unfolding validateBandSpec_def chamber_elsewhere(2,3) [of p PortalOpen PortalOpen] .

lemma chamber_box: "validateSceneRooms (chamber p) = []"
proof -
  have r: "validateRoom (box_room (Zero False)) = []"
    by (simp add: validateRoom_def box_room_def isFiniteVec3_def validateShoeboxRoom_def float_eval triangle_materials_def numeral_eq_Suc is_finite_def)
  have "roomIsSet (box_room (Zero False))" by (simp add: roomIsSet_def box_room_def RoomKindShoebox_def)
  with r show ?thesis unfolding validateSceneRooms_def chamber_rooms upto_1 by (simp add: chamber_rooms chamber_fields)
qed

lemma chamber_references: "validateMaterialReferences (chamber p) = []"
  unfolding validateMaterialReferences_def chamber_rooms upto_1
  by (simp add: chamber_rooms) (simp add: chamber_fields box_room_def RoomKindShoebox_def RoomKindMesh_def
    undefined_names_def triangle_materials_def building_materials_def)

lemma chamber_valid:
  assumes "p \<in> {seat 1, seat 2}"
  shows "Validate pow rate building_names (Some (chamber p)) = []"
proof -
  have idx: "RoomIndexAt (chamber p) (seat 1) = Some 0" "RoomIndexAt (chamber p) (seat 2) = Some 0"
    "RoomIndexAt (chamber p) (mk_vec3 (Num 1) (Num 2) (Num 1)) = Some 0"
    unfolding RoomIndexAt_def chamber_rooms upto_1 by (simp_all add: chamber_contains)
  have "isFiniteVec3 (seat 1)" "isFiniteVec3 (seat 2)" "isFiniteVec3 (mk_vec3 (Num 1) (Num 2) (Num 1))"
    by (simp_all add: seat_def isFiniteVec3_def is_finite_def)
  with idx assms have pos: "validatePositions (chamber p) = []" by (auto simp: validatePositions_def chamber_fields)
  have rec: "validateReceivers rate (chamber p) = []" by (simp add: validateReceivers_def chamber_fields)
  have "validatePortals (chamber p) = []" by (simp add: validatePortals_def chamber_fields indexed_def)
  moreover have "validateMaterials pow building_names (Materials (chamber p)) (BandCount (BandSpec (chamber p))) = []"
    using building_materials_ok [of pow PortalOpen PortalOpen]
    unfolding chamber_elsewhere(1,2) [of p PortalOpen PortalOpen] .
  moreover have "\<not> SampleRate (chamber p) \<le> 0" by (simp add: chamber_fields)
  ultimately show ?thesis
    by (simp add: Validate_def pos rec chamber_bands chamber_box chamber_references)
qed

definition plain_env :: "(unit, unit) ism_env" where
  "plain_env = \<lparr>ieLib = \<lparr>mPow = flat_pow, mExp = flat, mCos = flat, mSin = flat, mTan = flat, mAcos = flat, mAsin = flat, mAtan = flat, mAtan2 = flat_pow\<rparr>,
     ieGain = (\<lambda>_ _ _. round64 1), ieRate = (\<lambda>_. 48000), ieNames = (\<lambda>_. building_names),
     sortImages = SliceStable, sortCrossings = SliceStable, sortMeshImages = SliceStable, sortEvents = SliceStable,
     meshDiffractionEvents = (\<lambda>_ _ _ _ _ _. [])\<rparr>"

definition order_config :: "int \<Rightarrow> ISMConfig" where
  "order_config n = \<lparr>imMaxOrder = n, imSpeedOfSound = Zero False, imBandSpec = \<lparr>CenterFreqs = [], LowerEdges = [], UpperEdges = []\<rparr>,
     EnableDiffraction = False, MaxDiffractionOrder = 0\<rparr>"

lemma chamber_checks:
  assumes "p \<in> {seat 1, seat 2}" "0 \<le> n"
  shows "check_solve plain_env (Some (chamber p)) (order_config n) = None"
proof -
  have "Kind (box_room x) = RoomKindShoebox" "Shoebox (box_room x) \<noteq> None" for x by (simp_all add: box_room_def)
  with assms chamber_valid [OF assms(1)] kinds_differ(1) show ?thesis
    by (simp add: check_solve_def plain_env_def order_config_def chamber_fields)
qed

lemma path_epsilon: "is_finite pathEpsilon" "0 \<le> fval pathEpsilon" "fval pathEpsilon \<le> 1 / 4"
proof -
  have r: "representable 0" "representable (1 / 4)" using unit_reps(1) representable_power(3) [of 2] by simp_all
  show "is_finite pathEpsilon" "0 \<le> fval pathEpsilon" "fval pathEpsilon \<le> 1 / 4"
    unfolding pathEpsilon_def by (rule round64_range [OF r]; simp)+
qed

lemma above_epsilon: "1 / 4 < x \<Longrightarrow> \<not> fle (Num x) pathEpsilon" "1 / 4 < x \<Longrightarrow> flt pathEpsilon (Num x)"
  using path_epsilon by (simp_all add: fle_finite flt_finite is_finite_def)

lemma SliceStable_one: "SliceStable lt [c] = [c]"
  by (simp add: SliceStable_def)

subsection \<open>Properties\<close>

text \<open>C18: \<open>GenerateImageSources\<close> enumerates the image sources of a shoebox completely and once: the orders of the
  images are exactly the triples whose absolute values sum to at most the maximum, each once, and
  they come by rising reflection order. Along each axis an image is the mirror image of an image in one of the two walls, correctly
  rounded whenever the multiple of the room size is a float64, and its mask has exactly the walls its
  unfolded path crosses.\<close>

theorem image_sources_exact:
  assumes "sorts_slices srt" "isFiniteVec3 src" "isFiniteVec3 (mk_vec3 (Width room) (Depth room) (Height room))"
    and "0 \<le> maxOrder" "maxOrder < 2 ^ 52"
  shows "distinct (map orders_of (GenerateImageSources srt src (Some room) maxOrder)) \<and>
    set (map orders_of (GenerateImageSources srt src (Some room) maxOrder)) = {(x, y, z). \<bar>x\<bar> + \<bar>y\<bar> + \<bar>z\<bar> \<le> maxOrder} \<and>
    sorted_wrt (\<lambda>a b. isOrder a \<le> isOrder b) (GenerateImageSources srt src (Some room) maxOrder) \<and>
    list_all (image_exact src (mk_vec3 (Width room) (Depth room) (Height room))) (GenerateImageSources srt src (Some room) maxOrder)"
proof -
  let ?dims = "mk_vec3 (Width room) (Depth room) (Height room)"
  let ?all = "map (image_at src ?dims) (image_orders maxOrder)" and ?imgs = "GenerateImageSources srt src (Some room) maxOrder"
  have g: "?imgs = srt image_before ?all" using assms(4) by (simp add: GenerateImageSources_def)
  have m: "mset ?imgs = mset ?all" unfolding g using assms(1) by (simp add: sorts_slices_def)
  have orders: "mset (map orders_of ?imgs) = mset (image_orders maxOrder)"
  proof -
    have "mset (map orders_of ?imgs) = mset (map orders_of ?all)" by (simp only: mset_map m)
    also have "map orders_of ?all = image_orders maxOrder" by (simp add: comp_def)
    finally show ?thesis .
  qed
  have s: "set ?imgs = set ?all" using m by (rule mset_eq_setD)
  have "weak_order_on (set ?all) image_before"
  proof (rule image_before_weak, rule ballI)
    fix img assume "img \<in> set ?all"
    then obtain ox oy oz where img: "img = image_at src ?dims (ox, oy, oz)" and "\<bar>ox\<bar> + \<bar>oy\<bar> + \<bar>oz\<bar> \<le> maxOrder"
      by (auto simp: image_orders_laws)
    then have "\<bar>ox\<bar> < 2 ^ 52" "\<bar>oy\<bar> < 2 ^ 52" "\<bar>oz\<bar> < 2 ^ 52" using assms(5) by linarith+
    with assms(2,3) show "\<not> is_nan (vX (isPosition img)) \<and> \<not> is_nan (vY (isPosition img)) \<and> \<not> is_nan (vZ (isPosition img))"
      by (simp add: img image_at_def Let_def isFiniteVec3_def coordinate_not_nan)
  qed
  then have "sorted_wrt (\<lambda>a b. \<not> image_before b a) ?imgs" unfolding g using assms(1) by (simp add: sorts_slices_def)
  then have "sorted_wrt (\<lambda>a b. isOrder a \<le> isOrder b) ?imgs"
    by (rule sorted_wrt_mono_rel [rotated]) (auto simp: image_before_def Let_def split: if_splits)
  moreover have "list_all (image_exact src ?dims) ?imgs"
    using assms(2,3,5) unfolding list_all_iff s by (auto simp: image_orders_laws intro!: image_at_exact)
  ultimately show ?thesis
    using mset_eq_setD [OF orders] mset_eq_imp_distinct_iff [OF orders] by (simp add: image_orders_laws)
qed

theorem image_sources_exact_witness:
  "distinct (map orders_of (GenerateImageSources SliceStable (seat 1) (Shoebox (box_room (Zero False))) 1)) \<and>
   (1, 0, 0) \<in> set (map orders_of (GenerateImageSources SliceStable (seat 1) (Shoebox (box_room (Zero False))) 1)) \<and>
   (1, - 1, 0) \<notin> set (map orders_of (GenerateImageSources SliceStable (seat 1) (Shoebox (box_room (Zero False))) 1))"
proof -
  obtain room where r: "Shoebox (box_room (Zero False)) = Some room" "Width room = Num 2" "Depth room = Num 2" "Height room = Num 2"
    by (simp add: box_room_def)
  have fin: "isFiniteVec3 (seat 1)" "isFiniteVec3 (mk_vec3 (Width room) (Depth room) (Height room))"
    by (simp_all add: seat_def isFiniteVec3_def is_finite_def r)
  have "\<bar>1 :: int\<bar> + \<bar>0\<bar> + \<bar>0\<bar> \<le> 1" "\<not> \<bar>1 :: int\<bar> + \<bar>- 1\<bar> + \<bar>0\<bar> \<le> 1" by simp_all
  with image_sources_exact [OF sorts_SliceStable fin, of 1] show ?thesis unfolding r(1) by simp
qed

text \<open>C19: A reflection path of an image source meets the walls that the unfolded path crosses, each as often as it crosses
  it, so it has as many points as the image has reflections, and every point lies in the interior of
  its wall, away from the edges.\<close>

theorem reflection_path_bounces:
  assumes "sorts_slices srt" "reflectionPath srt (image_at src dims (ox, oy, oz)) receiver = Some path"
  shows "int (length path) = \<bar>ox\<bar> + \<bar>oy\<bar> + \<bar>oz\<bar> \<and> mset (map rpWall path) = mset (path_walls ox oy oz) \<and>
    list_all (\<lambda>w. int (count_list (map rpWall path) w) = wallHitCounts ox oy oz ! w) [0..<6] \<and>
    list_all (\<lambda>p. pointOnWallInterior (rpPoint p) (rpWall p) dims) path"
proof -
  let ?img = "image_at src dims (ox, oy, oz)"
  obtain cs0 where cs0: "crossingEvents ?img receiver = Some cs0"
    and path: "map (crossing_point ?img receiver) (srt (\<lambda>a b. flt (pcT a) (pcT b)) cs0) = map Some path"
    using assms(2) by (auto simp: reflectionPath_def Let_def those_Some_iff split: if_splits option.splits)
  let ?cs = "srt (\<lambda>a b. flt (pcT a) (pcT b)) cs0"
  have len: "length path = length ?cs" using path by (metis length_map)
  have pt: "crossing_point ?img receiver (?cs ! i) = Some (path ! i)" if "i < length path" for i
    using arg_cong [OF path, of "\<lambda>l. l ! i"] that len by simp
  have "map rpWall path = map pcWall ?cs"
    using len crossing_point_laws [OF pt] by (auto intro: nth_equalityI)
  moreover have "mset (map pcWall ?cs) = mset (map pcWall cs0)"
    using assms(1) by (simp only: mset_map) (simp add: sorts_slices_def)
  moreover have "map pcWall cs0 = path_walls ox oy oz" using crossing_walls [OF cs0] by simp
  ultimately have walls: "mset (map rpWall path) = mset (path_walls ox oy oz)" by simp
  then have "length (map rpWall path) = length (path_walls ox oy oz)" by (rule mset_eq_length)
  then have "int (length path) = \<bar>ox\<bar> + \<bar>oy\<bar> + \<bar>oz\<bar>" using length_path_walls [of ox oy oz] by simp
  moreover have "count_list (map rpWall path) w = count_list (path_walls ox oy oz) w" for w
    using arg_cong [OF walls, of "\<lambda>m. Multiset.count m w"] by (simp only: count_mset)
  moreover have "list_all (\<lambda>p. pointOnWallInterior (rpPoint p) (rpWall p) dims) path"
    unfolding list_all_length using crossing_point_laws [OF pt, THEN conjunct2] by simp
  ultimately show ?thesis using walls by (auto simp: list_all_iff wallHitCounts_nth)
qed

text \<open>A source and a receiver at the middle of the room: the echo of the far wall.\<close>

lemma middle_path:
  "reflectionPath SliceStable (image_at (seat 1) (mk_vec3 (Num 2) (Num 2) (Num 2)) (1, 0, 0)) (seat 1) =
     Some [\<lparr>rpPoint = mk_vec3 (Num 2) (Num 1) (Num 1), rpWall = wallPosX\<rparr>]"
proof -
  let ?dims = "mk_vec3 (Num 2) (Num 2) (Num 2)" and ?img = "image_at (seat 1) (mk_vec3 (Num 2) (Num 2) (Num 2)) (1, 0, 0)"
  have pos: "isPosition ?img = mk_vec3 (Num 3) (Num 1) (Num 1)"
    by (simp add: image_at_def imageSourceCoordinate_def f64_of_int_def seat_def float_eval)
  have img: "orderX ?img = 1" "orderY ?img = 0" "orderZ ?img = 0" "isOrder ?img = 1" "roomDims ?img = ?dims"
    by (simp_all add: image_at_def)
  have d: "vec3_Distance (isPosition ?img) (seat 1) = Num 2"
    unfolding pos by (simp add: seat_def vec3_Distance_def vec3_Sub_def vec3_Norm_def vec3_Dot_def float_eval real_sqrt_four)
  have delta: "fsub (Num 3) (Num 1) = Num 2" "fdiv (fsub (fmul (f64_of_int 1) (Num 2)) (Num 1)) (Num 2) = Num (1 / 2)"
    by (simp_all add: float_eval f64_of_int_def)
  have ce: "crossingEvents ?img (seat 1) = Some [\<lparr>pcT = Num (1 / 2), pcWall = wallPosX\<rparr>]"
    unfolding crossingEvents_def Let_def pos img appendAxisCrossings_def crossed_plane_def crossed_wall_def
    using above_epsilon(1) [of 2] delta by (simp add: seat_def)
  have near: "\<not> fle (round64 (1 - 1 / 10 ^ 9)) (Num (1 / 2))"
  proof -
    have "representable (3 / 4)" by (rule representableI [of _ 3 "- 2"]) (simp_all add: power_int_minus)
    with round64_range(1,2) [OF this unit_reps(2), of "1 - 1 / 10 ^ 9"] show ?thesis
      by (simp add: fle_finite is_finite_def [of "Num (1 / 2)"])
  qed
  have fold: "foldCoordinate (Num 2) (Num 2) = Num 2" "foldCoordinate (Num 1) (Num 2) = Num 1"
    using above_epsilon(1) [of 2] above_epsilon(1) [of 1] path_epsilon
    by (simp_all add: foldCoordinate_def fmod_def float_eval truncate_real_def Let_def)
  have "vec3_Add (seat 1) (vec3_Scale (vec3_Sub (isPosition ?img) (seat 1)) (Num (1 / 2))) = mk_vec3 (Num 2) (Num 1) (Num 1)"
    unfolding pos by (simp add: seat_def vec3_Add_def vec3_Scale_def vec3_Sub_def float_eval)
  then have pt: "foldPoint (vec3_Add (seat 1) (vec3_Scale (vec3_Sub (isPosition ?img) (seat 1)) (Num (1 / 2)))) ?dims = mk_vec3 (Num 2) (Num 1) (Num 1)"
    by (simp add: foldPoint_def fold)
  have within: "withinOpenInterval (Num 1) (Num 2)"
  proof -
    have e: "is_finite (fneg pathEpsilon)" "fval (fneg pathEpsilon) = - fval pathEpsilon" using path_epsilon(1) by simp_all
    have "representable (3 / 2)" by (rule representableI [of _ 3 "- 1"]) (simp_all add: power_int_minus)
    from fadd_range(1,2) [of "Num 2" "fneg pathEpsilon" "3 / 2" 2, OF _ e(1) this unit_reps(4)] e path_epsilon
    have "is_finite (fsub (Num 2) pathEpsilon)" "3 / 2 \<le> fval (fsub (Num 2) pathEpsilon)"
      unfolding fsub_def by (simp_all add: is_finite_def [of "Num 2"])
    then have "flt (Num 1) (fsub (Num 2) pathEpsilon)" by (simp add: flt_finite is_finite_def [of "Num 1"])
    then show ?thesis using above_epsilon(2) [of 1] by (simp add: withinOpenInterval_def)
  qed
  have "fsub (Num 2) (Num 2) = Zero False" by (simp add: fsub_def fadd_def)
  then have zero: "fle (fabs (fsub (Num 2) (Num 2))) pathEpsilon"
    using path_epsilon by (simp add: fle_finite is_finite_def [of "Zero False"])
  have interior: "pointOnWallInterior (mk_vec3 (Num 2) (Num 1) (Num 1)) wallPosX ?dims"
    using within zero by (simp add: pointOnWallInterior_def wall_numbers)
  have cp: "crossing_point ?img (seat 1) \<lparr>pcT = Num (1 / 2), pcWall = wallPosX\<rparr> = Some \<lparr>rpPoint = mk_vec3 (Num 2) (Num 1) (Num 1), rpWall = wallPosX\<rparr>"
    unfolding crossing_point_def img Let_def using above_epsilon(1) [of "1 / 2"] near interior by (simp add: pt)
  show ?thesis
    unfolding reflectionPath_def d ce Let_def img option.case using above_epsilon(1) [of 2] by (simp add: SliceStable_one cp)
qed

theorem reflection_path_bounces_witness:
  "\<exists>path. reflectionPath SliceStable (image_at (seat 1) (mk_vec3 (Num 2) (Num 2) (Num 2)) (1, 0, 0)) (seat 1) = Some path \<and>
     int (length path) = 1 \<and> mset (map rpWall path) = mset (path_walls 1 0 0)"
  using reflection_path_bounces [OF sorts_SliceStable middle_path] middle_path by auto

text \<open>C17: Over any session of solves and invalidations, of rooms of either kind, with sources and materials that change
  and scenes that fail validation in between, the solver that keeps image sources answers each call, errors included, exactly like a
  solver without a cache, as long as different rooms have different hashes and no source coordinate is
  a negative zero, which the comparison of positions cannot see.\<close>

theorem cached_solver_is_fresh:
  assumes "hashes_separate (scenes_of calls)" "\<forall>sc \<in> scenes_of calls. plain_sources sc"
  shows "run_cached env Invalidate calls = run_fresh env calls"
proof -
  have "run_cached env c todo = run_fresh env todo" if "kept_ok env (scenes_of calls) c" "set todo \<subseteq> set calls" for c todo
    using that
  proof (induction todo arbitrary: c)
    case (Cons call todo)
    show ?case
    proof (cases call)
      case InvalidateCall
      with Cons show ?thesis by (simp add: Invalidate_ok)
    next
      case (SolveCall address so cfg)
      show ?thesis
      proof (cases "check_solve env so cfg")
        case (Some err)
        with Cons SolveCall show ?thesis by (simp add: cached_Solve_def Solve_def)
      next
        case None
        then obtain sc where so: "so = Some sc" by (auto simp: check_solve_def split: option.splits)
        have sc: "sc \<in> scenes_of calls" using Cons.prems(2) SolveCall so by (auto simp: scenes_of_def)
        have kind: "Kind (Room sc) = RoomKindShoebox \<or> Kind (Room sc) = RoomKindMesh"
          using None so by (auto simp: check_solve_def split: list.splits if_splits)
        have "\<exists>c'. cached_Solve env c address (Some sc) cfg = (c', Solve env (Some sc) cfg) \<and> kept_ok env (scenes_of calls) c'"
          using kind shoebox_fresh [OF Cons.prems(1) sc assms(1)] mesh_fresh [OF Cons.prems(1) sc assms(1)] assms(2) sc None so by blast
        then obtain c' where "cached_Solve env c address (Some sc) cfg = (c', Solve env (Some sc) cfg)" "kept_ok env (scenes_of calls) c'"
          by blast
        with Cons SolveCall so show ?thesis by simp
      qed
    qed
  qed simp
  then show ?thesis by (simp add: Invalidate_ok)
qed

theorem cached_solver_is_fresh_witness:
  "check_solve plain_env (Some (chamber (seat 1))) (order_config 3) = None \<and>
   run_cached plain_env Invalidate
     [SolveCall 0 (Some (chamber (seat 1))) (order_config 3), SolveCall 0 None (order_config 3),
      SolveCall 0 (Some (chamber (seat 2))) (order_config 3), InvalidateCall, SolveCall 0 (Some (chamber (seat 2))) (order_config 2)] =
   [Solve plain_env (Some (chamber (seat 1))) (order_config 3), Inl IsmSceneNil,
    Solve plain_env (Some (chamber (seat 2))) (order_config 3), Solve plain_env (Some (chamber (seat 2))) (order_config 2)]"
proof -
  let ?calls = "[SolveCall 0 (Some (chamber (seat 1))) (order_config 3), SolveCall 0 None (order_config 3),
      SolveCall 0 (Some (chamber (seat 2))) (order_config 3), InvalidateCall, SolveCall 0 (Some (chamber (seat 2))) (order_config 2)]"
  have scenes: "scenes_of ?calls = {chamber (seat 1), chamber (seat 2)}" by (auto simp: scenes_of_def)
  have "same_geometry (Room (chamber p)) (Room (chamber q))" for p q by (simp add: same_geometry_def chamber_fields)
  then have sep: "hashes_separate (scenes_of ?calls)" unfolding hashes_separate_def scenes by simp
  have "plain_sources (chamber (seat 1))" "plain_sources (chamber (seat 2))"
    using unit_reps by (simp_all add: plain_sources_def chamber_fields plain_vec3_def plain_def seat_def)
  then have plain: "\<forall>sc \<in> scenes_of ?calls. plain_sources sc" unfolding scenes by simp
  have "Solve plain_env None (order_config 3) = Inl IsmSceneNil" by (simp add: Solve_def check_solve_def)
  with cached_solver_is_fresh [OF sep plain, of plain_env] chamber_checks [of "seat 1" 3] show ?thesis by simp
qed



end
