(* ===== verification/Spec2Isabelle.thy ===== *)
theory Spec2Isabelle
  imports Plan_Properties Graph_Properties Mesh_Topology Rendering_Properties Cache_Properties Debounce_Properties Gpu_Properties Edge_Index Ray_Properties Bvh_Properties Image_Properties
begin

text \<open>
  A verification of algo-acoustics, a Go library that renders the sound of rooms.

  The program and its parts. A scene (src/scene) holds rooms, portals (doors) that are open or closed, materials, sources
  and receivers. Rooms joined by open portals are one acoustic space, a group; the scene graph keeps the groups up to
  date while portals toggle. The multi-room renderer (src/crossroom) searches the propagation paths
  of the group graph, plans which groups have to be simulated, simulates each once through a memo of the render and a
  response cache shared by all renders, and folds the factors along each path with the filter network
  (src/hybrid/network.go). A factor has an early half from an image-source solver and a late half from
  the ray tracer (src/raytrace), which shoots particles through a shoebox or a triangle mesh
  (src/geometry) and fills energy histograms. Events, buffers and banded responses are rendered
  by src/ir. The preview debouncer (src/internal/preview) and the client of the GPU server (src/gpu/worker) drive all of
  this from interactive front ends.

  What models what.
  \<^item> Float64, Go_Values, Prelude: Go's float64 (binary64, round to nearest even, infinities, NaN, signed zeros) with
    its comparisons and conversions, \<open>make\<close>, slice reads and writes, error results. Every operation of an
    expression is rounded; this is the code as compiled for amd64, where no product and sum are fused. An
    out-of-range conversion to int gives the least int, as on amd64.
  \<^item> Geometry, Mesh_Topology, Bvh (geometry/vec3, box, plane, triangle, mesh, ray, intersect, bvh): values, mesh validation
    and enclosed volume, ray tests, and the construction and traversal of the bounding volume hierarchy. Mesh_Topology shows that the
    connectivity check decides reachability; Bvh_Properties that the hierarchy holds every triangle
    once and the traversal agrees with the loop over all triangles.
  \<^item> Scene_Model, Scene_Hash, Validation (scene/scene, room, material, portal, source, receiver, hash, validate): the
    data, the FNV-1a content hashes and every check of \<open>Validate\<close>, in order.
  \<^item> Room_Graph, Room_Groups, Graph_Properties (scene/graph, group_signature): construction, toggles, grouping,
    eviction and queries; groups are the components of the open portals in every graph the operations reach.
    Marking_Search is the contract of worklist searches, interpreted for the grouping and for the mesh check.
  \<^item> Path_Search, Path_Tree, Path_Exploration, Path_Properties (scene/path_search): the explicit-stack search, the invariant
    of its tree, and that it returns and enumerates exactly the simple paths within its limits.
  \<^item> Responses, Response_Rendering, Rendering_Properties (ir): events, buffers, the two band renderers and
    banded responses; the renderers agree bit for bit, and every sample is the ordered sum of its events.
  \<^item> Histograms, Filter_Network, Network_Laws, Network_Properties (raytrace/accumulate, transmission, directivity_group;
    hybrid/network): energy histograms, directivity groups, chains, sums, and convolution of histograms.
  \<^item> Response_Cache, Cache_Properties (crossroom/cache): the cache with its list, index map, byte counter and statistics, a
    refinement of a list with the most recently used entry first. Memo_Store is the contract of a store that may forget, interpreted for
    the cache; the proof that a cached render equals a direct simulation rests on it.
  \<^item> Network_Plan, Plan_Laws, Plan_Preparation, Plan_Sessions, Plan_Properties, with Stable_Sort (crossroom/network, factors,
    paths, dynamic, engine; scene/graph_scene): preparation, ranking, the factors of a path, portal
    changes with rollback, and sessions of several plans over one cache.
  \<^item> Ray_Settings, Ray_Particles, Ray_Walls, Ray_Loop, Ray_Tracing (raytrace; geometry/quaternion): settings, the
    particle with its counters, tracers, reflection, Keller cones, diffuse rain, and \<open>Trace\<close>,
    \<open>TraceSurfaces\<close> and \<open>TraceSecondary\<close>. The three copies of the bounce loop in the source are one definition
    here, whose record of hooks holds what differs. Ray_Invariants is the contract between that loop and an invariant of particles and results;
    Ray_Laws and Ray_Totality interpret it, for what is deposited and for returning; Ray_Properties draws the consequences for \<open>Trace\<close>.
  \<^item> Debounce, Debounce_Properties (internal/preview/debounce): calls, timers and goroutines as
    atomic steps that interleave freely.
  \<^item> Gpu_Worker, Gpu_Properties (gpu/worker): frames, payload layouts, the loop that owns the socket, and every call.
  \<^item> Example_Building, Example_Plan: the concrete scenes at which the properties are instantiated.

  Conventions. A Go run-time panic, and not returning, is the outer \<open>None\<close>; an error result is \<open>Inl\<close>. Receivers of methods are not
  nil unless the code tests it. Machine integers are unbounded where a count cannot reach 2 to the 63 (loop counters over slices, the bounce
  counter, whose limit is taken to be below the greatest int); hashes, the wire format and the generation counter of the debouncer have
  their width. \<open>make\<close> panics above 2 to the 48 bytes; growth by append and capacity hints are not limited. Maps whose
  iteration order matters take the order as an argument.

  Termination. No fuel is used: the path search ends by a measure on its stack and budget, the mark-and-push
  searches by the marked nodes, the bounce loop by the bounces left, the stack of particles by the multiset of the bounces left
  of its members, since each particle that is appended has more behind it than the one that was popped. Loops that may run for ever
  (unwrapping an angle) are partial functions, and it is proved that they end on the angles that occur.

  Arguments of the model. \<open>math.Pow\<close>, \<open>Exp\<close>, \<open>Sin\<close>, \<open>Cos\<close> and their kin are arguments, with their documented
  ranges as hypotheses (\<open>libm_ok\<close>) where a property needs them; so are the
  numbers of \<open>math/rand\<close>, \<open>conv.Convolve\<close> of package algo-dsp, directivity models and HRTF datasets, the clock and the sockets.

  Not modelled. The image-source solver (src/ism), the wave solver (src/pde), diffraction paths and Fresnel
  integrals (geometry/wedge, fresnel, btme, diffraction_path), the
  merging of room geometry (scene/graph_geometry), the material library and its files, JSON and OBJ reading, the composition of
  factors to audio (crossroom/onehop, lowfreq, compose files), the crossfades of hybrid/portal, HRTF loading, metrics, exports,
  the command-line tools, the web front end and the FFT renderers are left out: they are numerical
  methods, file formats or glue whose correctness is not a matter of the state and control this development is about, or they rest on packages that are not in the
  repository. The solvers enter as arguments of the plan. In the ray tracer, rain from deflection cylinders
  (raytrace/diffracted_rain, dapdf) and the index of edges (raytrace/diffraction_index) are arguments.
\<close>

end
